(* ===== verification/Prelude.thy ===== *)
theory Prelude
  imports Main "HOL-Library.List_Lexorder" "HOL-Library.Char_ord" "HOL-Library.Product_Lexorder"
begin

section \<open>Shared vocabulary: tables, loops, step relations\<close>

text \<open>
  What every component of the control plane uses.  A database table is the list of its rows in
  insertion order; \<open>UPDATE ... WHERE\<close> is a map over the rows, \<open>INSERT ... ON CONFLICT\<close> either
  changes the conflicting rows or appends one.  The lemmas about reading a row by its key after
  such a statement are proved once, in the locale \<open>row_update\<close>, and interpreted for each column
  update of the repositories.  Loops that stop at the first success, loops that keep an
  invariant and step relations with absorbing states have a locale each.
\<close>

named_theorems table_simps \<open>reading a table after a statement has changed it\<close>
named_theorems repo_defs \<open>definitions of the single SQL statements\<close>

type_synonym uuid = string
type_synonym time = int  \<comment> \<open>milliseconds, as JavaScript's \<open>Date\<close>\<close>

subsection \<open>Statements on tables\<close>

definition update_where :: "('r \<Rightarrow> bool) \<Rightarrow> ('r \<Rightarrow> 'r) \<Rightarrow> 'r list \<Rightarrow> 'r list" where
  "update_where P f t = map (\<lambda>r. if P r then f r else r) t"

definition delete_where :: "('r \<Rightarrow> bool) \<Rightarrow> 'r list \<Rightarrow> 'r list" where
  "delete_where P t = filter (\<lambda>r. \<not> P r) t"

definition insert_unless :: "('r \<Rightarrow> bool) \<Rightarrow> 'r \<Rightarrow> 'r list \<Rightarrow> 'r list" where
  "insert_unless conflict new t = (if list_ex conflict t then t else t @ [new])"

definition upsert :: "('r \<Rightarrow> bool) \<Rightarrow> ('r \<Rightarrow> 'r) \<Rightarrow> 'r \<Rightarrow> 'r list \<Rightarrow> 'r list" where
  "upsert conflict f new t =
     (if list_ex conflict t then update_where conflict f t else t @ [new])"

lemma set_update_where [table_simps]:
  "set (update_where P f t) = (\<lambda>r. if P r then f r else r) ` set t"
  by (simp add: update_where_def)

lemma length_update_where [simp]: "length (update_where P f t) = length t"
  by (simp add: update_where_def)

lemma update_where_Nil [simp]: "update_where P f [] = []"
  by (simp add: update_where_def)

lemma update_where_Cons [simp]:
  "update_where P f (r # t) = (if P r then f r else r) # update_where P f t"
  by (simp add: update_where_def)

lemma update_where_id: "(\<And>r. r \<in> set t \<Longrightarrow> \<not> P r) \<Longrightarrow> update_where P f t = t"
  by (induction t) auto

lemma map_update_where:
  "(\<And>r. h (f r) = h r) \<Longrightarrow> map h (update_where P f t) = map h t"
  by (induction t) auto

lemma filter_update_where:
  "(\<And>r. Q (f r) = Q r) \<Longrightarrow> filter Q (update_where P f t) = update_where P f (filter Q t)"
  by (induction t) auto

lemma list_ex_update_where:
  "(\<And>r. Q (f r) = Q r) \<Longrightarrow> list_ex Q (update_where P f t) = list_ex Q t"
  by (induction t) auto

lemma find_append [table_simps]:
  "find P (xs @ ys) = (case find P xs of None \<Rightarrow> find P ys | Some r \<Rightarrow> Some r)"
  by (induction xs) auto

lemma find_SomeD: "find P t = Some r \<Longrightarrow> r \<in> set t \<and> P r"
  by (induction t) (auto split: if_splits)

lemma find_NoneD: "find P t = None \<Longrightarrow> r \<in> set t \<Longrightarrow> \<not> P r"
  by (induction t) (auto split: if_splits)

lemma find_is_None: "(find P t = None) = (\<not> list_ex P t)"
  by (induction t) auto

lemma find_not_None: "(\<exists>r. find P t = Some r) = list_ex P t"
  by (induction t) auto

subsection \<open>Reading a row by its key\<close>

definition row_of :: "('r \<Rightarrow> 'k) \<Rightarrow> 'k \<Rightarrow> 'r list \<Rightarrow> 'r option" where
  "row_of key k t = find (\<lambda>r. key r = k) t"

lemma row_of_Nil [simp]: "row_of key k [] = None"
  by (simp add: row_of_def)

lemma row_of_Cons [simp]:
  "row_of key k (r # t) = (if key r = k then Some r else row_of key k t)"
  by (simp add: row_of_def)

lemma row_of_append [table_simps]:
  "row_of key k (xs @ ys) =
     (case row_of key k xs of None \<Rightarrow> row_of key k ys | Some r \<Rightarrow> Some r)"
  by (induction xs) auto

lemma row_of_SomeD: "row_of key k t = Some r \<Longrightarrow> r \<in> set t \<and> key r = k"
  unfolding row_of_def by (rule find_SomeD)

lemma row_of_None_iff: "(row_of key k t = None) = (k \<notin> key ` set t)"
  by (induction t) auto

lemma row_of_unique:
  "distinct (map key t) \<Longrightarrow> r \<in> set t \<Longrightarrow> row_of key (key r) t = Some r"
  by (induction t) (auto simp: image_iff)

lemma row_eqI:
  assumes "distinct (map key t)" "a \<in> set t" "b \<in> set t" "key a = key b"
  shows "a = b"
  using assms by (auto simp: distinct_map dest: inj_onD)

text \<open>
  A column update never changes the table's key: then a row is read back with the update
  applied exactly when it was in the statement's \<open>WHERE\<close> clause.
\<close>

locale row_update =
  fixes key :: "'r \<Rightarrow> 'k" and f :: "'r \<Rightarrow> 'r"
  assumes key_kept: "key (f r) = key r"
begin

lemma row_of_update:
  "row_of key k (update_where P f t) = map_option (\<lambda>r. if P r then f r else r) (row_of key k t)"
  by (induction t) (auto simp: key_kept)

lemma row_of_update_other:
  "(\<And>r. P r \<Longrightarrow> key r \<noteq> k) \<Longrightarrow> row_of key k (update_where P f t) = row_of key k t"
  by (induction t) (auto simp: key_kept)

lemma keys_update: "map key (update_where P f t) = map key t"
  by (rule map_update_where) (rule key_kept)

lemma distinct_keys_update: "distinct (map key t) \<Longrightarrow> distinct (map key (update_where P f t))"
  by (simp add: keys_update)

end

text \<open>\<open>INSERT ... ON CONFLICT (key) DO UPDATE\<close>: the row of the key is there afterwards.\<close>

locale row_upsert =
  fixes key :: "'r \<Rightarrow> 'k" and f :: "'r \<Rightarrow> 'r" and new :: "'r"
  assumes upsert_key: "key r = key new \<Longrightarrow> key (f r) = key new"
begin

lemma row_of_update_key:
  "row_of key k (update_where (\<lambda>r. key r = key new) f t) =
     (if k = key new then map_option f (row_of key k t) else row_of key k t)"
  by (induction t) (auto simp: upsert_key)

lemma conflict_iff: "list_ex (\<lambda>r. key r = key new) t \<longleftrightarrow> key new \<in> key ` set t"
  by (induction t) auto

lemma row_of_upsert:
  "row_of key k (upsert (\<lambda>r. key r = key new) f new t) =
     (if k = key new then Some (case row_of key k t of None \<Rightarrow> new | Some r \<Rightarrow> f r)
      else row_of key k t)"
proof (cases "list_ex (\<lambda>r. key r = key new) t")
  case True
  then have "row_of key (key new) t \<noteq> None" by (simp add: row_of_None_iff conflict_iff)
  with True show ?thesis by (auto simp: upsert_def row_of_update_key)
next
  case False
  then have "row_of key (key new) t = None" by (simp add: row_of_None_iff conflict_iff)
  with False show ?thesis by (auto simp: upsert_def row_of_append split: option.splits)
qed

lemma distinct_upsert:
  "distinct (map key t) \<Longrightarrow> distinct (map key (upsert (\<lambda>r. key r = key new) f new t))"
proof -
  assume d: "distinct (map key t)"
  have "map key (update_where (\<lambda>r. key r = key new) f t) = map key t"
    by (induction t) (auto simp: upsert_key)
  with d show ?thesis by (simp add: upsert_def conflict_iff)
qed

end

subsection \<open>Loops\<close>

text \<open>
  \<open>for (const x of xs) { ... }\<close> over the rows of a query is \<open>fold\<close>.  An attempt loop returns
  at the first element whose attempt gives a result.
\<close>

fun first_success :: "('a \<Rightarrow> 's \<Rightarrow> 's \<times> 'b option) \<Rightarrow> 'a list \<Rightarrow> 's \<Rightarrow> 's \<times> 'b option" where
  "first_success att [] s = (s, None)"
| "first_success att (x # xs) s =
     (case att x s of (s', Some b) \<Rightarrow> (s', Some b) | (s', None) \<Rightarrow> first_success att xs s')"

locale attempt_loop =
  fixes att :: "'a \<Rightarrow> 's \<Rightarrow> 's \<times> 'b option"
    and free :: "'s \<Rightarrow> 'a \<Rightarrow> bool"
  assumes att_free: "free s x \<Longrightarrow> \<exists>s' b. att x s = (s', Some b)"
    and att_taken: "\<not> free s x \<Longrightarrow> att x s = (s, None)"
begin

lemma first_success_taken:
  "(\<And>x. x \<in> set xs \<Longrightarrow> \<not> free s x) \<Longrightarrow> first_success att xs s = (s, None)"
  by (induction xs) (auto simp: att_taken)

lemma first_success_None:
  "snd (first_success att xs s) = None \<longleftrightarrow> (\<forall>x\<in>set xs. \<not> free s x)"
proof (induction xs)
  case Nil
  then show ?case by simp
next
  case (Cons x xs)
  show ?case
  proof (cases "free s x")
    case True
    then obtain s' b where "att x s = (s', Some b)" using att_free by blast
    with True show ?thesis by simp
  next
    case False
    with Cons show ?thesis by (simp add: att_taken)
  qed
qed

lemma first_success_Some:
  assumes "first_success att xs s = (s', Some b)"
  shows "\<exists>ys x zs. xs = ys @ x # zs \<and> (\<forall>y\<in>set ys. \<not> free s y) \<and> free s x \<and> att x s = (s', Some b)"
  using assms
proof (induction xs)
  case Nil
  then show ?case by simp
next
  case (Cons x xs)
  show ?case
  proof (cases "free s x")
    case True
    then obtain t c where "att x s = (t, Some c)" using att_free by blast
    with True Cons.prems show ?thesis by (intro exI[of _ "[]"]) auto
  next
    case False
    with Cons.prems have "first_success att xs s = (s', Some b)" by (simp add: att_taken)
    then obtain ys y zs where "xs = ys @ y # zs" "\<forall>z\<in>set ys. \<not> free s z" "free s y"
      "att y s = (s', Some b)" using Cons.IH by blast
    with False show ?thesis by (intro exI[of _ "x # ys"]) auto
  qed
qed

end

locale loop_invariant =
  fixes I :: "'s \<Rightarrow> bool" and body :: "'a \<Rightarrow> 's \<Rightarrow> 's"
  assumes body_keeps: "I s \<Longrightarrow> I (body x s)"
begin

lemma loop_keeps: "I s \<Longrightarrow> I (fold body xs s)"
  by (induction xs arbitrary: s) (auto simp: body_keeps)

end

subsection \<open>Step relations with absorbing states\<close>

locale phase_machine =
  fixes step :: "'p \<Rightarrow> 'p \<Rightarrow> bool" and final :: "'p \<Rightarrow> bool"
  assumes final_stays: "final p \<Longrightarrow> step p q \<Longrightarrow> q = p"
begin

lemma final_forever: "step\<^sup>*\<^sup>* p q \<Longrightarrow> final p \<Longrightarrow> q = p"
  by (induction rule: rtranclp_induct) (auto dest: final_stays)

end

end
