(* ===== verification/JsValues.thy ===== *)
theory JsValues
  imports Prelude "HOL-Library.AList" "HOL-Library.Sublist"
begin

section \<open>JavaScript strings and JSON values\<close>

text \<open>
  The part of the language's standard library the control plane relies on: trimming, splitting
  and lower-casing of strings, decimal numerals, and the values of type \<open>unknown\<close> that arrive
  as JSON.  Strings are lists of 8-bit code units, so text is Latin-1; the whitespace and case
  tables below are those of ECMAScript restricted to it.  A JSON number is either an integer or
  some other number (\<open>JFrac\<close> with its text), which is all the code distinguishes.
\<close>

subsection \<open>Characters and strings\<close>

definition js_space :: "char \<Rightarrow> bool" where
  "js_space c \<longleftrightarrow> (of_char c :: nat) \<in> {9, 10, 11, 12, 13, 32, 160}"

definition js_digit :: "char \<Rightarrow> bool" where
  "js_digit c \<longleftrightarrow> 48 \<le> (of_char c :: nat) \<and> (of_char c :: nat) \<le> 57"

definition js_trim :: "string \<Rightarrow> string" where
  "js_trim s = rev (dropWhile js_space (rev (dropWhile js_space s)))"

definition lower_char :: "char \<Rightarrow> char" where
  "lower_char c = (let n = (of_char c :: nat) in
     if (65 \<le> n \<and> n \<le> 90) \<or> (192 \<le> n \<and> n \<le> 222 \<and> n \<noteq> 215) then char_of (n + 32) else c)"

definition js_lower :: "string \<Rightarrow> string" where
  "js_lower = map lower_char"

text \<open>\<open>s.split(c)\<close> for a one-character separator: never empty.\<close>

fun js_split :: "char \<Rightarrow> string \<Rightarrow> string list" where
  "js_split c [] = [[]]"
| "js_split c (x # xs) =
     (if x = c then [] # js_split c xs
      else (case js_split c xs of [] \<Rightarrow> [[x]] | p # ps \<Rightarrow> (x # p) # ps))"

fun js_join :: "string \<Rightarrow> string list \<Rightarrow> string" where
  "js_join sep [] = []"
| "js_join sep [x] = x"
| "js_join sep (x # y # xs) = x @ sep @ js_join sep (y # xs)"

fun js_nat :: "nat \<Rightarrow> string" where
  "js_nat n = (if n < 10 then [char_of (48 + n)] else js_nat (n div 10) @ [char_of (48 + n mod 10)])"

declare js_nat.simps [simp del]

definition js_int :: "int \<Rightarrow> string" where
  "js_int i = (if i < 0 then CHR ''-'' # js_nat (nat (- i)) else js_nat (nat i))"

definition digits_value :: "string \<Rightarrow> nat" where
  "digits_value s = foldl (\<lambda>n c. 10 * n + ((of_char c :: nat) - 48)) 0 s"

definition js_includes :: "char \<Rightarrow> string \<Rightarrow> bool" where
  "js_includes c s \<longleftrightarrow> c \<in> set s"

lemma js_split_not_Nil [simp]: "js_split c s \<noteq> []"
  by (induction s) (auto split: list.splits)

lemma js_split_single: "c \<notin> set s \<Longrightarrow> js_split c s = [s]"
  by (induction s) auto

lemma js_split_append: "c \<notin> set s \<Longrightarrow> js_split c (s @ c # t) = s # js_split c t"
  by (induction s) auto

lemma js_split_pieces: "p \<in> set (js_split c s) \<Longrightarrow> c \<notin> set p"
proof (induction s arbitrary: p)
  case Nil
  then show ?case by simp
next
  case (Cons x xs)
  then show ?case
    by (cases "js_split c xs") (auto split: if_splits)
qed

lemma js_split_join:
  "xs \<noteq> [] \<Longrightarrow> (\<And>x. x \<in> set xs \<Longrightarrow> c \<notin> set x) \<Longrightarrow> js_split c (js_join [c] xs) = xs"
proof (induction xs rule: induct_list012)
  case (3 x y zs)
  then show ?case by (simp add: js_split_append)
qed (auto simp: js_split_single)

lemma js_trim_space_free: "(\<And>c. c \<in> set s \<Longrightarrow> \<not> js_space c) \<Longrightarrow> js_trim s = s"
proof -
  assume a: "\<And>c. c \<in> set s \<Longrightarrow> \<not> js_space c"
  then have "dropWhile js_space s = s" by (cases s) auto
  moreover from a have "dropWhile js_space (rev s) = rev s"
    by (cases "rev s") (auto simp: rev_eq_Cons_iff)
  ultimately show ?thesis by (simp add: js_trim_def)
qed

lemma dropWhile_idem: "dropWhile P (dropWhile P xs) = dropWhile P xs"
  by (induction xs) auto

lemma dropWhile_ends: "dropWhile P xs = [] \<or> \<not> P (hd (dropWhile P xs))"
  using hd_dropWhile by blast

lemma set_js_trim: "set (js_trim s) \<subseteq> set s"
  by (auto simp: js_trim_def dest!: set_dropWhileD)

subsection \<open>Decimal numerals\<close>

lemma js_digit_char_of: "n < 10 \<Longrightarrow> js_digit (char_of (48 + n :: nat))"
  by (simp add: js_digit_def)

lemma js_nat_digits: "c \<in> set (js_nat n) \<Longrightarrow> js_digit c"
proof (induction n rule: js_nat.induct)
  case (1 n)
  then show ?case by (subst (asm) js_nat.simps) (auto simp: js_digit_char_of split: if_splits)
qed

lemma js_nat_not_Nil [simp]: "js_nat n \<noteq> []"
  by (subst js_nat.simps) simp

lemma digits_value_snoc: "digits_value (s @ [c]) = 10 * digits_value s + (of_char c - 48)"
  by (simp add: digits_value_def)

lemma digits_value_js_nat: "digits_value (js_nat n) = n"
proof (induction n rule: js_nat.induct)
  case (1 n)
  show ?case
  proof (cases "n < 10")
    case True
    then show ?thesis by (subst js_nat.simps) (simp add: digits_value_def)
  next
    case False
    with 1 have "digits_value (js_nat (n div 10)) = n div 10" by simp
    with False show ?thesis by (subst js_nat.simps) (simp add: digits_value_snoc)
  qed
qed

lemma js_nat_inj: "js_nat m = js_nat n \<Longrightarrow> m = n"
  by (metis digits_value_js_nat)

lemma length_js_nat_3: "n < 1000 \<Longrightarrow> length (js_nat n) \<le> 3"
  by (subst js_nat.simps, subst js_nat.simps, subst js_nat.simps) auto

lemma digits_free: "(\<And>c. c \<in> set s \<Longrightarrow> js_digit c) \<Longrightarrow> \<not> js_digit x \<Longrightarrow> x \<notin> set s"
  by blast

lemma js_digit_not_space: "js_digit c \<Longrightarrow> \<not> js_space c"
  by (auto simp: js_digit_def js_space_def)

subsection \<open>JSON\<close>

datatype json =
    JNull
  | JBool bool
  | JInt int
  | JFrac string
  | JStr string
  | JArr "json list"
  | JObj "(string \<times> json) list"

type_synonym js_record = "(string \<times> json) list"  \<comment> \<open>\<open>Record<string, unknown>\<close>\<close>

text \<open>\<open>record[key]\<close>: \<open>None\<close> is \<open>undefined\<close>.\<close>

definition js_prop :: "js_record \<Rightarrow> string \<Rightarrow> json option" where
  "js_prop r k = map_of r k"

definition asRecord :: "json option \<Rightarrow> js_record" where
  "asRecord v = (case v of Some (JObj fs) \<Rightarrow> fs | _ \<Rightarrow> [])"

definition readString :: "js_record \<Rightarrow> string \<Rightarrow> string" where
  "readString r k = (case js_prop r k of Some (JStr s) \<Rightarrow> js_trim s | _ \<Rightarrow> [])"

definition trimmed_strings :: "json list \<Rightarrow> string list" where
  "trimmed_strings vs =
     filter (\<lambda>s. s \<noteq> []) (map js_trim (concat (map (\<lambda>v. case v of JStr s \<Rightarrow> [s] | _ \<Rightarrow> []) vs)))"

definition readStringArray :: "json option \<Rightarrow> string list" where
  "readStringArray v = (case v of Some (JArr vs) \<Rightarrow> trimmed_strings vs | _ \<Rightarrow> [])"

text \<open>SQL's \<open>->\<close> and \<open>->>\<close> on a \<open>jsonb\<close> value (\<open>->>\<close> on a string member).\<close>

definition json_get :: "json option \<Rightarrow> string \<Rightarrow> json option" where
  "json_get v k = (case v of Some (JObj fs) \<Rightarrow> map_of fs k | _ \<Rightarrow> None)"

definition json_text :: "json option \<Rightarrow> string option" where
  "json_text v = (case v of Some (JStr s) \<Rightarrow> Some s | _ \<Rightarrow> None)"

text \<open>\<open>value || fallback\<close> and \<open>value || null\<close> on strings.\<close>

definition or_else :: "string \<Rightarrow> string \<Rightarrow> string" where
  "or_else s d = (if s = [] then d else s)"

definition or_null :: "string \<Rightarrow> string option" where
  "or_null s = (if s = [] then None else Some s)"

lemma or_null_Some [simp]: "or_null s = Some t \<longleftrightarrow> s = t \<and> t \<noteq> []"
  by (auto simp: or_null_def)

lemma or_null_None [simp]: "or_null s = None \<longleftrightarrow> s = []"
  by (simp add: or_null_def)

lemma trimmed_strings_not_Nil: "s \<in> set (trimmed_strings vs) \<Longrightarrow> s \<noteq> []"
  by (simp add: trimmed_strings_def)

subsection \<open>\<open>JSON.stringify\<close>\<close>

definition hex_digit :: "nat \<Rightarrow> char" where
  "hex_digit n = (if n < 10 then char_of (48 + n) else char_of (87 + n))"

definition escape_char :: "char \<Rightarrow> string" where
  "escape_char c = (let n = (of_char c :: nat) in
     if n = 34 then [CHR 0x5C, CHR 0x22]
     else if n = 92 then [CHR 0x5C, CHR 0x5C]
     else if n = 8 then [CHR 0x5C, CHR ''b'']
     else if n = 9 then [CHR 0x5C, CHR ''t'']
     else if n = 10 then [CHR 0x5C, CHR ''n'']
     else if n = 12 then [CHR 0x5C, CHR ''f'']
     else if n = 13 then [CHR 0x5C, CHR ''r'']
     else if n < 32 then [CHR 0x5C, CHR ''u'', CHR ''0'', CHR ''0'', hex_digit (n div 16), hex_digit (n mod 16)]
     else [c])"

definition quoted :: "string \<Rightarrow> string" where
  "quoted s = CHR 0x22 # concat (map escape_char s) @ [CHR 0x22]"

fun js_stringify :: "json \<Rightarrow> string" where
  "js_stringify JNull = ''null''"
| "js_stringify (JBool b) = (if b then ''true'' else ''false'')"
| "js_stringify (JInt i) = js_int i"
| "js_stringify (JFrac s) = s"
| "js_stringify (JStr s) = quoted s"
| "js_stringify (JArr vs) = ''['' @ js_join '','' (map js_stringify vs) @ '']''"
| "js_stringify (JObj fs) = ''{'' @ js_join '','' (map (\<lambda>f. quoted (fst f) @ '':'' @ js_stringify (snd f)) fs) @ ''}''"

end
