(* ===== verification/Phases.thy ===== *)
theory Phases
  imports JsValues
begin

section \<open>Phases and transition policies\<close>

text \<open>
  The state machines of the declarative resources: the phase types of sessions, gate
  assignments, jobs, artifacts and gates, and the pure policy functions of the
  \<open>transitions.ts\<close>, \<open>policy.ts\<close> and \<open>drift-policy.ts\<close> files that say which phase
  follows which event.  The abstract life cycle of a session is the relation \<open>session_step\<close>;
  later theories show that every statement on the status table follows it.
\<close>

subsection \<open>Sessions (\<open>resources/sessions/transitions.ts\<close>)\<close>

datatype session_desired = SD_Active | SD_Revoked

datatype session_phase =
    S_payment_pending | S_requested | S_probing | S_scheduling | S_provisioning
  | S_active | S_degraded | S_revoking | S_revoked | S_failed

datatype session_mode = IpToIp | FullTunnel

text \<open>
  An optional property that may also be \<open>null\<close>: \<open>None\<close> is absent, \<open>Some None\<close> is \<open>null\<close>.
\<close>

record session_transition =
  tr_phase :: session_phase
  tr_observedGeneration :: "int option"
  tr_lastError :: "json option option"

definition isTerminalSessionPhase :: "session_phase \<Rightarrow> bool" where
  "isTerminalSessionPhase p \<longleftrightarrow> p = S_active \<or> p = S_revoked \<or> p = S_failed"

definition canRequestRevocation :: "session_phase \<Rightarrow> bool" where
  "canRequestRevocation p \<longleftrightarrow> p \<noteq> S_revoking \<and> p \<noteq> S_revoked \<and> p \<noteq> S_failed"

definition requestedSessionInitialTransition :: session_transition where
  "requestedSessionInitialTransition =
     \<lparr>tr_phase = S_requested, tr_observedGeneration = None, tr_lastError = None\<rparr>"

definition probingTransition :: session_transition where
  "probingTransition = \<lparr>tr_phase = S_probing, tr_observedGeneration = None, tr_lastError = None\<rparr>"

definition schedulingTransition :: session_transition where
  "schedulingTransition =
     \<lparr>tr_phase = S_scheduling, tr_observedGeneration = None, tr_lastError = None\<rparr>"

record revocation_transition =
  rv_desiredState :: session_desired
  rv_incrementGeneration :: bool
  rv_status :: session_transition

definition requestRevocationTransition :: "session_phase \<Rightarrow> revocation_transition" where
  "requestRevocationTransition p =
     \<lparr>rv_desiredState = SD_Revoked, rv_incrementGeneration = True,
      rv_status = \<lparr>tr_phase = (if p = S_revoked then S_revoked else S_revoking),
                   tr_observedGeneration = None, tr_lastError = None\<rparr>\<rparr>"

definition provisioningTransition :: "int \<Rightarrow> session_transition" where
  "provisioningTransition generation =
     \<lparr>tr_phase = S_provisioning, tr_observedGeneration = Some generation, tr_lastError = Some None\<rparr>"

definition activeTransition :: "int \<Rightarrow> session_transition" where
  "activeTransition generation =
     \<lparr>tr_phase = S_active, tr_observedGeneration = Some generation, tr_lastError = Some None\<rparr>"

definition failedTransition :: "json \<Rightarrow> session_transition" where
  "failedTransition err =
     \<lparr>tr_phase = S_failed, tr_observedGeneration = None, tr_lastError = Some (Some err)\<rparr>"

definition beginRevokingTransition :: "session_phase \<Rightarrow> session_transition option" where
  "beginRevokingTransition p =
     (if p = S_revoking \<or> p = S_revoked \<or> p = S_failed then None
      else Some \<lparr>tr_phase = S_revoking, tr_observedGeneration = None, tr_lastError = None\<rparr>)"

definition revokedTransition :: "int \<Rightarrow> session_transition" where
  "revokedTransition generation =
     \<lparr>tr_phase = S_revoked, tr_observedGeneration = Some generation, tr_lastError = Some None\<rparr>"

datatype hide_decision = HD_deleted | HD_not_revoked | HD_can_hide

definition canHideSession :: "session_phase \<Rightarrow> time option \<Rightarrow> hide_decision" where
  "canHideSession p hiddenAt =
     (if hiddenAt \<noteq> None then HD_deleted
      else if p \<noteq> S_revoked \<and> p \<noteq> S_failed then HD_not_revoked
      else HD_can_hide)"

text \<open>
  The life cycle that the transition functions and the statements that use them are meant to
  follow.  Revocation may start from every phase but \<open>S_revoked\<close>, a failed session included
  (its gates still have to be cleaned up).  Only an administrator who raises the traffic quota of
  a session that was revoked for it can bring it back; that step is not part of this relation.
\<close>

inductive session_step :: "session_phase \<Rightarrow> session_phase \<Rightarrow> bool" where
  paid: "session_step S_payment_pending S_requested"
| probe: "session_step S_requested S_probing"
| schedule: "session_step S_probing S_scheduling"
| provision: "session_step S_scheduling S_provisioning"
| no_path: "session_step S_scheduling S_failed"
| activate: "session_step S_provisioning S_active"
| timeout: "session_step S_provisioning S_failed"
| revoke: "p \<noteq> S_revoked \<Longrightarrow> session_step p S_revoking"
| finish: "session_step S_revoking S_revoked"

code_pred session_step .

inductive_cases from_revoked: "session_step S_revoked p"
inductive_cases to_active: "session_step p S_active"
inductive_cases to_revoked: "session_step p S_revoked"

inductive_simps session_step_from_failed: "session_step S_failed p"

interpretation session_machine: phase_machine session_step "\<lambda>p. p = S_revoked"
  by unfold_locales (auto elim: from_revoked)

subsection \<open>Gate assignments (\<open>resources/gate-assignments/transitions.ts\<close>)\<close>

datatype assignment_desired = AD_Applied | AD_Revoked

datatype gate_role = Ingress | Egress

datatype assignment_phase =
    A_planned | A_queued | A_leased | A_applying | A_prepared | A_applied | A_drifted
  | A_revoking | A_revoked | A_retryable_failed | A_dead

datatype job_type =
    JT_probe | JT_apply_assignment | JT_revoke_assignment | JT_cleanup_orphan | JT_reconcile
  | JT_deploy_agent | JT_rollback_agent

definition provisioningFailureDeadCandidatePhases :: "assignment_phase list" where
  "provisioningFailureDeadCandidatePhases =
     [A_planned, A_queued, A_leased, A_applying, A_prepared, A_retryable_failed]"

definition isTerminalAssignmentPhase :: "assignment_phase \<Rightarrow> bool" where
  "isTerminalAssignmentPhase p \<longleftrightarrow> p = A_applied \<or> p = A_revoked \<or> p = A_dead"

definition queuedAfterAssignmentUpsertTransition :: "assignment_phase option \<Rightarrow> assignment_phase" where
  "queuedAfterAssignmentUpsertTransition p = (if p = Some A_applied then A_applied else A_queued)"

definition desiredAppliedTransition :: "assignment_desired \<times> assignment_phase" where
  "desiredAppliedTransition = (AD_Applied, A_queued)"

definition queuedForCommitTransition :: assignment_phase where
  "queuedForCommitTransition = A_queued"

definition leasedAssignmentTransition :: "job_type \<Rightarrow> assignment_phase \<Rightarrow> assignment_phase" where
  "leasedAssignmentTransition jt p =
     (if p = A_applied \<or> p = A_revoked then p
      else if jt = JT_revoke_assignment then A_revoking else A_applying)"

definition preparedFromReportTransition :: assignment_phase where
  "preparedFromReportTransition = A_prepared"

definition appliedFromReportTransition :: assignment_phase where
  "appliedFromReportTransition = A_applied"

definition revokedFromReportTransition :: assignment_phase where
  "revokedFromReportTransition = A_revoked"

definition driftedAssignmentTransition :: assignment_phase where
  "driftedAssignmentTransition = A_drifted"

definition failedFromReportTransition :: "bool \<Rightarrow> assignment_phase" where
  "failedFromReportTransition terminalFailure = (if terminalFailure then A_dead else A_retryable_failed)"

definition desiredRevokedTransition :: "assignment_desired \<times> bool \<times> assignment_phase" where
  "desiredRevokedTransition = (AD_Revoked, True, A_revoking)"

definition deadForProvisioningFailureTransition :: "assignment_phase \<Rightarrow> assignment_phase" where
  "deadForProvisioningFailureTransition p =
     (if p = A_applied \<or> p = A_revoked \<or> p = A_dead then p else A_dead)"

lemma dead_candidates_eq:
  "p \<in> set provisioningFailureDeadCandidatePhases \<Longrightarrow> deadForProvisioningFailureTransition p = A_dead"
  by (auto simp: provisioningFailureDeadCandidatePhases_def deadForProvisioningFailureTransition_def)

subsection \<open>Jobs (\<open>resources/jobs/transitions.ts\<close>)\<close>

datatype report_status = RS_succeeded | RS_retryable_failed | RS_failed

datatype job_phase =
    J_queued | J_leased | J_running | J_succeeded | J_retryable_failed | J_dead | J_acknowledged_dead

definition sessionFailureDeadCandidateJobPhases :: "job_phase list" where
  "sessionFailureDeadCandidateJobPhases = [J_queued, J_leased, J_running, J_retryable_failed]"

definition expiredLeaseCandidateJobPhases :: "job_phase list" where
  "expiredLeaseCandidateJobPhases = [J_leased, J_running]"

record reported_transition =
  rt_nextPhase :: job_phase
  rt_terminalFailure :: bool
  rt_retryDelaySeconds :: "int option"

definition parseJobReportStatus :: "string \<Rightarrow> report_status option" where
  "parseJobReportStatus v =
     (if v = ''succeeded'' then Some RS_succeeded
      else if v = ''retryable_failed'' then Some RS_retryable_failed
      else if v = ''failed'' then Some RS_failed
      else None)"

definition isJobReportStatus :: "string \<Rightarrow> bool" where
  "isJobReportStatus v \<longleftrightarrow> parseJobReportStatus v \<noteq> None"

definition resolveReportedJobTransition :: "report_status \<Rightarrow> int \<Rightarrow> int \<Rightarrow> reported_transition" where
  "resolveReportedJobTransition status retryCount maxRetries =
     (let terminalFailure = (status = RS_failed
            \<or> (status = RS_retryable_failed \<and> retryCount + 1 \<ge> maxRetries))
      in \<lparr>rt_nextPhase = (if status = RS_succeeded then J_succeeded
            else if terminalFailure then J_dead else J_retryable_failed),
          rt_terminalFailure = terminalFailure,
          rt_retryDelaySeconds = (if status = RS_retryable_failed \<and> \<not> terminalFailure
            then Some 10 else None)\<rparr>)"

definition claimJobTransition :: "job_phase \<times> int" where
  "claimJobTransition = (J_leased, 60)"

definition queuedJobTransition :: job_phase where
  "queuedJobTransition = J_queued"

definition expiredLeaseTransition :: "job_phase \<Rightarrow> job_phase" where
  "expiredLeaseTransition p = (if p = J_leased \<or> p = J_running then J_queued else p)"

definition deadForSessionFailureTransition :: "job_phase \<Rightarrow> job_phase" where
  "deadForSessionFailureTransition p =
     (if p = J_queued \<or> p = J_leased \<or> p = J_running \<or> p = J_retryable_failed then J_dead else p)"

lemma resolve_cases:
  "rt_nextPhase (resolveReportedJobTransition st r m) =
     (case st of RS_succeeded \<Rightarrow> J_succeeded | RS_failed \<Rightarrow> J_dead
      | RS_retryable_failed \<Rightarrow> if r + 1 \<ge> m then J_dead else J_retryable_failed)"
  by (cases st) (auto simp: resolveReportedJobTransition_def Let_def)

lemma resolve_retryable_iff:
  "rt_nextPhase (resolveReportedJobTransition st r m) = J_retryable_failed \<longleftrightarrow>
   st = RS_retryable_failed \<and> r + 1 < m"
  by (simp add: resolve_cases split: report_status.splits)

lemma resolve_terminal_iff:
  "rt_terminalFailure (resolveReportedJobTransition st r m) \<longleftrightarrow>
   rt_nextPhase (resolveReportedJobTransition st r m) = J_dead"
  by (cases st) (auto simp: resolveReportedJobTransition_def Let_def)

subsection \<open>Artifacts (\<open>resources/artifacts/transitions.ts\<close>)\<close>

datatype artifact_phase = AR_prepared | AR_available | AR_downloaded | AR_invalidated

definition preparedArtifactTransition :: artifact_phase where
  "preparedArtifactTransition = AR_prepared"

definition artifactAvailableTransition :: artifact_phase where
  "artifactAvailableTransition = AR_available"

definition artifactDownloadedTransition :: artifact_phase where
  "artifactDownloadedTransition = AR_downloaded"

definition artifactInvalidatedTransition :: artifact_phase where
  "artifactInvalidatedTransition = AR_invalidated"

definition canDownloadArtifact :: "artifact_phase \<Rightarrow> bool" where
  "canDownloadArtifact p \<longleftrightarrow> p = AR_prepared \<or> p = AR_available \<or> p = AR_downloaded"

subsection \<open>Gates (\<open>resources/gates/transitions.ts\<close>, \<open>conditions.ts\<close>, \<open>gate-leases\<close>)\<close>

datatype gate_desired = G_Enabled | G_Draining | G_Disabled | G_Maintenance

datatype condition_status = C_True | C_False | C_Unknown

fun show_gate_desired :: "gate_desired \<Rightarrow> string" where
  "show_gate_desired G_Enabled = ''Enabled''"
| "show_gate_desired G_Draining = ''Draining''"
| "show_gate_desired G_Disabled = ''Disabled''"
| "show_gate_desired G_Maintenance = ''Maintenance''"

record lifecycle_condition =
  lc_type :: string
  lc_status :: condition_status
  lc_reason :: string
  lc_message :: string

record gate_readiness =
  gr_ready :: bool
  gr_reason :: string
  gr_message :: string
  gr_doubleZeroReady :: bool
  gr_doubleZeroReason :: string
  gr_doubleZeroMessage :: string

definition status_of_bool :: "bool \<Rightarrow> condition_status" where
  "status_of_bool b = (if b then C_True else C_False)"

definition resolveGateAgentConnectedCondition :: "bool \<Rightarrow> lifecycle_condition" where
  "resolveGateAgentConnectedCondition connected =
     \<lparr>lc_type = ''AgentConnected'', lc_status = status_of_bool connected,
      lc_reason = (if connected then ''HeartbeatFresh'' else ''HeartbeatStale''),
      lc_message = (if connected then ''Gate agent heartbeat is fresh''
                    else ''Gate agent heartbeat is stale'')\<rparr>"

definition isGateSchedulable :: "bool \<Rightarrow> bool \<Rightarrow> gate_desired \<Rightarrow> bool" where
  "isGateSchedulable ready doubleZeroReady desired \<longleftrightarrow>
     ready \<and> doubleZeroReady \<and> desired = G_Enabled"

definition schedulableBlockedReason :: "gate_readiness \<Rightarrow> gate_desired \<Rightarrow> string" where
  "schedulableBlockedReason r desired =
     (if \<not> gr_ready r then gr_reason r
      else if \<not> gr_doubleZeroReady r then gr_doubleZeroReason r
      else ''DesiredState'' @ show_gate_desired desired)"

definition schedulableBlockedMessage :: "gate_readiness \<Rightarrow> gate_desired \<Rightarrow> string" where
  "schedulableBlockedMessage r desired =
     (if \<not> gr_ready r then ''Gate is not eligible for new sessions: '' @ gr_message r
      else if \<not> gr_doubleZeroReady r
        then ''Gate is not eligible for new sessions: '' @ gr_doubleZeroMessage r
      else ''Gate desired state is '' @ show_gate_desired desired @
           '', so it is not eligible for new sessions'')"

definition resolveGateHeartbeatConditions ::
    "gate_readiness \<Rightarrow> gate_desired \<Rightarrow> lifecycle_condition list" where
  "resolveGateHeartbeatConditions r desired =
     (let schedulable = isGateSchedulable (gr_ready r) (gr_doubleZeroReady r) desired in
      [\<lparr>lc_type = ''Ready'', lc_status = status_of_bool (gr_ready r),
        lc_reason = gr_reason r, lc_message = gr_message r\<rparr>,
       \<lparr>lc_type = ''Schedulable'', lc_status = status_of_bool schedulable,
        lc_reason = (if schedulable then ''Enabled'' else schedulableBlockedReason r desired),
        lc_message = (if schedulable then ''Gate is eligible for new sessions''
                      else schedulableBlockedMessage r desired)\<rparr>])"

definition resolveGateStaleConditions :: "lifecycle_condition list" where
  "resolveGateStaleConditions =
     resolveGateAgentConnectedCondition False #
     resolveGateHeartbeatConditions
       \<lparr>gr_ready = False, gr_reason = ''HeartbeatStale'',
        gr_message = ''Gate agent heartbeat is stale'', gr_doubleZeroReady = False,
        gr_doubleZeroReason = ''HeartbeatStale'',
        gr_doubleZeroMessage = ''Gate agent heartbeat is stale''\<rparr> G_Enabled"

definition resolveGateDriftCondition :: "bool \<Rightarrow> string \<Rightarrow> lifecycle_condition" where
  "resolveGateDriftCondition drifted message =
     \<lparr>lc_type = ''Drift'', lc_status = status_of_bool drifted,
      lc_reason = (if drifted then ''ManagedHandleDrift'' else ''ActualStateMatchesDesired''),
      lc_message = message\<rparr>"

text \<open>The default of 10 seconds is the value of the omitted argument.\<close>

definition gateHeartbeatLeaseTtlSeconds :: "int option \<Rightarrow> int" where
  "gateHeartbeatLeaseTtlSeconds heartbeat =
     max 30 ((case heartbeat of None \<Rightarrow> 10 | Some h \<Rightarrow> h) * 3)"

definition isGateLeaseFresh :: "time \<Rightarrow> time \<Rightarrow> bool" where
  "isGateLeaseFresh leaseExpiresAt now \<longleftrightarrow> leaseExpiresAt > now"

lemma lease_ttl_minimum: "gateHeartbeatLeaseTtlSeconds h \<ge> 30"
  by (simp add: gateHeartbeatLeaseTtlSeconds_def)

lemma status_of_bool_True [simp]: "status_of_bool b = C_True \<longleftrightarrow> b"
  by (simp add: status_of_bool_def)

subsection \<open>Drift policy (\<open>resources/actual-state/drift-policy.ts\<close>)\<close>

definition hasStateDrift :: "string option \<Rightarrow> string option \<Rightarrow> bool" where
  "hasStateDrift desired actual =
     (case (desired, actual) of
        (Some d, Some a) \<Rightarrow> d \<noteq> [] \<and> a \<noteq> [] \<and> d \<noteq> a
      | _ \<Rightarrow> False)"

record handle_drift =
  hd_drifted :: bool
  hd_missing :: "string list"
  hd_orphan :: "string list"

text \<open>\<open>new Set(xs)\<close> iterates in order of first insertion; \<open>sort()\<close> then orders code units.\<close>

definition js_set_list :: "'a list \<Rightarrow> 'a list" where
  "js_set_list xs = rev (remdups (rev xs))"

definition compareManagedHandles :: "string list \<Rightarrow> string list \<Rightarrow> handle_drift" where
  "compareManagedHandles desiredHandles actualHandles =
     (let desired = js_set_list desiredHandles; actual = js_set_list actualHandles;
          missing = sort (filter (\<lambda>h. h \<notin> set actual) desired);
          orphan = sort (filter (\<lambda>h. h \<notin> set desired) actual)
      in \<lparr>hd_drifted = (length missing > 0 \<or> length orphan > 0),
          hd_missing = missing, hd_orphan = orphan\<rparr>)"

lemma set_js_set_list [simp]: "set (js_set_list xs) = set xs"
  by (simp add: js_set_list_def)

lemma distinct_js_set_list [simp]: "distinct (js_set_list xs)"
  by (simp add: js_set_list_def)

lemma drift_missing: "set (hd_missing (compareManagedHandles d a)) = set d - set a"
  by (auto simp: compareManagedHandles_def Let_def)

lemma drift_orphan: "set (hd_orphan (compareManagedHandles d a)) = set a - set d"
  by (auto simp: compareManagedHandles_def Let_def)

lemma drift_sorted:
  "sorted (hd_missing (compareManagedHandles d a)) \<and> distinct (hd_missing (compareManagedHandles d a))
   \<and> sorted (hd_orphan (compareManagedHandles d a)) \<and> distinct (hd_orphan (compareManagedHandles d a))"
  by (simp add: compareManagedHandles_def Let_def)

lemma drift_iff: "hd_drifted (compareManagedHandles d a) \<longleftrightarrow> set d \<noteq> set a"
proof -
  have "hd_drifted (compareManagedHandles d a) \<longleftrightarrow>
      set (hd_missing (compareManagedHandles d a)) \<noteq> {} \<or> set (hd_orphan (compareManagedHandles d a)) \<noteq> {}"
    by (simp add: compareManagedHandles_def Let_def del: set_sort)
  then show ?thesis by (auto simp: drift_missing drift_orphan)
qed

end
