(* ===== verification/ClientTunnel.thy ===== *)
theory ClientTunnel
  imports JsValues
begin

section \<open>Client tunnel descriptions (\<open>planning/client-tunnel.ts\<close>)\<close>

text \<open>
  The protocol a client asks for and the description of its tunnel inside a rendered plan.
  Reading a description checks every field and keeps only the supported ones; an error is the
  message of the exception the code throws.  Random numbers, SHA-256 and the base64 codec of
  the platform's \<open>Buffer\<close> are arguments of the functions that use them.
\<close>

definition amneziaWGCapability :: string where
  "amneziaWGCapability = ''client-tunnel:amneziawg-3.1''"

datatype client_protocol = WireGuard | AmneziaWG

definition readSessionClientProtocol :: "json option \<Rightarrow> string + client_protocol" where
  "readSessionClientProtocol v =
     (if v = None \<or> v = Some (JStr ''wireguard'') then Inr WireGuard
      else if v = Some (JStr ''amneziawg'') then Inr AmneziaWG
      else Inl ''unsupported client protocol'')"

definition sessionClientProtocolLabel :: "js_record \<Rightarrow> string + string" where
  "sessionClientProtocolLabel spec =
     (case readSessionClientProtocol (js_prop spec ''clientProtocol'') of
        Inl e \<Rightarrow> Inl e
      | Inr p \<Rightarrow> Inr (if p = AmneziaWG then ''AmneziaWG 3.1'' else ''WireGuard''))"

record awg_parameters =
  awg_Jc :: int
  awg_Jmin :: int
  awg_Jmax :: int
  awg_S1 :: int
  awg_S2 :: int
  awg_S3 :: int
  awg_S4 :: int
  awg_H1 :: string
  awg_H2 :: string
  awg_H3 :: string
  awg_H4 :: string
  awg_ContentPaddingAddition :: string
  awg_RekeyAfterTime :: string
  awg_RekeyTimeout :: string
  awg_KeepaliveTimeout :: string
  awg_RandomTrailers :: string

datatype client_tunnel = TunnelWireGuard | TunnelAmneziaWG string awg_parameters

text \<open>\<open>randomInt(16, 49)\<close>, \<open>randomInt(4, 13)\<close> and the random key are the three arguments.\<close>

definition createClientTunnel :: "(string \<Rightarrow> string) \<Rightarrow> string \<Rightarrow> int \<Rightarrow> int \<Rightarrow> client_tunnel \<times> string" where
  "createClientTunnel keyFingerprint headerProtectionKey pre jc =
     (TunnelAmneziaWG (keyFingerprint headerProtectionKey)
        \<lparr>awg_Jc = jc, awg_Jmin = 40, awg_Jmax = 1000,
         awg_S1 = pre, awg_S2 = pre, awg_S3 = pre, awg_S4 = pre,
         awg_H1 = ''1'', awg_H2 = ''2'', awg_H3 = ''3'', awg_H4 = ''4'',
         awg_ContentPaddingAddition = ''0-64'', awg_RekeyAfterTime = ''100-140'',
         awg_RekeyTimeout = ''4-7'', awg_KeepaliveTimeout = ''8-15'',
         awg_RandomTrailers = ''on''\<rparr>,
      headerProtectionKey)"

subsection \<open>Reading a tunnel description\<close>

definition hex_char :: "char \<Rightarrow> bool" where
  "hex_char c \<longleftrightarrow> js_digit c \<or> (97 \<le> (of_char c :: nat) \<and> (of_char c :: nat) \<le> 102)"

definition isFingerprint :: "string \<Rightarrow> bool" where
  "isFingerprint s \<longleftrightarrow> length s = 64 \<and> list_all hex_char s"

definition awg_int_fields :: "(string \<times> int \<times> int) list" where
  "awg_int_fields = [(''Jc'', 1, 128), (''Jmin'', 1, 1280), (''Jmax'', 1, 1280),
     (''S1'', 12, 64), (''S2'', 12, 64), (''S3'', 12, 64), (''S4'', 12, 64)]"

definition awg_fixed_fields :: "(string \<times> string) list" where
  "awg_fixed_fields = [(''H1'', ''1''), (''H2'', ''2''), (''H3'', ''3''), (''H4'', ''4''),
     (''RandomTrailers'', ''on'')]"

definition awg_range_fields :: "(string \<times> nat \<times> nat) list" where
  "awg_range_fields = [(''ContentPaddingAddition'', 0, 64), (''RekeyAfterTime'', 60, 150),
     (''RekeyTimeout'', 1, 15), (''KeepaliveTimeout'', 1, 30)]"

definition int_field_ok :: "js_record \<Rightarrow> string \<times> int \<times> int \<Rightarrow> bool" where
  "int_field_ok p = (\<lambda>(key, lo, hi).
     (case js_prop p key of Some (JInt v) \<Rightarrow> lo \<le> v \<and> v \<le> hi | _ \<Rightarrow> False))"

definition fixed_field_ok :: "js_record \<Rightarrow> string \<times> string \<Rightarrow> bool" where
  "fixed_field_ok p = (\<lambda>(key, expected). js_prop p key = Some (JStr expected))"

text \<open>\<open>/^\d+-\d+$/\<close> and the numeric test, which also rejects leading zeros.\<close>

definition digits1 :: "string \<Rightarrow> bool" where
  "digits1 s \<longleftrightarrow> s \<noteq> [] \<and> list_all js_digit s"

definition range_text_ok :: "nat \<Rightarrow> nat \<Rightarrow> string \<Rightarrow> bool" where
  "range_text_ok lo hi v =
     (case js_split (CHR ''-'') v of
        [a, b] \<Rightarrow> digits1 a \<and> digits1 b \<and>
          (let low = digits_value a; high = digits_value b in
            \<not> (low < lo \<or> high > hi \<or> low > high \<or> v \<noteq> js_nat low @ ''-'' @ js_nat high))
      | _ \<Rightarrow> False)"

definition range_field_ok :: "js_record \<Rightarrow> string \<times> nat \<times> nat \<Rightarrow> bool" where
  "range_field_ok p = (\<lambda>(key, lo, hi).
     (case js_prop p key of Some (JStr v) \<Rightarrow> range_text_ok lo hi v | _ \<Rightarrow> False))"

definition first_bad :: "('a \<Rightarrow> bool) \<Rightarrow> ('a \<Rightarrow> string) \<Rightarrow> 'a list \<Rightarrow> string option" where
  "first_bad ok name xs = map_option (\<lambda>x. ''invalid AmneziaWG '' @ name x) (find (\<lambda>x. \<not> ok x) xs)"

definition int_of_field :: "js_record \<Rightarrow> string \<Rightarrow> int" where
  "int_of_field p k = (case js_prop p k of Some (JInt v) \<Rightarrow> v | _ \<Rightarrow> 0)"

definition str_of_field :: "js_record \<Rightarrow> string \<Rightarrow> string" where
  "str_of_field p k = (case js_prop p k of Some (JStr v) \<Rightarrow> v | _ \<Rightarrow> [])"

definition pick_parameters :: "js_record \<Rightarrow> awg_parameters" where
  "pick_parameters p =
     \<lparr>awg_Jc = int_of_field p ''Jc'', awg_Jmin = int_of_field p ''Jmin'',
      awg_Jmax = int_of_field p ''Jmax'',
      awg_S1 = int_of_field p ''S1'', awg_S2 = int_of_field p ''S2'',
      awg_S3 = int_of_field p ''S3'', awg_S4 = int_of_field p ''S4'',
      awg_H1 = str_of_field p ''H1'', awg_H2 = str_of_field p ''H2'',
      awg_H3 = str_of_field p ''H3'', awg_H4 = str_of_field p ''H4'',
      awg_ContentPaddingAddition = str_of_field p ''ContentPaddingAddition'',
      awg_RekeyAfterTime = str_of_field p ''RekeyAfterTime'',
      awg_RekeyTimeout = str_of_field p ''RekeyTimeout'',
      awg_KeepaliveTimeout = str_of_field p ''KeepaliveTimeout'',
      awg_RandomTrailers = str_of_field p ''RandomTrailers''\<rparr>"

definition readAmneziaParameters :: "js_record \<Rightarrow> string + awg_parameters" where
  "readAmneziaParameters p =
     (case first_bad (int_field_ok p) fst awg_int_fields of
        Some e \<Rightarrow> Inl e
      | None \<Rightarrow>
          if int_of_field p ''Jmin'' \<ge> int_of_field p ''Jmax''
            then Inl ''invalid AmneziaWG junk size range''
          else if js_prop p ''S1'' \<noteq> js_prop p ''S2'' \<or> js_prop p ''S1'' \<noteq> js_prop p ''S3''
                \<or> js_prop p ''S1'' \<noteq> js_prop p ''S4''
            then Inl ''AmneziaWG prefixes must match for random trailers''
          else (case first_bad (fixed_field_ok p) fst awg_fixed_fields of
             Some e \<Rightarrow> Inl e
           | None \<Rightarrow> (case first_bad (range_field_ok p) fst awg_range_fields of
               Some e \<Rightarrow> Inl e
             | None \<Rightarrow> Inr (pick_parameters p))))"

definition readClientTunnel :: "json option \<Rightarrow> string + client_tunnel" where
  "readClientTunnel value = (case value of
     None \<Rightarrow> Inr TunnelWireGuard
   | Some (JObj tunnel) \<Rightarrow>
       if js_prop tunnel ''protocol'' = Some (JStr ''wireguard'') then Inr TunnelWireGuard
       else if js_prop tunnel ''protocol'' \<noteq> Some (JStr ''amneziawg'')
             \<or> js_prop tunnel ''version'' \<noteq> Some (JStr ''3.1'')
         then Inl ''unsupported client tunnel protocol/version''
       else (case js_prop tunnel ''headerProtectionKeySha256'' of
         Some (JStr sha) \<Rightarrow>
           if \<not> isFingerprint sha then Inl ''invalid AmneziaWG key fingerprint''
           else (case js_prop tunnel ''parameters'' of
             Some (JObj p) \<Rightarrow> (case readAmneziaParameters p of
                 Inl e \<Rightarrow> Inl e
               | Inr q \<Rightarrow> Inr (TunnelAmneziaWG sha q))
           | _ \<Rightarrow> Inl ''missing AmneziaWG parameters'')
       | _ \<Rightarrow> Inl ''invalid AmneziaWG key fingerprint'')
   | Some _ \<Rightarrow> Inl ''invalid client tunnel'')"

definition base64_char :: "char \<Rightarrow> bool" where
  "base64_char c \<longleftrightarrow> (let n = (of_char c :: nat) in
     (65 \<le> n \<and> n \<le> 90) \<or> (97 \<le> n \<and> n \<le> 122) \<or> (48 \<le> n \<and> n \<le> 57) \<or> n = 43 \<or> n = 47)"

text \<open>\<open>/^[A-Za-z0-9+/]{43}=$/\<close>\<close>

definition isKeyText :: "string \<Rightarrow> bool" where
  "isKeyText k \<longleftrightarrow> length k = 44 \<and> list_all base64_char (take 43 k) \<and> drop 43 k = ''=''"

text \<open>
  \<open>reencode k\<close> is \<open>Buffer.from(k, "base64").toString("base64")\<close> and \<open>keyFingerprint k\<close> the
  hexadecimal SHA-256 of the decoded key.
\<close>

definition validateHeaderProtectionKey ::
    "(string \<Rightarrow> string) \<Rightarrow> (string \<Rightarrow> string) \<Rightarrow> client_tunnel \<Rightarrow> json option \<Rightarrow> string + string" where
  "validateHeaderProtectionKey keyFingerprint reencode tunnel value = (case tunnel of
     TunnelWireGuard \<Rightarrow> Inr []
   | TunnelAmneziaWG sha p \<Rightarrow> (case value of
       Some (JStr k) \<Rightarrow>
         if isKeyText k \<and> reencode k = k \<and> keyFingerprint k = sha then Inr k
         else Inl ''missing or mismatched AmneziaWG header protection key''
     | _ \<Rightarrow> Inl ''missing or mismatched AmneziaWG header protection key''))"

subsection \<open>What the reader accepts\<close>

definition range_value_ok :: "nat \<Rightarrow> nat \<Rightarrow> string \<Rightarrow> bool" where
  "range_value_ok lo hi v \<longleftrightarrow>
     (\<exists>low\<le>hi. \<exists>high\<le>hi. lo \<le> low \<and> low \<le> high \<and> v = js_nat low @ ''-'' @ js_nat high)"

lemma range_text_ok_iff: "range_text_ok lo hi v \<longleftrightarrow> range_value_ok lo hi v"
proof
  assume "range_text_ok lo hi v"
  then show "range_value_ok lo hi v"
    by (auto simp: range_text_ok_def range_value_ok_def Let_def split: list.splits)
      (metis le_trans not_less)
next
  assume "range_value_ok lo hi v"
  then obtain low high where lh: "lo \<le> low" "low \<le> high" "high \<le> hi"
    and v: "v = js_nat low @ CHR ''-'' # js_nat high"
    by (auto simp: range_value_ok_def)
  have d: "CHR ''-'' \<notin> set (js_nat n)" for n
    using js_nat_digits[of "CHR ''-''" n] by (auto simp: js_digit_def)
  have g: "digits1 (js_nat n)" for n
    using js_nat_digits[of _ n] by (auto simp: digits1_def list_all_iff)
  have "js_split (CHR ''-'') v = [js_nat low, js_nat high]"
    using d by (simp add: v js_split_append js_split_single)
  with lh g show "range_text_ok lo hi v"
    by (simp add: range_text_ok_def digits_value_js_nat v)
qed

definition awg_ok :: "awg_parameters \<Rightarrow> bool" where
  "awg_ok p \<longleftrightarrow>
     1 \<le> awg_Jc p \<and> awg_Jc p \<le> 128 \<and> 1 \<le> awg_Jmin p \<and> awg_Jmin p < awg_Jmax p \<and> awg_Jmax p \<le> 1280 \<and>
     12 \<le> awg_S1 p \<and> awg_S1 p \<le> 64 \<and> awg_S2 p = awg_S1 p \<and> awg_S3 p = awg_S1 p \<and> awg_S4 p = awg_S1 p \<and>
     awg_H1 p = ''1'' \<and> awg_H2 p = ''2'' \<and> awg_H3 p = ''3'' \<and> awg_H4 p = ''4'' \<and>
     awg_RandomTrailers p = ''on'' \<and>
     range_value_ok 0 64 (awg_ContentPaddingAddition p) \<and> range_value_ok 60 150 (awg_RekeyAfterTime p) \<and>
     range_value_ok 1 15 (awg_RekeyTimeout p) \<and> range_value_ok 1 30 (awg_KeepaliveTimeout p)"

definition tunnel_ok :: "client_tunnel \<Rightarrow> bool" where
  "tunnel_ok t \<longleftrightarrow> (case t of TunnelWireGuard \<Rightarrow> True
     | TunnelAmneziaWG sha p \<Rightarrow> isFingerprint sha \<and> awg_ok p)"

text \<open>The JSON the code writes for a tunnel into a rendered plan.\<close>

definition parameters_json :: "awg_parameters \<Rightarrow> js_record" where
  "parameters_json p =
     [(''Jc'', JInt (awg_Jc p)), (''Jmin'', JInt (awg_Jmin p)), (''Jmax'', JInt (awg_Jmax p)),
      (''S1'', JInt (awg_S1 p)), (''S2'', JInt (awg_S2 p)), (''S3'', JInt (awg_S3 p)),
      (''S4'', JInt (awg_S4 p)), (''H1'', JStr (awg_H1 p)), (''H2'', JStr (awg_H2 p)),
      (''H3'', JStr (awg_H3 p)), (''H4'', JStr (awg_H4 p)),
      (''ContentPaddingAddition'', JStr (awg_ContentPaddingAddition p)),
      (''RekeyAfterTime'', JStr (awg_RekeyAfterTime p)), (''RekeyTimeout'', JStr (awg_RekeyTimeout p)),
      (''KeepaliveTimeout'', JStr (awg_KeepaliveTimeout p)),
      (''RandomTrailers'', JStr (awg_RandomTrailers p))]"

definition tunnel_json :: "client_tunnel \<Rightarrow> json" where
  "tunnel_json t = (case t of
     TunnelWireGuard \<Rightarrow> JObj [(''protocol'', JStr ''wireguard'')]
   | TunnelAmneziaWG sha p \<Rightarrow> JObj [(''protocol'', JStr ''amneziawg''), (''version'', JStr ''3.1''),
       (''headerProtectionKeySha256'', JStr sha), (''parameters'', JObj (parameters_json p))])"

lemma first_bad_None: "first_bad ok name xs = None \<longleftrightarrow> list_all ok xs"
  by (auto simp: first_bad_def find_None_iff list_all_iff)

lemmas awg_field_defs = awg_int_fields_def awg_fixed_fields_def awg_range_fields_def
  int_field_ok_def fixed_field_ok_def range_field_ok_def

definition parameters_accepted :: "js_record \<Rightarrow> bool" where
  "parameters_accepted p \<longleftrightarrow>
     list_all (int_field_ok p) awg_int_fields \<and> int_of_field p ''Jmin'' < int_of_field p ''Jmax'' \<and>
     js_prop p ''S1'' = js_prop p ''S2'' \<and> js_prop p ''S1'' = js_prop p ''S3'' \<and>
     js_prop p ''S1'' = js_prop p ''S4'' \<and>
     list_all (fixed_field_ok p) awg_fixed_fields \<and> list_all (range_field_ok p) awg_range_fields"

lemma int_field_okD: "int_field_ok p (k, lo, hi) \<Longrightarrow> lo \<le> int_of_field p k \<and> int_of_field p k \<le> hi"
  by (auto simp: int_field_ok_def int_of_field_def split: option.splits json.splits)

lemma fixed_field_okD: "fixed_field_ok p (k, e) \<Longrightarrow> str_of_field p k = e"
  by (simp add: fixed_field_ok_def str_of_field_def)

lemma range_field_okD: "range_field_ok p (k, lo, hi) \<Longrightarrow> range_value_ok lo hi (str_of_field p k)"
  by (auto simp: range_field_ok_def str_of_field_def range_text_ok_iff split: option.splits json.splits)

lemma pick_parameters_ok: "parameters_accepted p \<Longrightarrow> awg_ok (pick_parameters p)"
  by (auto simp: parameters_accepted_def awg_int_fields_def awg_fixed_fields_def awg_range_fields_def
      awg_ok_def pick_parameters_def int_of_field_def[of p "''S1''"] int_of_field_def[of p "''S2''"]
      int_of_field_def[of p "''S3''"] int_of_field_def[of p "''S4''"]
      simp del: One_nat_def
      dest!: int_field_okD fixed_field_okD range_field_okD)

lemma readAmneziaParameters_iff:
  "readAmneziaParameters p = Inr q \<longleftrightarrow> parameters_accepted p \<and> q = pick_parameters p"
  by (auto simp: readAmneziaParameters_def parameters_accepted_def option.case_eq_if first_bad_None not_le)

lemma read_tunnel_cases:
  assumes "readClientTunnel v = Inr t"
  shows "t = TunnelWireGuard \<or>
    (\<exists>sha p. t = TunnelAmneziaWG sha (pick_parameters p) \<and> isFingerprint sha \<and> parameters_accepted p)"
  using assms
  by (auto simp: readClientTunnel_def readAmneziaParameters_iff
      split: option.splits json.splits if_splits sum.splits)

text \<open>
  whatever JSON value arrives, a tunnel description that the reader accepts has every
  parameter in its range, equal prefixes, the fixed header types and canonical
  \<open>low-high\<close> ranges.
\<close>

lemma read_tunnel_valid: "readClientTunnel v = Inr t \<Longrightarrow> tunnel_ok t"
  by (drule read_tunnel_cases) (auto simp: tunnel_ok_def pick_parameters_ok)

lemma pick_parameters_json: "pick_parameters (parameters_json p) = p"
  by (simp add: pick_parameters_def parameters_json_def int_of_field_def str_of_field_def js_prop_def)

lemma parameters_json_fields:
  assumes "awg_ok p"
  shows "list_all (int_field_ok (parameters_json p)) awg_int_fields"
    and "list_all (fixed_field_ok (parameters_json p)) awg_fixed_fields"
    and "list_all (range_field_ok (parameters_json p)) awg_range_fields"
  using assms
  by (simp_all add: awg_field_defs awg_ok_def parameters_json_def js_prop_def range_text_ok_iff)

lemma readback: "tunnel_ok t \<Longrightarrow> readClientTunnel (Some (tunnel_json t)) = Inr t"
proof (cases t)
  case TunnelWireGuard
  then show ?thesis by (simp add: tunnel_json_def readClientTunnel_def js_prop_def)
next
  case (TunnelAmneziaWG sha p)
  assume "tunnel_ok t"
  with TunnelAmneziaWG have ok: "isFingerprint sha" "awg_ok p" by (auto simp: tunnel_ok_def)
  have "parameters_accepted (parameters_json p)"
    unfolding parameters_accepted_def using parameters_json_fields[OF ok(2)] ok(2)
    by (simp add: awg_ok_def parameters_json_def int_of_field_def js_prop_def)
  then have params: "readAmneziaParameters (parameters_json p) = Inr p"
    by (simp add: readAmneziaParameters_iff pick_parameters_json)
  have top: "js_prop [(''protocol'', JStr ''amneziawg''), (''version'', JStr ''3.1''),
      (''headerProtectionKeySha256'', JStr sha), (''parameters'', q)] k =
      (if k = ''protocol'' then Some (JStr ''amneziawg'') else if k = ''version'' then Some (JStr ''3.1'')
       else if k = ''headerProtectionKeySha256'' then Some (JStr sha)
       else if k = ''parameters'' then Some q else None)" for k q
    by (simp add: js_prop_def)
  show ?thesis
    using ok by (simp add: TunnelAmneziaWG tunnel_json_def readClientTunnel_def top params)
qed

text \<open>
  the reader inverts the writer: a valid description that was stored in a plan
  is read back as it was, so nothing is lost or changed between the planner and the gates.
\<close>

lemma tunnel_roundtrip: "tunnel_ok t \<Longrightarrow> readClientTunnel (Some (tunnel_json t)) = Inr t"
  by (rule readback)

lemma range_value_ok_literals:
  "range_value_ok 0 64 ''0-64''" "range_value_ok 60 150 ''100-140''"
  "range_value_ok 1 15 ''4-7''" "range_value_ok 1 30 ''8-15''"
  by (simp_all add: range_text_ok_iff[symmetric]) code_simp+

lemma created_tunnel_ok:
  "16 \<le> pre \<Longrightarrow> pre < 49 \<Longrightarrow> 4 \<le> jc \<Longrightarrow> jc < 13 \<Longrightarrow> isFingerprint (fp key) \<Longrightarrow>
   tunnel_ok (fst (createClientTunnel fp key pre jc))"
  by (simp add: createClientTunnel_def tunnel_ok_def awg_ok_def range_value_ok_literals del: One_nat_def)

text \<open>
  every tunnel the planner creates, whatever the random draws, is accepted by the reader
  that the gate jobs and the client configuration use, and its key passes the key check.
\<close>

lemma created_tunnel_accepted:
  assumes "16 \<le> pre" "pre < 49" "4 \<le> jc" "jc < 13" "isFingerprint (fp key)"
    and "isKeyText key" "reencode key = key"
  shows "readClientTunnel (Some (tunnel_json (fst (createClientTunnel fp key pre jc))))
           = Inr (fst (createClientTunnel fp key pre jc)) \<and>
         validateHeaderProtectionKey fp reencode (fst (createClientTunnel fp key pre jc))
           (Some (JStr (snd (createClientTunnel fp key pre jc)))) = Inr key"
proof -
  have "tunnel_ok (fst (createClientTunnel fp key pre jc))"
    using assms by (intro created_tunnel_ok)
  then have "readClientTunnel (Some (tunnel_json (fst (createClientTunnel fp key pre jc))))
      = Inr (fst (createClientTunnel fp key pre jc))"
    by (rule readback)
  with assms show ?thesis by (simp add: createClientTunnel_def validateHeaderProtectionKey_def)
qed

definition sample_key :: string where
  "sample_key = replicate 43 (CHR ''A'') @ ''=''"

definition sample_fingerprint :: "string \<Rightarrow> string" where
  "sample_fingerprint _ = replicate 64 (CHR ''a'')"

definition sample_tunnel :: client_tunnel where
  "sample_tunnel = fst (createClientTunnel sample_fingerprint sample_key 20 5)"

lemma sample_fingerprint_ok: "isFingerprint (sample_fingerprint k)"
  by (simp add: isFingerprint_def sample_fingerprint_def hex_char_def list_all_iff)

lemma sample_tunnel_ok: "tunnel_ok sample_tunnel"
  unfolding sample_tunnel_def by (intro created_tunnel_ok sample_fingerprint_ok) auto

lemma sample_key_ok: "isKeyText sample_key"
  by (simp add: isKeyText_def sample_key_def base64_char_def list_all_iff)

lemma tunnel_roundtrip_witness:
  "tunnel_ok sample_tunnel \<and> readClientTunnel (Some (tunnel_json sample_tunnel)) = Inr sample_tunnel"
  using tunnel_roundtrip[OF sample_tunnel_ok] sample_tunnel_ok by simp

lemma read_tunnel_valid_witness:
  "readClientTunnel (Some (tunnel_json sample_tunnel)) = Inr sample_tunnel \<and> tunnel_ok sample_tunnel"
proof -
  have "readClientTunnel (Some (tunnel_json sample_tunnel)) = Inr sample_tunnel"
    by (rule readback[OF sample_tunnel_ok])
  with read_tunnel_valid[OF this] show ?thesis by simp
qed

lemma created_tunnel_accepted_witness:
  "(16::int) \<le> 20 \<and> (20::int) < 49 \<and> (4::int) \<le> 5 \<and> (5::int) < 13 \<and>
   isFingerprint (sample_fingerprint sample_key) \<and> isKeyText sample_key \<and> id sample_key = sample_key \<and>
   readClientTunnel (Some (tunnel_json (fst (createClientTunnel sample_fingerprint sample_key 20 5))))
     = Inr (fst (createClientTunnel sample_fingerprint sample_key 20 5))"
  using created_tunnel_accepted[of 20 5 sample_fingerprint sample_key id]
    sample_fingerprint_ok sample_key_ok by simp

subsection \<open>The client configuration (\<open>resources/artifacts/client-config.ts\<close>)\<close>

record client_config_input =
  ci_privateKey :: string
  ci_clientPublicKey :: string
  ci_clientKeyMode :: string
  ci_address :: string
  ci_serverPublicKey :: string
  ci_endpoint :: string
  ci_allowedIps :: "string list"
  ci_persistentKeepaliveSeconds :: int
  ci_clientTunnel :: "json option"
  ci_headerProtectionKey :: "json option"
  ci_mtu :: "int option"

text \<open>\<open>Object.entries(tunnel.parameters)\<close>, each as \<open>key = value\<close>.\<close>

definition parameter_lines :: "awg_parameters \<Rightarrow> string list" where
  "parameter_lines p =
     [''Jc = '' @ js_int (awg_Jc p), ''Jmin = '' @ js_int (awg_Jmin p), ''Jmax = '' @ js_int (awg_Jmax p),
      ''S1 = '' @ js_int (awg_S1 p), ''S2 = '' @ js_int (awg_S2 p), ''S3 = '' @ js_int (awg_S3 p),
      ''S4 = '' @ js_int (awg_S4 p), ''H1 = '' @ awg_H1 p, ''H2 = '' @ awg_H2 p, ''H3 = '' @ awg_H3 p,
      ''H4 = '' @ awg_H4 p, ''ContentPaddingAddition = '' @ awg_ContentPaddingAddition p,
      ''RekeyAfterTime = '' @ awg_RekeyAfterTime p, ''RekeyTimeout = '' @ awg_RekeyTimeout p,
      ''KeepaliveTimeout = '' @ awg_KeepaliveTimeout p, ''RandomTrailers = '' @ awg_RandomTrailers p]"

definition obfuscation_lines :: "client_tunnel \<Rightarrow> string \<Rightarrow> string list" where
  "obfuscation_lines tunnel key = (case tunnel of
     TunnelWireGuard \<Rightarrow> []
   | TunnelAmneziaWG sha p \<Rightarrow>
       ''# Requires a client supporting the extended WireGuard profile 3.1.'' #
       parameter_lines p @ [''HeaderProtectionKey = '' @ key])"

definition interface_lines :: "client_config_input \<Rightarrow> string list" where
  "interface_lines i =
     (if ci_clientKeyMode i = ''BringYourOwnPublicKey''
      then [''[Interface]'', ''# Bring-your-own-key mode.'',
            ''# Replace the placeholder below with the private key that matches this client public key:'',
            ''# '' @ ci_clientPublicKey i,
            ''PrivateKey = <replace-with-matching-client-private-key>'']
      else [''[Interface]'', ''PrivateKey = '' @ ci_privateKey i])"

text \<open>A missing MTU and an MTU of 0 are both falsy.\<close>

definition renderClientConfig ::
    "(string \<Rightarrow> string) \<Rightarrow> (string \<Rightarrow> string) \<Rightarrow> client_config_input \<Rightarrow> string + string" where
  "renderClientConfig keyFingerprint reencode i =
     (case readClientTunnel (ci_clientTunnel i) of
        Inl e \<Rightarrow> Inl e
      | Inr tunnel \<Rightarrow>
          (case validateHeaderProtectionKey keyFingerprint reencode tunnel (ci_headerProtectionKey i) of
             Inl e \<Rightarrow> Inl e
           | Inr key \<Rightarrow> Inr (js_join [CHR 0x0A]
               (interface_lines i @
                [''Address = '' @ ci_address i, ''DNS = 1.1.1.1''] @
                (case ci_mtu i of Some m \<Rightarrow> if m \<noteq> 0 then [''MTU = '' @ js_int m] else [] | None \<Rightarrow> []) @
                obfuscation_lines tunnel key @
                ['''', ''[Peer]'', ''PublicKey = '' @ ci_serverPublicKey i,
                 ''Endpoint = '' @ ci_endpoint i,
                 ''AllowedIPs = '' @ js_join '', '' (ci_allowedIps i),
                 ''PersistentKeepalive = '' @ js_int (ci_persistentKeepaliveSeconds i), '''']))))"

definition one_line :: "string \<Rightarrow> bool" where
  "one_line s \<longleftrightarrow> CHR 0x0A \<notin> set s \<and> CHR 0x0D \<notin> set s"

lemma one_line_append [simp]: "one_line (s @ t) \<longleftrightarrow> one_line s \<and> one_line t"
  by (auto simp: one_line_def)

lemma one_line_Cons [simp]: "one_line (c # s) \<longleftrightarrow> c \<noteq> CHR 0x0A \<and> c \<noteq> CHR 0x0D \<and> one_line s"
  by (auto simp: one_line_def)

lemma one_line_Nil [simp]: "one_line []"
  by (simp add: one_line_def)

lemma one_line_js_nat [simp]: "one_line (js_nat n)"
  using js_nat_digits[of "CHR 0x0A" n] js_nat_digits[of "CHR 0x0D" n]
  by (auto simp: one_line_def js_digit_def)

lemma one_line_js_int [simp]: "one_line (js_int i)"
  by (simp add: js_int_def)

lemma one_line_range: "range_value_ok lo hi v \<Longrightarrow> one_line v"
  by (auto simp: range_value_ok_def)

lemma one_line_key: "isKeyText k \<Longrightarrow> one_line k"
proof -
  assume k: "isKeyText k"
  have "k = take 43 k @ drop 43 k" by simp
  moreover from k have "one_line (take 43 k)" "one_line (drop 43 k)"
    by (auto simp: isKeyText_def one_line_def list_all_iff base64_char_def)
  ultimately show ?thesis by (metis one_line_append)
qed

lemma validated_key_line:
  "validateHeaderProtectionKey fp enc t v = Inr key \<Longrightarrow> one_line key"
  by (auto simp: validateHeaderProtectionKey_def dest: one_line_key
      split: client_tunnel.splits option.splits json.splits if_splits)

lemma one_line_parameters: "awg_ok p \<Longrightarrow> l \<in> set (parameter_lines p) \<Longrightarrow> one_line l"
  by (auto simp: parameter_lines_def awg_ok_def dest!: one_line_range)

text \<open>
  C40: arbitrary tunnel JSON and an arbitrary key cannot inject configuration lines: once the
  checks have passed, every obfuscation entry is a single line.
\<close>

theorem obfuscation_no_injection:
  assumes "readClientTunnel v = Inr tunnel"
    and "validateHeaderProtectionKey fp enc tunnel w = Inr key"
    and "l \<in> set (obfuscation_lines tunnel key)"
  shows "one_line l"
proof -
  from read_tunnel_cases[OF assms(1)] consider "tunnel = TunnelWireGuard"
    | sha p where "tunnel = TunnelAmneziaWG sha (pick_parameters p)" "parameters_accepted p" by blast
  then show ?thesis
  proof cases
    case 1
    with assms(3) show ?thesis by (simp add: obfuscation_lines_def)
  next
    case (2 sha p)
    with assms(3) validated_key_line[OF assms(2)] show ?thesis
      by (auto simp: obfuscation_lines_def dest: one_line_parameters[OF pick_parameters_ok])
  qed
qed

theorem obfuscation_no_injection_witness:
  "readClientTunnel (Some (tunnel_json sample_tunnel)) = Inr sample_tunnel \<and>
   validateHeaderProtectionKey sample_fingerprint id sample_tunnel (Some (JStr sample_key)) = Inr sample_key \<and>
   ''RandomTrailers = on'' \<in> set (obfuscation_lines sample_tunnel sample_key) \<and>
   one_line ''RandomTrailers = on''"
proof -
  have 1: "readClientTunnel (Some (tunnel_json sample_tunnel)) = Inr sample_tunnel"
    by (rule readback[OF sample_tunnel_ok])
  have 2: "validateHeaderProtectionKey sample_fingerprint id sample_tunnel (Some (JStr sample_key)) = Inr sample_key"
    using sample_key_ok by (simp add: validateHeaderProtectionKey_def sample_tunnel_def createClientTunnel_def)
  have 3: "''RandomTrailers = on'' \<in> set (obfuscation_lines sample_tunnel sample_key)"
    by (simp add: obfuscation_lines_def sample_tunnel_def createClientTunnel_def parameter_lines_def)
  from 1 2 3 obfuscation_no_injection[OF 1 2 3] show ?thesis by blast
qed

end
