(* ===== verification/SessionRequest.thy ===== *)
theory SessionRequest
  imports Phases ClientTunnel "HOL-Library.Word"
begin

unbundle bit_operations_syntax

section \<open>Session requests: parsing and abuse controls\<close>

text \<open>
  \<open>resources/sessions/validation.ts\<close> turns the JSON body of a request into a parsed session,
  \<open>resources/sessions/abuse-controls.ts\<close> decides whether its destinations are allowed.  IPv4
  addresses are 32-bit words: the code's \<open>>>> 0\<close> keeps every intermediate value in that range.
\<close>

subsection \<open>Parsing the body (\<open>validation.ts\<close>)\<close>

record session_create_parsed =
  pc_mode :: session_mode
  pc_destinationCidrs :: "string list"
  pc_createRequestId :: "string option"
  pc_sourceCidr :: "string option"
  pc_clientPublicKey :: "string option"
  pc_label :: "string option"
  pc_spec :: js_record

record request_error =
  re_error :: string
  re_message :: "string option"

fun show_mode :: "session_mode \<Rightarrow> string" where
  "show_mode IpToIp = ''IpToIp''"
| "show_mode FullTunnel = ''FullTunnel''"

definition hex_any :: "char \<Rightarrow> bool" where
  "hex_any c \<longleftrightarrow> hex_char (lower_char c)"

text \<open>\<open>/^[0-9a-f]{8}-[0-9a-f]{4}-[1-8][0-9a-f]{3}-[89ab][0-9a-f]{3}-[0-9a-f]{12}$/i\<close>\<close>

definition isUuid :: "string \<Rightarrow> bool" where
  "isUuid v = (case js_split (CHR ''-'') v of
     [a, b, c, d, e] \<Rightarrow> map length [a, b, c, d, e] = [8, 4, 4, 4, 12]
       \<and> list_all (list_all hex_any) [a, b, c, d, e]
       \<and> hd c \<in> set ''12345678'' \<and> hd (js_lower d) \<in> set ''89ab''
   | _ \<Rightarrow> False)"

definition normalizeRequiredCidr :: "string \<Rightarrow> string" where
  "normalizeRequiredCidr v = (if js_includes (CHR ''/'') v then v else v @ ''/32'')"

definition normalizeOptionalCidr :: "string \<Rightarrow> string option" where
  "normalizeOptionalCidr v = (if v = [] then None else Some (normalizeRequiredCidr v))"

definition ipToCidr :: "string \<Rightarrow> string" where
  "ipToCidr v = (if v = [] then [] else if js_includes (CHR ''/'') v then v else v @ ''/32'')"

definition normalizeDestinationCidrs :: "js_record \<Rightarrow> session_mode \<Rightarrow> string list" where
  "normalizeDestinationCidrs body mode =
     (let rawCidrs = readStringArray (js_prop body ''destinationCidrs'');
          targetIp = readString body ''targetIp''
      in if rawCidrs \<noteq> [] then filter (\<lambda>s. s \<noteq> []) (map normalizeRequiredCidr rawCidrs)
         else if mode = IpToIp \<and> targetIp \<noteq> [] then [ipToCidr targetIp]
         else if mode = FullTunnel then [''0.0.0.0/0'']
         else [])"

text \<open>\<open>Buffer.from(s, "base64")\<close> on text that is base64 up to its padding.\<close>

definition b64_sextet :: "char \<Rightarrow> nat" where
  "b64_sextet c = (let n = (of_char c :: nat) in
     if 65 \<le> n \<and> n \<le> 90 then n - 65 else if 97 \<le> n \<and> n \<le> 122 then n - 71
     else if 48 \<le> n \<and> n \<le> 57 then n + 4 else if n = 43 then 62 else 63)"

fun b64_bytes :: "nat list \<Rightarrow> nat list" where
  "b64_bytes (a # b # c # d # r) =
     (a * 4 + b div 16) # ((b mod 16) * 16 + c div 4) # ((c mod 4) * 64 + d) # b64_bytes r"
| "b64_bytes [a, b, c] = [a * 4 + b div 16, (b mod 16) * 16 + c div 4]"
| "b64_bytes [a, b] = [a * 4 + b div 16]"
| "b64_bytes _ = []"

definition wireGuardKeyPattern :: "string \<Rightarrow> bool" where
  "wireGuardKeyPattern s \<longleftrightarrow> length s = 44 \<and> list_all base64_char (take 42 s)
     \<and> s ! 42 \<in> set ''AEIMQUYcgkosw048'' \<and> s ! 43 = CHR ''=''"

definition isWireGuardPublicKey :: "string \<Rightarrow> bool" where
  "isWireGuardPublicKey v =
     (let trimmed = js_trim v in
      wireGuardKeyPattern trimmed \<and>
      (let decoded = b64_bytes (map b64_sextet (takeWhile (\<lambda>c. c \<noteq> CHR ''='') trimmed))
       in length decoded = 32 \<and> \<not> list_all (\<lambda>b. b = 0) decoded))"

definition opt_field :: "string \<Rightarrow> string option \<Rightarrow> js_record" where
  "opt_field k v = (case v of None \<Rightarrow> [] | Some s \<Rightarrow> [(k, JStr s)])"

fun show_protocol :: "client_protocol \<Rightarrow> string" where
  "show_protocol WireGuard = ''wireguard''"
| "show_protocol AmneziaWG = ''amneziawg''"

definition invalid_request :: "string \<Rightarrow> string option \<Rightarrow> request_error" where
  "invalid_request e m = \<lparr>re_error = e, re_message = m\<rparr>"

text \<open>The \<open>spec\<close> object: the optional members are spread in only when they are set.\<close>

definition request_spec ::
  "js_record \<Rightarrow> client_protocol \<Rightarrow> session_mode \<Rightarrow> string list \<Rightarrow> string option \<Rightarrow> string option
    \<Rightarrow> string option \<Rightarrow> string option \<Rightarrow> string option \<Rightarrow> string option \<Rightarrow> js_record" where
  "request_spec body clientProtocol mode destinationCidrs sourceCidr clientPublicKey
      ingressGateName egressGateName ingressGateId egressGateId =
     [(''desiredState'', JStr ''Active''), (''clientProtocol'', JStr (show_protocol clientProtocol)),
      (''mode'', JStr (show_mode mode)), (''destinationCidrs'', JArr (map JStr destinationCidrs))]
     @ opt_field ''sourceCidr'' sourceCidr @ opt_field ''clientPublicKey'' clientPublicKey
     @ opt_field ''ingressGateName'' ingressGateName @ opt_field ''egressGateName'' egressGateName
     @ opt_field ''ingressGateId'' ingressGateId @ opt_field ''egressGateId'' egressGateId
     @ [(''pathPolicy'', JObj (asRecord (js_prop body ''pathPolicy''))),
        (''artifactPolicy'', JObj (asRecord (js_prop body ''artifactPolicy'')))]"

text \<open>The second half of the function: the checks on the optional fields, and the result.\<close>

definition checked_request ::
  "js_record \<Rightarrow> client_protocol \<Rightarrow> session_mode \<Rightarrow> string list \<Rightarrow> request_error + session_create_parsed" where
  "checked_request body clientProtocol mode destinationCidrs =
     (let sourceCidr = normalizeOptionalCidr (or_else (readString body ''sourceCidr'')
            (ipToCidr (readString body ''sourceIp'')));
          clientPublicKey = or_null (readString body ''clientPublicKey'');
          label = or_null (readString body ''label'');
          createRequestId = or_null (or_else (readString body ''paymentRequestId'')
            (readString body ''requestId''));
          ingressGateName = or_null (readString body ''ingressGateName'');
          egressGateName = or_null (readString body ''egressGateName'');
          ingressGateId = or_null (readString body ''ingressGateId'');
          egressGateId = or_null (readString body ''egressGateId'')
      in if ingressGateName = None \<and> ingressGateId = None
           then Inl (invalid_request ''ingress_gate_required'' None)
         else if egressGateName = None \<and> egressGateId = None
           then Inl (invalid_request ''egress_gate_required'' None)
         else if (ingressGateName \<noteq> None \<and> ingressGateName = egressGateName)
               \<or> (ingressGateId \<noteq> None \<and> ingressGateId = egressGateId)
           then Inl (invalid_request ''distinct_gates_required''
                  (Some ''Ingress and egress must be different gates.''))
         else if (case clientPublicKey of Some k \<Rightarrow> \<not> isWireGuardPublicKey k | None \<Rightarrow> False)
           then Inl (invalid_request ''invalid_client_public_key''
                  (Some ''Client public key must be a canonical 44-character WireGuard public key.''))
         else if (case createRequestId of Some r \<Rightarrow> \<not> isUuid r | None \<Rightarrow> False)
           then Inl (invalid_request ''invalid_create_request_id''
                  (Some ''Config creation request ID must be a UUID.''))
         else Inr \<lparr>pc_mode = mode, pc_destinationCidrs = destinationCidrs,
                pc_createRequestId = createRequestId, pc_sourceCidr = sourceCidr,
                pc_clientPublicKey = clientPublicKey, pc_label = label,
                pc_spec = request_spec body clientProtocol mode destinationCidrs sourceCidr
                  clientPublicKey ingressGateName egressGateName ingressGateId egressGateId\<rparr>)"

definition parseSessionCreateBody :: "js_record \<Rightarrow> request_error + session_create_parsed" where
  "parseSessionCreateBody body =
     (case readSessionClientProtocol (js_prop body ''clientProtocol'') of
        Inl _ \<Rightarrow> Inl (invalid_request ''invalid_client_protocol''
                    (Some ''Client protocol must be wireguard or amneziawg.''))
      | Inr clientProtocol \<Rightarrow>
     (let modeText = readString body ''mode'' in
      if modeText \<noteq> ''IpToIp'' \<and> modeText \<noteq> ''FullTunnel''
      then Inl (invalid_request ''invalid_mode'' None)
      else
     (let mode = (if modeText = ''IpToIp'' then IpToIp else FullTunnel);
          destinationCidrs = normalizeDestinationCidrs body mode
      in if destinationCidrs = [] then Inl (invalid_request ''destination_required'' None)
         else checked_request body clientProtocol mode destinationCidrs)))"

subsection \<open>IPv4 blocks (\<open>abuse-controls.ts\<close>)\<close>

record ipv4_cidr =
  cidr_address :: "32 word"
  cidr_prefixLength :: nat
  cidr_text :: string

text \<open>\<open>/^\d{1,n}$/\<close>\<close>

definition digits_upto :: "nat \<Rightarrow> string \<Rightarrow> bool" where
  "digits_upto n s \<longleftrightarrow> s \<noteq> [] \<and> length s \<le> n \<and> list_all js_digit s"

definition parseIpv4Octet :: "string \<Rightarrow> nat option" where
  "parseIpv4Octet part =
     (if \<not> digits_upto 3 part then None
      else let octet = digits_value part in if octet > 255 then None else Some octet)"

definition parseIpv4Address :: "string \<Rightarrow> 32 word option" where
  "parseIpv4Address v =
     (case map parseIpv4Octet (js_split (CHR ''.'') v) of
        [Some a, Some b, Some c, Some d] \<Rightarrow>
          Some (push_bit 24 (word_of_nat a) + push_bit 16 (word_of_nat b)
                + push_bit 8 (word_of_nat c) + word_of_nat d)
      | _ \<Rightarrow> None)"

definition parsePrefixLength :: "string \<Rightarrow> nat option" where
  "parsePrefixLength v =
     (if \<not> digits_upto 2 v then None
      else let prefix_len = digits_value v in if prefix_len \<le> 32 then Some prefix_len else None)"

definition parseIpv4Cidr :: "string \<Rightarrow> ipv4_cidr option" where
  "parseIpv4Cidr v =
     (case js_split (CHR ''/'') (js_trim v) of
        [addressPart, prefixPart] \<Rightarrow>
          if addressPart = [] \<or> prefixPart = [] then None
          else (case (parseIpv4Address addressPart, parsePrefixLength prefixPart) of
                  (Some a, Some n) \<Rightarrow>
                    Some \<lparr>cidr_address = a, cidr_prefixLength = n,
                      cidr_text = addressPart @ ''/'' @ js_nat n\<rparr>
                | _ \<Rightarrow> None)
      | _ \<Rightarrow> None)"

definition prefixMask :: "nat \<Rightarrow> 32 word" where
  "prefixMask n = (if n = 0 then 0 else push_bit (32 - n) (0xffffffff :: 32 word))"

definition cidrContains :: "ipv4_cidr \<Rightarrow> ipv4_cidr \<Rightarrow> bool" where
  "cidrContains container candidate =
     (let m = prefixMask (cidr_prefixLength container)
      in cidr_address candidate AND m = cidr_address container AND m)"

text \<open>The table as the code writes it; \<open>range_of\<close> is the code's \<open>range\<close>, which throws on bad text.\<close>

definition nonGlobalIpv4Texts :: "string list" where
  "nonGlobalIpv4Texts =
     [''0.0.0.0/8'', ''10.0.0.0/8'', ''100.64.0.0/10'', ''127.0.0.0/8'', ''169.254.0.0/16'',
      ''172.16.0.0/12'', ''192.0.0.0/24'', ''192.0.2.0/24'', ''192.88.99.0/24'', ''192.168.0.0/16'',
      ''198.18.0.0/15'', ''198.51.100.0/24'', ''203.0.113.0/24'', ''224.0.0.0/4'', ''240.0.0.0/4'']"

definition range_of :: "string \<Rightarrow> string + ipv4_cidr" where
  "range_of v = (case parseIpv4Cidr v of
     None \<Rightarrow> Inl (''invalid built-in IPv4 range '' @ v) | Some c \<Rightarrow> Inr c)"

definition nonGlobalIpv4Ranges :: "ipv4_cidr list" where
  "nonGlobalIpv4Ranges = concat (map (\<lambda>t. case range_of t of Inr c \<Rightarrow> [c] | Inl _ \<Rightarrow> []) nonGlobalIpv4Texts)"

definition isGlobalIpv4Cidr :: "ipv4_cidr \<Rightarrow> bool" where
  "isGlobalIpv4Cidr c \<longleftrightarrow> \<not> list_ex (\<lambda>blocked. cidrContains blocked c) nonGlobalIpv4Ranges"

definition isFullTunnelDestination :: "ipv4_cidr list \<Rightarrow> bool" where
  "isFullTunnelDestination ds = (case ds of
     [d] \<Rightarrow> cidr_address d = 0 \<and> cidr_prefixLength d = 0 | _ \<Rightarrow> False)"

subsection \<open>The abuse policy\<close>

record abuse_config =
  maxActiveSessionsPerAccount :: nat
  maxSessionCreatesPerWindow :: nat
  sessionCreateWindowSeconds :: nat
  allowPrivateDestinations :: bool

definition defaultSessionAbuseControlConfig :: abuse_config where
  "defaultSessionAbuseControlConfig = \<lparr>maxActiveSessionsPerAccount = 5,
     maxSessionCreatesPerWindow = 20, sessionCreateWindowSeconds = 60 * 60,
     allowPrivateDestinations = False\<rparr>"

record partial_abuse_config =
  in_maxActive :: "nat option"
  in_maxCreates :: "nat option"
  in_windowSeconds :: "nat option"
  in_allowPrivate :: "bool option"

definition mergeSessionAbuseControlConfig :: "partial_abuse_config \<Rightarrow> abuse_config" where
  "mergeSessionAbuseControlConfig i =
     (let d = defaultSessionAbuseControlConfig in
      \<lparr>maxActiveSessionsPerAccount = (case in_maxActive i of Some n \<Rightarrow> n | None \<Rightarrow> maxActiveSessionsPerAccount d),
       maxSessionCreatesPerWindow = (case in_maxCreates i of Some n \<Rightarrow> n | None \<Rightarrow> maxSessionCreatesPerWindow d),
       sessionCreateWindowSeconds = (case in_windowSeconds i of Some n \<Rightarrow> n | None \<Rightarrow> sessionCreateWindowSeconds d),
       allowPrivateDestinations = (case in_allowPrivate i of Some b \<Rightarrow> b | None \<Rightarrow> allowPrivateDestinations d)\<rparr>)"

definition abuse_error :: "string \<Rightarrow> string \<Rightarrow> request_error" where
  "abuse_error e m = invalid_request e (Some m)"

definition check_source :: "session_create_parsed \<Rightarrow> request_error option" where
  "check_source parsed =
     (case pc_sourceCidr parsed of
        None \<Rightarrow> None
      | Some s \<Rightarrow>
          if s = [] then None
          else case parseIpv4Cidr s of
              None \<Rightarrow> Some (abuse_error ''invalid_source_cidr''
                ''Source restriction must be a valid IPv4 CIDR.'')
            | Some _ \<Rightarrow> None)"

definition validateSessionAbusePolicy ::
  "session_create_parsed \<Rightarrow> abuse_config \<Rightarrow> request_error option" where
  "validateSessionAbusePolicy parsed config =
     (let destinations = map parseIpv4Cidr (pc_destinationCidrs parsed) in
      if None \<in> set destinations
      then Some (abuse_error ''invalid_destination_cidr'' ''Destination must be a valid IPv4 CIDR.'')
      else let ds = map the destinations in
        if pc_mode parsed = IpToIp
        then if find (\<lambda>d. cidr_prefixLength d \<noteq> 32) ds \<noteq> None
             then Some (abuse_error ''invalid_destination_cidr''
               ''Self-service IP-to-IP configs can target only a single IPv4 /32 destination.'')
             else (case (if allowPrivateDestinations config then None
                         else find (\<lambda>d. \<not> isGlobalIpv4Cidr d) ds) of
                 Some b \<Rightarrow> Some (abuse_error ''destination_not_allowed''
                   (''Destination '' @ cidr_text b @ '' is not a public IPv4 /32 address.''))
               | None \<Rightarrow> check_source parsed)
        else if \<not> isFullTunnelDestination ds
        then Some (abuse_error ''invalid_destination_cidr''
               ''Full-tunnel configs must use the managed 0.0.0.0/0 destination.'')
        else check_source parsed)"

subsection \<open>What the mask test means\<close>

lemma prefixMask_eq: "n \<le> 32 \<Longrightarrow> prefixMask n = NOT (mask (32 - n))"
proof -
  assume n: "n \<le> 32"
  have m: "(0xffffffff :: 32 word) = mask 32" by (simp add: mask_eq_decr_exp)
  show ?thesis
    using n unfolding prefixMask_def m by (intro bit_word_eqI) (auto simp: bit_simps)
qed

lemma and_block: "a AND NOT (mask k) = push_bit k (drop_bit k a)" for a :: "'a::len word"
  by (rule bit_word_eqI) (auto simp: bit_simps)

lemma drop_push_drop: "drop_bit k (push_bit k (drop_bit k a)) = drop_bit k a" for a :: "'a::len word"
  by (rule bit_word_eqI) (auto simp: bit_simps dest: bit_imp_le_length)

lemma block_eq_iff:
  "a AND NOT (mask k) = b AND NOT (mask k) \<longleftrightarrow> unat a div 2 ^ k = unat b div 2 ^ k"
  for a b :: "'a::len word"
  unfolding and_block
  by (metis drop_push_drop word_eq_iff_unsigned unat_drop_bit_eq drop_bit_eq_div)

lemma cidrContains_iff:
  assumes "cidr_prefixLength c \<le> 32"
  shows "cidrContains c d \<longleftrightarrow> unat (cidr_address d) div 2 ^ (32 - cidr_prefixLength c)
      = unat (cidr_address c) div 2 ^ (32 - cidr_prefixLength c)"
  using assms by (simp add: cidrContains_def prefixMask_eq block_eq_iff Let_def)

lemma div_block: "0 < k \<Longrightarrow> m div k = q \<longleftrightarrow> q * k \<le> m \<and> m \<le> q * k + k - (1 :: nat)"
proof -
  assume k: "0 < k"
  have "m div k = q \<longleftrightarrow> q * k \<le> m \<and> m < q * k + k"
    using k by (metis add.commute div_nat_eqI dividend_less_times_div mult.commute mult_Suc_right
      times_div_less_eq_dividend)
  with k show ?thesis by auto
qed

subsection \<open>The blocked ranges as numbers\<close>

definition ipv4_number :: "nat \<Rightarrow> nat \<Rightarrow> nat \<Rightarrow> nat \<Rightarrow> nat" where
  "ipv4_number a b c d = ((a * 256 + b) * 256 + c) * 256 + d"

definition reserved_blocks :: "(nat \<times> nat) list" where
  "reserved_blocks =
     [(ipv4_number 0 0 0 0, ipv4_number 0 255 255 255),
      (ipv4_number 10 0 0 0, ipv4_number 10 255 255 255),
      (ipv4_number 100 64 0 0, ipv4_number 100 127 255 255),
      (ipv4_number 127 0 0 0, ipv4_number 127 255 255 255),
      (ipv4_number 169 254 0 0, ipv4_number 169 254 255 255),
      (ipv4_number 172 16 0 0, ipv4_number 172 31 255 255),
      (ipv4_number 192 0 0 0, ipv4_number 192 0 0 255),
      (ipv4_number 192 0 2 0, ipv4_number 192 0 2 255),
      (ipv4_number 192 88 99 0, ipv4_number 192 88 99 255),
      (ipv4_number 192 168 0 0, ipv4_number 192 168 255 255),
      (ipv4_number 198 18 0 0, ipv4_number 198 19 255 255),
      (ipv4_number 198 51 100 0, ipv4_number 198 51 100 255),
      (ipv4_number 203 0 113 0, ipv4_number 203 0 113 255),
      (ipv4_number 224 0 0 0, ipv4_number 239 255 255 255),
      (ipv4_number 240 0 0 0, ipv4_number 255 255 255 255)]"

definition public_number :: "nat \<Rightarrow> bool" where
  "public_number n \<longleftrightarrow> list_all (\<lambda>(lo, hi). \<not> (lo \<le> n \<and> n \<le> hi)) reserved_blocks"

lemma ranges_parse:
  "map parseIpv4Cidr nonGlobalIpv4Texts = map (\<lambda>(t, a, n). Some \<lparr>cidr_address = a,
       cidr_prefixLength = n, cidr_text = t\<rparr>)
     [(''0.0.0.0/8'', 0, 8), (''10.0.0.0/8'', 0x0A000000, 8), (''100.64.0.0/10'', 0x64400000, 10),
      (''127.0.0.0/8'', 0x7F000000, 8), (''169.254.0.0/16'', 0xA9FE0000, 16),
      (''172.16.0.0/12'', 0xAC100000, 12), (''192.0.0.0/24'', 0xC0000000, 24),
      (''192.0.2.0/24'', 0xC0000200, 24), (''192.88.99.0/24'', 0xC0586300, 24),
      (''192.168.0.0/16'', 0xC0A80000, 16), (''198.18.0.0/15'', 0xC6120000, 15),
      (''198.51.100.0/24'', 0xC6336400, 24), (''203.0.113.0/24'', 0xCB007100, 24),
      (''224.0.0.0/4'', 0xE0000000, 4), (''240.0.0.0/4'', 0xF0000000, 4)]"
  by code_simp

lemma isGlobal_iff_public: "isGlobalIpv4Cidr c \<longleftrightarrow> public_number (unat (cidr_address c))"
proof -
  have "nonGlobalIpv4Ranges = map the (filter (\<lambda>x. x \<noteq> None) (map parseIpv4Cidr nonGlobalIpv4Texts))"
  proof -
    have "concat (map (\<lambda>t. case range_of t of Inr c \<Rightarrow> [c] | Inl _ \<Rightarrow> []) ts)
        = map the (filter (\<lambda>x. x \<noteq> None) (map parseIpv4Cidr ts))" for ts
      by (induction ts) (auto simp: range_of_def)
    then show ?thesis unfolding nonGlobalIpv4Ranges_def .
  qed
  note r = this[unfolded ranges_parse, simplified]
  show ?thesis
    unfolding isGlobalIpv4Cidr_def r
    by (simp add: cidrContains_iff div_block public_number_def reserved_blocks_def ipv4_number_def)
qed

subsection \<open>Dotted quads\<close>

definition ipv4_text :: "nat \<Rightarrow> nat \<Rightarrow> nat \<Rightarrow> nat \<Rightarrow> string" where
  "ipv4_text a b c d = js_join ''.'' (map js_nat [a, b, c, d])"

lemma digits_upto_js_nat: "n < 1000 \<Longrightarrow> digits_upto 3 (js_nat n)"
  by (simp add: digits_upto_def length_js_nat_3 list_all_iff js_nat_digits)

lemma parseIpv4Octet_js_nat: "n < 256 \<Longrightarrow> parseIpv4Octet (js_nat n) = Some n"
  by (simp add: parseIpv4Octet_def digits_upto_js_nat digits_value_js_nat Let_def)

lemma parseIpv4Octet_bound: "parseIpv4Octet s = Some n \<Longrightarrow> n < 256"
  by (auto simp: parseIpv4Octet_def Let_def split: if_splits)

lemma js_nat_free: "\<not> js_digit x \<Longrightarrow> x \<notin> set (js_nat n)"
  using js_nat_digits by blast

lemma split_ipv4_text: "js_split (CHR ''.'') (ipv4_text a b c d) = map js_nat [a, b, c, d]"
  unfolding ipv4_text_def by (rule js_split_join) (auto dest!: js_nat_digits simp: js_digit_def)

lemma unat_quad:
  assumes "a < 256" "b < 256" "c < 256" "d < 256"
  shows "unat (push_bit 24 (word_of_nat a) + push_bit 16 (word_of_nat b)
      + push_bit 8 (word_of_nat c) + word_of_nat d :: 32 word) = ipv4_number a b c d"
proof -
  have "(push_bit 24 (word_of_nat a) + push_bit 16 (word_of_nat b)
      + push_bit 8 (word_of_nat c) + word_of_nat d :: 32 word) = word_of_nat (ipv4_number a b c d)"
    by (simp add: ipv4_number_def push_bit_eq_mult algebra_simps)
  moreover have "ipv4_number a b c d < 2 ^ 32" using assms by (simp add: ipv4_number_def)
  ultimately show ?thesis by (simp add: unat_of_nat)
qed

lemma parseIpv4Address_text:
  assumes "a < 256" "b < 256" "c < 256" "d < 256"
  shows "\<exists>w. parseIpv4Address (ipv4_text a b c d) = Some w \<and> unat w = ipv4_number a b c d"
  using assms unat_quad[OF assms]
  by (simp add: parseIpv4Address_def split_ipv4_text parseIpv4Octet_js_nat)

lemma ipv4_text_chars: "x \<in> set (ipv4_text a b c d) \<Longrightarrow> js_digit x \<or> x = CHR ''.''"
  by (auto simp: ipv4_text_def dest: js_nat_digits)

lemma ipv4_text_not_Nil [simp]: "ipv4_text a b c d \<noteq> []"
  by (simp add: ipv4_text_def)

lemma parsePrefix_js_nat: "n \<le> 32 \<Longrightarrow> parsePrefixLength (js_nat n) = Some n"
proof -
  assume "n \<le> 32"
  then have "length (js_nat n) \<le> 2" by (subst js_nat.simps, subst js_nat.simps) auto
  with \<open>n \<le> 32\<close> show ?thesis
    by (simp add: parsePrefixLength_def digits_upto_def list_all_iff js_nat_digits
        digits_value_js_nat Let_def)
qed

lemma parseIpv4Cidr_text:
  assumes "a < 256" "b < 256" "c < 256" "d < 256" "n \<le> 32"
  shows "\<exists>w. parseIpv4Cidr (ipv4_text a b c d @ ''/'' @ js_nat n)
      = Some \<lparr>cidr_address = w, cidr_prefixLength = n, cidr_text = ipv4_text a b c d @ ''/'' @ js_nat n\<rparr>
    \<and> unat w = ipv4_number a b c d"
proof -
  obtain w where w: "parseIpv4Address (ipv4_text a b c d) = Some w" "unat w = ipv4_number a b c d"
    using parseIpv4Address_text[OF assms(1-4)] by blast
  have t: "js_trim (ipv4_text a b c d @ ''/'' @ js_nat n) = ipv4_text a b c d @ ''/'' @ js_nat n"
    by (rule js_trim_space_free)
      (auto simp: js_digit_def js_space_def dest!: ipv4_text_chars js_nat_digits)
  have "CHR ''/'' \<notin> set (ipv4_text a b c d)"
    by (auto simp: js_digit_def dest!: ipv4_text_chars)
  moreover have "CHR ''/'' \<notin> set (js_nat n)" by (rule js_nat_free) (simp add: js_digit_def)
  ultimately have "js_split (CHR ''/'') (ipv4_text a b c d @ ''/'' @ js_nat n)
      = [ipv4_text a b c d, js_nat n]"
    by (simp add: js_split_append js_split_single)
  with w parsePrefix_js_nat[OF assms(5)] show ?thesis
    by (simp add: parseIpv4Cidr_def t[simplified])
qed

subsection \<open>What the checks accept\<close>

text \<open>The policy's contract, over parsed destinations: whom a session may reach.\<close>

definition host_ok :: "bool \<Rightarrow> string \<Rightarrow> bool" where
  "host_ok allowPrivate d = (case parseIpv4Cidr d of
     Some c \<Rightarrow> cidr_prefixLength c = 32 \<and> (allowPrivate \<or> public_number (unat (cidr_address c)))
   | None \<Rightarrow> False)"

definition default_route :: "string \<Rightarrow> bool" where
  "default_route d = (case parseIpv4Cidr d of
     Some c \<Rightarrow> cidr_address c = 0 \<and> cidr_prefixLength c = 0 | None \<Rightarrow> False)"

definition source_ok :: "string option \<Rightarrow> bool" where
  "source_ok s = (case s of Some t \<Rightarrow> t = [] \<or> parseIpv4Cidr t \<noteq> None | None \<Rightarrow> True)"

lemma check_source_None: "check_source parsed = None \<longleftrightarrow> source_ok (pc_sourceCidr parsed)"
  by (auto simp: check_source_def source_ok_def split: option.splits)

lemma hosts_ok_iff:
  assumes "None \<notin> set (map parseIpv4Cidr ds)"
  shows "(\<forall>d\<in>set ds. host_ok b d) \<longleftrightarrow>
     find (\<lambda>c. cidr_prefixLength c \<noteq> 32) (map the (map parseIpv4Cidr ds)) = None
     \<and> (b \<or> find (\<lambda>c. \<not> isGlobalIpv4Cidr c) (map the (map parseIpv4Cidr ds)) = None)"
  using assms
  by (induction ds) (auto simp: host_ok_def isGlobal_iff_public split: option.splits)

lemma full_tunnel_iff:
  assumes "None \<notin> set (map parseIpv4Cidr ds)"
  shows "isFullTunnelDestination (map the (map parseIpv4Cidr ds))
    \<longleftrightarrow> (\<exists>d. ds = [d] \<and> default_route d)"
proof (cases ds)
  case (Cons d r)
  with assms show ?thesis
    by (cases r; cases "parseIpv4Cidr d") (auto simp: isFullTunnelDestination_def default_route_def)
qed (simp add: isFullTunnelDestination_def)

lemma unparsed_host: "None \<in> set (map parseIpv4Cidr ds) \<Longrightarrow>
   \<exists>d\<in>set ds. \<not> host_ok b d \<and> \<not> default_route d"
  by (force simp: host_ok_def default_route_def)

lemma abuse_policy_cases:
  "validateSessionAbusePolicy parsed cfg = None \<longleftrightarrow>
     (case pc_mode parsed of
        IpToIp \<Rightarrow> (\<forall>d\<in>set (pc_destinationCidrs parsed). host_ok (allowPrivateDestinations cfg) d)
      | FullTunnel \<Rightarrow> (\<exists>d. pc_destinationCidrs parsed = [d] \<and> default_route d))
     \<and> source_ok (pc_sourceCidr parsed)"
proof (cases "None \<in> set (map parseIpv4Cidr (pc_destinationCidrs parsed))")
  case True
  from unparsed_host[OF this] show ?thesis
    using True by (force simp: validateSessionAbusePolicy_def split: session_mode.split)
next
  case False
  then have "validateSessionAbusePolicy parsed cfg = None \<longleftrightarrow>
     (if pc_mode parsed = IpToIp
      then find (\<lambda>c. cidr_prefixLength c \<noteq> 32) (map the (map parseIpv4Cidr (pc_destinationCidrs parsed))) = None
        \<and> (allowPrivateDestinations cfg
           \<or> find (\<lambda>c. \<not> isGlobalIpv4Cidr c) (map the (map parseIpv4Cidr (pc_destinationCidrs parsed))) = None)
      else isFullTunnelDestination (map the (map parseIpv4Cidr (pc_destinationCidrs parsed))))
     \<and> source_ok (pc_sourceCidr parsed)"
    by (simp add: validateSessionAbusePolicy_def Let_def check_source_None del: map_map split: option.split)
  then show ?thesis
    unfolding full_tunnel_iff[OF False] using hosts_ok_iff[OF False]
    by (simp del: map_map split: session_mode.split)
qed

text \<open>
  C38: The abuse policy accepts a parsed session exactly when its destinations are what its mode
  allows and its source restriction parses: for \<open>IpToIp\<close> every destination is one IPv4 host, and
  unless private destinations are allowed its 32-bit address lies in none of the fifteen reserved
  intervals of addresses; for \<open>FullTunnel\<close> the single destination is the default route.
\<close>

theorem abuse_policy_exact:
  "validateSessionAbusePolicy parsed cfg = None \<longleftrightarrow>
     (case pc_mode parsed of
        IpToIp \<Rightarrow> list_all (host_ok (allowPrivateDestinations cfg)) (pc_destinationCidrs parsed)
      | FullTunnel \<Rightarrow> (\<exists>d. pc_destinationCidrs parsed = [d] \<and> default_route d))
     \<and> source_ok (pc_sourceCidr parsed)"
  by (simp add: abuse_policy_cases list_all_iff split: session_mode.split)

lemma host_text: 
  assumes "a < 256" "b < 256" "c < 256" "d < 256"
  shows "host_ok False (ipv4_text a b c d @ ''/32'') \<longleftrightarrow> public_number (ipv4_number a b c d)"
proof -
  have "js_nat 32 = ''32''" by code_simp
  with parseIpv4Cidr_text[OF assms, of 32] show ?thesis by (auto simp: host_ok_def)
qed

text \<open>What parsing a body promises, in terms of the fields of the body.\<close>

definition gate_fields :: "js_record \<Rightarrow> string option \<times> string option \<times> string option \<times> string option" where
  "gate_fields spec = (json_text (js_prop spec ''ingressGateName''), json_text (js_prop spec ''ingressGateId''),
     json_text (js_prop spec ''egressGateName''), json_text (js_prop spec ''egressGateId''))"

definition two_gates :: "string option \<times> string option \<times> string option \<times> string option \<Rightarrow> bool" where
  "two_gates g = (case g of (inName, inId, outName, outId) \<Rightarrow>
     (inName \<noteq> None \<or> inId \<noteq> None) \<and> (outName \<noteq> None \<or> outId \<noteq> None)
     \<and> \<not> (inName \<noteq> None \<and> inName = outName) \<and> \<not> (inId \<noteq> None \<and> inId = outId))"

lemma js_prop_Nil [simp]: "js_prop [] k = None"
  by (simp add: js_prop_def)

lemma js_prop_Cons [simp]: "js_prop ((k', v) # r) k = (if k = k' then Some v else js_prop r k)"
  by (simp add: js_prop_def)

lemma js_prop_append: "js_prop (a @ b) k = (case js_prop a k of None \<Rightarrow> js_prop b k | Some v \<Rightarrow> Some v)"
  by (simp add: js_prop_def map_add_def split: option.split)

lemma js_prop_opt_field: "js_prop (opt_field k' v) k = (if k = k' then map_option JStr v else None)"
  by (simp add: opt_field_def split: option.split)

lemma json_text_map [simp]: "json_text (map_option JStr v) = v"
  by (simp add: json_text_def split: option.split)

lemma request_spec_lookup:
  fixes body proto mode ds src key inN outN inI outI
  defines "s \<equiv> request_spec body proto mode ds src key inN outN inI outI"
  shows "js_prop s ''destinationCidrs'' = Some (JArr (map JStr ds))"
    "js_prop s ''mode'' = Some (JStr (show_mode mode))"
    "js_prop s ''desiredState'' = Some (JStr ''Active'')"
    "js_prop s ''clientPublicKey'' = map_option JStr key"
    "js_prop s ''ingressGateName'' = map_option JStr inN"
    "js_prop s ''egressGateName'' = map_option JStr outN"
    "js_prop s ''ingressGateId'' = map_option JStr inI"
    "js_prop s ''egressGateId'' = map_option JStr outI"
  by (simp_all add: s_def request_spec_def js_prop_append js_prop_opt_field split: option.splits)

lemma json_text_JStr [simp]: "json_text (Some (JStr s)) = Some s"
  by (simp add: json_text_def)

text \<open>The two gates a body names, each by its name or its identifier.\<close>

definition named_gates :: "js_record \<Rightarrow> string option \<times> string option \<times> string option \<times> string option" where
  "named_gates body = (or_null (readString body ''ingressGateName''), or_null (readString body ''ingressGateId''),
     or_null (readString body ''egressGateName''), or_null (readString body ''egressGateId''))"

lemma normalized_cidr: "s \<noteq> [] \<Longrightarrow> normalizeRequiredCidr s \<noteq> []"
  by (simp add: normalizeRequiredCidr_def)

lemma normalized_destinations:
  assumes "normalizeDestinationCidrs body mode = ds" "ds \<noteq> []"
  shows "ds = (if readStringArray (js_prop body ''destinationCidrs'') \<noteq> []
      then map normalizeRequiredCidr (readStringArray (js_prop body ''destinationCidrs''))
      else if mode = IpToIp then [ipToCidr (readString body ''targetIp'')] else [''0.0.0.0/0''])"
    "readStringArray (js_prop body ''destinationCidrs'') = [] \<Longrightarrow> mode = IpToIp \<Longrightarrow> readString body ''targetIp'' \<noteq> []"
proof -
  have "s \<noteq> []" if "s \<in> set (readStringArray v)" for s v
    using that trimmed_strings_not_Nil by (auto simp: readStringArray_def split: option.splits json.splits)
  then have "filter (\<lambda>s. s \<noteq> []) (map normalizeRequiredCidr (readStringArray v)) = map normalizeRequiredCidr (readStringArray v)" for v
    using normalized_cidr by (auto simp: filter_id_conv)
  with assms show "ds = (if readStringArray (js_prop body ''destinationCidrs'') \<noteq> []
      then map normalizeRequiredCidr (readStringArray (js_prop body ''destinationCidrs''))
      else if mode = IpToIp then [ipToCidr (readString body ''targetIp'')] else [''0.0.0.0/0''])"
    by (cases mode) (auto simp: normalizeDestinationCidrs_def Let_def split: if_splits)
  from assms show "readStringArray (js_prop body ''destinationCidrs'') = [] \<Longrightarrow> mode = IpToIp \<Longrightarrow> readString body ''targetIp'' \<noteq> []"
    by (auto simp: normalizeDestinationCidrs_def Let_def split: if_splits)
qed

text \<open>
  C39: A body is turned into a session only if it names an ingress and an egress gate that differ,
  its client key and request id (when given) are a canonical non-zero WireGuard key and a UUID, and
  it has a destination.  The specification then holds exactly what the body says: under
  \<open>ingressGateName\<close>, \<open>ingressGateId\<close>, \<open>egressGateName\<close> and \<open>egressGateId\<close> the trimmed texts of these
  fields, its client key and mode, and as destinations its \<open>destinationCidrs\<close> (a plain address made
  a \<open>/32\<close>), without them its \<open>targetIp\<close>, or the default route for a full tunnel; and it asks for
  the desired state \<open>Active\<close>.
\<close>

theorem parsed_request_sound:
  assumes "parseSessionCreateBody body = Inr p"
  shows "gate_fields (pc_spec p) = named_gates body \<and> two_gates (named_gates body)
    \<and> show_mode (pc_mode p) = readString body ''mode''
    \<and> js_prop (pc_spec p) ''mode'' = Some (JStr (readString body ''mode''))
    \<and> pc_destinationCidrs p \<noteq> []
    \<and> pc_destinationCidrs p = (if readStringArray (js_prop body ''destinationCidrs'') \<noteq> []
        then map normalizeRequiredCidr (readStringArray (js_prop body ''destinationCidrs''))
        else if pc_mode p = IpToIp then [ipToCidr (readString body ''targetIp'')] else [''0.0.0.0/0''])
    \<and> js_prop (pc_spec p) ''destinationCidrs'' = Some (JArr (map JStr (pc_destinationCidrs p)))
    \<and> pc_clientPublicKey p = or_null (readString body ''clientPublicKey'')
    \<and> json_text (js_prop (pc_spec p) ''clientPublicKey'') = pc_clientPublicKey p
    \<and> (\<forall>k. pc_clientPublicKey p = Some k \<longrightarrow> isWireGuardPublicKey k)
    \<and> pc_createRequestId p = or_null (or_else (readString body ''paymentRequestId'') (readString body ''requestId''))
    \<and> (\<forall>r. pc_createRequestId p = Some r \<longrightarrow> isUuid r)
    \<and> json_text (js_prop (pc_spec p) ''desiredState'') = Some ''Active''"
proof -
  obtain proto mode ds where c: "checked_request body proto mode ds = Inr p" "ds \<noteq> []"
      "show_mode mode = readString body ''mode''" "normalizeDestinationCidrs body mode = ds"
    using assms by (auto simp: parseSessionCreateBody_def Let_def split: sum.splits if_splits)
  then have s: "pc_spec p = request_spec body proto mode (pc_destinationCidrs p) (pc_sourceCidr p)
      (pc_clientPublicKey p) (or_null (readString body ''ingressGateName''))
      (or_null (readString body ''egressGateName'')) (or_null (readString body ''ingressGateId''))
      (or_null (readString body ''egressGateId''))" "pc_mode p = mode" "pc_destinationCidrs p = ds"
      "pc_clientPublicKey p = or_null (readString body ''clientPublicKey'')"
      "pc_createRequestId p = or_null (or_else (readString body ''paymentRequestId'') (readString body ''requestId''))"
    unfolding checked_request_def Let_def by (auto split: if_splits)
  have "two_gates (named_gates body) \<and> (\<forall>k. pc_clientPublicKey p = Some k \<longrightarrow> isWireGuardPublicKey k)
      \<and> (\<forall>r. pc_createRequestId p = Some r \<longrightarrow> isUuid r)"
    using c(1) unfolding checked_request_def Let_def
    by (auto simp: named_gates_def two_gates_def split: if_splits option.splits)
  moreover have "gate_fields (pc_spec p) = named_gates body"
    by (simp add: s(1) gate_fields_def named_gates_def request_spec_lookup)
  moreover have "js_prop (pc_spec p) ''mode'' = Some (JStr (readString body ''mode''))"
    "js_prop (pc_spec p) ''destinationCidrs'' = Some (JArr (map JStr (pc_destinationCidrs p)))"
    "json_text (js_prop (pc_spec p) ''clientPublicKey'') = pc_clientPublicKey p"
    "json_text (js_prop (pc_spec p) ''desiredState'') = Some ''Active''"
    by (simp_all add: s(1) request_spec_lookup c(3))
  ultimately show ?thesis
    using normalized_destinations(1)[OF c(4,2)] c(2,3) s(2-5) by simp
qed

definition sample_body :: js_record where
  "sample_body = [(''mode'', JStr ''IpToIp''), (''targetIp'', JStr '' 8.8.8.8 ''),
     (''ingressGateName'', JStr ''fra1''), (''egressGateName'', JStr ''nyc1'')]"

theorem parsed_request_sound_witness:
  "\<exists>p. parseSessionCreateBody sample_body = Inr p \<and> pc_destinationCidrs p = [''8.8.8.8/32'']
     \<and> gate_fields (pc_spec p) = (Some ''fra1'', None, Some ''nyc1'', None)"
proof -
  have "case parseSessionCreateBody sample_body of Inr p \<Rightarrow> pc_destinationCidrs p = [''8.8.8.8/32''] | Inl _ \<Rightarrow> False"
    by code_simp
  then obtain p where p: "parseSessionCreateBody sample_body = Inr p" "pc_destinationCidrs p = [''8.8.8.8/32'']"
    by (cases "parseSessionCreateBody sample_body") simp_all
  have "named_gates sample_body = (Some ''fra1'', None, Some ''nyc1'', None)" by code_simp
  with parsed_request_sound[OF p(1)] p show ?thesis by auto
qed

end
