(* ===== verification/Database.thy ===== *)
theory Database
  imports SessionRequest
begin

section \<open>The database\<close>

text \<open>
  The tables of \<open>packages/db/migrations\<close> that the modelled components read and write, as lists
  of rows in insertion order, with the columns the code uses.  Every repository function is a
  function on the record \<open>db\<close>; what a statement takes from outside the tables is in the record
  \<open>env\<close>: \<open>now()\<close>, which PostgreSQL keeps fixed during a transaction, the supply of
  \<open>gen_random_uuid()\<close>, the cryptography of \<open>node:crypto\<close> and the key pairs drawn for a plan.

  A transaction is one function from \<open>db\<close> to \<open>db\<close>: transactions are serialised, so
  \<open>FOR UPDATE SKIP LOCKED\<close> finds no row locked by another transaction.
\<close>

subsection \<open>Environment\<close>

type_synonym encrypted = string  \<comment> \<open>an \<open>EncryptedJsonPayload\<close>, opaque\<close>

record env =
  env_now :: time
  env_uuid :: "nat \<Rightarrow> uuid"
  env_encrypt :: "js_record \<Rightarrow> string \<Rightarrow> encrypted"
  env_decrypt :: "encrypted \<Rightarrow> js_record"
  env_keyPair :: "uuid \<Rightarrow> string \<times> string"
  env_tunnelDraw :: "uuid \<Rightarrow> string \<times> int \<times> int"
  env_keyFingerprint :: "string \<Rightarrow> string"
  env_reencode :: "string \<Rightarrow> string"
  env_sha256 :: "string \<Rightarrow> string"

subsection \<open>Sessions\<close>

record session_row =
  ss_id :: uuid
  ss_account :: "uuid option"
  ss_createRequest :: "string option"
  ss_mode :: session_mode
  ss_destinations :: "string list"
  ss_sourceCidr :: "string option"
  ss_clientPublicKey :: "string option"
  ss_label :: "string option"
  ss_spec :: js_record
  ss_pathPolicy :: json
  ss_artifactPolicy :: json
  ss_generation :: int
  ss_desired :: session_desired
  ss_created :: time
  ss_updated :: time
  ss_hidden :: "time option"

record session_status_row =
  st_session :: uuid
  st_phase :: session_phase
  st_observedGeneration :: int
  st_selectedPath :: "json option"
  st_artifact :: "uuid option"
  st_lastError :: "json option"
  st_updated :: time

record condition_row =
  cn_owner :: uuid
  cn_type :: string
  cn_status :: condition_status
  cn_reason :: string
  cn_message :: string
  cn_observedGeneration :: "int option"
  cn_lastTransition :: time

record audit_row =
  au_event :: string
  au_actorType :: string
  au_actor :: "uuid option"
  au_account :: "uuid option"
  au_session :: "uuid option"
  au_gate :: "uuid option"
  au_details :: json
  au_created :: time

record plan_row =
  pl_id :: uuid
  pl_session :: uuid
  pl_generation :: int
  pl_hash :: string
  pl_public :: js_record
  pl_routing :: js_record
  pl_firewall :: js_record
  pl_secretRefs :: js_record
  pl_created :: time

record config_payment_row =
  cp_id :: uuid
  cp_session :: "uuid option"
  cp_account :: uuid
  cp_status :: string
  cp_signature :: "string option"
  cp_trafficLimit :: "int option"

record grant_row =
  cg_session :: uuid
  cg_user :: uuid
  cg_reason :: string
  cg_included :: int

record traffic_row =
  te_session :: uuid
  te_included :: int
  te_consumed :: int
  te_exhausted :: "time option"
  te_updated :: time

record entitlement_row =
  en_session :: "uuid option"
  en_expiry :: time
  en_revoked :: "time option"

record probe_run_row =
  pr_id :: uuid
  pr_session :: "uuid option"
  pr_targets :: "string list"
  pr_status :: string
  pr_completed :: "time option"

subsection \<open>Gate assignments and jobs\<close>

record assignment_row =
  ga_id :: uuid
  ga_session :: uuid
  ga_gate :: uuid
  ga_role :: gate_role
  ga_generation :: int
  ga_desired :: assignment_desired
  ga_handle :: string
  ga_plan :: uuid
  ga_updated :: time

record assignment_status_row =
  as_assignment :: uuid
  as_phase :: assignment_phase
  as_observedGeneration :: int
  as_appliedPlan :: "uuid option"
  as_hash :: "string option"
  as_material :: js_record
  as_reported :: js_record
  as_appliedAt :: "time option"
  as_revokedAt :: "time option"
  as_lastObserved :: "time option"
  as_lastError :: "json option"
  as_updated :: time

record job_row =
  jb_id :: uuid
  jb_type :: job_type
  jb_phase :: job_phase
  jb_gate :: "uuid option"
  jb_session :: "uuid option"
  jb_assignment :: "uuid option"
  jb_payload :: js_record
  jb_leaseOwner :: "string option"
  jb_leaseExpires :: "time option"
  jb_runAfter :: time
  jb_retryCount :: int
  jb_maxRetries :: int
  jb_created :: time
  jb_updated :: time

record attempt_row =
  at_job :: uuid
  at_number :: int
  at_owner :: string
  at_leaseExpires :: time
  at_completed :: "time option"
  at_result :: "js_record option"
  at_error :: "string option"
  at_hash :: "string option"

subsection \<open>Gates\<close>

record gate_row =
  gt_id :: uuid
  gt_name :: string
  gt_generation :: int
  gt_desired :: gate_desired
  gt_city :: string
  gt_country :: string
  gt_publicIpv4 :: string
  gt_weight :: int
  gt_spec :: js_record
  gt_updated :: time

record gate_status_row =
  gs_gate :: uuid
  gs_observedGeneration :: int
  gs_agentVersion :: "string option"
  gs_agentRevision :: "string option"
  gs_agentBuiltAt :: "string option"
  gs_artifactSha256 :: "string option"
  gs_installedAt :: "time option"
  gs_bootId :: "string option"
  gs_lastSeen :: "time option"
  gs_endpoint :: "string option"
  gs_capabilities :: "string list"
  gs_doubleZero :: js_record
  gs_currentDevice :: "string option"
  gs_lowestDevice :: "string option"
  gs_deviceWarning :: "bool option"
  gs_hash :: "string option"
  gs_updated :: time

record gate_lease_row =
  gl_gate :: uuid
  gl_owner :: string
  gl_expires :: time
  gl_heartbeat :: time

record snapshot_row =
  sn_id :: uuid
  sn_gate :: uuid
  sn_bootId :: "string option"
  sn_hash :: string
  sn_handles :: "string list"
  sn_reportedAt :: "time option"
  sn_receivedAt :: time

text \<open>The counters of a gate agent for one assignment, since its boot.\<close>

record counters =
  wireGuardClientReceiveBytes :: int
  wireGuardClientTransmitBytes :: int
  wireGuardTransitReceiveBytes :: int
  wireGuardTransitTransmitBytes :: int
  forwardedToDestinationPackets :: int
  forwardedToDestinationBytes :: int
  forwardedFromDestinationPackets :: int
  forwardedFromDestinationBytes :: int
  droppedToDestinationPackets :: int
  droppedToDestinationBytes :: int
  droppedFromDestinationPackets :: int
  droppedFromDestinationBytes :: int

record sample_row =
  cs_id :: uuid
  cs_gate :: uuid
  cs_assignment :: uuid
  cs_bootId :: string
  cs_generation :: int
  cs_role :: gate_role
  cs_sampledAt :: time
  cs_counters :: counters

record delta_row =
  ud_sample :: uuid
  ud_gate :: uuid
  ud_assignment :: uuid
  ud_bootId :: string
  ud_generation :: int
  ud_role :: gate_role
  ud_windowStart :: time
  ud_windowEnd :: time
  ud_counters :: counters

datatype deployment_phase =
    D_queued | D_staging | D_verifying | D_succeeded | D_rollback_requested | D_rolling_back
  | D_rolled_back | D_failed

record release_row =
  rl_id :: uuid
  rl_version :: string
  rl_revision :: string
  rl_builtAt :: time
  rl_sha256 :: string
  rl_createdBy :: string
  rl_created :: time

record deployment_row =
  dp_id :: uuid
  dp_gate :: uuid
  dp_release :: uuid
  dp_phase :: deployment_phase
  dp_previousVersion :: "string option"
  dp_previousRevision :: "string option"
  dp_previousSha256 :: "string option"
  dp_requestedBy :: string
  dp_requestedAt :: time
  dp_stagedAt :: "time option"
  dp_installedAt :: "time option"
  dp_verifiedAt :: "time option"
  dp_rollbackRequestedAt :: "time option"
  dp_rollbackAttempts :: int
  dp_rolledBackAt :: "time option"
  dp_failedAt :: "time option"
  dp_deadline :: time
  dp_failureCode :: "string option"
  dp_failureMessage :: "string option"
  dp_updated :: time

subsection \<open>Addresses and artifacts\<close>

record pool_row =
  pool_id :: uuid
  pool_name :: string
  pool_cidr :: string
  pool_family :: int
  pool_purpose :: string
  pool_enabled :: bool
  pool_priority :: int
  pool_nextOffset :: nat
  pool_updated :: time

record address_lease_row =
  al_pool :: uuid
  al_session :: uuid
  al_address :: string
  al_allocated :: time
  al_released :: "time option"
  al_reason :: "string option"

record artifact_row =
  ar_id :: uuid
  ar_session :: uuid
  ar_type :: string
  ar_phase :: artifact_phase
  ar_public :: js_record
  ar_fingerprints :: "string list"
  ar_issuedAt :: "time option"
  ar_downloadedAt :: "time option"
  ar_invalidatedAt :: "time option"
  ar_created :: time

record token_row =
  dt_id :: uuid
  dt_artifact :: uuid
  dt_hash :: string
  dt_user :: uuid
  dt_expires :: time
  dt_used :: "time option"
  dt_revoked :: "time option"

subsection \<open>All tables\<close>

record db =
  sessions :: "session_row list"
  session_status :: "session_status_row list"
  session_conditions :: "condition_row list"
  audit_events :: "audit_row list"
  rendered_plans :: "plan_row list"
  plan_secrets :: "(uuid \<times> encrypted) list"
  config_payments :: "config_payment_row list"
  config_grants :: "grant_row list"
  traffic_entitlements :: "traffic_row list"
  entitlements :: "entitlement_row list"
  probe_runs :: "probe_run_row list"
  gate_assignments :: "assignment_row list"
  assignment_status :: "assignment_status_row list"
  jobs :: "job_row list"
  job_attempts :: "attempt_row list"
  gates :: "gate_row list"
  gate_status :: "gate_status_row list"
  gate_conditions :: "condition_row list"
  gate_leases :: "gate_lease_row list"
  snapshots :: "snapshot_row list"
  counter_samples :: "sample_row list"
  usage_deltas :: "delta_row list"
  releases :: "release_row list"
  deployments :: "deployment_row list"
  deployment_events :: "(uuid \<times> string \<times> js_record) list"
  address_pools :: "pool_row list"
  address_leases :: "address_lease_row list"
  artifacts :: "artifact_row list"
  artifact_payloads :: "(uuid \<times> encrypted) list"
  download_tokens :: "token_row list"
  uuid_next :: nat

text \<open>\<open>gen_random_uuid()\<close>: the next element of the environment's supply.\<close>

definition gen_uuid :: "env \<Rightarrow> db \<Rightarrow> uuid \<times> db" where
  "gen_uuid e d = (env_uuid e (uuid_next d), d\<lparr>uuid_next := Suc (uuid_next d)\<rparr>)"

text \<open>An interval of \<open>n\<close> seconds.\<close>

definition seconds :: "int \<Rightarrow> time" where
  "seconds n = n * 1000"

definition audit :: "env \<Rightarrow> audit_row \<Rightarrow> db \<Rightarrow> db" where
  "audit e a d = d\<lparr>audit_events := audit_events d @ [a\<lparr>au_created := env_now e\<rparr>]\<rparr>"

definition audit_blank :: audit_row where
  "audit_blank = \<lparr>au_event = [], au_actorType = [], au_actor = None, au_account = None,
     au_session = None, au_gate = None, au_details = JObj [], au_created = 0\<rparr>"

text \<open>\<open>JSON.stringify(x ?? null)::jsonb\<close>: a JSON null is stored, not SQL's \<open>NULL\<close>.\<close>

definition jsonb_or_null :: "json option \<Rightarrow> json option" where
  "jsonb_or_null x = Some (case x of None \<Rightarrow> JNull | Some v \<Rightarrow> v)"

text \<open>
  \<open>INSERT INTO ..._conditions ... ON CONFLICT (owner, type) DO UPDATE\<close>, shared by the session
  and the gate conditions: the transition time moves only when the status does.
\<close>

definition upsert_condition :: "env \<Rightarrow> condition_row \<Rightarrow> condition_row list \<Rightarrow> condition_row list" where
  "upsert_condition e new t =
     upsert (\<lambda>r. cn_owner r = cn_owner new \<and> cn_type r = cn_type new)
       (\<lambda>r. new\<lparr>cn_lastTransition := (if cn_status r \<noteq> cn_status new then env_now e
                                       else cn_lastTransition r)\<rparr>)
       (new\<lparr>cn_lastTransition := env_now e\<rparr>) t"

subsection \<open>Status of a session\<close>

definition phase_of :: "db \<Rightarrow> uuid \<Rightarrow> session_phase option" where
  "phase_of d s = map_option st_phase (row_of st_session s (session_status d))"

definition session_of :: "db \<Rightarrow> uuid \<Rightarrow> session_row option" where
  "session_of d s = row_of ss_id s (sessions d)"

definition assignment_phase_of :: "db \<Rightarrow> uuid \<Rightarrow> assignment_phase option" where
  "assignment_phase_of d a = map_option as_phase (row_of as_assignment a (assignment_status d))"

definition job_of :: "db \<Rightarrow> uuid \<Rightarrow> job_row option" where
  "job_of d j = row_of jb_id j (jobs d)"

end
