(* ===== verification/Addresses.thy ===== *)
theory Addresses
  imports Database
begin

section \<open>Client addresses\<close>

text \<open>
  \<open>resources/addresses\<close>: every session gets one IPv4 address from the enabled WireGuard pools.
  The allocator walks each pool once, starting at the pool's \<open>next_offset\<close>, and relies on two
  partial unique indexes (one active lease per address, one per session) to reject a taken
  address.  Both loops are instances of \<open>attempt_loop\<close>.
\<close>

subsection \<open>Address arithmetic (\<open>allocator.ts\<close>)\<close>

text \<open>
  \<open>Number(s)\<close> on the decimal numerals that a \<open>cidr\<close> column prints (the empty string is 0); no
  other numeral of JavaScript can occur there.
\<close>

definition js_Number :: "string \<Rightarrow> nat option" where
  "js_Number s = (let t = js_trim s in if list_all js_digit t then Some (digits_value t) else None)"

fun ipv4ToInt_parts :: "nat \<Rightarrow> string list \<Rightarrow> nat option" where
  "ipv4ToInt_parts result [] = Some result"
| "ipv4ToInt_parts result (part # parts) =
     (case parseIpv4Octet part of
        None \<Rightarrow> None
      | Some octet \<Rightarrow> ipv4ToInt_parts (result * 256 + octet) parts)"

definition ipv4ToInt :: "string \<Rightarrow> nat option" where
  "ipv4ToInt v = (let parts = js_split (CHR ''.'') (js_trim v) in
     if length parts \<noteq> 4 then None else ipv4ToInt_parts 0 parts)"

record ipv4_block =
  bk_base :: nat
  bk_prefix :: nat
  bk_size :: nat

definition parsePoolCidr :: "string \<Rightarrow> ipv4_block option" where
  "parsePoolCidr cidr =
     (case js_split (CHR ''/'') cidr of
        address # prefixRaw # _ \<Rightarrow>
          (case (js_Number prefixRaw, ipv4ToInt address) of
             (Some n, Some b) \<Rightarrow>
               if n > 32 then None
               else let size = 2 ^ (32 - n) in
                 Some \<lparr>bk_base = b div size * size, bk_prefix = n, bk_size = size\<rparr>
           | _ \<Rightarrow> None)
      | _ \<Rightarrow> None)"

definition intToIpv4 :: "nat \<Rightarrow> string" where
  "intToIpv4 v = js_join ''.'' (map js_nat
     [v div 16777216 mod 256, v div 65536 mod 256, v div 256 mod 256, v mod 256])"

definition toClientAddressCidr :: "string \<Rightarrow> string" where
  "toClientAddressCidr v = (if js_includes (CHR ''/'') v then v else v @ ''/32'')"

subsection \<open>The repository (\<open>repository.ts\<close>)\<close>

text \<open>\<open>client_address::text\<close>: the cast prints the netmask of a host address.\<close>

definition inet_text :: "string \<Rightarrow> string" where
  "inet_text a = a @ ''/32''"

definition findActiveClientAddressLease :: "db \<Rightarrow> uuid \<Rightarrow> string option" where
  "findActiveClientAddressLease d sessionId =
     map_option (\<lambda>l. inet_text (al_address l))
       (find (\<lambda>l. al_session l = sessionId \<and> al_released l = None) (address_leases d))"

definition listWireGuardAddressPoolsForUpdate :: "db \<Rightarrow> pool_row list" where
  "listWireGuardAddressPoolsForUpdate d =
     sort_key (\<lambda>p. (pool_priority p, pool_name p))
       (filter (\<lambda>p. pool_enabled p \<and> pool_family p = 4 \<and> pool_purpose p = ''wireguard_client'')
          (address_pools d))"

text \<open>What the two partial unique indexes forbid.\<close>

definition lease_conflict :: "uuid \<Rightarrow> string \<Rightarrow> address_lease_row \<Rightarrow> bool" where
  "lease_conflict sessionId address l \<longleftrightarrow>
     al_released l = None \<and> (al_address l = address \<or> al_session l = sessionId)"

definition tryInsertClientAddressLease ::
    "env \<Rightarrow> uuid \<Rightarrow> uuid \<Rightarrow> string \<Rightarrow> db \<Rightarrow> db \<times> string option" where
  "tryInsertClientAddressLease e poolId sessionId address d =
     (if list_ex (lease_conflict sessionId address) (address_leases d) then (d, None)
      else (d\<lparr>address_leases := address_leases d @
              [\<lparr>al_pool = poolId, al_session = sessionId, al_address = address,
                al_allocated = env_now e, al_released = None, al_reason = None\<rparr>]\<rparr>,
            Some (inet_text address)))"

definition updateAddressPoolNextOffset :: "env \<Rightarrow> uuid \<Rightarrow> nat \<Rightarrow> db \<Rightarrow> db" where
  "updateAddressPoolNextOffset e poolId nextOffset d =
     d\<lparr>address_pools := update_where (\<lambda>p. pool_id p = poolId)
         (\<lambda>p. p\<lparr>pool_nextOffset := nextOffset, pool_updated := env_now e\<rparr>) (address_pools d)\<rparr>"

definition markClientAddressLeaseReleased :: "env \<Rightarrow> uuid \<Rightarrow> string \<Rightarrow> db \<Rightarrow> db" where
  "markClientAddressLeaseReleased e sessionId reason d =
     d\<lparr>address_leases := update_where (\<lambda>l. al_session l = sessionId \<and> al_released l = None)
         (\<lambda>l. l\<lparr>al_released := Some (env_now e), al_reason := Some reason\<rparr>) (address_leases d)\<rparr>"

subsection \<open>The allocator\<close>

definition attempt_offset ::
    "env \<Rightarrow> uuid \<Rightarrow> pool_row \<Rightarrow> ipv4_block \<Rightarrow> nat \<Rightarrow> db \<Rightarrow> db \<times> string option" where
  "attempt_offset e sessionId pool block attempt d =
     (let startOffset = pool_nextOffset pool mod bk_size block;
          offset = (startOffset + attempt) mod bk_size block;
          clientAddress = intToIpv4 (bk_base block + offset)
      in case tryInsertClientAddressLease e (pool_id pool) sessionId clientAddress d of
           (d', None) \<Rightarrow> (d', None)
         | (d', Some insertedAddress) \<Rightarrow>
             (updateAddressPoolNextOffset e (pool_id pool) ((offset + 1) mod bk_size block) d',
              Some (toClientAddressCidr insertedAddress)))"

definition attempt_pool :: "env \<Rightarrow> uuid \<Rightarrow> pool_row \<Rightarrow> db \<Rightarrow> db \<times> string option" where
  "attempt_pool e sessionId pool d =
     (case parsePoolCidr (pool_cidr pool) of
        None \<Rightarrow> (d, None)
      | Some block \<Rightarrow> first_success (attempt_offset e sessionId pool block) [0..<bk_size block] d)"

definition ensureClientAddressLease :: "env \<Rightarrow> uuid \<Rightarrow> db \<Rightarrow> db \<times> string option" where
  "ensureClientAddressLease e sessionId d =
     (case findActiveClientAddressLease d sessionId of
        Some existingAddress \<Rightarrow> (d, Some (toClientAddressCidr existingAddress))
      | None \<Rightarrow> first_success (attempt_pool e sessionId) (listWireGuardAddressPoolsForUpdate d) d)"

definition releaseClientAddressLease :: "env \<Rightarrow> uuid \<Rightarrow> string \<Rightarrow> db \<Rightarrow> db" where
  "releaseClientAddressLease e sessionId reason = markClientAddressLeaseReleased e sessionId reason"

subsection \<open>Addresses as numbers\<close>

lemma ipv4ToInt_quad:
  assumes "a < 256" "b < 256" "c < 256" "d < 256"
  shows "ipv4ToInt (js_join ''.'' (map js_nat [a, b, c, d]))
    = Some (((a * 256 + b) * 256 + c) * 256 + d)"
proof -
  have "js_trim (js_join ''.'' (map js_nat [a, b, c, d])) = js_join ''.'' (map js_nat [a, b, c, d])"
    by (rule js_trim_space_free) (auto dest!: js_nat_digits simp: js_digit_def js_space_def)
  moreover have "js_split (CHR ''.'') (js_join ''.'' (map js_nat [a, b, c, d])) = map js_nat [a, b, c, d]"
    by (rule js_split_join) (auto dest!: js_nat_digits simp: js_digit_def)
  ultimately show ?thesis
    using assms by (simp add: ipv4ToInt_def parseIpv4Octet_js_nat)
qed

lemma ipv4ToInt_intToIpv4:
  assumes "n < 4294967296"
  shows "ipv4ToInt (intToIpv4 n) = Some n"
proof -
  have "n div 16777216 mod 256 = n div 16777216" using assms by (simp add: less_mult_imp_div_less)
  moreover have "n div 16777216 * 256 + n div 65536 mod 256 = n div 65536"
    using div_mult_mod_eq[of "n div 65536" 256] by (simp add: div_mult2_eq[symmetric])
  moreover have "n div 65536 * 256 + n div 256 mod 256 = n div 256"
    using div_mult_mod_eq[of "n div 256" 256] by (simp add: div_mult2_eq[symmetric])
  ultimately have "((n div 16777216 mod 256 * 256 + n div 65536 mod 256) * 256
      + n div 256 mod 256) * 256 + n mod 256 = n"
    by (metis div_mult_mod_eq)
  moreover have "m mod 256 < (256 :: nat)" for m by simp
  ultimately show ?thesis
    unfolding intToIpv4_def by (simp only: ipv4ToInt_quad)
qed

lemma intToIpv4_inj: "m < 4294967296 \<Longrightarrow> n < 4294967296 \<Longrightarrow> intToIpv4 m = intToIpv4 n \<Longrightarrow> m = n"
  using ipv4ToInt_intToIpv4 by (metis option.inject)

lemma intToIpv4_no_slash: "CHR ''/'' \<notin> set (intToIpv4 n)"
  by (auto simp: intToIpv4_def js_digit_def dest!: js_nat_digits)

lemma toClientAddressCidr_inet [simp]: "toClientAddressCidr (inet_text a) = a @ ''/32''"
  by (simp add: toClientAddressCidr_def inet_text_def js_includes_def)

lemma parts_bound: "ipv4ToInt_parts r ps = Some n \<Longrightarrow> n < (r + 1) * 256 ^ length ps"
proof (induction ps arbitrary: r)
  case (Cons p ps)
  then obtain o1 where o1: "parseIpv4Octet p = Some o1" "ipv4ToInt_parts (r * 256 + o1) ps = Some n"
    by (auto split: option.splits)
  then have "n < (r * 256 + o1 + 1) * 256 ^ length ps" using Cons.IH by simp
  also have "\<dots> \<le> ((r + 1) * 256) * 256 ^ length ps"
    using parseIpv4Octet_bound[OF o1(1)] by (intro mult_le_mono1) simp
  finally show ?case by (simp add: algebra_simps)
qed simp

lemma ipv4ToInt_bound: "ipv4ToInt v = Some n \<Longrightarrow> n < 4294967296"
  using parts_bound[of 0 "js_split (CHR ''.'') (js_trim v)" n]
  by (auto simp: ipv4ToInt_def Let_def split: if_splits)

text \<open>A parsed pool is an aligned block of the 32-bit address space.\<close>

lemma block_bounds:
  assumes "parsePoolCidr cidr = Some b"
  shows "0 < bk_size b \<and> bk_base b + bk_size b \<le> 4294967296 \<and> bk_size b dvd bk_base b"
proof -
  obtain n a where n: "n \<le> 32" "a < 4294967296"
    "b = \<lparr>bk_base = a div 2 ^ (32 - n) * 2 ^ (32 - n), bk_prefix = n, bk_size = 2 ^ (32 - n)\<rparr>"
    using assms
    by (auto simp: parsePoolCidr_def Let_def not_less dest: ipv4ToInt_bound
        split: list.splits option.splits if_splits intro: that)
  define k :: nat where "k = 2 ^ (32 - n)"
  have two: "(4294967296 :: nat) = 2 ^ n * k"
    using n(1) by (simp add: k_def flip: power_add)
  have "a div k < 2 ^ n" using n(2) two by (simp add: less_mult_imp_div_less)
  then have "(a div k + 1) * k \<le> 2 ^ n * k" by (intro mult_le_mono1) simp
  then show ?thesis using n(3) two by (simp add: k_def algebra_simps)
qed

subsection \<open>The two loops\<close>

definition address_free :: "uuid \<Rightarrow> ipv4_block \<Rightarrow> db \<Rightarrow> nat \<Rightarrow> bool" where
  "address_free sessionId block d offset \<longleftrightarrow>
     \<not> list_ex (lease_conflict sessionId (intToIpv4 (bk_base block + offset))) (address_leases d)"

definition offset_at :: "pool_row \<Rightarrow> ipv4_block \<Rightarrow> nat \<Rightarrow> nat" where
  "offset_at pool block attempt = (pool_nextOffset pool mod bk_size block + attempt) mod bk_size block"

definition pool_has_free :: "uuid \<Rightarrow> db \<Rightarrow> pool_row \<Rightarrow> bool" where
  "pool_has_free sessionId d pool \<longleftrightarrow> (\<exists>block. parsePoolCidr (pool_cidr pool) = Some block
     \<and> (\<exists>attempt<bk_size block. address_free sessionId block d (offset_at pool block attempt)))"

interpretation offsets: attempt_loop "attempt_offset e sessionId pool block"
    "\<lambda>d attempt. address_free sessionId block d (offset_at pool block attempt)"
  for e sessionId pool block
  by unfold_locales
    (auto simp: attempt_offset_def address_free_def offset_at_def tryInsertClientAddressLease_def Let_def)

interpretation pools: attempt_loop "attempt_pool e sessionId" "pool_has_free sessionId"
  for e sessionId
proof unfold_locales
  fix d pool
  assume "pool_has_free sessionId d pool"
  then obtain block attempt where b: "parsePoolCidr (pool_cidr pool) = Some block"
    "attempt < bk_size block" "address_free sessionId block d (offset_at pool block attempt)"
    by (auto simp: pool_has_free_def)
  then have "snd (first_success (attempt_offset e sessionId pool block) [0..<bk_size block] d) \<noteq> None"
    by (auto simp: offsets.first_success_None)
  with b(1) show "\<exists>d' a. attempt_pool e sessionId pool d = (d', Some a)"
    by (auto simp: attempt_pool_def prod_eq_iff)
next
  fix d pool
  assume "\<not> pool_has_free sessionId d pool"
  then show "attempt_pool e sessionId pool d = (d, None)"
    by (auto simp: attempt_pool_def pool_has_free_def intro!: offsets.first_success_taken
        split: option.split)
qed

text \<open>The attempts of one pool visit every offset of its block.\<close>

lemma offsets_cover:
  assumes "off < bk_size block"
  shows "\<exists>attempt<bk_size block. offset_at pool block attempt = off"
proof -
  define k where "k = bk_size block"
  define st where "st = pool_nextOffset pool mod k"
  have st: "st < k" using assms by (simp add: st_def k_def)
  let ?a = "if st \<le> off then off - st else off + k - st"
  have "?a < k \<and> (st + ?a) mod k = off" using st assms by (auto simp: k_def)
  then show ?thesis by (auto simp: offset_at_def k_def st_def)
qed

lemma pool_has_free_iff:
  "pool_has_free sessionId d pool \<longleftrightarrow> (\<exists>block. parsePoolCidr (pool_cidr pool) = Some block
     \<and> (\<exists>off<bk_size block. address_free sessionId block d off))"
proof
  assume "pool_has_free sessionId d pool"
  then obtain block attempt where b: "parsePoolCidr (pool_cidr pool) = Some block"
    "address_free sessionId block d (offset_at pool block attempt)"
    unfolding pool_has_free_def by blast
  moreover have "offset_at pool block attempt < bk_size block"
    using block_bounds[OF b(1)] by (simp add: offset_at_def)
  ultimately show "\<exists>block. parsePoolCidr (pool_cidr pool) = Some block
     \<and> (\<exists>off<bk_size block. address_free sessionId block d off)" by blast
next
  assume "\<exists>block. parsePoolCidr (pool_cidr pool) = Some block
     \<and> (\<exists>off<bk_size block. address_free sessionId block d off)"
  then show "pool_has_free sessionId d pool"
    using offsets_cover unfolding pool_has_free_def by metis
qed

subsection \<open>Exclusive leases\<close>

definition active_leases :: "db \<Rightarrow> address_lease_row list" where
  "active_leases d = filter (\<lambda>l. al_released l = None) (address_leases d)"

definition leases_exclusive :: "db \<Rightarrow> bool" where
  "leases_exclusive d \<longleftrightarrow>
     distinct (map al_address (active_leases d)) \<and> distinct (map al_session (active_leases d))"

definition has_lease :: "db \<Rightarrow> uuid \<Rightarrow> bool" where
  "has_lease d sessionId \<longleftrightarrow> (\<exists>l\<in>set (active_leases d). al_session l = sessionId)"

text \<open>An allocation that succeeds adds one lease, for an unleased address of some pool.\<close>

definition new_lease :: "db \<Rightarrow> uuid \<Rightarrow> string \<Rightarrow> db \<Rightarrow> bool" where
  "new_lease d sessionId address d' \<longleftrightarrow>
     (\<exists>pool block off l. pool \<in> set (listWireGuardAddressPoolsForUpdate d)
        \<and> parsePoolCidr (pool_cidr pool) = Some block \<and> off < bk_size block
        \<and> address = intToIpv4 (bk_base block + off)
        \<and> (\<forall>m\<in>set (active_leases d). al_address m \<noteq> address \<and> al_session m \<noteq> sessionId)
        \<and> al_address l = address \<and> al_session l = sessionId \<and> al_released l = None
        \<and> al_pool l = pool_id pool
        \<and> address_leases d' = address_leases d @ [l])"

lemma attempt_offset_Some:
  assumes "attempt_offset e sessionId pool block attempt d = (d', Some a)"
  shows "address_free sessionId block d (offset_at pool block attempt)
    \<and> a = intToIpv4 (bk_base block + offset_at pool block attempt) @ ''/32''
    \<and> (\<exists>l. al_address l = intToIpv4 (bk_base block + offset_at pool block attempt)
         \<and> al_session l = sessionId \<and> al_released l = None \<and> al_pool l = pool_id pool
         \<and> address_leases d' = address_leases d @ [l])"
  using assms
  by (auto simp: attempt_offset_def address_free_def offset_at_def tryInsertClientAddressLease_def
      updateAddressPoolNextOffset_def Let_def split: if_splits)

lemma address_free_active:
  "address_free sessionId block d off \<longleftrightarrow> (\<forall>m\<in>set (active_leases d).
     al_address m \<noteq> intToIpv4 (bk_base block + off) \<and> al_session m \<noteq> sessionId)"
  by (auto simp: address_free_def lease_conflict_def active_leases_def list_ex_iff)

lemma first_active_iff: "findActiveClientAddressLease d s = None \<longleftrightarrow> \<not> has_lease d s"
  by (auto simp: findActiveClientAddressLease_def find_is_None has_lease_def active_leases_def list_ex_iff)

lemma ensure_new:
  assumes "\<not> has_lease d sessionId" "ensureClientAddressLease e sessionId d = (d', Some a)"
  shows "\<exists>address. a = address @ ''/32'' \<and> new_lease d sessionId address d'"
proof -
  have "first_success (attempt_pool e sessionId) (listWireGuardAddressPoolsForUpdate d) d = (d', Some a)"
    using assms by (simp add: ensureClientAddressLease_def flip: first_active_iff)
  then obtain pool where p: "pool \<in> set (listWireGuardAddressPoolsForUpdate d)"
    "attempt_pool e sessionId pool d = (d', Some a)"
    using pools.first_success_Some by (metis in_set_conv_decomp)
  then obtain block where b: "parsePoolCidr (pool_cidr pool) = Some block"
    "first_success (attempt_offset e sessionId pool block) [0..<bk_size block] d = (d', Some a)"
    by (auto simp: attempt_pool_def split: option.splits)
  from offsets.first_success_Some[OF b(2)] obtain attempt where
    "attempt_offset e sessionId pool block attempt d = (d', Some a)" by blast
  from attempt_offset_Some[OF this] obtain l where
    l: "address_free sessionId block d (offset_at pool block attempt)"
    "a = intToIpv4 (bk_base block + offset_at pool block attempt) @ ''/32''"
    "al_address l = intToIpv4 (bk_base block + offset_at pool block attempt)"
    "al_session l = sessionId" "al_released l = None" "al_pool l = pool_id pool"
    "address_leases d' = address_leases d @ [l]" by blast
  have "offset_at pool block attempt < bk_size block"
    using block_bounds[OF b(1)] by (simp add: offset_at_def)
  with p(1) b(1) l show ?thesis
    unfolding new_lease_def address_free_active by blast
qed

lemma ensure_None_iff:
  assumes "\<not> has_lease d sessionId"
  shows "snd (ensureClientAddressLease e sessionId d) = None \<longleftrightarrow>
    (\<forall>pool\<in>set (listWireGuardAddressPoolsForUpdate d). \<not> pool_has_free sessionId d pool)"
  using assms by (simp add: ensureClientAddressLease_def pools.first_success_None flip: first_active_iff)

lemma ensure_existing:
  "has_lease d sessionId \<Longrightarrow> \<exists>a. findActiveClientAddressLease d sessionId = Some a
     \<and> ensureClientAddressLease e sessionId d = (d, Some (toClientAddressCidr a))"
  by (cases "findActiveClientAddressLease d sessionId")
    (simp_all add: ensureClientAddressLease_def first_active_iff)

lemma ensure_None_same:
  assumes "snd (ensureClientAddressLease e sessionId d) = None"
  shows "fst (ensureClientAddressLease e sessionId d) = d"
proof (cases "has_lease d sessionId")
  case False
  then have "findActiveClientAddressLease d sessionId = None" by (simp add: first_active_iff)
  moreover have "\<forall>pool\<in>set (listWireGuardAddressPoolsForUpdate d). \<not> pool_has_free sessionId d pool"
    using assms False by (simp add: ensure_None_iff)
  ultimately show ?thesis by (simp add: ensureClientAddressLease_def pools.first_success_taken)
next
  case True
  from ensure_existing[OF this, of e] assms show ?thesis by auto
qed

lemma new_lease_exclusive:
  assumes "new_lease d s a d'" "leases_exclusive d"
  shows "leases_exclusive d'"
proof -
  obtain l where l: "active_leases d' = active_leases d @ [l]" "al_address l = a" "al_session l = s"
    "\<forall>m\<in>set (active_leases d). al_address m \<noteq> a \<and> al_session m \<noteq> s"
    using assms(1) unfolding new_lease_def active_leases_def by auto
  with assms(2) show ?thesis by (auto simp: leases_exclusive_def)
qed

lemma ensure_exclusive:
  assumes "leases_exclusive d"
  shows "leases_exclusive (fst (ensureClientAddressLease e sessionId d))"
proof (cases "has_lease d sessionId")
  case True
  from ensure_existing[OF this, of e] assms show ?thesis by auto
next
  case False
  show ?thesis
  proof (cases "snd (ensureClientAddressLease e sessionId d)")
    case None
    with assms show ?thesis by (simp add: ensure_None_same)
  next
    case (Some a)
    then have "ensureClientAddressLease e sessionId d = (fst (ensureClientAddressLease e sessionId d), Some a)"
      by (simp add: prod_eq_iff)
    from ensure_new[OF False this] new_lease_exclusive[OF _ assms] show ?thesis by blast
  qed
qed

lemma active_release:
  "active_leases (markClientAddressLeaseReleased e s r d) = filter (\<lambda>l. al_session l \<noteq> s) (active_leases d)"
proof -
  have "filter (\<lambda>l. al_released l = None) (update_where (\<lambda>l. al_session l = s \<and> al_released l = None)
      (\<lambda>l. l\<lparr>al_released := Some (env_now e), al_reason := Some r\<rparr>) t)
    = filter (\<lambda>l. al_session l \<noteq> s) (filter (\<lambda>l. al_released l = None) t)" for t
    by (induction t) auto
  then show ?thesis by (simp add: active_leases_def markClientAddressLeaseReleased_def)
qed

lemma distinct_map_filter_keep: "distinct (map f xs) \<Longrightarrow> distinct (map f (filter P xs))"
  by (induction xs) auto

lemma release_exclusive:
  "leases_exclusive d \<Longrightarrow> leases_exclusive (releaseClientAddressLease e s r d)"
  by (simp add: leases_exclusive_def releaseClientAddressLease_def active_release
      distinct_map_filter_keep)

lemma release_no_lease: "\<not> has_lease (releaseClientAddressLease e s r d) s"
  by (simp add: has_lease_def releaseClientAddressLease_def active_release)

lemma release_other_lease:
  "t \<noteq> s \<Longrightarrow> has_lease (releaseClientAddressLease e s r d) t \<longleftrightarrow> has_lease d t"
  by (auto simp: has_lease_def releaseClientAddressLease_def active_release)

text \<open>The pools' blocks: what an address is checked against.\<close>

definition in_pools :: "db \<Rightarrow> string \<Rightarrow> bool" where
  "in_pools d address \<longleftrightarrow> (\<exists>pool\<in>set (listWireGuardAddressPoolsForUpdate d). \<exists>block n.
     parsePoolCidr (pool_cidr pool) = Some block \<and> ipv4ToInt address = Some n
     \<and> bk_base block \<le> n \<and> n < bk_base block + bk_size block \<and> address = intToIpv4 n)"

lemma new_lease_in_pools:
  assumes "new_lease d s a d'"
  shows "in_pools d a"
proof -
  obtain pool block off where p: "pool \<in> set (listWireGuardAddressPoolsForUpdate d)"
    "parsePoolCidr (pool_cidr pool) = Some block" "off < bk_size block"
    "a = intToIpv4 (bk_base block + off)"
    using assms unfolding new_lease_def by blast
  moreover from p block_bounds[OF p(2)] have "ipv4ToInt a = Some (bk_base block + off)"
    by (simp add: ipv4ToInt_intToIpv4)
  ultimately show ?thesis unfolding in_pools_def by force
qed

lemma in_pools_offset:
  assumes "in_pools d a"
  obtains pool block off where "pool \<in> set (listWireGuardAddressPoolsForUpdate d)"
    "parsePoolCidr (pool_cidr pool) = Some block" "off < bk_size block"
    "a = intToIpv4 (bk_base block + off)"
proof -
  obtain pool block n where "pool \<in> set (listWireGuardAddressPoolsForUpdate d)"
    "parsePoolCidr (pool_cidr pool) = Some block" "bk_base block \<le> n" "n < bk_base block + bk_size block"
    "a = intToIpv4 n"
    using assms unfolding in_pools_def by blast
  then show ?thesis using that[of pool block "n - bk_base block"] by simp
qed

text \<open>
  C35: A session without an active lease gets an address exactly when some address of the enabled
  WireGuard pools is not actively leased; the address it gets is one of the pools', was leased to
  nobody, and is leased to this session afterwards; when there is none, nothing changes.
\<close>

theorem allocation_exact:
  assumes "\<not> has_lease d sessionId"
  shows "(case ensureClientAddressLease e sessionId d of
      (d', Some a) \<Rightarrow> (\<exists>address. a = address @ ''/32'' \<and> in_pools d address
          \<and> address \<notin> al_address ` set (active_leases d)
          \<and> (\<exists>l. active_leases d' = active_leases d @ [l] \<and> al_session l = sessionId \<and> al_address l = address))
    | (d', None) \<Rightarrow> d' = d \<and> (\<forall>address. in_pools d address \<longrightarrow> address \<in> al_address ` set (active_leases d)))"
proof (cases "snd (ensureClientAddressLease e sessionId d)")
  case None
  have "\<forall>pool\<in>set (listWireGuardAddressPoolsForUpdate d). \<not> pool_has_free sessionId d pool"
    using None assms ensure_None_iff by blast
  then have "in_pools d address \<Longrightarrow> address \<in> al_address ` set (active_leases d)" for address
    using assms by (elim in_pools_offset) (force simp: pool_has_free_iff address_free_active has_lease_def)
  with None ensure_None_same[OF None] show ?thesis by (auto split: prod.split)
next
  case (Some a)
  then have en: "ensureClientAddressLease e sessionId d = (fst (ensureClientAddressLease e sessionId d), Some a)"
    by (simp add: prod_eq_iff)
  obtain address where a: "a = address @ ''/32''"
    "new_lease d sessionId address (fst (ensureClientAddressLease e sessionId d))"
    using ensure_new[OF assms en] by blast
  then have "address \<notin> al_address ` set (active_leases d)" "\<exists>l. active_leases
      (fst (ensureClientAddressLease e sessionId d)) = active_leases d @ [l]
      \<and> al_session l = sessionId \<and> al_address l = address"
    unfolding new_lease_def active_leases_def by auto
  with a new_lease_in_pools[OF a(2)] show ?thesis by (subst en) auto
qed

definition sample_env :: env where
  "sample_env = \<lparr>env_now = 1000000, env_uuid = (\<lambda>n. ''u'' @ js_nat n), env_encrypt = (\<lambda>r aad. aad),
     env_decrypt = (\<lambda>c. []), env_keyPair = (\<lambda>s. (''private'', ''public'')),
     env_tunnelDraw = (\<lambda>s. (sample_key, 20, 5)), env_keyFingerprint = sample_fingerprint,
     env_reencode = (\<lambda>k. k), env_sha256 = (\<lambda>s. ''hash'')\<rparr>"

definition empty_db :: db where
  "empty_db = \<lparr>sessions = [], session_status = [], session_conditions = [], audit_events = [],
     rendered_plans = [], plan_secrets = [], config_payments = [], config_grants = [],
     traffic_entitlements = [], entitlements = [], probe_runs = [], gate_assignments = [],
     assignment_status = [], jobs = [], job_attempts = [], gates = [], gate_status = [],
     gate_conditions = [], gate_leases = [], snapshots = [], counter_samples = [],
     usage_deltas = [], releases = [], deployments = [],
     deployment_events = [], address_pools = [], address_leases = [], artifacts = [],
     artifact_payloads = [], download_tokens = [], uuid_next = 0\<rparr>"

definition sample_pool :: pool_row where
  "sample_pool = \<lparr>pool_id = ''p'', pool_name = ''wireguard-client-default'', pool_cidr = ''10.64.0.0/30'',
     pool_family = 4, pool_purpose = ''wireguard_client'', pool_enabled = True, pool_priority = 100,
     pool_nextOffset = 1, pool_updated = 0\<rparr>"

definition pool_db :: db where
  "pool_db = empty_db\<lparr>address_pools := [sample_pool]\<rparr>"

lemmas address_eval = parsePoolCidr_def js_Number_def ipv4ToInt_def parseIpv4Octet_def
  digits_upto_def js_trim_def js_space_def js_digit_def digits_value_def Let_def

lemma sample_pool_block:
  "parsePoolCidr (pool_cidr sample_pool) = Some \<lparr>bk_base = 171966464, bk_prefix = 30, bk_size = 4\<rparr>"
  by (simp add: sample_pool_def address_eval)

lemma sample_addresses:
  "intToIpv4 171966465 = ''10.64.0.1''" "intToIpv4 171966466 = ''10.64.0.2''"
  by (simp_all add: intToIpv4_def js_nat.simps) code_simp+

lemma pool_db_pools: "listWireGuardAddressPoolsForUpdate pool_db = [sample_pool]"
  by (simp add: listWireGuardAddressPoolsForUpdate_def pool_db_def empty_db_def sample_pool_def)

lemma pool_db_tables: "address_leases pool_db = []" "address_pools pool_db = [sample_pool]"
  by (simp_all add: pool_db_def empty_db_def)

lemma sample_pool_fields: "pool_id sample_pool = ''p''" "pool_nextOffset sample_pool = 1"
  by (simp_all add: sample_pool_def)

lemma upt_4: "[0..<4] = [0, 1, 2, 3 :: nat]"
  by (simp add: upt_rec)

lemmas allocation_eval = ensureClientAddressLease_def findActiveClientAddressLease_def attempt_pool_def
  sample_pool_block upt_4 attempt_offset_def tryInsertClientAddressLease_def lease_conflict_def
  updateAddressPoolNextOffset_def sample_addresses inet_text_def toClientAddressCidr_def js_includes_def
  pool_db_tables sample_pool_fields

definition lease_for :: "uuid \<Rightarrow> string \<Rightarrow> address_lease_row" where
  "lease_for s a = \<lparr>al_pool = ''p'', al_session = s, al_address = a, al_allocated = 1000000,
     al_released = None, al_reason = None\<rparr>"

definition one_lease_db :: db where
  "one_lease_db = pool_db\<lparr>address_leases := [lease_for ''s'' ''10.64.0.1''],
     address_pools := [sample_pool\<lparr>pool_nextOffset := 2, pool_updated := 1000000\<rparr>]\<rparr>"

lemma sample_allocation:
  "ensureClientAddressLease sample_env ''s'' pool_db = (one_lease_db, Some ''10.64.0.1/32'')"
  by (simp add: allocation_eval pool_db_pools one_lease_db_def lease_for_def sample_env_def)

lemma sample_allocation_2:
  "map al_address (active_leases (fst (ensureClientAddressLease sample_env ''t'' one_lease_db)))
     = [''10.64.0.1'', ''10.64.0.2'']"
proof -
  have "listWireGuardAddressPoolsForUpdate one_lease_db
      = [sample_pool\<lparr>pool_nextOffset := 2, pool_updated := 1000000\<rparr>]"
    by (simp add: listWireGuardAddressPoolsForUpdate_def one_lease_db_def sample_pool_def)
  moreover have "address_leases one_lease_db = [lease_for ''s'' ''10.64.0.1'']"
    by (simp add: one_lease_db_def)
  moreover have "parsePoolCidr (pool_cidr (sample_pool\<lparr>pool_nextOffset := 2, pool_updated := 1000000\<rparr>))
      = Some \<lparr>bk_base = 171966464, bk_prefix = 30, bk_size = 4\<rparr>"
    using sample_pool_block by simp
  ultimately show ?thesis
    by (simp add: allocation_eval lease_for_def active_leases_def)
qed

theorem allocation_exact_witness:
  "\<not> has_lease pool_db ''s'' \<and> (\<exists>d'. ensureClientAddressLease sample_env ''s'' pool_db = (d', Some ''10.64.0.1/32'')
     \<and> ''10.64.0.1'' \<notin> al_address ` set (active_leases pool_db))"
proof -
  have n: "\<not> has_lease pool_db ''s''" by (simp add: has_lease_def active_leases_def pool_db_tables)
  with allocation_exact[OF n, of sample_env] sample_allocation show ?thesis by auto
qed

text \<open>The operations on leases, as one relation, for the invariant below.\<close>

inductive lease_step :: "db \<Rightarrow> db \<Rightarrow> bool" where
  ensure: "lease_step d (fst (ensureClientAddressLease e s d))"
| release: "lease_step d (releaseClientAddressLease e s r d)"

lemma lease_step_exclusive: "lease_step d d' \<Longrightarrow> leases_exclusive d \<Longrightarrow> leases_exclusive d'"
  by (induction rule: lease_step.induct) (auto simp: ensure_exclusive release_exclusive)

lemma lease_steps_exclusive: "lease_step\<^sup>*\<^sup>* d d' \<Longrightarrow> leases_exclusive d \<Longrightarrow> leases_exclusive d'"
  by (induction rule: rtranclp_induct) (auto intro: lease_step_exclusive)

text \<open>
  However allocations and releases are interleaved, no client address is ever actively leased
  twice and no session ever holds two addresses.
\<close>

lemma addresses_never_shared:
  assumes "lease_step\<^sup>*\<^sup>* d d'" "address_leases d = []"
  shows "distinct (map al_address (active_leases d')) \<and> distinct (map al_session (active_leases d'))"
  using lease_steps_exclusive[OF assms(1)] assms(2)
  by (simp add: leases_exclusive_def active_leases_def)

lemma addresses_never_shared_witness:
  "\<exists>d'. lease_step\<^sup>*\<^sup>* pool_db d' \<and> map al_address (active_leases d') = [''10.64.0.1'', ''10.64.0.2'']
     \<and> distinct (map al_address (active_leases d'))"
proof -
  let ?d' = "fst (ensureClientAddressLease sample_env ''t'' one_lease_db)"
  have "lease_step pool_db one_lease_db"
    using ensure[of pool_db sample_env "''s''"] by (simp add: sample_allocation)
  moreover have "lease_step one_lease_db ?d'" by (rule ensure)
  ultimately have r: "lease_step\<^sup>*\<^sup>* pool_db ?d'" by simp
  show ?thesis
    by (intro exI[of _ ?d'] conjI r sample_allocation_2
        conjunct1[OF addresses_never_shared[OF r pool_db_tables(1)]])
qed

end
