(* ===== verification/PathPlanning.thy ===== *)
theory PathPlanning
  imports Addresses
begin

section \<open>Choosing the gates of a session\<close>

text \<open>
  \<open>planning/choose-path.ts\<close> and the query \<open>selectSchedulableGate\<close> of
  \<open>resources/gates/repository.ts\<close>: an ingress gate is selected first, then an egress gate other
  than it, both among the gates that may take new sessions at this moment.
\<close>

subsection \<open>Schedulable gates (\<open>gates/repository.ts\<close>)\<close>

text \<open>\<open>->>\<close> on a member of a \<open>jsonb\<close> object (objects and arrays do not occur).\<close>

definition sql_text :: "json option \<Rightarrow> string option" where
  "sql_text v = (case v of
      Some (JStr s) \<Rightarrow> Some s
    | Some (JInt i) \<Rightarrow> Some (js_int i)
    | Some (JFrac s) \<Rightarrow> Some s
    | Some (JBool b) \<Rightarrow> Some (if b then ''true'' else ''false'')
    | _ \<Rightarrow> None)"

record select_gate_input =
  sg_excludeGateId :: "string option"
  sg_gateId :: "string option"
  sg_gateName :: "string option"
  sg_excludedCountries :: "string list"
  sg_excludedCities :: "string list"
  sg_preferredRegions :: "string list"
  sg_requiredCapabilities :: "string list"

record gate_choice =
  gch_id :: uuid
  gch_name :: string
  gch_publicIpv4 :: string

definition gate_status_of :: "db \<Rightarrow> uuid \<Rightarrow> gate_status_row option" where
  "gate_status_of d g = row_of gs_gate g (gate_status d)"

definition gate_condition_of :: "db \<Rightarrow> uuid \<Rightarrow> string \<Rightarrow> condition_row option" where
  "gate_condition_of d g t = row_of (\<lambda>c. (cn_owner c, cn_type c)) (g, t) (gate_conditions d)"

definition condition_true :: "db \<Rightarrow> uuid \<Rightarrow> string \<Rightarrow> bool" where
  "condition_true d g t = (case gate_condition_of d g t of
     Some c \<Rightarrow> cn_status c = C_True | None \<Rightarrow> False)"

definition fresh_gate_lease :: "env \<Rightarrow> db \<Rightarrow> uuid \<Rightarrow> bool" where
  "fresh_gate_lease e d g = (case row_of gl_gate g (gate_leases d) of
     Some l \<Rightarrow> gl_expires l > env_now e | None \<Rightarrow> False)"

definition activeDeploymentPhase :: "deployment_phase \<Rightarrow> bool" where
  "activeDeploymentPhase p \<longleftrightarrow>
     p \<in> {D_queued, D_staging, D_verifying, D_rollback_requested, D_rolling_back}"

definition no_active_deployment :: "db \<Rightarrow> uuid \<Rightarrow> bool" where
  "no_active_deployment d g \<longleftrightarrow>
     \<not> list_ex (\<lambda>p. dp_gate p = g \<and> activeDeploymentPhase (dp_phase p)) (deployments d)"

definition gate_network :: "gate_row \<Rightarrow> string" where
  "gate_network g = (case sql_text (js_prop (gt_spec g) ''doubleZeroEnv'') of
     None \<Rightarrow> ''testnet'' | Some v \<Rightarrow> if v = [] then ''testnet'' else v)"

definition doubleZeroGateSqlPredicate :: "env \<Rightarrow> db \<Rightarrow> gate_row \<Rightarrow> bool" where
  "doubleZeroGateSqlPredicate e d g =
     (case gate_status_of d (gt_id g) of
        None \<Rightarrow> False
      | Some st \<Rightarrow>
          ''doublezero0:up'' \<in> set (gs_capabilities st)
          \<and> sql_text (js_prop (gs_doubleZero st) ''tunnelStatus'') = Some ''BGP Session Up''
          \<and> sql_text (js_prop (gs_doubleZero st) ''currentDeviceStatus'') \<noteq> Some ''drained''
          \<and> sql_text (js_prop (gs_doubleZero st) ''network'') = Some (gate_network g)
          \<and> sql_text (js_prop (gs_doubleZero st) ''tunnelSrc'') = Some (gt_publicIpv4 g)
          \<and> fresh_gate_lease e d (gt_id g))"

definition split_part_2 :: "string \<Rightarrow> string" where
  "split_part_2 s = (case js_split (CHR ''-'') s of _ # p # _ \<Rightarrow> p | _ \<Rightarrow> [])"

definition opt_matches :: "string option \<Rightarrow> string \<Rightarrow> bool" where
  "opt_matches o1 v = (case o1 of None \<Rightarrow> True | Some w \<Rightarrow> w = v)"

text \<open>The part of the \<open>WHERE\<close> clause that does not depend on the request.\<close>

definition gate_schedulable :: "env \<Rightarrow> db \<Rightarrow> gate_row \<Rightarrow> bool" where
  "gate_schedulable e d g \<longleftrightarrow>
     gt_desired g = G_Enabled
     \<and> condition_true d (gt_id g) ''AgentConnected''
     \<and> condition_true d (gt_id g) ''Ready''
     \<and> condition_true d (gt_id g) ''Schedulable''
     \<and> no_active_deployment d (gt_id g)
     \<and> doubleZeroGateSqlPredicate e d g"

definition gate_matches :: "db \<Rightarrow> select_gate_input \<Rightarrow> gate_row \<Rightarrow> bool" where
  "gate_matches d i g \<longleftrightarrow>
     (case sg_excludeGateId i of None \<Rightarrow> True | Some x \<Rightarrow> gt_id g \<noteq> x)
     \<and> opt_matches (sg_gateId i) (gt_id g)
     \<and> opt_matches (sg_gateName i) (gt_name g)
     \<and> (sg_excludedCountries i = [] \<or> js_lower (gt_country g) \<notin> set (sg_excludedCountries i))
     \<and> (sg_excludedCities i = [] \<or> js_lower (gt_city g) \<notin> set (sg_excludedCities i))
     \<and> (sg_preferredRegions i = [] \<or> split_part_2 (js_lower (gt_name g)) \<in> set (sg_preferredRegions i))
     \<and> set (sg_requiredCapabilities i) \<subseteq>
         set (case gate_status_of d (gt_id g) of None \<Rightarrow> [] | Some st \<Rightarrow> gs_capabilities st)"

definition selectSchedulableGate :: "env \<Rightarrow> db \<Rightarrow> select_gate_input \<Rightarrow> gate_choice option" where
  "selectSchedulableGate e d i =
     (case sort_key (\<lambda>g. (- gt_weight g, gt_name g))
         (filter (\<lambda>g. gate_schedulable e d g \<and> gate_matches d i g) (gates d)) of
        [] \<Rightarrow> None
      | g # _ \<Rightarrow> Some \<lparr>gch_id = gt_id g, gch_name = gt_name g, gch_publicIpv4 = gt_publicIpv4 g\<rparr>)"

subsection \<open>The request's policy (\<open>choose-path.ts\<close>)\<close>

definition readPathPolicyValues :: "js_record \<Rightarrow> string list \<Rightarrow> string list" where
  "readPathPolicyValues spec keys =
     (case js_prop spec ''pathPolicy'' of
        Some (JObj record) \<Rightarrow>
          map js_lower (concat (map (\<lambda>key. readStringArray (js_prop record key)) keys))
      | _ \<Rightarrow> [])"

definition normalizeCountry :: "string \<Rightarrow> string" where
  "normalizeCountry value = (let normalized = js_lower (js_trim value) in
     if normalized \<in> {''de'', ''deu'', ''germany''} then ''germany'' else normalized)"

definition normalizeRegion :: "string \<Rightarrow> string list" where
  "normalizeRegion value = (let v = js_lower (js_trim value) in
     if v \<in> {''eu'', ''europe''} then [''eu'']
     else if v \<in> {''na'', ''north america'', ''us''} then [''na'']
     else if v \<in> {''ap'', ''apac'', ''asia pacific''} then [''ap'']
     else if v \<in> {''sa'', ''latam'', ''south america''} then [''sa'']
     else if v = ''emea'' then [''eu'', ''me'', ''af'']
     else [])"

definition readExcludedCountries :: "js_record \<Rightarrow> string list" where
  "readExcludedCountries spec =
     (let values = readPathPolicyValues spec [''excludeCountries'', ''excludedCountries'', ''avoidCountries'']
      in js_set_list (filter (\<lambda>s. s \<noteq> []) (map normalizeCountry values)))"

definition readExcludedCities :: "js_record \<Rightarrow> string list" where
  "readExcludedCities spec = readPathPolicyValues spec [''excludeCities'', ''excludedCities'', ''avoidCities'']"

definition readPreferredRegions :: "js_record \<Rightarrow> string list" where
  "readPreferredRegions spec =
     js_set_list (filter (\<lambda>s. s \<noteq> [])
       (concat (map normalizeRegion (readPathPolicyValues spec [''preferredRegions'', ''egressRegions'']))))"

record path_choice =
  pth_ingressGateId :: uuid
  pth_ingressGateName :: string
  pth_ingressPublicIpv4 :: string
  pth_egressGateId :: uuid
  pth_egressGateName :: string
  pth_egressPublicIpv4 :: string

definition ingress_input :: "client_protocol \<Rightarrow> js_record \<Rightarrow> select_gate_input" where
  "ingress_input clientProtocol spec =
     \<lparr>sg_excludeGateId = None, sg_gateId = or_null (readString spec ''ingressGateId''),
      sg_gateName = or_null (readString spec ''ingressGateName''),
      sg_excludedCountries = readExcludedCountries spec, sg_excludedCities = readExcludedCities spec,
      sg_preferredRegions = [],
      sg_requiredCapabilities = (if clientProtocol = AmneziaWG then [amneziaWGCapability] else [])\<rparr>"

definition egress_input :: "uuid \<Rightarrow> js_record \<Rightarrow> select_gate_input" where
  "egress_input ingressId spec =
     \<lparr>sg_excludeGateId = or_null ingressId, sg_gateId = or_null (readString spec ''egressGateId''),
      sg_gateName = or_null (readString spec ''egressGateName''),
      sg_excludedCountries = readExcludedCountries spec, sg_excludedCities = readExcludedCities spec,
      sg_preferredRegions = readPreferredRegions spec, sg_requiredCapabilities = []\<rparr>"

text \<open>\<open>Inl\<close> is the exception of \<open>readSessionClientProtocol\<close>; \<open>Inr None\<close> is \<open>null\<close>.\<close>

definition choosePath :: "env \<Rightarrow> db \<Rightarrow> js_record \<Rightarrow> string + path_choice option" where
  "choosePath e d spec =
     (case readSessionClientProtocol (js_prop spec ''clientProtocol'') of
        Inl msg \<Rightarrow> Inl msg
      | Inr clientProtocol \<Rightarrow>
          (case selectSchedulableGate e d (ingress_input clientProtocol spec) of
             None \<Rightarrow> Inr None
           | Some ingress \<Rightarrow>
               (case selectSchedulableGate e d (egress_input (gch_id ingress) spec) of
                  None \<Rightarrow> Inr None
                | Some egress \<Rightarrow> Inr (Some
                    \<lparr>pth_ingressGateId = gch_id ingress, pth_ingressGateName = gch_name ingress,
                     pth_ingressPublicIpv4 = gch_publicIpv4 ingress, pth_egressGateId = gch_id egress,
                     pth_egressGateName = gch_name egress, pth_egressPublicIpv4 = gch_publicIpv4 egress\<rparr>))))"

subsection \<open>What is selected\<close>

definition gate_candidates :: "env \<Rightarrow> db \<Rightarrow> select_gate_input \<Rightarrow> gate_row set" where
  "gate_candidates e d i = {g \<in> set (gates d). gate_schedulable e d g \<and> gate_matches d i g}"

definition choice_of :: "gate_row \<Rightarrow> gate_choice" where
  "choice_of g = \<lparr>gch_id = gt_id g, gch_name = gt_name g, gch_publicIpv4 = gt_publicIpv4 g\<rparr>"

lemma select_None_iff: "selectSchedulableGate e d i = None \<longleftrightarrow> gate_candidates e d i = {}"
proof -
  have "sort_key k xs = [] \<longleftrightarrow> xs = []" for k :: "gate_row \<Rightarrow> int \<times> string" and xs
    by (metis length_0_conv length_sort)
  moreover have "selectSchedulableGate e d i = None \<longleftrightarrow> sort_key (\<lambda>g. (- gt_weight g, gt_name g))
      (filter (\<lambda>g. gate_schedulable e d g \<and> gate_matches d i g) (gates d)) = []"
    by (simp add: selectSchedulableGate_def split: list.split)
  ultimately show ?thesis by (auto simp: gate_candidates_def filter_empty_conv)
qed

lemma sorted_head_min:
  fixes k :: "'a \<Rightarrow> 'b::linorder"
  shows "sort_key k xs = y # ys \<Longrightarrow> y \<in> set xs \<and> (\<forall>x\<in>set xs. k y \<le> k x)"
proof -
  assume a: "sort_key k xs = y # ys"
  then have "set xs = insert y (set ys)" by (metis list.simps(15) set_sort)
  moreover have "sorted (map k (y # ys))" by (metis a sorted_sort_key)
  ultimately show ?thesis by auto
qed

lemma select_Some:
  assumes "selectSchedulableGate e d i = Some c"
  shows "\<exists>g\<in>gate_candidates e d i. c = choice_of g \<and> (\<forall>h\<in>gate_candidates e d i. gt_weight h \<le> gt_weight g)"
proof -
  obtain g r where s: "sort_key (\<lambda>g. (- gt_weight g, gt_name g))
      (filter (\<lambda>g. gate_schedulable e d g \<and> gate_matches d i g) (gates d)) = g # r" "c = choice_of g"
    using assms by (auto simp: selectSchedulableGate_def choice_of_def split: list.splits)
  from sorted_head_min[OF s(1)] have "g \<in> gate_candidates e d i"
    "\<forall>h\<in>gate_candidates e d i. (- gt_weight g, gt_name g) \<le> (- gt_weight h, gt_name h)"
    by (auto simp: gate_candidates_def)
  with s(2) show ?thesis by (intro bexI[of _ g]) (auto simp: less_eq_prod_def)
qed

subsection \<open>What a path promises\<close>

text \<open>The session's request, as a predicate on an ingress and an egress gate.\<close>

definition path_allowed :: "env \<Rightarrow> db \<Rightarrow> js_record \<Rightarrow> client_protocol \<Rightarrow> gate_row \<Rightarrow> gate_row \<Rightarrow> bool" where
  "path_allowed e d spec proto i g \<longleftrightarrow>
     i \<in> gate_candidates e d (ingress_input proto spec)
     \<and> g \<in> gate_candidates e d (egress_input (gt_id i) spec)"

definition path_of :: "gate_row \<Rightarrow> gate_row \<Rightarrow> path_choice" where
  "path_of i g = \<lparr>pth_ingressGateId = gt_id i, pth_ingressGateName = gt_name i,
     pth_ingressPublicIpv4 = gt_publicIpv4 i, pth_egressGateId = gt_id g,
     pth_egressGateName = gt_name g, pth_egressPublicIpv4 = gt_publicIpv4 g\<rparr>"

lemma egress_differs:
  "g \<in> gate_candidates e d (egress_input x spec) \<Longrightarrow> x \<noteq> [] \<Longrightarrow> gt_id g \<noteq> x"
  by (auto simp: gate_candidates_def gate_matches_def egress_input_def or_null_def)

lemma choosePath_Some:
  assumes "choosePath e d spec = Inr (Some p)"
  shows "\<exists>proto i g. readSessionClientProtocol (js_prop spec ''clientProtocol'') = Inr proto
    \<and> path_allowed e d spec proto i g \<and> p = path_of i g
    \<and> (\<forall>h\<in>gate_candidates e d (ingress_input proto spec). gt_weight h \<le> gt_weight i)
    \<and> (\<forall>h\<in>gate_candidates e d (egress_input (gt_id i) spec). gt_weight h \<le> gt_weight g)"
proof -
  obtain proto a b where p: "readSessionClientProtocol (js_prop spec ''clientProtocol'') = Inr proto"
    "selectSchedulableGate e d (ingress_input proto spec) = Some a"
    "selectSchedulableGate e d (egress_input (gch_id a) spec) = Some b"
    "p = \<lparr>pth_ingressGateId = gch_id a, pth_ingressGateName = gch_name a,
       pth_ingressPublicIpv4 = gch_publicIpv4 a, pth_egressGateId = gch_id b,
       pth_egressGateName = gch_name b, pth_egressPublicIpv4 = gch_publicIpv4 b\<rparr>"
    using assms by (auto simp: choosePath_def split: sum.splits option.splits)
  from select_Some[OF p(2)] obtain i where i: "i \<in> gate_candidates e d (ingress_input proto spec)"
    "a = choice_of i" "\<forall>h\<in>gate_candidates e d (ingress_input proto spec). gt_weight h \<le> gt_weight i"
    by blast
  from select_Some[OF p(3)] obtain g where g: "g \<in> gate_candidates e d (egress_input (gt_id i) spec)"
    "b = choice_of g" "\<forall>h\<in>gate_candidates e d (egress_input (gt_id i) spec). gt_weight h \<le> gt_weight g"
    using i(2) by (auto simp: choice_of_def)
  from p i g show ?thesis
    unfolding path_allowed_def by (auto simp: path_of_def choice_of_def)
qed

lemma choosePath_None:
  assumes "choosePath e d spec = Inr None"
  shows "\<exists>proto. readSessionClientProtocol (js_prop spec ''clientProtocol'') = Inr proto
    \<and> (gate_candidates e d (ingress_input proto spec) = {}
       \<or> (\<exists>i\<in>gate_candidates e d (ingress_input proto spec).
            gate_candidates e d (egress_input (gt_id i) spec) = {}))"
  using assms select_Some
  by (fastforce simp: choosePath_def choice_of_def select_None_iff split: sum.splits option.splits)

text \<open>Every requirement a client can put on the gates, spelt out on a gate row.\<close>

definition gate_acceptable :: "env \<Rightarrow> db \<Rightarrow> js_record \<Rightarrow> gate_row \<Rightarrow> bool" where
  "gate_acceptable e d spec g \<longleftrightarrow>
     g \<in> set (gates d) \<and> gt_desired g = G_Enabled
     \<and> condition_true d (gt_id g) ''Ready'' \<and> fresh_gate_lease e d (gt_id g)
     \<and> no_active_deployment d (gt_id g)
     \<and> js_lower (gt_country g) \<notin> set (readExcludedCountries spec)
     \<and> js_lower (gt_city g) \<notin> set (readExcludedCities spec)"

lemma candidate_acceptable:
  assumes "g \<in> gate_candidates e d i" "sg_excludedCountries i = readExcludedCountries spec"
    "sg_excludedCities i = readExcludedCities spec"
  shows "gate_acceptable e d spec g"
  using assms
  by (auto simp: gate_candidates_def gate_acceptable_def gate_matches_def gate_schedulable_def
      doubleZeroGateSqlPredicate_def split: option.splits)

text \<open>
  C37: A path goes through two different gates of the catalogue, both enabled, ready, with an
  unexpired heartbeat lease and no agent rollout in progress, outside the countries and cities
  the client excludes, with the names and ids the client asks for; an AmneziaWG session enters
  at a gate that reports that capability; and no other candidate has a higher scheduling weight.
\<close>

theorem path_sound:
  assumes "choosePath e d spec = Inr (Some p)" "\<And>g. g \<in> set (gates d) \<Longrightarrow> gt_id g \<noteq> []"
  shows "\<exists>i g. p = path_of i g \<and> gt_id i \<noteq> gt_id g
    \<and> gate_acceptable e d spec i \<and> gate_acceptable e d spec g
    \<and> opt_matches (or_null (readString spec ''ingressGateName'')) (gt_name i)
    \<and> opt_matches (or_null (readString spec ''egressGateName'')) (gt_name g)
    \<and> opt_matches (or_null (readString spec ''ingressGateId'')) (gt_id i)
    \<and> opt_matches (or_null (readString spec ''egressGateId'')) (gt_id g)
    \<and> (js_prop spec ''clientProtocol'' = Some (JStr ''amneziawg'') \<longrightarrow>
         (\<exists>st. gate_status_of d (gt_id i) = Some st \<and> amneziaWGCapability \<in> set (gs_capabilities st)))
    \<and> (\<forall>h. path_allowed e d spec (if js_prop spec ''clientProtocol'' = Some (JStr ''amneziawg'')
          then AmneziaWG else WireGuard) i h \<longrightarrow> gt_weight h \<le> gt_weight g)
    \<and> (\<forall>h k. path_allowed e d spec (if js_prop spec ''clientProtocol'' = Some (JStr ''amneziawg'')
          then AmneziaWG else WireGuard) h k \<longrightarrow> gt_weight h \<le> gt_weight i)"
proof -
  obtain proto i g where p: "readSessionClientProtocol (js_prop spec ''clientProtocol'') = Inr proto"
    "path_allowed e d spec proto i g" "p = path_of i g"
    "\<forall>h\<in>gate_candidates e d (egress_input (gt_id i) spec). gt_weight h \<le> gt_weight g"
    "\<forall>h\<in>gate_candidates e d (ingress_input proto spec). gt_weight h \<le> gt_weight i"
    using choosePath_Some[OF assms(1)] by blast
  have i: "i \<in> gate_candidates e d (ingress_input proto spec)"
    and g: "g \<in> gate_candidates e d (egress_input (gt_id i) spec)"
    using p(2) by (auto simp: path_allowed_def)
  have proto: "proto = (if js_prop spec ''clientProtocol'' = Some (JStr ''amneziawg'')
      then AmneziaWG else WireGuard)"
    using p(1) by (auto simp: readSessionClientProtocol_def split: if_splits)
  have "gt_id i \<noteq> []" using assms(2) i by (auto simp: gate_candidates_def)
  then have "gt_id i \<noteq> gt_id g" using egress_differs[OF g] by fastforce
  moreover have "gate_acceptable e d spec i"
    by (rule candidate_acceptable[OF i]) (simp_all add: ingress_input_def)
  moreover have "gate_acceptable e d spec g"
    by (rule candidate_acceptable[OF g]) (simp_all add: egress_input_def)
  moreover have "js_prop spec ''clientProtocol'' = Some (JStr ''amneziawg'') \<Longrightarrow>
      \<exists>st. gate_status_of d (gt_id i) = Some st \<and> amneziaWGCapability \<in> set (gs_capabilities st)"
    using i proto
    by (cases "gate_status_of d (gt_id i)")
      (auto simp: gate_candidates_def gate_matches_def ingress_input_def)
  moreover have "opt_matches (or_null (readString spec ''ingressGateName'')) (gt_name i)"
    "opt_matches (or_null (readString spec ''ingressGateId'')) (gt_id i)"
    using i by (simp_all add: gate_candidates_def gate_matches_def ingress_input_def)
  moreover have "opt_matches (or_null (readString spec ''egressGateName'')) (gt_name g)"
    "opt_matches (or_null (readString spec ''egressGateId'')) (gt_id g)"
    using g by (simp_all add: gate_candidates_def gate_matches_def egress_input_def)
  moreover have "path_allowed e d spec proto i h \<Longrightarrow> gt_weight h \<le> gt_weight g"
    and "path_allowed e d spec proto h k \<Longrightarrow> gt_weight h \<le> gt_weight i" for h k
    using p(4,5) by (simp_all add: path_allowed_def)
  ultimately show ?thesis
    unfolding proto[symmetric] using p(3) by blast
qed

text \<open>
  When the client names its ingress gate, by id or by name, selecting the ingress before the
  egress loses nothing: if any pair of distinct gates satisfies the request, a path is found.
\<close>

lemma path_complete:
  assumes "distinct (map gt_id (gates d))" "distinct (map gt_name (gates d))"
    and "readString spec ''ingressGateId'' \<noteq> [] \<or> readString spec ''ingressGateName'' \<noteq> []"
    and "path_allowed e d spec proto i g"
    and "readSessionClientProtocol (js_prop spec ''clientProtocol'') = Inr proto"
  shows "\<exists>p. choosePath e d spec = Inr (Some p) \<and> pth_ingressGateId p = gt_id i"
proof -
  have only: "h = i" if "h \<in> gate_candidates e d (ingress_input proto spec)" for h
  proof -
    have "gt_id h = gt_id i \<or> gt_name h = gt_name i"
      using that assms(3,4)
      by (auto simp: path_allowed_def gate_candidates_def gate_matches_def ingress_input_def or_null_def
          opt_matches_def split: if_splits)
    moreover have "h \<in> set (gates d)" "i \<in> set (gates d)"
      using that assms(4) by (auto simp: path_allowed_def gate_candidates_def)
    ultimately show ?thesis using assms(1,2) by (auto simp: distinct_map dest: inj_onD)
  qed
  have cand: "i \<in> gate_candidates e d (ingress_input proto spec)"
    "g \<in> gate_candidates e d (egress_input (gt_id i) spec)"
    using assms(4) by (auto simp: path_allowed_def)
  then have "\<exists>c. selectSchedulableGate e d (ingress_input proto spec) = Some c"
    using select_None_iff[of e d "ingress_input proto spec"] by auto
  then obtain c where c: "selectSchedulableGate e d (ingress_input proto spec) = Some c" by blast
  then have "gch_id c = gt_id i" using select_Some[OF c] only by (auto simp: choice_of_def)
  moreover have "\<exists>c'. selectSchedulableGate e d (egress_input (gt_id i) spec) = Some c'"
    using cand(2) select_None_iff[of e d "egress_input (gt_id i) spec"] by auto
  ultimately show ?thesis using c assms(5) by (auto simp: choosePath_def)
qed

subsection \<open>Two sample gates\<close>

definition sample_gate :: "uuid \<Rightarrow> string \<Rightarrow> string \<Rightarrow> gate_row" where
  "sample_gate g name ip = \<lparr>gt_id = g, gt_name = name, gt_generation = 1, gt_desired = G_Enabled,
     gt_city = ''City'', gt_country = ''Country'', gt_publicIpv4 = ip, gt_weight = 100, gt_spec = [],
     gt_updated = 0\<rparr>"

definition sample_gate_status :: "uuid \<Rightarrow> string \<Rightarrow> gate_status_row" where
  "sample_gate_status g ip = \<lparr>gs_gate = g, gs_observedGeneration = 1, gs_agentVersion = None,
     gs_agentRevision = None, gs_agentBuiltAt = None, gs_artifactSha256 = None, gs_installedAt = None,
     gs_bootId = Some ''boot'', gs_lastSeen = Some 999000, gs_endpoint = None,
     gs_capabilities = [''doublezero0:up''],
     gs_doubleZero = [(''tunnelStatus'', JStr ''BGP Session Up''), (''network'', JStr ''testnet''),
       (''tunnelSrc'', JStr ip)],
     gs_currentDevice = None, gs_lowestDevice = None, gs_deviceWarning = None, gs_hash = None,
     gs_updated = 999000\<rparr>"

definition sample_conditions :: "uuid \<Rightarrow> condition_row list" where
  "sample_conditions g = map (\<lambda>t. \<lparr>cn_owner = g, cn_type = t, cn_status = C_True, cn_reason = ''r'',
     cn_message = ''m'', cn_observedGeneration = Some 1, cn_lastTransition = 0\<rparr>)
     [''AgentConnected'', ''Ready'', ''Schedulable'']"

definition sample_gate_lease :: "uuid \<Rightarrow> gate_lease_row" where
  "sample_gate_lease g = \<lparr>gl_gate = g, gl_owner = g, gl_expires = 1020000, gl_heartbeat = 999000\<rparr>"

definition gates_db :: db where
  "gates_db = pool_db\<lparr>gates := [sample_gate ''g1'' ''gate-eu-1'' ''1.1.1.1'', sample_gate ''g2'' ''gate-na-1'' ''2.2.2.2''],
     gate_status := [sample_gate_status ''g1'' ''1.1.1.1'', sample_gate_status ''g2'' ''2.2.2.2''],
     gate_conditions := sample_conditions ''g1'' @ sample_conditions ''g2'',
     gate_leases := [sample_gate_lease ''g1'', sample_gate_lease ''g2'']\<rparr>"

definition sample_spec :: js_record where
  "sample_spec = [(''mode'', JStr ''IpToIp''), (''ingressGateName'', JStr ''gate-eu-1''),
     (''egressGateName'', JStr ''gate-na-1'')]"

definition sample_path :: path_choice where
  "sample_path = \<lparr>pth_ingressGateId = ''g1'', pth_ingressGateName = ''gate-eu-1'',
     pth_ingressPublicIpv4 = ''1.1.1.1'', pth_egressGateId = ''g2'', pth_egressGateName = ''gate-na-1'',
     pth_egressPublicIpv4 = ''2.2.2.2''\<rparr>"

lemma sample_choosePath: "choosePath sample_env gates_db sample_spec = Inr (Some sample_path)"
  by code_simp

theorem path_sound_witness:
  "choosePath sample_env gates_db sample_spec = Inr (Some sample_path)
     \<and> (\<exists>i g. sample_path = path_of i g \<and> gt_id i \<noteq> gt_id g
        \<and> gate_acceptable sample_env gates_db sample_spec i)"
proof -
  have "gt_id g \<noteq> []" if "g \<in> set (gates gates_db)" for g
    using that by (auto simp: gates_db_def sample_gate_def)
  from path_sound[OF sample_choosePath this] sample_choosePath show ?thesis by blast
qed

lemma path_complete_witness:
  "path_allowed sample_env gates_db sample_spec WireGuard
       (sample_gate ''g1'' ''gate-eu-1'' ''1.1.1.1'') (sample_gate ''g2'' ''gate-na-1'' ''2.2.2.2'')
     \<and> (\<exists>p. choosePath sample_env gates_db sample_spec = Inr (Some p) \<and> pth_ingressGateId p = ''g1'')"
proof -
  obtain i g where a: "path_allowed sample_env gates_db sample_spec WireGuard i g" "sample_path = path_of i g"
    using choosePath_Some[OF sample_choosePath]
    by (auto simp: sample_spec_def readSessionClientProtocol_def js_prop_def)
  have "i \<in> set (gates gates_db)" "g \<in> set (gates gates_db)"
    using a(1) by (auto simp: path_allowed_def gate_candidates_def)
  then have ig: "i = sample_gate ''g1'' ''gate-eu-1'' ''1.1.1.1''" "g = sample_gate ''g2'' ''gate-na-1'' ''2.2.2.2''"
    using a(2) by (auto simp: gates_db_def sample_path_def path_of_def sample_gate_def)
  have "distinct (map gt_id (gates gates_db))" "distinct (map gt_name (gates gates_db))"
    by (simp_all add: gates_db_def sample_gate_def)
  moreover have "readString sample_spec ''ingressGateId'' \<noteq> [] \<or> readString sample_spec ''ingressGateName'' \<noteq> []"
    by code_simp
  moreover have "readSessionClientProtocol (js_prop sample_spec ''clientProtocol'') = Inr WireGuard" by code_simp
  ultimately show ?thesis using path_complete[OF _ _ _ a(1)] a(1) ig by (simp add: sample_gate_def)
qed

end
