(* ===== verification/GateHealth.thy ===== *)
theory GateHealth
  imports PathPlanning
begin

section \<open>Gate health\<close>

text \<open>
  Heartbeats of the gate agents (\<open>resources/gates/service.ts\<close>, \<open>readiness.ts\<close>), the conditions and
  leases they leave in the database (\<open>gates/repository.ts\<close>, \<open>gate-leases\<close>), the reconciler task
  that marks silent gates stale (\<open>reconciler/gate-controller.ts\<close>) and the operator's changes of
  the desired state (\<open>application/operator\<close>, \<open>authz/policies.ts\<close>).
\<close>

subsection \<open>Readiness (\<open>readiness.ts\<close>)\<close>

definition host_ready_readiness :: "bool \<Rightarrow> string \<Rightarrow> string \<Rightarrow> gate_readiness" where
  "host_ready_readiness dzReady dzReason dzMessage =
     \<lparr>gr_ready = True, gr_reason = ''HostReady'',
      gr_message = ''Gate agent heartbeat is fresh and required host tools are present'',
      gr_doubleZeroReady = dzReady, gr_doubleZeroReason = dzReason, gr_doubleZeroMessage = dzMessage\<rparr>"

definition evaluateGateReadiness ::
    "string list \<Rightarrow> js_record \<Rightarrow> string \<Rightarrow> string \<Rightarrow> bool \<Rightarrow> gate_readiness" where
  "evaluateGateReadiness capabilities doubleZero publicIpv4 doubleZeroEnv hostReady =
     (if \<not> hostReady then
        \<lparr>gr_ready = False, gr_reason = ''HostToolsMissing'',
         gr_message = ''Gate host is missing required WireGuard, iproute2, or nft tools'',
         gr_doubleZeroReady = False, gr_doubleZeroReason = ''HostToolsMissing'',
         gr_doubleZeroMessage = ''Gate host must be ready before DoubleZero can be used for scheduling''\<rparr>
      else if ''doublezero0:up'' \<notin> set capabilities then
        host_ready_readiness False ''DoubleZeroInterfaceDown'' ''doublezero0 is not up''
      else if js_lower (readString doubleZero ''currentDeviceStatus'') = ''drained'' then
        host_ready_readiness False ''DoubleZeroDeviceDrained''
          ''The current DoubleZero device is administratively drained''
      else let tunnelStatus = readString doubleZero ''tunnelStatus'' in
      if tunnelStatus \<noteq> ''BGP Session Up'' then
        host_ready_readiness False ''DoubleZeroTunnelDown''
          (''DoubleZero tunnel is not BGP Session Up'' @
             (if tunnelStatus \<noteq> [] then '': '' @ tunnelStatus else []))
      else let network = readString doubleZero ''network'' in
      if network \<noteq> doubleZeroEnv then
        host_ready_readiness False ''DoubleZeroEnvMismatch''
          (''DoubleZero network '' @ or_else network ''unknown'' @
           '' does not match catalog environment '' @ doubleZeroEnv)
      else let tunnelSrc = readString doubleZero ''tunnelSrc'' in
      if tunnelSrc \<noteq> publicIpv4 then
        host_ready_readiness False ''DoubleZeroTunnelSourceMismatch''
          (''DoubleZero tunnel source '' @ or_else tunnelSrc ''unknown'' @
           '' does not match gate public IPv4 '' @ publicIpv4)
      else host_ready_readiness True ''DoubleZeroReady''
          ''DoubleZero tunnel is connected and matches the gate catalog'')"

definition readGateDoubleZeroEnv :: "js_record \<Rightarrow> string" where
  "readGateDoubleZeroEnv spec = or_else (readString spec ''doubleZeroEnv'') ''testnet''"

subsection \<open>Leases (\<open>gate-leases\<close>)\<close>

definition upsertGateLease :: "env \<Rightarrow> uuid \<Rightarrow> string \<Rightarrow> int \<Rightarrow> db \<Rightarrow> db" where
  "upsertGateLease e gateId leaseOwner ttlSeconds d =
     (let new = \<lparr>gl_gate = gateId, gl_owner = leaseOwner,
                 gl_expires = env_now e + seconds ttlSeconds, gl_heartbeat = env_now e\<rparr>
      in d\<lparr>gate_leases := upsert (\<lambda>l. gl_gate l = gateId)
             (\<lambda>l. l\<lparr>gl_owner := gl_owner new, gl_expires := gl_expires new, gl_heartbeat := env_now e\<rparr>)
             new (gate_leases d)\<rparr>)"

definition recordGateLease :: "env \<Rightarrow> uuid \<Rightarrow> string \<Rightarrow> int option \<Rightarrow> db \<Rightarrow> db" where
  "recordGateLease e gateId leaseOwner heartbeatIntervalSeconds =
     upsertGateLease e gateId leaseOwner (gateHeartbeatLeaseTtlSeconds heartbeatIntervalSeconds)"

text \<open>The condition that \<open>listExpiredGateLeaseIds\<close> and \<open>markStaleGateConditions\<close> share.\<close>

definition gate_stale :: "env \<Rightarrow> db \<Rightarrow> int \<Rightarrow> uuid \<Rightarrow> bool" where
  "gate_stale e d staleSeconds g =
     (case row_of gl_gate g (gate_leases d) of
        None \<Rightarrow> True
      | Some l \<Rightarrow> gl_expires l \<le> env_now e \<or> gl_heartbeat l < env_now e - seconds staleSeconds)"

definition listExpiredGateLeaseIds :: "env \<Rightarrow> db \<Rightarrow> int \<Rightarrow> uuid list" where
  "listExpiredGateLeaseIds e d staleSeconds =
     map gt_id (filter (\<lambda>g. gate_stale e d staleSeconds (gt_id g)) (gates d))"

subsection \<open>Conditions (\<open>gates/repository.ts\<close>)\<close>

definition condition_for :: "uuid \<Rightarrow> int option \<Rightarrow> lifecycle_condition \<Rightarrow> condition_row" where
  "condition_for gateId generation c =
     \<lparr>cn_owner = gateId, cn_type = lc_type c, cn_status = lc_status c, cn_reason = lc_reason c,
      cn_message = lc_message c, cn_observedGeneration = generation, cn_lastTransition = 0\<rparr>"

definition upsertGateCondition ::
    "env \<Rightarrow> uuid \<Rightarrow> int option \<Rightarrow> lifecycle_condition \<Rightarrow> db \<Rightarrow> db" where
  "upsertGateCondition e gateId generation c d =
     d\<lparr>gate_conditions := upsert_condition e (condition_for gateId generation c) (gate_conditions d)\<rparr>"

text \<open>One row of the \<open>INSERT ... SELECT\<close> of \<open>markStaleGateConditions\<close>: here a new reason also
  moves the transition time.\<close>

definition upsert_stale_condition :: "env \<Rightarrow> lifecycle_condition \<Rightarrow> gate_row \<Rightarrow> condition_row list \<Rightarrow> condition_row list" where
  "upsert_stale_condition e c g t =
     (let new = condition_for (gt_id g) (Some (gt_generation g)) c in
      upsert (\<lambda>r. (cn_owner r, cn_type r) = (gt_id g, lc_type c))
        (\<lambda>r. new\<lparr>cn_lastTransition :=
            (if cn_status r \<noteq> cn_status new \<or> cn_reason r \<noteq> cn_reason new then env_now e
             else cn_lastTransition r)\<rparr>)
        (new\<lparr>cn_lastTransition := env_now e\<rparr>) t)"

definition markStaleGateConditions :: "env \<Rightarrow> int \<Rightarrow> lifecycle_condition list \<Rightarrow> db \<Rightarrow> db" where
  "markStaleGateConditions e staleSeconds conditions d =
     fold (\<lambda>c d. d\<lparr>gate_conditions :=
         fold (upsert_stale_condition e c)
           (filter (\<lambda>g. gate_stale e d staleSeconds (gt_id g)) (gates d)) (gate_conditions d)\<rparr>)
       conditions d"

definition markStaleGates :: "env \<Rightarrow> int \<Rightarrow> db \<Rightarrow> db" where
  "markStaleGates e staleSeconds = markStaleGateConditions e staleSeconds resolveGateStaleConditions"

definition setGateDriftCondition :: "env \<Rightarrow> uuid \<Rightarrow> lifecycle_condition \<Rightarrow> db \<Rightarrow> db \<times> bool" where
  "setGateDriftCondition e gateId c d =
     (let changedToDrift = (lc_status c = C_True \<and>
            (case gate_condition_of d gateId (lc_type c) of
               None \<Rightarrow> True
             | Some r \<Rightarrow> cn_status r \<noteq> lc_status c \<or> cn_reason r \<noteq> lc_reason c \<or> cn_message r \<noteq> lc_message c))
      in (upsertGateCondition e gateId None c d, changedToDrift))"

subsection \<open>Heartbeats (\<open>gates/service.ts\<close>, \<open>gates/repository.ts\<close>)\<close>

record gate_identity =
  gi_id :: uuid
  gi_name :: string
  gi_generation :: int
  gi_desired :: gate_desired
  gi_publicIpv4 :: string
  gi_spec :: js_record

record heartbeat_report =
  hb_agentVersion :: string
  hb_agentRevision :: "string option"
  hb_agentBuiltAt :: "string option"
  hb_agentArtifactSha256 :: "string option"
  hb_agentInstalledAt :: "time option"
  hb_bootId :: string
  hb_observedEndpoint :: string
  hb_capabilities :: "string list"
  hb_doubleZero :: js_record

text \<open>\<open>x || null\<close> on an optional string.\<close>

definition opt_or_null :: "string option \<Rightarrow> string option" where
  "opt_or_null x = (case x of None \<Rightarrow> None | Some s \<Rightarrow> or_null s)"

definition normalizedStatus :: "json option \<Rightarrow> string option" where
  "normalizedStatus v = (case v of Some (JStr s) \<Rightarrow> or_null (js_trim s) | _ \<Rightarrow> None)"

text \<open>\<open>NULLIF(BTRIM(... ->> key), '')\<close>: SQL trims blanks only.\<close>

definition sql_btrim :: "string \<Rightarrow> string" where
  "sql_btrim s = rev (dropWhile (\<lambda>c. c = CHR '' '') (rev (dropWhile (\<lambda>c. c = CHR '' '') s)))"

definition stored_status :: "db \<Rightarrow> uuid \<Rightarrow> string \<Rightarrow> string option" where
  "stored_status d gateId key = (case gate_status_of d gateId of
      None \<Rightarrow> None
    | Some st \<Rightarrow> (case sql_text (js_prop (gs_doubleZero st) key) of
        None \<Rightarrow> None | Some s \<Rightarrow> or_null (sql_btrim s)))"

definition json_opt :: "string option \<Rightarrow> json" where
  "json_opt v = (case v of None \<Rightarrow> JNull | Some s \<Rightarrow> JStr s)"

definition heartbeat_row :: "env \<Rightarrow> gate_identity \<Rightarrow> heartbeat_report \<Rightarrow> gate_status_row" where
  "heartbeat_row e gate report =
     \<lparr>gs_gate = gi_id gate, gs_observedGeneration = gi_generation gate,
      gs_agentVersion = or_null (hb_agentVersion report),
      gs_agentRevision = opt_or_null (hb_agentRevision report),
      gs_agentBuiltAt = opt_or_null (hb_agentBuiltAt report),
      gs_artifactSha256 = opt_or_null (hb_agentArtifactSha256 report),
      gs_installedAt = hb_agentInstalledAt report, gs_bootId = or_null (hb_bootId report),
      gs_lastSeen = Some (env_now e), gs_endpoint = or_null (hb_observedEndpoint report),
      gs_capabilities = hb_capabilities report, gs_doubleZero = hb_doubleZero report,
      gs_currentDevice = or_null (readString (hb_doubleZero report) ''currentDevice''),
      gs_lowestDevice = or_null (readString (hb_doubleZero report) ''lowestLatencyDevice''),
      gs_deviceWarning = (case js_prop (hb_doubleZero report) ''lowestLatencyDeviceWarning'' of
         Some (JBool b) \<Rightarrow> Some b | _ \<Rightarrow> None),
      gs_hash = None, gs_updated = env_now e\<rparr>"

text \<open>The statement keeps the column \<open>actual_state_hash\<close> of a row that is already there.\<close>

definition upsert_heartbeat_row :: "gate_status_row \<Rightarrow> db \<Rightarrow> db" where
  "upsert_heartbeat_row new d =
     d\<lparr>gate_status := upsert (\<lambda>r. gs_gate r = gs_gate new) (\<lambda>r. new\<lparr>gs_hash := gs_hash r\<rparr>) new (gate_status d)\<rparr>"

definition tunnel_changed_audit :: "uuid \<Rightarrow> string \<Rightarrow> string \<Rightarrow> js_record \<Rightarrow> audit_row" where
  "tunnel_changed_audit gateId previous current dz = audit_blank\<lparr>
     au_event := ''gate_doublezero_tunnel_status_changed'', au_actorType := ''system'',
     au_gate := Some gateId,
     au_details := JObj [(''previousStatus'', JStr previous), (''currentStatus'', JStr current),
       (''network'', json_opt (normalizedStatus (js_prop dz ''network''))),
       (''metro'', json_opt (normalizedStatus (js_prop dz ''metro''))),
       (''currentDevice'', json_opt (normalizedStatus (js_prop dz ''currentDevice'')))]\<rparr>"

definition recovery_audit :: "uuid \<Rightarrow> string \<Rightarrow> js_record \<Rightarrow> audit_row" where
  "recovery_audit gateId completedAt dz = audit_blank\<lparr>
     au_event := ''gate_doublezero_recovery_completed'', au_actorType := ''system'',
     au_gate := Some gateId,
     au_details := JObj [(''attemptedAt'', json_opt (normalizedStatus (js_prop dz ''recoveryAttemptedAt''))),
       (''completedAt'', JStr completedAt),
       (''outcome'', json_opt (normalizedStatus (js_prop dz ''recoveryLastOutcome''))),
       (''stage'', json_opt (normalizedStatus (js_prop dz ''recoveryLastStage''))),
       (''reason'', json_opt (normalizedStatus (js_prop dz ''recoveryReason''))),
       (''beforeDevice'', json_opt (normalizedStatus (js_prop dz ''recoveryBeforeDevice''))),
       (''afterDevice'', json_opt (normalizedStatus (js_prop dz ''recoveryAfterDevice'')))]\<rparr>"

definition saveGateHeartbeatStatus ::
    "env \<Rightarrow> gate_identity \<Rightarrow> heartbeat_report \<Rightarrow> lifecycle_condition list \<Rightarrow> db \<Rightarrow> db" where
  "saveGateHeartbeatStatus e gate report conditions d =
     (let previousTunnelStatus = stored_status d (gi_id gate) ''tunnelStatus'';
          previousRecovery = stored_status d (gi_id gate) ''recoveryCompletedAt'';
          currentTunnelStatus = normalizedStatus (js_prop (hb_doubleZero report) ''tunnelStatus'');
          currentRecovery = normalizedStatus (js_prop (hb_doubleZero report) ''recoveryCompletedAt'');
          d1 = upsert_heartbeat_row (heartbeat_row e gate report) d;
          d2 = (case (previousTunnelStatus, currentTunnelStatus) of
                  (Some p, Some c) \<Rightarrow>
                    if p \<noteq> c then audit e (tunnel_changed_audit (gi_id gate) p c (hb_doubleZero report)) d1
                    else d1
                | _ \<Rightarrow> d1);
          d3 = (case currentRecovery of
                  None \<Rightarrow> d2
                | Some c \<Rightarrow> if currentRecovery \<noteq> previousRecovery
                    then audit e (recovery_audit (gi_id gate) c (hb_doubleZero report)) d2 else d2)
      in fold (upsertGateCondition e (gi_id gate) (Some (gi_generation gate))) conditions d3)"

definition hostReady :: "heartbeat_report \<Rightarrow> bool" where
  "hostReady report \<longleftrightarrow>
     {''wireguard-tools:present'', ''iproute2:present'', ''nft:present''} \<subseteq> set (hb_capabilities report)"

definition report_readiness :: "gate_identity \<Rightarrow> heartbeat_report \<Rightarrow> gate_readiness" where
  "report_readiness gate report =
     evaluateGateReadiness (hb_capabilities report) (hb_doubleZero report) (gi_publicIpv4 gate)
       (readGateDoubleZeroEnv (gi_spec gate)) (hostReady report)"

definition recordGateHeartbeat :: "env \<Rightarrow> gate_identity \<Rightarrow> heartbeat_report \<Rightarrow> db \<Rightarrow> db" where
  "recordGateHeartbeat e gate report d =
     (let lifecycleConditions = resolveGateHeartbeatConditions (report_readiness gate report) (gi_desired gate);
          d1 = saveGateHeartbeatStatus e gate report
                 (resolveGateAgentConnectedCondition True # lifecycleConditions) d
      in recordGateLease e (gi_id gate) (gi_name gate) None d1)"

subsection \<open>Operators\<close>

datatype principal_kind = PK_user | PK_gate | PK_admin | PK_agent | PK_system

record principal =
  pp_kind :: principal_kind
  pp_id :: string
  pp_accountId :: "string option"

definition canManageOwnSession :: "principal \<Rightarrow> string \<Rightarrow> bool" where
  "canManageOwnSession p accountId \<longleftrightarrow> pp_kind p = PK_user \<and> pp_accountId p = Some accountId"

definition canOperateCluster :: "principal \<Rightarrow> bool" where
  "canOperateCluster p \<longleftrightarrow> pp_kind p = PK_admin \<or> pp_kind p = PK_system"

definition canClaimGateJob :: "principal \<Rightarrow> string \<Rightarrow> bool" where
  "canClaimGateJob p gateId \<longleftrightarrow> pp_kind p = PK_gate \<and> pp_id p = gateId"

definition updateGateDesiredState :: "env \<Rightarrow> uuid \<Rightarrow> gate_desired \<Rightarrow> string \<Rightarrow> db \<Rightarrow> db \<times> bool" where
  "updateGateDesiredState e gateId desired actorId d =
     (if \<not> list_ex (\<lambda>g. gt_id g = gateId) (gates d) then (d, False)
      else let d1 = d\<lparr>gates := update_where (\<lambda>g. gt_id g = gateId)
                 (\<lambda>g. g\<lparr>gt_desired := desired, gt_generation := gt_generation g + 1,
                        gt_updated := env_now e\<rparr>) (gates d)\<rparr>
        in (audit e (audit_blank\<lparr>au_event := ''gate_desired_state_updated'', au_actorType := ''admin'',
              au_actor := (if actorId = ''admin'' then None else Some actorId), au_gate := Some gateId,
              au_details := JObj [(''desiredState'', JStr (show_gate_desired desired))]\<rparr>) d1, True))"

datatype gate_command = GC_forbidden | GC_not_found | GC_enabled | GC_draining | GC_disabled | GC_maintenance

fun commandStatus :: "gate_desired \<Rightarrow> gate_command" where
  "commandStatus G_Enabled = GC_enabled"
| "commandStatus G_Draining = GC_draining"
| "commandStatus G_Disabled = GC_disabled"
| "commandStatus G_Maintenance = GC_maintenance"

definition setGateDesiredState :: "env \<Rightarrow> principal \<Rightarrow> uuid \<Rightarrow> gate_desired \<Rightarrow> db \<Rightarrow> db \<times> gate_command" where
  "setGateDesiredState e p gateId desired d =
     (if \<not> canOperateCluster p then (d, GC_forbidden)
      else (case updateGateDesiredState e gateId desired (pp_id p) d of
         (d', updated) \<Rightarrow> (d', if updated then commandStatus desired else GC_not_found)))"

definition drainGate :: "env \<Rightarrow> principal \<Rightarrow> uuid \<Rightarrow> db \<Rightarrow> db \<times> gate_command" where
  "drainGate e p gateId d = setGateDesiredState e p gateId G_Draining d"

subsection \<open>Reading conditions, status and leases back\<close>

abbreviation condition_key :: "condition_row \<Rightarrow> uuid \<times> string" where
  "condition_key c \<equiv> (cn_owner c, cn_type c)"

interpretation condition_upsert: row_upsert condition_key
    "\<lambda>r. new\<lparr>cn_lastTransition := t r\<rparr>" "new\<lparr>cn_lastTransition := t0\<rparr>" for new t t0
  by unfold_locales simp

interpretation status_upsert: row_upsert gs_gate "\<lambda>r. new\<lparr>gs_hash := gs_hash r\<rparr>" new for new
  by unfold_locales simp

interpretation lease_upsert: row_upsert gl_gate
    "\<lambda>l. l\<lparr>gl_owner := gl_owner new, gl_expires := gl_expires new, gl_heartbeat := h\<rparr>" new for new h
  by unfold_locales simp

lemma condition_true_upsert:
  assumes "cn_owner new = g" "cn_type new = t"
  shows "(case row_of condition_key (h, u) (upsert_condition e new rows) of
      Some c \<Rightarrow> cn_status c = C_True | None \<Rightarrow> False) \<longleftrightarrow>
    (if (h, u) = (g, t) then cn_status new = C_True
     else (case row_of condition_key (h, u) rows of Some c \<Rightarrow> cn_status c = C_True | None \<Rightarrow> False))"
proof -
  have "(\<lambda>r. cn_owner r = cn_owner new \<and> cn_type r = cn_type new)
      = (\<lambda>r. condition_key r = condition_key (new\<lparr>cn_lastTransition := env_now e\<rparr>))"
    by (simp add: fun_eq_iff)
  then show ?thesis
    unfolding upsert_condition_def using assms
    by (simp only: condition_upsert.row_of_upsert) (auto split: option.splits)
qed

lemma condition_true_set:
  "condition_true (upsertGateCondition e g gen c d) h t \<longleftrightarrow>
     (if h = g \<and> t = lc_type c then lc_status c = C_True else condition_true d h t)"
  using condition_true_upsert[of "condition_for g gen c" g "lc_type c" h t e "gate_conditions d"]
  by (auto simp: condition_true_def gate_condition_of_def upsertGateCondition_def condition_for_def)

lemma condition_true_fold:
  "distinct (map lc_type cs) \<Longrightarrow>
   condition_true (fold (upsertGateCondition e g gen) cs d) h t \<longleftrightarrow>
     (if h = g \<and> t \<in> lc_type ` set cs then \<exists>c\<in>set cs. lc_type c = t \<and> lc_status c = C_True
      else condition_true d h t)"
proof (induction cs arbitrary: d)
  case (Cons c cs)
  then have IH: "condition_true (fold (upsertGateCondition e g gen) cs (upsertGateCondition e g gen c d)) h t
      \<longleftrightarrow> (if h = g \<and> t \<in> lc_type ` set cs then \<exists>c\<in>set cs. lc_type c = t \<and> lc_status c = C_True
        else condition_true (upsertGateCondition e g gen c d) h t)" by simp
  show ?case
  proof (cases "h = g \<and> t \<in> lc_type ` set cs")
    case True
    then have "lc_type c \<noteq> t" using Cons.prems by auto
    with IH True show ?thesis by simp
  next
    case False
    then have "h = g \<Longrightarrow> c' \<in> set cs \<Longrightarrow> lc_type c' \<noteq> t" for c' by blast
    with IH False show ?thesis by (auto simp: condition_true_set)
  qed
qed simp

lemma upsertGateCondition_frame [simp]:
  "gates (upsertGateCondition e g gen c d) = gates d"
  "gate_status (upsertGateCondition e g gen c d) = gate_status d"
  "gate_leases (upsertGateCondition e g gen c d) = gate_leases d"
  "deployments (upsertGateCondition e g gen c d) = deployments d"
  by (simp_all add: upsertGateCondition_def)

lemma fold_conditions_frame [simp]:
  "gates (fold (upsertGateCondition e g gen) cs d) = gates d"
  "gate_status (fold (upsertGateCondition e g gen) cs d) = gate_status d"
  "gate_leases (fold (upsertGateCondition e g gen) cs d) = gate_leases d"
  "deployments (fold (upsertGateCondition e g gen) cs d) = deployments d"
  by (induction cs arbitrary: d) simp_all

lemma audit_frame [simp]:
  "gates (audit e a d) = gates d" "gate_status (audit e a d) = gate_status d"
  "gate_leases (audit e a d) = gate_leases d" "deployments (audit e a d) = deployments d"
  "gate_conditions (audit e a d) = gate_conditions d"
  by (simp_all add: audit_def)

text \<open>The tables a heartbeat leaves behind.\<close>

definition heartbeat_conditions :: "gate_identity \<Rightarrow> heartbeat_report \<Rightarrow> lifecycle_condition list" where
  "heartbeat_conditions gate report =
     resolveGateAgentConnectedCondition True #
       resolveGateHeartbeatConditions (report_readiness gate report) (gi_desired gate)"

lemma save_frame:
  fixes e gate report cs d
  defines "d' \<equiv> saveGateHeartbeatStatus e gate report cs d"
  shows "gates d' = gates d" "gate_leases d' = gate_leases d" "deployments d' = deployments d"
    "gate_status d' = gate_status (upsert_heartbeat_row (heartbeat_row e gate report) d)"
    "distinct (map lc_type cs) \<Longrightarrow> condition_true d' h t \<longleftrightarrow>
       (if h = gi_id gate \<and> t \<in> lc_type ` set cs then \<exists>c\<in>set cs. lc_type c = t \<and> lc_status c = C_True
        else condition_true d h t)"
proof -
  obtain d3 where d3: "d' = fold (upsertGateCondition e (gi_id gate) (Some (gi_generation gate))) cs d3"
    "gates d3 = gates d" "gate_leases d3 = gate_leases d" "deployments d3 = deployments d"
    "gate_status d3 = gate_status (upsert_heartbeat_row (heartbeat_row e gate report) d)"
    "gate_conditions d3 = gate_conditions d"
    unfolding d'_def saveGateHeartbeatStatus_def Let_def
    by (auto simp: upsert_heartbeat_row_def split: option.splits intro: that)
  then show "gates d' = gates d" "gate_leases d' = gate_leases d" "deployments d' = deployments d"
    "gate_status d' = gate_status (upsert_heartbeat_row (heartbeat_row e gate report) d)"
    by simp_all
  have "condition_true d3 h t = condition_true d h t"
    by (simp add: condition_true_def gate_condition_of_def d3)
  then show "distinct (map lc_type cs) \<Longrightarrow> condition_true d' h t \<longleftrightarrow>
       (if h = gi_id gate \<and> t \<in> lc_type ` set cs then \<exists>c\<in>set cs. lc_type c = t \<and> lc_status c = C_True
        else condition_true d h t)"
    by (simp add: d3(1) condition_true_fold)
qed

lemma heartbeat_condition_types:
  "map lc_type (heartbeat_conditions gate report) = [''AgentConnected'', ''Ready'', ''Schedulable'']"
  by (simp add: heartbeat_conditions_def resolveGateAgentConnectedCondition_def
      resolveGateHeartbeatConditions_def Let_def)

lemma heartbeat_condition_true:
  "condition_true (recordGateHeartbeat e gate report d) h t \<longleftrightarrow>
     (if h = gi_id gate \<and> t \<in> {''AgentConnected'', ''Ready'', ''Schedulable''}
      then (if t = ''AgentConnected'' then True
            else if t = ''Ready'' then gr_ready (report_readiness gate report)
            else isGateSchedulable (gr_ready (report_readiness gate report))
                   (gr_doubleZeroReady (report_readiness gate report)) (gi_desired gate))
      else condition_true d h t)"
proof -
  let ?d = "saveGateHeartbeatStatus e gate report (heartbeat_conditions gate report) d"
  have "condition_true (recordGateHeartbeat e gate report d) h t = condition_true ?d h t"
    by (simp add: recordGateHeartbeat_def heartbeat_conditions_def recordGateLease_def
        upsertGateLease_def condition_true_def gate_condition_of_def Let_def)
  moreover have "distinct (map lc_type (heartbeat_conditions gate report))"
    unfolding heartbeat_condition_types by simp
  ultimately show ?thesis
    by (auto simp: save_frame(5) heartbeat_conditions_def resolveGateAgentConnectedCondition_def
        resolveGateHeartbeatConditions_def Let_def)
qed

lemma heartbeat_tables:
  fixes e gate report d
  defines "d' \<equiv> recordGateHeartbeat e gate report d"
  shows "gates d' = gates d" "deployments d' = deployments d"
    "gate_status_of d' h = (if h = gi_id gate
       then Some (case gate_status_of d h of None \<Rightarrow> heartbeat_row e gate report
                  | Some r \<Rightarrow> (heartbeat_row e gate report)\<lparr>gs_hash := gs_hash r\<rparr>)
       else gate_status_of d h)"
    "fresh_gate_lease e' d' h = (if h = gi_id gate then env_now e + 30000 > env_now e'
       else fresh_gate_lease e' d h)"
proof -
  let ?d = "saveGateHeartbeatStatus e gate report (heartbeat_conditions gate report) d"
  have d': "d' = recordGateLease e (gi_id gate) (gi_name gate) None ?d"
    by (simp add: d'_def recordGateHeartbeat_def heartbeat_conditions_def Let_def)
  show "gates d' = gates d" "deployments d' = deployments d"
    by (simp_all add: d' recordGateLease_def upsertGateLease_def Let_def save_frame)
  have key: "gs_gate (heartbeat_row e gate report) = gi_id gate" by (simp add: heartbeat_row_def)
  have "gate_status d' = upsert (\<lambda>r. gs_gate r = gs_gate (heartbeat_row e gate report))
      (\<lambda>r. (heartbeat_row e gate report)\<lparr>gs_hash := gs_hash r\<rparr>) (heartbeat_row e gate report) (gate_status d)"
    by (simp add: d' recordGateLease_def upsertGateLease_def Let_def save_frame upsert_heartbeat_row_def)
  then show "gate_status_of d' h = (if h = gi_id gate
       then Some (case gate_status_of d h of None \<Rightarrow> heartbeat_row e gate report
                  | Some r \<Rightarrow> (heartbeat_row e gate report)\<lparr>gs_hash := gs_hash r\<rparr>)
       else gate_status_of d h)"
    using status_upsert.row_of_upsert[of h "heartbeat_row e gate report" "gate_status d"]
    by (simp add: gate_status_of_def key)
  let ?l = "\<lparr>gl_gate = gi_id gate, gl_owner = gi_name gate,
      gl_expires = env_now e + 30000, gl_heartbeat = env_now e\<rparr>"
  have "gate_leases d' = upsert (\<lambda>l. gl_gate l = gl_gate ?l)
      (\<lambda>l. l\<lparr>gl_owner := gl_owner ?l, gl_expires := gl_expires ?l, gl_heartbeat := env_now e\<rparr>) ?l (gate_leases d)"
    by (simp add: d' recordGateLease_def upsertGateLease_def Let_def save_frame
        gateHeartbeatLeaseTtlSeconds_def seconds_def)
  then show "fresh_gate_lease e' d' h = (if h = gi_id gate then env_now e + 30000 > env_now e'
       else fresh_gate_lease e' d h)"
    unfolding fresh_gate_lease_def by (simp only: lease_upsert.row_of_upsert) (simp split: option.split)
qed

subsection \<open>What a heartbeat decides\<close>

lemma doubleZeroReady_iff:
  "gr_doubleZeroReady (evaluateGateReadiness caps dz ip net host) \<longleftrightarrow>
     host \<and> ''doublezero0:up'' \<in> set caps
     \<and> js_lower (readString dz ''currentDeviceStatus'') \<noteq> ''drained''
     \<and> readString dz ''tunnelStatus'' = ''BGP Session Up''
     \<and> readString dz ''network'' = net \<and> readString dz ''tunnelSrc'' = ip"
  by (simp add: evaluateGateReadiness_def host_ready_readiness_def Let_def)

lemma ready_iff: "gr_ready (evaluateGateReadiness caps dz ip net host) \<longleftrightarrow> host"
  by (simp add: evaluateGateReadiness_def host_ready_readiness_def Let_def)

text \<open>The report shows a gate that may take new sessions.\<close>

definition report_qualifies :: "gate_identity \<Rightarrow> heartbeat_report \<Rightarrow> bool" where
  "report_qualifies gate report \<longleftrightarrow>
     hostReady report \<and> ''doublezero0:up'' \<in> set (hb_capabilities report)
     \<and> js_lower (readString (hb_doubleZero report) ''currentDeviceStatus'') \<noteq> ''drained''
     \<and> readString (hb_doubleZero report) ''tunnelStatus'' = ''BGP Session Up''
     \<and> readString (hb_doubleZero report) ''network'' = readGateDoubleZeroEnv (gi_spec gate)
     \<and> readString (hb_doubleZero report) ''tunnelSrc'' = gi_publicIpv4 gate
     \<and> gi_desired gate = G_Enabled"

text \<open>The agent's status object holds trimmed strings, as the agent writes them.\<close>

definition plain_member :: "js_record \<Rightarrow> string \<Rightarrow> bool" where
  "plain_member r k = (case js_prop r k of None \<Rightarrow> True | Some (JStr s) \<Rightarrow> js_trim s = s | _ \<Rightarrow> False)"

definition plain_report :: "heartbeat_report \<Rightarrow> bool" where
  "plain_report report \<longleftrightarrow>
     list_all (plain_member (hb_doubleZero report)) [''tunnelStatus'', ''currentDeviceStatus'', ''network'', ''tunnelSrc'']"

lemma plain_text:
  "plain_member r k \<Longrightarrow> sql_text (js_prop r k) = (case js_prop r k of None \<Rightarrow> None | Some _ \<Rightarrow> Some (readString r k))"
  by (auto simp: plain_member_def sql_text_def readString_def split: option.splits json.splits)

lemma plain_text_eq: "plain_member r k \<Longrightarrow> v \<noteq> [] \<Longrightarrow> sql_text (js_prop r k) = Some v \<longleftrightarrow> readString r k = v"
  by (auto simp: plain_text readString_def split: option.splits)

lemma schedulable_condition:
  "condition_true (recordGateHeartbeat e gate report d) (gi_id gate) ''Schedulable'' \<longleftrightarrow> report_qualifies gate report"
  unfolding heartbeat_condition_true report_readiness_def
  by (auto simp: isGateSchedulable_def ready_iff doubleZeroReady_iff report_qualifies_def)

text \<open>
  A heartbeat decides alone whether its gate takes new sessions: until its lease of 30 seconds
  runs out, an enabled gate without a rollout is schedulable exactly when the report shows the
  host tools, the DoubleZero interface up, a device that is not drained, a BGP session, the
  catalogue's network and the catalogue's address.  (The scheduling query compares the status
  text exactly, so the agent's strings have to be trimmed.)
\<close>

lemma heartbeat_decides:
  assumes "gt_id g = gi_id gate" "gt_publicIpv4 g = gi_publicIpv4 gate" "gt_desired g = gi_desired gate"
    and "gt_spec g = gi_spec gate" "plain_member (gt_spec g) ''doubleZeroEnv''"
    and "gi_publicIpv4 gate \<noteq> []" "no_active_deployment d (gi_id gate)" "plain_report report"
    and "env_now e' < env_now e + 30000"
  shows "gate_schedulable e' (recordGateHeartbeat e gate report d) g \<longleftrightarrow> report_qualifies gate report"
proof
  assume "gate_schedulable e' (recordGateHeartbeat e gate report d) g"
  then show "report_qualifies gate report"
    using assms(1) by (simp add: gate_schedulable_def schedulable_condition)
next
  assume q: "report_qualifies gate report"
  have net: "gate_network g = readGateDoubleZeroEnv (gi_spec gate)"
    using assms(4,5) by (auto simp: gate_network_def plain_text readGateDoubleZeroEnv_def or_else_def
        readString_def split: option.splits)
  have "readGateDoubleZeroEnv (gi_spec gate) \<noteq> []" by (simp add: readGateDoubleZeroEnv_def or_else_def)
  moreover have "js_lower ''drained'' = ''drained''" by code_simp
  ultimately have "doubleZeroGateSqlPredicate e' (recordGateHeartbeat e gate report d) g"
    using q assms
    by (auto simp: doubleZeroGateSqlPredicate_def heartbeat_tables heartbeat_row_def plain_report_def
        plain_text_eq net report_qualifies_def split: option.split)
  moreover have "no_active_deployment (recordGateHeartbeat e gate report d) (gi_id gate)"
    using assms(7) by (simp add: no_active_deployment_def heartbeat_tables)
  moreover have "condition_true (recordGateHeartbeat e gate report d) (gi_id gate) ''Ready''"
    using q by (simp add: heartbeat_condition_true report_readiness_def ready_iff report_qualifies_def)
  moreover have "condition_true (recordGateHeartbeat e gate report d) (gi_id gate) ''AgentConnected''"
    by (simp add: heartbeat_condition_true)
  moreover have "gi_desired gate = G_Enabled" using q by (simp add: report_qualifies_def)
  ultimately show "gate_schedulable e' (recordGateHeartbeat e gate report d) g"
    using assms(1,3) q by (simp add: gate_schedulable_def schedulable_condition)
qed

definition sample_identity :: gate_identity where
  "sample_identity = \<lparr>gi_id = ''g1'', gi_name = ''gate-eu-1'', gi_generation = 1, gi_desired = G_Enabled,
     gi_publicIpv4 = ''1.1.1.1'', gi_spec = []\<rparr>"

definition sample_report :: heartbeat_report where
  "sample_report = \<lparr>hb_agentVersion = ''1'', hb_agentRevision = None, hb_agentBuiltAt = None,
     hb_agentArtifactSha256 = None, hb_agentInstalledAt = None, hb_bootId = ''boot'',
     hb_observedEndpoint = [],
     hb_capabilities = [''doublezero0:up'', ''wireguard-tools:present'', ''iproute2:present'', ''nft:present''],
     hb_doubleZero = [(''tunnelStatus'', JStr ''BGP Session Up''), (''network'', JStr ''testnet''),
       (''tunnelSrc'', JStr ''1.1.1.1'')]\<rparr>"

lemma heartbeat_decides_witness:
  "report_qualifies sample_identity sample_report
   \<and> gate_schedulable sample_env (recordGateHeartbeat sample_env sample_identity sample_report empty_db)
       (sample_gate ''g1'' ''gate-eu-1'' ''1.1.1.1'')"
proof -
  have "report_qualifies sample_identity sample_report" by code_simp
  moreover have "plain_report sample_report" by code_simp
  moreover have "no_active_deployment empty_db (gi_id sample_identity)"
    by (simp add: no_active_deployment_def empty_db_def)
  ultimately show ?thesis
    using heartbeat_decides[of "sample_gate ''g1'' ''gate-eu-1'' ''1.1.1.1''" sample_identity empty_db
        sample_report sample_env sample_env]
    by (simp add: sample_gate_def sample_identity_def plain_member_def)
qed

subsection \<open>Stale gates\<close>

lemma stale_upsert:
  "row_of condition_key (h, u) (upsert_stale_condition e c g t) =
     (if h = gt_id g \<and> u = lc_type c
      then Some ((condition_for (gt_id g) (Some (gt_generation g)) c)\<lparr>cn_lastTransition :=
         (case row_of condition_key (h, u) t of None \<Rightarrow> env_now e
          | Some r \<Rightarrow> if cn_status r \<noteq> lc_status c \<or> cn_reason r \<noteq> lc_reason c then env_now e
                     else cn_lastTransition r)\<rparr>)
      else row_of condition_key (h, u) t)"
proof -
  have "(gt_id g, lc_type c) = condition_key ((condition_for (gt_id g) (Some (gt_generation g)) c)\<lparr>cn_lastTransition := env_now e\<rparr>)"
    by (simp add: condition_for_def)
  then show ?thesis
    unfolding upsert_stale_condition_def Let_def
    by (simp only: condition_upsert.row_of_upsert) (auto simp: condition_for_def split: option.split)
qed

definition condition_status_of :: "condition_row list \<Rightarrow> uuid \<Rightarrow> string \<Rightarrow> condition_status option" where
  "condition_status_of t h u = map_option cn_status (row_of condition_key (h, u) t)"

lemma stale_status:
  "condition_status_of (upsert_stale_condition e c g t) h u =
     (if h = gt_id g \<and> u = lc_type c then Some (lc_status c) else condition_status_of t h u)"
  by (simp add: condition_status_of_def stale_upsert) (simp add: condition_for_def)

lemma stale_fold_status:
  "condition_status_of (fold (upsert_stale_condition e c) gs t) h u =
     (if h \<in> gt_id ` set gs \<and> u = lc_type c then Some (lc_status c) else condition_status_of t h u)"
  by (induction gs arbitrary: t) (auto simp: stale_status)

lemma markStale_frame:
  "gates (markStaleGateConditions e n cs d) = gates d"
  "gate_leases (markStaleGateConditions e n cs d) = gate_leases d"
  unfolding markStaleGateConditions_def by (induction cs arbitrary: d) simp_all

lemma markStale_status:
  assumes "distinct (map lc_type cs)"
  shows "condition_status_of (gate_conditions (markStaleGateConditions e n cs d)) h u =
     (if h \<in> gt_id ` {g \<in> set (gates d). gate_stale e d n (gt_id g)} \<and> u \<in> lc_type ` set cs
      then map_option lc_status (find (\<lambda>c. lc_type c = u) cs)
      else condition_status_of (gate_conditions d) h u)"
  using assms
proof (induction cs arbitrary: d)
  case Nil
  then show ?case by (simp add: markStaleGateConditions_def)
next
  case (Cons c cs)
  let ?d = "d\<lparr>gate_conditions := fold (upsert_stale_condition e c)
      (filter (\<lambda>g. gate_stale e d n (gt_id g)) (gates d)) (gate_conditions d)\<rparr>"
  have step: "markStaleGateConditions e n (c # cs) d = markStaleGateConditions e n cs ?d"
    by (simp add: markStaleGateConditions_def)
  have same: "gate_stale e ?d n = gate_stale e d n" "gates ?d = gates d"
    by (simp_all add: gate_stale_def fun_eq_iff)
  have IH: "condition_status_of (gate_conditions (markStaleGateConditions e n cs ?d)) h u =
     (if h \<in> gt_id ` {g \<in> set (gates d). gate_stale e d n (gt_id g)} \<and> u \<in> lc_type ` set cs
      then map_option lc_status (find (\<lambda>c. lc_type c = u) cs)
      else condition_status_of (gate_conditions ?d) h u)"
    using Cons.IH[of ?d] Cons.prems unfolding same by simp
  have "lc_type c \<notin> lc_type ` set cs" using Cons.prems by simp
  then show ?case unfolding step IH by (auto simp: stale_fold_status)
qed

lemma stale_types: "distinct (map lc_type resolveGateStaleConditions)"
  "map_option lc_status (find (\<lambda>c. lc_type c = ''Schedulable'') resolveGateStaleConditions) = Some C_False"
  "map_option lc_status (find (\<lambda>c. lc_type c = ''AgentConnected'') resolveGateStaleConditions) = Some C_False"
  "lc_type ` set resolveGateStaleConditions = {''AgentConnected'', ''Ready'', ''Schedulable''}"
  by (simp_all add: resolveGateStaleConditions_def resolveGateAgentConnectedCondition_def
      resolveGateHeartbeatConditions_def isGateSchedulable_def status_of_bool_def Let_def)

lemma condition_true_status: "condition_true d g t \<longleftrightarrow> condition_status_of (gate_conditions d) g t = Some C_True"
  by (auto simp: condition_true_def gate_condition_of_def condition_status_of_def split: option.splits)

lemma marked_stale_not_true:
  assumes "g \<in> set (gates d)" "gate_stale e d n (gt_id g)"
  shows "\<not> condition_true (markStaleGates e n d) (gt_id g) ''Schedulable''"
  using assms unfolding condition_true_status markStaleGates_def
  by (subst markStale_status[OF stale_types(1)]) (auto simp: stale_types)

text \<open>
  Once the reconciler has marked stale gates, a gate that has not renewed its lease in time is
  neither the ingress nor the egress of any path chosen from then on; gates whose lease is fresh
  keep every condition they had.
\<close>

lemma stale_gates_not_chosen:
  assumes "g \<in> set (gates d)" "gate_stale e d staleSeconds (gt_id g)"
    and "choosePath e' (markStaleGates e staleSeconds d) spec = Inr (Some p)"
  shows "pth_ingressGateId p \<noteq> gt_id g \<and> pth_egressGateId p \<noteq> gt_id g
    \<and> (\<forall>h t. h \<in> set (gates d) \<and> \<not> gate_stale e d staleSeconds (gt_id h) \<longrightarrow>
         condition_true (markStaleGates e staleSeconds d) (gt_id h) t = condition_true d (gt_id h) t)"
proof -
  obtain proto i k where p: "path_allowed e' (markStaleGates e staleSeconds d) spec proto i k" "p = path_of i k"
    using choosePath_Some[OF assms(3)] by blast
  then have "condition_true (markStaleGates e staleSeconds d) (gt_id i) ''Schedulable''"
    "condition_true (markStaleGates e staleSeconds d) (gt_id k) ''Schedulable''"
    by (auto simp: path_allowed_def gate_candidates_def gate_schedulable_def)
  with marked_stale_not_true[OF assms(1,2)] p(2)
  have "pth_ingressGateId p \<noteq> gt_id g \<and> pth_egressGateId p \<noteq> gt_id g" by (auto simp: path_of_def)
  moreover have "condition_true (markStaleGates e staleSeconds d) (gt_id h) t = condition_true d (gt_id h) t"
    if "\<not> gate_stale e d staleSeconds (gt_id h)" for h t
    using that unfolding condition_true_status markStaleGates_def
    by (subst markStale_status[OF stale_types(1)]) auto
  ultimately show ?thesis by blast
qed

definition silent_gate :: gate_row where
  "silent_gate = sample_gate ''g3'' ''gate-eu-2'' ''3.3.3.3''"

definition silent_db :: db where
  "silent_db = gates_db\<lparr>gates := gates gates_db @ [silent_gate],
     gate_conditions := gate_conditions gates_db @ sample_conditions ''g3''\<rparr>"

lemma stale_gates_not_chosen_witness:
  "gate_stale sample_env silent_db 60 (gt_id silent_gate)
   \<and> choosePath sample_env (markStaleGates sample_env 60 silent_db) sample_spec = Inr (Some sample_path)
   \<and> pth_egressGateId sample_path \<noteq> gt_id silent_gate"
proof -
  have s: "gate_stale sample_env silent_db 60 (gt_id silent_gate)" by code_simp
  have c: "choosePath sample_env (markStaleGates sample_env 60 silent_db) sample_spec = Inr (Some sample_path)"
    by code_simp
  have "silent_gate \<in> set (gates silent_db)" by (simp add: silent_db_def)
  from stale_gates_not_chosen[OF this s c] s c show ?thesis by simp
qed

end
