(* ===== verification/Sessions.thy ===== *)
theory Sessions
  imports GateHealth
begin

section \<open>Sessions\<close>

text \<open>
  \<open>resources/sessions/repository.ts\<close> and \<open>service.ts\<close>: creating a session under the abuse
  controls, revoking it and hiding it; and the scenarios of \<open>application/sessions\<close> around them.
  A result \<open>Inl msg\<close> is an exception, which rolls the transaction back.
\<close>

subsection \<open>Statements on the session tables (\<open>repository.ts\<close>)\<close>

record session_owner =
  ow_id :: uuid
  ow_accountId :: uuid

text \<open>
  PostgreSQL's cast to \<open>cidr\<close> of text the abuse controls accept: bits to the right of the mask
  make it fail; the value is printed in canonical form.
\<close>

definition pg_cidr :: "string \<Rightarrow> string option" where
  "pg_cidr v = (case parseIpv4Cidr v of
      None \<Rightarrow> None
    | Some c \<Rightarrow>
        if cidr_address c AND prefixMask (cidr_prefixLength c) = cidr_address c
        then Some (intToIpv4 (unat (cidr_address c)) @ ''/'' @ js_nat (cidr_prefixLength c))
        else None)"

fun traverse_opt :: "('a \<Rightarrow> 'b option) \<Rightarrow> 'a list \<Rightarrow> 'b list option" where
  "traverse_opt f [] = Some []"
| "traverse_opt f (x # xs) =
     (case f x of None \<Rightarrow> None | Some y \<Rightarrow>
        (case traverse_opt f xs of None \<Rightarrow> None | Some ys \<Rightarrow> Some (y # ys)))"

definition upsertSessionCondition ::
    "env \<Rightarrow> uuid \<Rightarrow> string \<Rightarrow> condition_status \<Rightarrow> string \<Rightarrow> string \<Rightarrow> int \<Rightarrow> db \<Rightarrow> db" where
  "upsertSessionCondition e sessionId typ status reason message observedGeneration d =
     d\<lparr>session_conditions := upsert_condition e
         \<lparr>cn_owner = sessionId, cn_type = typ, cn_status = status, cn_reason = reason,
          cn_message = message, cn_observedGeneration = Some observedGeneration, cn_lastTransition = 0\<rparr>
         (session_conditions d)\<rparr>"

definition setSessionCondition ::
    "env \<Rightarrow> uuid \<Rightarrow> string \<Rightarrow> condition_status \<Rightarrow> string \<Rightarrow> string \<Rightarrow> int \<Rightarrow> db \<Rightarrow> db" where
  "setSessionCondition = upsertSessionCondition"

definition isSafePositive :: "int \<Rightarrow> bool" where
  "isSafePositive n \<longleftrightarrow> n > 0 \<and> n \<le> 9007199254740991"

definition record_or_empty :: "json option \<Rightarrow> json" where
  "record_or_empty v = (case v of None \<Rightarrow> JObj [] | Some JNull \<Rightarrow> JObj [] | Some w \<Rightarrow> w)"

definition new_session_row ::
    "env \<Rightarrow> session_owner \<Rightarrow> session_create_parsed \<Rightarrow> uuid \<Rightarrow> string list \<Rightarrow> string option \<Rightarrow> session_row" where
  "new_session_row e actor parsed sessionId destinations source =
     \<lparr>ss_id = sessionId, ss_account = Some (ow_accountId actor),
      ss_createRequest = pc_createRequestId parsed, ss_mode = pc_mode parsed,
      ss_destinations = destinations, ss_sourceCidr = source,
      ss_clientPublicKey = pc_clientPublicKey parsed, ss_label = pc_label parsed,
      ss_spec = pc_spec parsed, ss_pathPolicy = record_or_empty (js_prop (pc_spec parsed) ''pathPolicy''),
      ss_artifactPolicy = record_or_empty (js_prop (pc_spec parsed) ''artifactPolicy''),
      ss_generation = 1, ss_desired = SD_Active, ss_created = env_now e, ss_updated = env_now e,
      ss_hidden = None\<rparr>"

definition new_status_row :: "env \<Rightarrow> uuid \<Rightarrow> session_phase \<Rightarrow> session_status_row" where
  "new_status_row e sessionId initial =
     \<lparr>st_session = sessionId, st_phase = initial, st_observedGeneration = 0, st_selectedPath = None,
      st_artifact = None, st_lastError = None, st_updated = env_now e\<rparr>"

definition insert_config_grant :: "env \<Rightarrow> session_owner \<Rightarrow> uuid \<Rightarrow> int \<Rightarrow> db \<Rightarrow> string + db" where
  "insert_config_grant e actor sessionId includedBytes d =
     (if \<not> isSafePositive includedBytes then Inl ''invalid config grant allowance''
      else Inr (audit e (audit_blank\<lparr>au_event := ''session_config_granted'', au_actorType := ''user'',
             au_actor := Some (ow_id actor), au_account := Some (ow_accountId actor),
             au_session := Some sessionId,
             au_details := JObj [(''reason'', JStr ''administrator''),
               (''includedBytes'', JStr (js_int includedBytes))]\<rparr>)
           (d\<lparr>config_grants := config_grants d @ [\<lparr>cg_session = sessionId, cg_user = ow_id actor,
                cg_reason = ''administrator'', cg_included = includedBytes\<rparr>],
             traffic_entitlements := traffic_entitlements d @ [\<lparr>te_session = sessionId,
                te_included = includedBytes, te_consumed = 0, te_exhausted = None, te_updated = env_now e\<rparr>]\<rparr>)))"

definition insertRequestedSessionInTransaction ::
    "env \<Rightarrow> session_owner \<Rightarrow> session_create_parsed \<Rightarrow> session_phase \<Rightarrow> int option \<Rightarrow> db \<Rightarrow> string + db \<times> uuid" where
  "insertRequestedSessionInTransaction e actor parsed initialPhase configGrant d =
     (case (traverse_opt pg_cidr (pc_destinationCidrs parsed),
            (case pc_sourceCidr parsed of None \<Rightarrow> Some None | Some s \<Rightarrow> map_option Some (pg_cidr s))) of
        (Some destinations, Some source) \<Rightarrow>
          (let (sessionId, d1) = gen_uuid e d;
               d2 = d1\<lparr>sessions := sessions d1 @ [new_session_row e actor parsed sessionId destinations source],
                      session_status := session_status d1 @
                        [new_status_row e sessionId (if configGrant \<noteq> None then S_requested else initialPhase)],
                      session_conditions := session_conditions d1 @
                        [\<lparr>cn_owner = sessionId, cn_type = ''Ready'', cn_status = C_False,
                          cn_reason = ''Requested'',
                          cn_message = ''Session accepted and waiting for reconciliation'',
                          cn_observedGeneration = Some 0, cn_lastTransition = env_now e\<rparr>]\<rparr>;
               d3 = audit e (audit_blank\<lparr>au_event := ''session_requested'', au_actorType := ''user'',
                      au_actor := Some (ow_id actor), au_account := Some (ow_accountId actor),
                      au_session := Some sessionId,
                      au_details := JObj [(''mode'', JStr (show_mode (pc_mode parsed)))]\<rparr>) d2
           in case configGrant of
                None \<Rightarrow> Inr (d3, sessionId)
              | Some includedBytes \<Rightarrow>
                  map_sum id (\<lambda>d4. (d4, sessionId)) (insert_config_grant e actor sessionId includedBytes d3))
      | _ \<Rightarrow> Inl ''invalid input syntax for type cidr'')"

definition insertRequestedSession ::
    "env \<Rightarrow> session_owner \<Rightarrow> session_create_parsed \<Rightarrow> session_phase \<Rightarrow> db \<Rightarrow> string + db \<times> uuid" where
  "insertRequestedSession e actor parsed initialPhase d =
     insertRequestedSessionInTransaction e actor parsed initialPhase None d"

definition sessionHasConfigGrant :: "db \<Rightarrow> uuid \<Rightarrow> uuid \<Rightarrow> bool" where
  "sessionHasConfigGrant d accountId sessionId \<longleftrightarrow>
     list_ex (\<lambda>g. cg_session g = sessionId \<and>
       list_ex (\<lambda>s. ss_id s = sessionId \<and> ss_account s = Some accountId) (sessions d)) (config_grants d)"

definition findSessionIdByCreateRequest :: "db \<Rightarrow> uuid \<Rightarrow> string \<Rightarrow> uuid option" where
  "findSessionIdByCreateRequest d accountId createRequestId =
     map_option ss_id (find (\<lambda>s. ss_account s = Some accountId
       \<and> ss_createRequest s = Some createRequestId) (sessions d))"

definition terminalForQuota :: "session_phase \<Rightarrow> bool" where
  "terminalForQuota p \<longleftrightarrow> p = S_revoked \<or> p = S_failed"

definition counts_for_quota :: "db \<Rightarrow> uuid \<Rightarrow> session_row \<Rightarrow> bool" where
  "counts_for_quota d accountId s \<longleftrightarrow> ss_account s = Some accountId \<and> ss_hidden s = None
     \<and> (\<exists>st\<in>set (session_status d). st_session st = ss_id s \<and> \<not> terminalForQuota (st_phase st))"

definition countNonTerminalSessionsForAccount :: "db \<Rightarrow> uuid \<Rightarrow> nat" where
  "countNonTerminalSessionsForAccount d accountId =
     length (filter (counts_for_quota d accountId) (sessions d))"

definition countRecentSessionCreatesForAccount :: "env \<Rightarrow> db \<Rightarrow> uuid \<Rightarrow> nat \<Rightarrow> nat" where
  "countRecentSessionCreatesForAccount e d accountId windowSeconds =
     length (filter (\<lambda>s. ss_account s = Some accountId
       \<and> ss_created s \<ge> env_now e - seconds (int windowSeconds)) (sessions d))"

definition insertUserSessionRejectedAudit ::
    "env \<Rightarrow> session_owner \<Rightarrow> string \<Rightarrow> string \<Rightarrow> session_mode \<Rightarrow> nat \<Rightarrow> nat option \<Rightarrow> db \<Rightarrow> db" where
  "insertUserSessionRejectedAudit e actor err reason mode limit windowSeconds =
     audit e (audit_blank\<lparr>au_event := ''session_rejected'', au_actorType := ''user'',
       au_actor := Some (ow_id actor), au_account := Some (ow_accountId actor),
       au_details := JObj ([(''error'', JStr err), (''reason'', JStr reason), (''mode'', JStr (show_mode mode)),
         (''limit'', JInt (int limit))] @
         (case windowSeconds of None \<Rightarrow> [] | Some w \<Rightarrow> [(''windowSeconds'', JInt (int w))]))\<rparr>)"

text \<open>\<open>sessions JOIN session_status\<close>, then the statement's \<open>WHERE\<close> clause.\<close>

definition session_join :: "db \<Rightarrow> (session_row \<times> session_status_row) list" where
  "session_join d = concat (map (\<lambda>s. map (\<lambda>st. (s, st))
     (filter (\<lambda>st. st_session st = ss_id s) (session_status d))) (sessions d))"

definition findOwnedSessionPhaseForUpdate :: "db \<Rightarrow> session_owner \<Rightarrow> uuid \<Rightarrow> session_phase option" where
  "findOwnedSessionPhaseForUpdate d actor sessionId =
     map_option (\<lambda>(s, st). st_phase st) (find (\<lambda>(s, st). ss_id s = sessionId
       \<and> ss_account s = Some (ow_accountId actor) \<and> ss_hidden s = None) (session_join d))"

definition findSessionPhaseForUpdate :: "db \<Rightarrow> uuid \<Rightarrow> session_phase option" where
  "findSessionPhaseForUpdate d sessionId =
     map_option (\<lambda>(s, st). st_phase st) (find (\<lambda>(s, st). ss_id s = sessionId
       \<and> ss_hidden s = None) (session_join d))"

definition updateSessionDesiredState :: "env \<Rightarrow> uuid \<Rightarrow> session_desired \<Rightarrow> bool \<Rightarrow> db \<Rightarrow> db" where
  "updateSessionDesiredState e sessionId desired incrementGeneration d =
     d\<lparr>sessions := update_where (\<lambda>s. ss_id s = sessionId)
         (\<lambda>s. s\<lparr>ss_desired := desired,
            ss_generation := (if incrementGeneration then ss_generation s + 1 else ss_generation s),
            ss_updated := env_now e\<rparr>) (sessions d)\<rparr>"

definition update_status :: "uuid \<Rightarrow> (session_status_row \<Rightarrow> session_status_row) \<Rightarrow> db \<Rightarrow> db" where
  "update_status sessionId f d =
     d\<lparr>session_status := update_where (\<lambda>r. st_session r = sessionId) f (session_status d)\<rparr>"

definition updateSessionStatusPhase :: "env \<Rightarrow> uuid \<Rightarrow> session_transition \<Rightarrow> json option \<Rightarrow> db \<Rightarrow> db" where
  "updateSessionStatusPhase e sessionId tr selectedPath =
     update_status sessionId (\<lambda>r. r\<lparr>st_phase := tr_phase tr,
       st_observedGeneration := (case tr_observedGeneration tr of None \<Rightarrow> st_observedGeneration r | Some g \<Rightarrow> g),
       st_selectedPath := (case selectedPath of None \<Rightarrow> st_selectedPath r | Some p \<Rightarrow> Some p),
       st_lastError := (case tr_lastError tr of None \<Rightarrow> st_lastError r | Some err \<Rightarrow> jsonb_or_null err),
       st_updated := env_now e\<rparr>)"

definition insertUserSessionRevokeRequestedAudit :: "env \<Rightarrow> session_owner \<Rightarrow> uuid \<Rightarrow> db \<Rightarrow> db" where
  "insertUserSessionRevokeRequestedAudit e actor sessionId =
     audit e (audit_blank\<lparr>au_event := ''session_revoke_requested'', au_actorType := ''user'',
       au_actor := Some (ow_id actor), au_account := Some (ow_accountId actor), au_session := Some sessionId\<rparr>)"

definition insertSystemSessionRevokeRequestedAudit :: "env \<Rightarrow> uuid \<Rightarrow> js_record \<Rightarrow> db \<Rightarrow> db" where
  "insertSystemSessionRevokeRequestedAudit e sessionId reason =
     audit e (audit_blank\<lparr>au_event := ''session_revoke_requested'', au_actorType := ''system'',
       au_session := Some sessionId, au_details := JObj reason\<rparr>)"

definition findOwnedSessionVisibilityForUpdate ::
    "db \<Rightarrow> session_owner \<Rightarrow> uuid \<Rightarrow> (session_phase \<times> time option) option" where
  "findOwnedSessionVisibilityForUpdate d actor sessionId =
     map_option (\<lambda>(s, st). (st_phase st, ss_hidden s)) (find (\<lambda>(s, st). ss_id s = sessionId
       \<and> ss_account s = Some (ow_accountId actor)) (session_join d))"

definition hideOwnedSession :: "env \<Rightarrow> session_owner \<Rightarrow> uuid \<Rightarrow> db \<Rightarrow> db" where
  "hideOwnedSession e actor sessionId d =
     d\<lparr>sessions := update_where (\<lambda>s. ss_id s = sessionId \<and> ss_account s = Some (ow_accountId actor))
         (\<lambda>s. s\<lparr>ss_hidden := Some (env_now e), ss_updated := env_now e\<rparr>) (sessions d)\<rparr>"

definition insertSessionHiddenAudit :: "env \<Rightarrow> session_owner \<Rightarrow> uuid \<Rightarrow> db \<Rightarrow> db" where
  "insertSessionHiddenAudit e actor sessionId =
     audit e (audit_blank\<lparr>au_event := ''session_hidden'', au_actorType := ''user'',
       au_actor := Some (ow_id actor), au_account := Some (ow_accountId actor), au_session := Some sessionId\<rparr>)"

text \<open>\<open>listSessionRowsForPhaseForUpdate\<close>: at most 20 active-desired sessions, oldest first.\<close>

definition listSessionRowsForPhaseForUpdate :: "db \<Rightarrow> session_phase \<Rightarrow> session_row list" where
  "listSessionRowsForPhaseForUpdate d p =
     take 20 (sort_key ss_created (map fst (filter (\<lambda>(s, st). ss_desired s = SD_Active \<and> st_phase st = p)
       (session_join d))))"

definition listRequestedSessionsForUpdate :: "db \<Rightarrow> session_row list" where
  "listRequestedSessionsForUpdate d = listSessionRowsForPhaseForUpdate d S_requested"

definition listProbingSessionsForUpdate :: "db \<Rightarrow> session_row list" where
  "listProbingSessionsForUpdate d = listSessionRowsForPhaseForUpdate d S_probing"

definition listSchedulingSessionsForUpdate :: "db \<Rightarrow> session_row list" where
  "listSchedulingSessionsForUpdate d = listSessionRowsForPhaseForUpdate d S_scheduling"

definition markSessionFailed :: "env \<Rightarrow> uuid \<Rightarrow> session_transition \<Rightarrow> db \<Rightarrow> db" where
  "markSessionFailed e sessionId tr =
     update_status sessionId (\<lambda>r. r\<lparr>st_phase := tr_phase tr,
       st_lastError := (case tr_lastError tr of None \<Rightarrow> None | Some err \<Rightarrow> jsonb_or_null err),
       st_updated := env_now e\<rparr>)"

text \<open>The statement that \<open>markSessionActive\<close> and \<open>markSessionRevoked\<close> share.\<close>

definition mark_observed :: "env \<Rightarrow> uuid \<Rightarrow> session_transition \<Rightarrow> db \<Rightarrow> db" where
  "mark_observed e sessionId tr =
     update_status sessionId (\<lambda>r. r\<lparr>st_phase := tr_phase tr,
       st_observedGeneration := (case tr_observedGeneration tr of None \<Rightarrow> 0 | Some g \<Rightarrow> g),
       st_lastError := jsonb_or_null (case tr_lastError tr of None \<Rightarrow> None | Some err \<Rightarrow> err),
       st_updated := env_now e\<rparr>)"

definition markSessionProvisioning :: "env \<Rightarrow> uuid \<Rightarrow> session_transition \<Rightarrow> json \<Rightarrow> db \<Rightarrow> db" where
  "markSessionProvisioning e sessionId tr selectedPath =
     update_status sessionId (\<lambda>r. r\<lparr>st_phase := tr_phase tr, st_selectedPath := Some selectedPath,
       st_observedGeneration := (case tr_observedGeneration tr of None \<Rightarrow> 0 | Some g \<Rightarrow> g),
       st_lastError := jsonb_or_null (case tr_lastError tr of None \<Rightarrow> None | Some err \<Rightarrow> err),
       st_updated := env_now e\<rparr>)"

definition markSessionActive :: "env \<Rightarrow> uuid \<Rightarrow> session_transition \<Rightarrow> db \<Rightarrow> db" where
  "markSessionActive = mark_observed"

definition markSessionRevoked :: "env \<Rightarrow> uuid \<Rightarrow> session_transition \<Rightarrow> db \<Rightarrow> db" where
  "markSessionRevoked = mark_observed"

definition markSessionRevoking :: "env \<Rightarrow> uuid \<Rightarrow> session_transition \<Rightarrow> db \<Rightarrow> db" where
  "markSessionRevoking e sessionId tr =
     update_status sessionId (\<lambda>r. r\<lparr>st_phase := tr_phase tr, st_updated := env_now e\<rparr>)"

definition touchSessionStatus :: "env \<Rightarrow> uuid \<Rightarrow> db \<Rightarrow> db" where
  "touchSessionStatus e sessionId = update_status sessionId (\<lambda>r. r\<lparr>st_updated := env_now e\<rparr>)"

definition insertSessionAuditEvent :: "env \<Rightarrow> string \<Rightarrow> uuid \<Rightarrow> js_record \<Rightarrow> db \<Rightarrow> db" where
  "insertSessionAuditEvent e eventType sessionId details =
     audit e (audit_blank\<lparr>au_event := eventType, au_actorType := ''system'',
       au_session := Some sessionId, au_details := JObj details\<rparr>)"

definition hasActiveClientConfigArtifact :: "db \<Rightarrow> uuid \<Rightarrow> bool" where
  "hasActiveClientConfigArtifact d sessionId \<longleftrightarrow>
     list_ex (\<lambda>a. ar_session a = sessionId \<and> ar_type a = ''client_config'' \<and> ar_invalidatedAt a = None)
       (artifacts d)"

text \<open>\<open>COUNT(*)\<close> of the session's assignments in a phase.\<close>

definition count_assignments :: "db \<Rightarrow> uuid \<Rightarrow> assignment_phase \<Rightarrow> nat" where
  "count_assignments d sessionId p =
     length (concat (map (\<lambda>a. filter (\<lambda>st. as_assignment st = ga_id a \<and> as_phase st = p) (assignment_status d))
       (filter (\<lambda>a. ga_session a = sessionId) (gate_assignments d))))"

definition commit_pending :: "db \<Rightarrow> uuid \<Rightarrow> bool" where
  "commit_pending d sessionId \<longleftrightarrow>
     list_ex (\<lambda>j. jb_session j = Some sessionId \<and> jb_type j = JT_apply_assignment
       \<and> sql_text (js_prop (jb_payload j) ''operation'') = Some ''commit''
       \<and> jb_phase j \<in> {J_queued, J_leased, J_running, J_retryable_failed, J_succeeded}) (jobs d)"

definition listSessionsReadyForCommit :: "db \<Rightarrow> (session_row \<times> plan_row) list" where
  "listSessionsReadyForCommit d =
     take 50 (sort_key (\<lambda>(s, p). ss_updated s) (concat (map (\<lambda>(s, st).
       map (\<lambda>p. (s, p)) (filter (\<lambda>p. pl_session p = ss_id s \<and> pl_generation p = ss_generation s) (rendered_plans d)))
       (filter (\<lambda>(s, st). st_phase st = S_provisioning \<and> count_assignments d (ss_id s) A_prepared = 2
          \<and> \<not> commit_pending d (ss_id s)) (session_join d)))))"

definition listProvisionedSessionsForActivation :: "db \<Rightarrow> session_row list" where
  "listProvisionedSessionsForActivation d =
     take 50 (map fst (filter (\<lambda>(s, st). st_phase st = S_provisioning
       \<and> count_assignments d (ss_id s) A_applied = 2) (session_join d)))"

definition listTimedOutProvisioningSessions :: "env \<Rightarrow> db \<Rightarrow> int \<Rightarrow> session_row list" where
  "listTimedOutProvisioningSessions e d timeoutSeconds =
     take 50 (map fst (filter (\<lambda>(s, st). ss_desired s = SD_Active \<and> st_phase st = S_provisioning
       \<and> st_updated st < env_now e - seconds timeoutSeconds) (session_join d)))"

definition listSessionsToBeginRevocation :: "db \<Rightarrow> (session_row \<times> session_status_row) list" where
  "listSessionsToBeginRevocation d =
     take 50 (sort_key (\<lambda>(s, st). ss_updated s) (filter (\<lambda>(s, st). ss_desired s = SD_Revoked
       \<and> st_phase st \<notin> {S_revoking, S_revoked, S_failed}) (session_join d)))"

definition all_assignments_revoked :: "db \<Rightarrow> uuid \<Rightarrow> bool" where
  "all_assignments_revoked d sessionId \<longleftrightarrow>
     \<not> list_ex (\<lambda>a. ga_session a = sessionId \<and>
        list_ex (\<lambda>st. as_assignment st = ga_id a \<and> as_phase st \<noteq> A_revoked) (assignment_status d))
       (gate_assignments d)"

definition listSessionsReadyToMarkRevoked :: "db \<Rightarrow> session_row list" where
  "listSessionsReadyToMarkRevoked d =
     take 50 (map fst (filter (\<lambda>(s, st). st_phase st = S_revoking
       \<and> all_assignments_revoked d (ss_id s)) (session_join d)))"

subsection \<open>The session service (\<open>service.ts\<close>)\<close>

datatype create_result = Created uuid | Rejected string string

definition createRequestedSession ::
    "env \<Rightarrow> session_owner \<Rightarrow> session_create_parsed \<Rightarrow> db \<Rightarrow> string + db \<times> uuid" where
  "createRequestedSession e actor parsed d =
     insertRequestedSession e actor parsed (tr_phase requestedSessionInitialTransition) d"

text \<open>The part after the idempotency check: quota, creation rate, route.\<close>

definition create_new_session ::
    "env \<Rightarrow> session_owner \<Rightarrow> session_create_parsed \<Rightarrow> abuse_config \<Rightarrow> session_phase \<Rightarrow> int option
      \<Rightarrow> db \<Rightarrow> string + db \<times> create_result" where
  "create_new_session e actor parsed config initialPhase configGrant d =
     (if countNonTerminalSessionsForAccount d (ow_accountId actor) \<ge> maxActiveSessionsPerAccount config
      then Inr (insertUserSessionRejectedAudit e actor ''session_quota_exceeded''
                  ''max_active_sessions_per_account'' (pc_mode parsed)
                  (maxActiveSessionsPerAccount config) None d,
                Rejected ''session_quota_exceeded''
                  (''Self-service account limit reached: '' @ js_nat (maxActiveSessionsPerAccount config)
                   @ '' active VPN configs.''))
      else if countRecentSessionCreatesForAccount e d (ow_accountId actor) (sessionCreateWindowSeconds config)
                \<ge> maxSessionCreatesPerWindow config
      then Inr (insertUserSessionRejectedAudit e actor ''session_create_rate_limited''
                  ''max_session_creates_per_window'' (pc_mode parsed)
                  (maxSessionCreatesPerWindow config) (Some (sessionCreateWindowSeconds config)) d,
                Rejected ''session_create_rate_limited''
                  (''Self-service account create limit reached: '' @ js_nat (maxSessionCreatesPerWindow config)
                   @ '' VPN configs per '' @ js_nat (sessionCreateWindowSeconds config) @ '' seconds.''))
      else (case choosePath e d (pc_spec parsed) of
          Inl msg \<Rightarrow> Inl msg
        | Inr None \<Rightarrow>
            (case sessionClientProtocolLabel (pc_spec parsed) of
               Inl msg \<Rightarrow> Inl msg
             | Inr label \<Rightarrow> Inr (d, Rejected ''route_policy_not_satisfied''
                 (''No ready '' @ label @ '' ingress and distinct WireGuard egress match this route. '' @
                  ''Refresh the gate list and select an available route. No payment has been taken.'')))
        | Inr (Some path) \<Rightarrow>
            map_sum id (\<lambda>(d', sessionId). (d', Created sessionId))
              (insertRequestedSessionInTransaction e actor parsed initialPhase configGrant d)))"

definition createRequestedSessionWithAbuseControls ::
    "env \<Rightarrow> session_owner \<Rightarrow> session_create_parsed \<Rightarrow> abuse_config \<Rightarrow> session_phase \<Rightarrow> int option
      \<Rightarrow> db \<Rightarrow> string + db \<times> create_result" where
  "createRequestedSessionWithAbuseControls e actor parsed config initialPhase configGrant d =
     (case (case pc_createRequestId parsed of None \<Rightarrow> None
            | Some r \<Rightarrow> if r = [] then None else findSessionIdByCreateRequest d (ow_accountId actor) r) of
        Some existingSessionId \<Rightarrow> Inr (d, Created existingSessionId)
      | None \<Rightarrow> create_new_session e actor parsed config initialPhase configGrant d)"

text \<open>Both revocations change the same rows; \<open>apply_revocation\<close> is what they share.\<close>

definition apply_revocation :: "env \<Rightarrow> uuid \<Rightarrow> session_phase \<Rightarrow> db \<Rightarrow> db" where
  "apply_revocation e sessionId p d =
     (let transition = requestRevocationTransition p
      in updateSessionStatusPhase e sessionId (rv_status transition) None
           (updateSessionDesiredState e sessionId (rv_desiredState transition)
              (rv_incrementGeneration transition) d))"

definition requestOwnedSessionRevocation :: "env \<Rightarrow> session_owner \<Rightarrow> uuid \<Rightarrow> db \<Rightarrow> db \<times> bool" where
  "requestOwnedSessionRevocation e actor sessionId d =
     (case findOwnedSessionPhaseForUpdate d actor sessionId of
        None \<Rightarrow> (d, False)
      | Some p \<Rightarrow> (insertUserSessionRevokeRequestedAudit e actor sessionId (apply_revocation e sessionId p d), True))"

definition requestSystemSessionRevocation :: "env \<Rightarrow> uuid \<Rightarrow> js_record \<Rightarrow> db \<Rightarrow> db \<times> bool" where
  "requestSystemSessionRevocation e sessionId reason d =
     (case findSessionPhaseForUpdate d sessionId of
        None \<Rightarrow> (d, False)
      | Some p \<Rightarrow> (insertSystemSessionRevokeRequestedAudit e sessionId reason (apply_revocation e sessionId p d), True))"

datatype delete_result = DR_deleted | DR_not_found | DR_not_revoked

definition deleteOwnedHiddenSession :: "env \<Rightarrow> session_owner \<Rightarrow> uuid \<Rightarrow> db \<Rightarrow> db \<times> delete_result" where
  "deleteOwnedHiddenSession e actor sessionId d =
     (case findOwnedSessionVisibilityForUpdate d actor sessionId of
        None \<Rightarrow> (d, DR_not_found)
      | Some (p, hiddenAt) \<Rightarrow>
          (case canHideSession p hiddenAt of
             HD_deleted \<Rightarrow> (d, DR_deleted)
           | HD_not_revoked \<Rightarrow> (d, DR_not_revoked)
           | HD_can_hide \<Rightarrow>
               (insertSessionHiddenAudit e actor sessionId (hideOwnedSession e actor sessionId d), DR_deleted)))"

subsection \<open>The scenarios (\<open>application/sessions\<close>)\<close>

text \<open>
  A trading route preset is resolved by the trading-pairs service, which is not modelled: its
  result is an argument (\<open>Inl\<close> when the measurement database fails).
\<close>

record route_preset =
  rp_ingressName :: string
  rp_egressName :: string
  rp_sourceGateId :: string
  rp_egressGateId :: string

text \<open>\<open>{ ...record, key: value }\<close>\<close>

definition js_put :: "js_record \<Rightarrow> string \<Rightarrow> json \<Rightarrow> js_record" where
  "js_put r k v = AList.update k v r"

definition preset_matches :: "session_create_parsed \<Rightarrow> route_preset \<Rightarrow> bool" where
  "preset_matches parsed preset \<longleftrightarrow>
     pc_mode parsed = FullTunnel \<and> pc_destinationCidrs parsed = [''0.0.0.0/0'']
     \<and> js_prop (pc_spec parsed) ''ingressGateName'' = Some (JStr (rp_ingressName preset))
     \<and> js_prop (pc_spec parsed) ''egressGateName'' = Some (JStr (rp_egressName preset))
     \<and> (js_prop (pc_spec parsed) ''ingressGateId'' \<in> {None, Some (JStr (rp_sourceGateId preset))})
     \<and> (js_prop (pc_spec parsed) ''egressGateId'' \<in> {None, Some (JStr (rp_egressGateId preset))})"

datatype create_outcome = CO_created uuid | CO_invalid request_error

definition finish_create ::
    "env \<Rightarrow> session_owner \<Rightarrow> session_create_parsed \<Rightarrow> partial_abuse_config \<Rightarrow> session_phase option
      \<Rightarrow> int option \<Rightarrow> db \<Rightarrow> string + db \<times> create_outcome" where
  "finish_create e actor parsed abuseControls initialPhase configGrant d =
     (let controls = mergeSessionAbuseControlConfig abuseControls in
      case validateSessionAbusePolicy parsed controls of
        Some policyError \<Rightarrow> Inr (d, CO_invalid policyError)
      | None \<Rightarrow> map_sum id (\<lambda>(d', r). (d', case r of
            Created sessionId \<Rightarrow> CO_created sessionId
          | Rejected err msg \<Rightarrow> CO_invalid (invalid_request err (Some msg))))
          (createRequestedSessionWithAbuseControls e actor parsed controls
             (case initialPhase of None \<Rightarrow> S_requested | Some p \<Rightarrow> p) configGrant d))"

definition trading_preset_error :: "string \<Rightarrow> create_outcome" where
  "trading_preset_error msg = CO_invalid (invalid_request ''route_policy_not_satisfied'' (Some msg))"

definition createSession ::
    "env \<Rightarrow> (string \<Rightarrow> string + route_preset option) \<Rightarrow> session_owner \<Rightarrow> js_record
      \<Rightarrow> partial_abuse_config \<Rightarrow> session_phase option \<Rightarrow> int option \<Rightarrow> db \<Rightarrow> string + db \<times> create_outcome" where
  "createSession e resolveTradingRoute actor body abuseControls initialPhase configGrant d =
     (case parseSessionCreateBody body of
        Inl err \<Rightarrow> Inr (d, CO_invalid err)
      | Inr parsed \<Rightarrow>
          (case js_prop body ''tradingRouteId'' of
             None \<Rightarrow> finish_create e actor parsed abuseControls initialPhase configGrant d
           | Some routeId \<Rightarrow>
               (case (case pc_createRequestId parsed of None \<Rightarrow> None
                      | Some r \<Rightarrow> if r = [] then None else findSessionIdByCreateRequest d (ow_accountId actor) r) of
                  Some existing \<Rightarrow> Inr (d, CO_created existing)
                | None \<Rightarrow>
                    (case (case routeId of JStr r \<Rightarrow> resolveTradingRoute r | _ \<Rightarrow> Inr None) of
                       Inl _ \<Rightarrow> Inr (d, trading_preset_error
                         (''Trading measurements are unavailable. Retry later or create a VPN config without '' @
                          ''a trading preset. No payment has been taken.''))
                     | Inr preset \<Rightarrow>
                         (if (case preset of None \<Rightarrow> True | Some pr \<Rightarrow> \<not> preset_matches parsed pr)
                          then Inr (d, trading_preset_error
                            (''The selected Pair Routes preset is stale, unavailable, or differs from this '' @
                             ''config. Return to Pair Routes and select a current route. No payment has been taken.''))
                          else finish_create e actor
                            (parsed\<lparr>pc_spec := js_put (pc_spec parsed) ''pathPolicy''
                               (JObj (js_put (asRecord (js_prop (pc_spec parsed) ''pathPolicy''))
                                  ''tradingRouteId'' routeId))\<rparr>)
                            abuseControls initialPhase configGrant d)))))"

definition revokeSession :: "env \<Rightarrow> session_owner \<Rightarrow> uuid \<Rightarrow> db \<Rightarrow> db \<times> bool" where
  "revokeSession = requestOwnedSessionRevocation"

definition deleteHiddenSession :: "env \<Rightarrow> session_owner \<Rightarrow> uuid \<Rightarrow> db \<Rightarrow> db \<times> delete_result" where
  "deleteHiddenSession = deleteOwnedHiddenSession"

subsection \<open>Paid sessions (\<open>payment-session.scenario.ts\<close>)\<close>

datatype activate_result =
  AP_activated | AP_already_active | AP_not_found | AP_invalid_phase | AP_invalid_payment

definition find_config_payment :: "db \<Rightarrow> uuid \<Rightarrow> session_row \<Rightarrow> config_payment_row option" where
  "find_config_payment d paymentId s =
     find (\<lambda>p. cp_id p = paymentId \<and> cp_session p = Some (ss_id s) \<and> Some (cp_account p) = ss_account s)
       (config_payments d)"

definition ensure_traffic_entitlement :: "env \<Rightarrow> uuid \<Rightarrow> int option \<Rightarrow> db \<Rightarrow> db" where
  "ensure_traffic_entitlement e sessionId limit d = (case limit of
      None \<Rightarrow> d
    | Some n \<Rightarrow> d\<lparr>traffic_entitlements := insert_unless (\<lambda>t. te_session t = sessionId)
         \<lparr>te_session = sessionId, te_included = n, te_consumed = 0, te_exhausted = None,
          te_updated = env_now e\<rparr> (traffic_entitlements d)\<rparr>)"

definition confirm_payment :: "env \<Rightarrow> session_owner \<Rightarrow> uuid \<Rightarrow> uuid \<Rightarrow> string \<Rightarrow> int option \<Rightarrow> db \<Rightarrow> db" where
  "confirm_payment e actor sessionId paymentId signature limit d =
     (let d1 = update_status sessionId (\<lambda>r. r\<lparr>st_phase := S_requested, st_updated := env_now e\<rparr>) d;
          d2 = d1\<lparr>session_conditions := update_where
                 (\<lambda>c. cn_owner c = sessionId \<and> cn_type c = ''Ready'')
                 (\<lambda>c. c\<lparr>cn_reason := ''PaymentConfirmed'',
                    cn_message := ''SOL config payment finalized; session is waiting for reconciliation'',
                    cn_lastTransition := env_now e\<rparr>) (session_conditions d1)\<rparr>
      in audit e (audit_blank\<lparr>au_event := ''session_payment_confirmed'', au_actorType := ''user'',
           au_actor := Some (ow_id actor), au_account := Some (ow_accountId actor), au_session := Some sessionId,
           au_details := JObj [(''paymentId'', JStr paymentId), (''transactionSignature'', JStr signature),
             (''trafficLimitBytes'', case limit of None \<Rightarrow> JNull | Some n \<Rightarrow> JStr (js_int n))]\<rparr>) d2)"

definition activatePaidSession ::
    "env \<Rightarrow> session_owner \<Rightarrow> uuid \<Rightarrow> uuid \<Rightarrow> string \<Rightarrow> db \<Rightarrow> db \<times> activate_result" where
  "activatePaidSession e actor sessionId paymentId transactionSignature d =
     (case find (\<lambda>(s, st). ss_id s = sessionId \<and> ss_account s = Some (ow_accountId actor)) (session_join d) of
        None \<Rightarrow> (d, AP_not_found)
      | Some (s, st) \<Rightarrow>
          (case find_config_payment d paymentId s of
             None \<Rightarrow> (d, AP_invalid_payment)
           | Some p \<Rightarrow>
               if cp_status p \<noteq> ''confirmed'' \<or> cp_signature p \<noteq> Some transactionSignature
               then (d, AP_invalid_payment)
               else let d1 = ensure_traffic_entitlement e sessionId (cp_trafficLimit p) d in
                 if st_phase st \<noteq> S_payment_pending
                 then (d1, if st_phase st = S_requested then AP_already_active else AP_invalid_phase)
                 else (confirm_payment e actor sessionId paymentId transactionSignature (cp_trafficLimit p) d1,
                       AP_activated)))"

text \<open>\<open>DELETE FROM sessions\<close> with the foreign keys' \<open>ON DELETE CASCADE\<close> and \<open>SET NULL\<close>.\<close>

definition delete_session_cascade :: "uuid \<Rightarrow> db \<Rightarrow> db" where
  "delete_session_cascade s d =
     (let gone_plan = (\<lambda>p. list_ex (\<lambda>r. pl_id r = p \<and> pl_session r = s) (rendered_plans d));
          gone_assignment = (\<lambda>a. list_ex (\<lambda>r. ga_id r = a \<and> ga_session r = s) (gate_assignments d));
          gone_job = (\<lambda>j. jb_session j = Some s \<or> (case jb_assignment j of None \<Rightarrow> False | Some a \<Rightarrow> gone_assignment a));
          gone_artifact = (\<lambda>a. list_ex (\<lambda>r. ar_id r = a \<and> ar_session r = s) (artifacts d))
      in d\<lparr>sessions := delete_where (\<lambda>r. ss_id r = s) (sessions d),
           session_status := delete_where (\<lambda>r. st_session r = s) (session_status d),
           session_conditions := delete_where (\<lambda>r. cn_owner r = s) (session_conditions d),
           audit_events := update_where (\<lambda>r. au_session r = Some s) (\<lambda>r. r\<lparr>au_session := None\<rparr>) (audit_events d),
           plan_secrets := delete_where (\<lambda>r. gone_plan (fst r)) (plan_secrets d),
           rendered_plans := delete_where (\<lambda>r. pl_session r = s) (rendered_plans d),
           config_payments := update_where (\<lambda>r. cp_session r = Some s) (\<lambda>r. r\<lparr>cp_session := None\<rparr>) (config_payments d),
           config_grants := delete_where (\<lambda>r. cg_session r = s) (config_grants d),
           traffic_entitlements := delete_where (\<lambda>r. te_session r = s) (traffic_entitlements d),
           entitlements := update_where (\<lambda>r. en_session r = Some s) (\<lambda>r. r\<lparr>en_session := None\<rparr>) (entitlements d),
           probe_runs := update_where (\<lambda>r. pr_session r = Some s) (\<lambda>r. r\<lparr>pr_session := None\<rparr>) (probe_runs d),
           assignment_status := delete_where (\<lambda>r. gone_assignment (as_assignment r)) (assignment_status d),
           job_attempts := delete_where (\<lambda>r. list_ex (\<lambda>j. jb_id j = at_job r \<and> gone_job j) (jobs d)) (job_attempts d),
           jobs := delete_where gone_job (jobs d),
           gate_assignments := delete_where (\<lambda>r. ga_session r = s) (gate_assignments d),
           address_leases := delete_where (\<lambda>r. al_session r = s) (address_leases d),
           download_tokens := delete_where (\<lambda>r. gone_artifact (dt_artifact r)) (download_tokens d),
           artifact_payloads := delete_where (\<lambda>r. gone_artifact (fst r)) (artifact_payloads d),
           artifacts := delete_where (\<lambda>r. ar_session r = s) (artifacts d)\<rparr>)"

definition deleteUnpaidSession :: "env \<Rightarrow> session_owner \<Rightarrow> uuid \<Rightarrow> db \<Rightarrow> db" where
  "deleteUnpaidSession e actor sessionId d =
     (if list_ex (\<lambda>(s, st). ss_id s = sessionId \<and> ss_account s = Some (ow_accountId actor)
           \<and> st_phase st = S_payment_pending) (session_join d)
      then delete_session_cascade sessionId d else d)"

subsection \<open>Reading the session tables back\<close>

definition wf_sessions :: "db \<Rightarrow> bool" where
  "wf_sessions d \<longleftrightarrow> distinct (map ss_id (sessions d)) \<and> distinct (map st_session (session_status d))"

interpretation revoke_update: row_update ss_id
    "\<lambda>s. s\<lparr>ss_desired := q, ss_generation := g s, ss_updated := t\<rparr>" for q g t
  by unfold_locales simp

interpretation hide_update: row_update ss_id "\<lambda>s. s\<lparr>ss_hidden := h, ss_updated := t\<rparr>" for h t
  by unfold_locales simp

interpretation phase_update: row_update st_session "\<lambda>r. r\<lparr>st_phase := p, st_updated := t\<rparr>" for p t
  by unfold_locales simp

interpretation full_status_update: row_update st_session
    "\<lambda>r. r\<lparr>st_phase := p, st_observedGeneration := g r, st_selectedPath := q r, st_lastError := l r, st_updated := t\<rparr>"
  for p g q l t
  by unfold_locales simp

lemma row_of_update_status:
  assumes "\<And>r. st_session (f r) = st_session r"
  shows "row_of st_session t (session_status (update_status s f d)) =
     (if t = s then map_option f (row_of st_session t (session_status d)) else row_of st_session t (session_status d))"
proof -
  have "row_update st_session f" using assms by unfold_locales
  from row_update.row_of_update[OF this] show ?thesis
    by (auto simp: update_status_def map_option_case dest: row_of_SomeD split: option.splits)
qed

lemma phase_of_update_status:
  assumes "\<And>r. st_session (f r) = st_session r" "\<And>r. st_phase (f r) = p"
  shows "phase_of (update_status s f d) t = (if t = s then map_option (\<lambda>_. p) (phase_of d s) else phase_of d t)"
  using assms by (auto simp: phase_of_def row_of_update_status map_option_case split: option.split)

lemma phase_of_touch: "phase_of (update_status s (\<lambda>r. r\<lparr>st_updated := t\<rparr>) d) u = phase_of d u"
  by (auto simp: phase_of_def row_of_update_status map_option_case split: option.split)

lemmas status_statements = updateSessionStatusPhase_def markSessionFailed_def mark_observed_def
  markSessionActive_def markSessionRevoked_def markSessionProvisioning_def markSessionRevoking_def

lemma phase_of_statements:
  "phase_of (updateSessionStatusPhase e s tr sp d) t = (if t = s then map_option (\<lambda>_. tr_phase tr) (phase_of d s) else phase_of d t)"
  "phase_of (markSessionFailed e s tr d) t = (if t = s then map_option (\<lambda>_. tr_phase tr) (phase_of d s) else phase_of d t)"
  "phase_of (markSessionActive e s tr d) t = (if t = s then map_option (\<lambda>_. tr_phase tr) (phase_of d s) else phase_of d t)"
  "phase_of (markSessionRevoked e s tr d) t = (if t = s then map_option (\<lambda>_. tr_phase tr) (phase_of d s) else phase_of d t)"
  "phase_of (markSessionRevoking e s tr d) t = (if t = s then map_option (\<lambda>_. tr_phase tr) (phase_of d s) else phase_of d t)"
  "phase_of (markSessionProvisioning e s tr j d) t = (if t = s then map_option (\<lambda>_. tr_phase tr) (phase_of d s) else phase_of d t)"
  unfolding status_statements by (simp_all add: phase_of_update_status)

lemma phase_of_cong: "session_status d = session_status d' \<Longrightarrow> phase_of d s = phase_of d' s"
  by (simp add: phase_of_def)

lemma audit_tables [simp]:
  "sessions (audit e a d) = sessions d" "session_status (audit e a d) = session_status d"
  "session_conditions (audit e a d) = session_conditions d" "jobs (audit e a d) = jobs d"
  "gate_assignments (audit e a d) = gate_assignments d" "assignment_status (audit e a d) = assignment_status d"
  "address_leases (audit e a d) = address_leases d" "artifacts (audit e a d) = artifacts d"
  "traffic_entitlements (audit e a d) = traffic_entitlements d" "rendered_plans (audit e a d) = rendered_plans d"
  "config_payments (audit e a d) = config_payments d" "job_attempts (audit e a d) = job_attempts d"
  "uuid_next (audit e a d) = uuid_next d"
  by (simp_all add: audit_def)

lemma in_session_join: "(s, st) \<in> set (session_join d) \<longleftrightarrow> s \<in> set (sessions d) \<and> st \<in> set (session_status d) \<and> st_session st = ss_id s"
  by (auto simp: session_join_def)

lemma phase_of_row: "wf_sessions d \<Longrightarrow> st \<in> set (session_status d) \<Longrightarrow> phase_of d (st_session st) = Some (st_phase st)"
  by (simp add: phase_of_def wf_sessions_def row_of_unique)

lemma find_join_SomeD:
  "find P (session_join d) = Some (s, st) \<Longrightarrow> s \<in> set (sessions d) \<and> st \<in> set (session_status d)
     \<and> st_session st = ss_id s \<and> P (s, st)"
  using find_SomeD[of P "session_join d" "(s, st)"] in_session_join by blast

subsection \<open>Creating a session\<close>

definition fresh_session :: "env \<Rightarrow> db \<Rightarrow> bool" where
  "fresh_session e d \<longleftrightarrow> env_uuid e (uuid_next d) \<notin> ss_id ` set (sessions d) \<union> st_session ` set (session_status d)"

lemma insert_cases:
  assumes "insertRequestedSessionInTransaction e actor parsed p grant d = Inr (d', s)"
  shows "s = env_uuid e (uuid_next d)
    \<and> (\<exists>destinations source. traverse_opt pg_cidr (pc_destinationCidrs parsed) = Some destinations
        \<and> sessions d' = sessions d @ [new_session_row e actor parsed s destinations source]
        \<and> session_status d' = session_status d @ [new_status_row e s (if grant \<noteq> None then S_requested else p)])"
  using assms
  by (auto simp: insertRequestedSessionInTransaction_def gen_uuid_def insert_config_grant_def Let_def
      split: option.splits if_splits)

lemma count_append:
  assumes "ss_id new \<notin> ss_id ` set (sessions d)" "st_session st = ss_id new"
    and "sessions d' = sessions d @ [new]" "session_status d' = session_status d @ [st]"
  shows "countNonTerminalSessionsForAccount d' a \<le> countNonTerminalSessionsForAccount d a + (if ss_account new = Some a then 1 else 0)"
proof -
  have "counts_for_quota d' a s = counts_for_quota d a s" if "s \<in> set (sessions d)" for s
    using that assms by (auto simp: counts_for_quota_def)
  then have "filter (counts_for_quota d' a) (sessions d) = filter (counts_for_quota d a) (sessions d)"
    by (rule filter_cong[OF refl])
  then show ?thesis by (auto simp: countNonTerminalSessionsForAccount_def assms(3) counts_for_quota_def)
qed

lemma insertRejected_frame [simp]:
  "sessions (insertUserSessionRejectedAudit e actor x r m l w d) = sessions d"
  "session_status (insertUserSessionRejectedAudit e actor x r m l w d) = session_status d"
  by (simp_all add: insertUserSessionRejectedAudit_def)

lemma map_sum_Inr: "map_sum id f x = Inr y \<longleftrightarrow> (\<exists>z. x = Inr z \<and> y = f z)"
  by (cases x) auto

lemma count_cong:
  "sessions d' = sessions d \<Longrightarrow> session_status d' = session_status d \<Longrightarrow>
   countNonTerminalSessionsForAccount d' a = countNonTerminalSessionsForAccount d a"
  by (simp add: countNonTerminalSessionsForAccount_def counts_for_quota_def cong: filter_cong)

lemma create_outcomes:
  assumes "createRequestedSessionWithAbuseControls e actor parsed cfg p grant d = Inr (d', r)"
  shows "(sessions d' = sessions d \<and> session_status d' = session_status d
            \<and> (\<forall>s. r = Created s \<longrightarrow> d' = d \<and> (\<exists>row\<in>set (sessions d). ss_id row = s
                 \<and> ss_account row = Some (ow_accountId actor) \<and> ss_createRequest row = pc_createRequestId parsed)))
    \<or> (\<exists>s path. r = Created s \<and> insertRequestedSessionInTransaction e actor parsed p grant d = Inr (d', s)
        \<and> countNonTerminalSessionsForAccount d (ow_accountId actor) < maxActiveSessionsPerAccount cfg
        \<and> countRecentSessionCreatesForAccount e d (ow_accountId actor) (sessionCreateWindowSeconds cfg)
            < maxSessionCreatesPerWindow cfg
        \<and> choosePath e d (pc_spec parsed) = Inr (Some path))"
  using assms
  by (auto simp: createRequestedSessionWithAbuseControls_def create_new_session_def
      findSessionIdByCreateRequest_def not_le map_sum_Inr dest!: find_SomeD split: option.splits if_splits sum.splits)

text \<open>
  C36: Whatever a create request answers, the account never ends up with more counted sessions
  (not hidden, not revoked, not failed) than its limit, or than it had before; no other
  account's count goes up; and a request that exceeds the creation rate creates nothing.
\<close>

theorem quota_respected:
  assumes "createRequestedSessionWithAbuseControls e actor parsed cfg p grant d = Inr (d', r)"
    and "fresh_session e d"
  shows "countNonTerminalSessionsForAccount d' (ow_accountId actor)
      \<le> max (countNonTerminalSessionsForAccount d (ow_accountId actor)) (maxActiveSessionsPerAccount cfg)
    \<and> (\<forall>a. a \<noteq> ow_accountId actor \<longrightarrow>
         countNonTerminalSessionsForAccount d' a \<le> countNonTerminalSessionsForAccount d a)
    \<and> (countRecentSessionCreatesForAccount e d (ow_accountId actor) (sessionCreateWindowSeconds cfg)
         \<ge> maxSessionCreatesPerWindow cfg \<longrightarrow> sessions d' = sessions d)"
  using create_outcomes[OF assms(1)]
proof (elim disjE exE conjE)
  assume same: "sessions d' = sessions d" "session_status d' = session_status d"
  show ?thesis unfolding count_cong[OF same] by (simp add: same)
next
  fix s path
  assume i: "insertRequestedSessionInTransaction e actor parsed p grant d = Inr (d', s)"
    and lt: "countNonTerminalSessionsForAccount d (ow_accountId actor) < maxActiveSessionsPerAccount cfg"
      "countRecentSessionCreatesForAccount e d (ow_accountId actor) (sessionCreateWindowSeconds cfg)
         < maxSessionCreatesPerWindow cfg"
  from insert_cases[OF i] obtain dests src where n: "s = env_uuid e (uuid_next d)"
    "sessions d' = sessions d @ [new_session_row e actor parsed s dests src]"
    "session_status d' = session_status d @ [new_status_row e s (if grant \<noteq> None then S_requested else p)]"
    by blast
  have le: "countNonTerminalSessionsForAccount d' a \<le> countNonTerminalSessionsForAccount d a
      + (if a = ow_accountId actor then 1 else 0)" for a
    using count_append[OF _ _ n(2,3), of a] assms(2) n(1)
    by (auto simp: new_session_row_def new_status_row_def fresh_session_def)
  have "countNonTerminalSessionsForAccount d' a \<le> countNonTerminalSessionsForAccount d a"
    if "a \<noteq> ow_accountId actor" for a using le[of a] that by simp
  with le[of "ow_accountId actor"] lt show ?thesis by auto
qed

definition sample_owner :: session_owner where
  "sample_owner = \<lparr>ow_id = ''user'', ow_accountId = ''acc''\<rparr>"

definition sample_request :: string where
  "sample_request = ''a286e955-fd9f-4cad-811f-b48a451507f8''"

definition sample_parsed :: session_create_parsed where
  "sample_parsed = \<lparr>pc_mode = IpToIp, pc_destinationCidrs = [''8.8.8.8/32''],
     pc_createRequestId = Some sample_request, pc_sourceCidr = None, pc_clientPublicKey = None,
     pc_label = None, pc_spec = sample_spec\<rparr>"

definition created_db :: db where
  "created_db = (case insertRequestedSessionInTransaction sample_env sample_owner sample_parsed S_requested None gates_db of
     Inr (d, s) \<Rightarrow> d | Inl _ \<Rightarrow> gates_db)"

lemma gates_db_tables:
  "sessions gates_db = []" "session_status gates_db = []" "uuid_next gates_db = 0"
  by (simp_all add: gates_db_def pool_db_def empty_db_def)

lemma sample_uuid: "env_uuid sample_env 0 = ''u0''"
  by (simp add: sample_env_def js_nat.simps) code_simp

lemma and_full_mask: "a AND prefixMask 32 = a"
  by (simp add: prefixMask_eq)

lemma pg_cidr_host:
  assumes "parseIpv4Cidr v = Some c" "cidr_prefixLength c = 32"
  shows "pg_cidr v = Some (intToIpv4 (unat (cidr_address c)) @ ''/32'')"
proof -
  have "js_nat 32 = ''32''" by code_simp
  with assms show ?thesis by (simp add: pg_cidr_def and_full_mask)
qed

lemma sample_cidr: "traverse_opt pg_cidr [''8.8.8.8/32''] = Some [''8.8.8.8/32'']"
proof -
  have "parseIpv4Cidr ''8.8.8.8/32'' = Some \<lparr>cidr_address = 0x08080808, cidr_prefixLength = 32,
      cidr_text = ''8.8.8.8/32''\<rparr>" by code_simp
  from pg_cidr_host[OF this] have "pg_cidr ''8.8.8.8/32'' = Some (intToIpv4 134744072 @ ''/32'')" by simp
  moreover have "intToIpv4 134744072 = ''8.8.8.8''" by (simp add: intToIpv4_def js_nat.simps) code_simp
  ultimately show ?thesis by simp
qed

lemma sample_insert:
  "insertRequestedSessionInTransaction sample_env sample_owner sample_parsed S_requested None gates_db
     = Inr (created_db, ''u0'')"
  "sessions created_db = [new_session_row sample_env sample_owner sample_parsed ''u0'' [''8.8.8.8/32''] None]"
  "session_status created_db = [new_status_row sample_env ''u0'' S_requested]"
  using sample_cidr
  by (simp_all add: created_db_def insertRequestedSessionInTransaction_def gen_uuid_def gates_db_tables
      sample_uuid sample_parsed_def Let_def)

lemma sample_create_session:
  "createRequestedSessionWithAbuseControls sample_env sample_owner sample_parsed
     defaultSessionAbuseControlConfig S_requested None gates_db = Inr (created_db, Created ''u0'')"
proof -
  have c: "choosePath sample_env gates_db (pc_spec sample_parsed) = Inr (Some sample_path)"
    by (simp add: sample_parsed_def sample_choosePath)
  show ?thesis
    by (simp add: createRequestedSessionWithAbuseControls_def create_new_session_def c sample_insert(1)
        findSessionIdByCreateRequest_def countNonTerminalSessionsForAccount_def gates_db_tables
        countRecentSessionCreatesForAccount_def defaultSessionAbuseControlConfig_def
        split: option.split)
qed

theorem quota_respected_witness:
  "fresh_session sample_env gates_db
   \<and> createRequestedSessionWithAbuseControls sample_env sample_owner sample_parsed
       defaultSessionAbuseControlConfig S_requested None gates_db = Inr (created_db, Created ''u0'')
   \<and> countNonTerminalSessionsForAccount created_db ''acc'' \<le> 5"
proof -
  have f: "fresh_session sample_env gates_db"
    by (simp add: fresh_session_def gates_db_def pool_db_def empty_db_def)
  have "countNonTerminalSessionsForAccount gates_db ''acc'' = 0"
    by (simp add: countNonTerminalSessionsForAccount_def gates_db_def pool_db_def empty_db_def)
  with quota_respected[OF sample_create_session f] sample_create_session f show ?thesis
    by (simp add: sample_owner_def defaultSessionAbuseControlConfig_def)
qed

text \<open>A request id finds the session that was created with it.\<close>

lemma find_created:
  assumes "find P xs = None" "P y"
  shows "find P (xs @ [y]) = Some y"
  using assms by (simp add: find_append)

text \<open>
  Creating is idempotent in the request id: after a request created (or found) a session, any
  later request of the same account with that id, whatever its content, limits and time, returns
  the same session and changes nothing.
\<close>

lemma create_idempotent:
  assumes "createRequestedSessionWithAbuseControls e actor parsed cfg p grant d = Inr (d', Created s)"
    and "pc_createRequestId parsed = Some rid" "rid \<noteq> []"
    and "ow_accountId actor2 = ow_accountId actor" "pc_createRequestId parsed2 = Some rid"
  shows "createRequestedSessionWithAbuseControls e2 actor2 parsed2 cfg2 p2 grant2 d' = Inr (d', Created s)"
proof (cases "findSessionIdByCreateRequest d (ow_accountId actor) rid")
  case (Some x)
  with assms show ?thesis by (auto simp: createRequestedSessionWithAbuseControls_def)
next
  case None
  with assms(1-3) have "create_new_session e actor parsed cfg p grant d = Inr (d', Created s)"
    by (simp add: createRequestedSessionWithAbuseControls_def)
  then have "insertRequestedSessionInTransaction e actor parsed p grant d = Inr (d', s)"
    by (auto simp: create_new_session_def map_sum_Inr split: if_splits sum.splits option.splits)
  from insert_cases[OF this] obtain dests src where
    "sessions d' = sessions d @ [new_session_row e actor parsed s dests src]" by blast
  moreover have "find (\<lambda>s. ss_account s = Some (ow_accountId actor) \<and> ss_createRequest s = Some rid) (sessions d) = None"
    using None by (simp add: findSessionIdByCreateRequest_def)
  ultimately have "findSessionIdByCreateRequest d' (ow_accountId actor) rid = Some s"
    using assms(2) by (simp add: findSessionIdByCreateRequest_def find_created new_session_row_def)
  with assms(3-5) show ?thesis by (simp add: createRequestedSessionWithAbuseControls_def)
qed

lemma create_idempotent_witness:
  "createRequestedSessionWithAbuseControls sample_env sample_owner sample_parsed
     defaultSessionAbuseControlConfig S_requested None gates_db = Inr (created_db, Created ''u0'')
   \<and> createRequestedSessionWithAbuseControls (sample_env\<lparr>env_now := 5000000\<rparr>) sample_owner
       (sample_parsed\<lparr>pc_mode := FullTunnel\<rparr>) defaultSessionAbuseControlConfig S_payment_pending None created_db
     = Inr (created_db, Created ''u0'')"
  using sample_create_session create_idempotent[OF sample_create_session, of sample_request sample_owner
      "sample_parsed\<lparr>pc_mode := FullTunnel\<rparr>"]
  by (simp add: sample_parsed_def sample_request_def)

subsection \<open>Revoking and hiding\<close>

definition same_except_session :: "db \<Rightarrow> db \<Rightarrow> uuid \<Rightarrow> bool" where
  "same_except_session d d' sessionId \<longleftrightarrow>
     (\<forall>t. t \<noteq> sessionId \<longrightarrow> session_of d' t = session_of d t
        \<and> row_of st_session t (session_status d') = row_of st_session t (session_status d))
     \<and> gate_assignments d' = gate_assignments d \<and> assignment_status d' = assignment_status d
     \<and> jobs d' = jobs d \<and> address_leases d' = address_leases d"

lemma session_of_desired:
  "session_of (updateSessionDesiredState e s q b d) t = map_option
     (\<lambda>r. if ss_id r = s then r\<lparr>ss_desired := q, ss_generation := (if b then ss_generation r + 1 else ss_generation r),
        ss_updated := env_now e\<rparr> else r) (session_of d t)"
  unfolding session_of_def updateSessionDesiredState_def by (simp add: revoke_update.row_of_update)

lemma status_frame [simp]:
  "sessions (update_status s f d) = sessions d" "gate_assignments (update_status s f d) = gate_assignments d"
  "assignment_status (update_status s f d) = assignment_status d" "jobs (update_status s f d) = jobs d"
  "address_leases (update_status s f d) = address_leases d"
  "session_conditions (update_status s f d) = session_conditions d"
  "rendered_plans (update_status s f d) = rendered_plans d" "artifacts (update_status s f d) = artifacts d"
  by (simp_all add: update_status_def)

lemma desired_frame [simp]:
  "session_status (updateSessionDesiredState e s q b d) = session_status d"
  "gate_assignments (updateSessionDesiredState e s q b d) = gate_assignments d"
  "assignment_status (updateSessionDesiredState e s q b d) = assignment_status d"
  "jobs (updateSessionDesiredState e s q b d) = jobs d"
  "address_leases (updateSessionDesiredState e s q b d) = address_leases d"
  by (simp_all add: updateSessionDesiredState_def)

lemma apply_revocation_effect:
  assumes "wf_sessions d" "s \<in> set (sessions d)" "phase_of d (ss_id s) = Some p"
  shows "session_of (apply_revocation e (ss_id s) p d) (ss_id s) =
      Some (s\<lparr>ss_desired := SD_Revoked, ss_generation := ss_generation s + 1, ss_updated := env_now e\<rparr>)"
    "phase_of (apply_revocation e (ss_id s) p d) (ss_id s) = Some (if p = S_revoked then S_revoked else S_revoking)"
    "same_except_session d (apply_revocation e (ss_id s) p d) (ss_id s)"
proof -
  have "session_of d (ss_id s) = Some s"
    using assms(1,2) by (simp add: session_of_def wf_sessions_def row_of_unique)
  then show "session_of (apply_revocation e (ss_id s) p d) (ss_id s) =
      Some (s\<lparr>ss_desired := SD_Revoked, ss_generation := ss_generation s + 1, ss_updated := env_now e\<rparr>)"
    using session_of_desired[of e "ss_id s" SD_Revoked True d "ss_id s"]
    by (simp add: apply_revocation_def Let_def requestRevocationTransition_def updateSessionStatusPhase_def session_of_def)
  have "phase_of (updateSessionDesiredState e (ss_id s) q b d) t = phase_of d t" for q b t
    by (simp add: phase_of_def)
  then show "phase_of (apply_revocation e (ss_id s) p d) (ss_id s) = Some (if p = S_revoked then S_revoked else S_revoking)"
    using assms(3) by (simp add: apply_revocation_def Let_def requestRevocationTransition_def phase_of_statements)
  have "session_of (updateSessionDesiredState e (ss_id s) q b d) t = session_of d t" if "t \<noteq> ss_id s" for q b t
    using that by (cases "session_of d t") (auto simp: session_of_desired, auto simp: session_of_def dest: row_of_SomeD)
  then show "same_except_session d (apply_revocation e (ss_id s) p d) (ss_id s)"
    by (simp add: same_except_session_def apply_revocation_def Let_def updateSessionStatusPhase_def
        row_of_update_status session_of_def)
qed

lemma findOwned_SomeD:
  assumes "wf_sessions d" "findOwnedSessionPhaseForUpdate d actor sessionId = Some p"
  shows "\<exists>s\<in>set (sessions d). ss_id s = sessionId \<and> ss_account s = Some (ow_accountId actor)
    \<and> ss_hidden s = None \<and> phase_of d sessionId = Some p"
proof -
  obtain s st where "find (\<lambda>(s, st). ss_id s = sessionId \<and> ss_account s = Some (ow_accountId actor)
      \<and> ss_hidden s = None) (session_join d) = Some (s, st)" "p = st_phase st"
    using assms(2) by (auto simp: findOwnedSessionPhaseForUpdate_def)
  from find_join_SomeD[OF this(1)] this(2) phase_of_row[OF assms(1)] show ?thesis by fastforce
qed

lemma same_except_audit: "same_except_session d (audit e a d') s = same_except_session d d' s"
  by (simp add: same_except_session_def session_of_def)

text \<open>
  A client revokes only sessions of its own account that are not hidden; a successful request
  sets the desired state to \<open>Revoked\<close>, raises the generation by one and moves the phase by the
  life cycle's revocation step (a revoked session stays revoked); every other session, and every
  assignment, job and address lease, is untouched.  A refused request changes nothing.
\<close>

lemma revocation_effect:
  assumes "wf_sessions d" "requestOwnedSessionRevocation e actor sessionId d = (d', ok)"
  shows "(ok \<longrightarrow> (\<exists>s p. s \<in> set (sessions d) \<and> ss_id s = sessionId
          \<and> ss_account s = Some (ow_accountId actor) \<and> ss_hidden s = None
          \<and> phase_of d sessionId = Some p
          \<and> phase_of d' sessionId = Some (if p = S_revoked then S_revoked else S_revoking)
          \<and> (p = S_revoked \<or> session_step p S_revoking)
          \<and> session_of d' sessionId = Some (s\<lparr>ss_desired := SD_Revoked, ss_generation := ss_generation s + 1,
                 ss_updated := env_now e\<rparr>)
          \<and> same_except_session d d' sessionId))
    \<and> (\<not> ok \<longrightarrow> d' = d)"
proof (cases "findOwnedSessionPhaseForUpdate d actor sessionId")
  case None
  with assms(2) show ?thesis by (simp add: requestOwnedSessionRevocation_def)
next
  case (Some p)
  then have d': "d' = insertUserSessionRevokeRequestedAudit e actor sessionId (apply_revocation e sessionId p d)" "ok"
    using assms(2) by (auto simp: requestOwnedSessionRevocation_def)
  obtain s where s: "s \<in> set (sessions d)" "ss_id s = sessionId" "ss_account s = Some (ow_accountId actor)"
    "ss_hidden s = None" "phase_of d sessionId = Some p"
    using findOwned_SomeD[OF assms(1) Some] by blast
  note eff = apply_revocation_effect[OF assms(1) s(1), of p e, unfolded s(2), OF s(5)]
  have "phase_of d' sessionId = Some (if p = S_revoked then S_revoked else S_revoking)"
    "session_of d' sessionId = Some (s\<lparr>ss_desired := SD_Revoked, ss_generation := ss_generation s + 1, ss_updated := env_now e\<rparr>)"
    "same_except_session d d' sessionId"
    using eff by (simp_all add: d' insertUserSessionRevokeRequestedAudit_def same_except_audit phase_of_def session_of_def)
  with s d'(2) show ?thesis by (auto intro: session_step.revoke)
qed

definition sample_revoked_db :: db where
  "sample_revoked_db = fst (requestOwnedSessionRevocation sample_env sample_owner ''u0'' created_db)"

lemma created_wf: "wf_sessions created_db"
  by (simp add: wf_sessions_def sample_insert)

lemma created_find: "findOwnedSessionPhaseForUpdate created_db sample_owner ''u0'' = Some S_requested"
  by (simp add: findOwnedSessionPhaseForUpdate_def session_join_def sample_insert new_session_row_def
      new_status_row_def)

lemma revocation_effect_witness:
  "wf_sessions created_db
   \<and> requestOwnedSessionRevocation sample_env sample_owner ''u0'' created_db = (sample_revoked_db, True)
   \<and> phase_of created_db ''u0'' = Some S_requested
   \<and> phase_of sample_revoked_db ''u0'' = Some S_revoking"
proof -
  have r: "requestOwnedSessionRevocation sample_env sample_owner ''u0'' created_db = (sample_revoked_db, True)"
    unfolding sample_revoked_db_def requestOwnedSessionRevocation_def created_find by simp
  have "phase_of created_db ''u0'' = Some S_requested"
    by (simp add: phase_of_def sample_insert new_status_row_def)
  with revocation_effect[OF created_wf r] r created_wf show ?thesis by auto
qed

text \<open>
  A session is hidden exactly when it is its owner's, not hidden yet, and revoked or failed;
  hiding is idempotent for the client, who is told it is deleted from then on, and it never
  changes a phase.
\<close>

lemma hide_effect:
  assumes "wf_sessions d" "deleteOwnedHiddenSession e actor sessionId d = (d', r)"
  shows "phase_of d' t = phase_of d t
    \<and> (r = DR_deleted \<longrightarrow> (\<exists>s'. session_of d' sessionId = Some s' \<and> ss_hidden s' \<noteq> None
          \<and> ss_account s' = Some (ow_accountId actor)
          \<and> (d' = d \<or> phase_of d sessionId \<in> {Some S_revoked, Some S_failed}))
        \<and> snd (deleteOwnedHiddenSession e actor sessionId d') = DR_deleted)
    \<and> (r \<noteq> DR_deleted \<longrightarrow> d' = d)"
proof (cases "findOwnedSessionVisibilityForUpdate d actor sessionId")
  case None
  with assms(2) show ?thesis by (auto simp: deleteOwnedHiddenSession_def)
next
  case (Some v)
  then obtain s st where f: "find (\<lambda>(s, st). ss_id s = sessionId \<and> ss_account s = Some (ow_accountId actor))
      (session_join d) = Some (s, st)" "v = (st_phase st, ss_hidden s)"
    by (auto simp: findOwnedSessionVisibilityForUpdate_def)
  then have s: "s \<in> set (sessions d)" "st \<in> set (session_status d)" "st_session st = ss_id s"
    "ss_id s = sessionId" "ss_account s = Some (ow_accountId actor)"
    using find_join_SomeD[OF f(1)] by auto
  have so: "session_of d sessionId = Some s"
    using assms(1) s row_of_unique[of ss_id "sessions d" s] by (simp add: session_of_def wf_sessions_def)
  have ph: "phase_of d sessionId = Some (st_phase st)" using phase_of_row[OF assms(1) s(2)] s(3,4) by simp
  show ?thesis
  proof (cases "canHideSession (st_phase st) (ss_hidden s)")
    case HD_can_hide
    let ?h = "insertSessionHiddenAudit e actor sessionId (hideOwnedSession e actor sessionId d)"
    have d': "d' = ?h" "r = DR_deleted"
      using assms(2) Some f(2) HD_can_hide by (auto simp: deleteOwnedHiddenSession_def)
    have st': "session_status d' = session_status d"
      by (simp add: d' insertSessionHiddenAudit_def hideOwnedSession_def)
    let ?s' = "s\<lparr>ss_hidden := Some (env_now e), ss_updated := env_now e\<rparr>"
    have so': "session_of d' sessionId = Some ?s'"
      using so s(4,5) by (simp add: d' insertSessionHiddenAudit_def hideOwnedSession_def session_of_def
          hide_update.row_of_update)
    then have "?s' \<in> set (sessions d')" by (auto simp: session_of_def dest: row_of_SomeD)
    then have "(?s', st) \<in> set (session_join d')" using s st' by (simp add: in_session_join)
    then have "list_ex (\<lambda>(s, st). ss_id s = sessionId \<and> ss_account s = Some (ow_accountId actor)) (session_join d')"
      unfolding list_ex_iff by (rule bexI[rotated]) (simp add: s)
    then obtain ab' where "find (\<lambda>(s, st). ss_id s = sessionId \<and> ss_account s = Some (ow_accountId actor))
        (session_join d') = Some ab'" unfolding find_not_None[symmetric] by (elim exE)
    then obtain a b where ab: "find (\<lambda>(s, st). ss_id s = sessionId \<and> ss_account s = Some (ow_accountId actor))
        (session_join d') = Some (a, b)" by (cases ab') simp
    have "wf_sessions d'" using assms(1) st'
      by (simp add: wf_sessions_def d' insertSessionHiddenAudit_def hideOwnedSession_def hide_update.keys_update)
    with find_join_SomeD[OF ab] so' have "a = ?s'"
      by (auto simp: session_of_def wf_sessions_def dest!: row_of_unique[rotated])
    then have "snd (deleteOwnedHiddenSession e actor sessionId d') = DR_deleted"
      using ab by (simp add: deleteOwnedHiddenSession_def findOwnedSessionVisibilityForUpdate_def canHideSession_def)
    moreover have "st_phase st = S_revoked \<or> st_phase st = S_failed"
      using HD_can_hide by (auto simp: canHideSession_def split: if_splits)
    ultimately show ?thesis using so' d'(2) ph s(5) st' phase_of_cong[OF st'] by auto
  next
    case HD_deleted
    then have "d' = d" "r = DR_deleted" "ss_hidden s \<noteq> None"
      using assms(2) Some f(2) by (auto simp: deleteOwnedHiddenSession_def canHideSession_def split: if_splits)
    with so s(5) assms(2) show ?thesis by auto
  next
    case HD_not_revoked
    then show ?thesis using assms(2) Some f(2) by (auto simp: deleteOwnedHiddenSession_def)
  qed
qed

definition failed_db :: db where
  "failed_db = markSessionFailed sample_env ''u0'' (failedTransition JNull) created_db"

lemma hide_effect_witness:
  "wf_sessions failed_db \<and> snd (deleteOwnedHiddenSession sample_env sample_owner ''u0'' failed_db) = DR_deleted
   \<and> (\<exists>s'. session_of (fst (deleteOwnedHiddenSession sample_env sample_owner ''u0'' failed_db)) ''u0'' = Some s'
        \<and> ss_hidden s' \<noteq> None)"
proof -
  have t: "sessions failed_db = sessions created_db"
    "session_status failed_db = [(new_status_row sample_env ''u0'' S_requested)
        \<lparr>st_phase := S_failed, st_lastError := Some JNull, st_updated := env_now sample_env\<rparr>]"
    by (simp_all add: failed_db_def markSessionFailed_def update_status_def sample_insert failedTransition_def
        jsonb_or_null_def new_status_row_def)
  then have w: "wf_sessions failed_db" by (simp add: wf_sessions_def sample_insert new_status_row_def)
  have r: "snd (deleteOwnedHiddenSession sample_env sample_owner ''u0'' failed_db) = DR_deleted"
    using t by (simp add: deleteOwnedHiddenSession_def findOwnedSessionVisibilityForUpdate_def session_join_def
        sample_insert new_session_row_def new_status_row_def canHideSession_def)
  then obtain d' where d': "deleteOwnedHiddenSession sample_env sample_owner ''u0'' failed_db = (d', DR_deleted)"
    by (metis prod.collapse)
  from hide_effect[OF w d', of "''u0''"] w d' show ?thesis by auto
qed

subsection \<open>From the request to the stored session\<close>

lemma traverse_opt_Some: "traverse_opt f xs = Some ys \<Longrightarrow> length ys = length xs \<and> (\<forall>y\<in>set ys. \<exists>x\<in>set xs. f x = Some y)"
  by (induction xs arbitrary: ys) (auto split: option.splits)

lemma traverse_opt_total: "(\<And>x. x \<in> set xs \<Longrightarrow> f x \<noteq> None) \<Longrightarrow> traverse_opt f xs \<noteq> None"
  by (induction xs) (auto split: option.splits)

lemma pg_cidr_default_route:
  assumes "default_route v"
  shows "pg_cidr v = Some ''0.0.0.0/0''"
proof -
  obtain c where c: "parseIpv4Cidr v = Some c" "cidr_address c = 0" "cidr_prefixLength c = 0"
    using assms by (auto simp: default_route_def split: option.splits)
  have "js_nat 0 = ''0''" by code_simp
  then have "intToIpv4 0 @ ''/'' @ js_nat 0 = ''0.0.0.0/0''" by (simp add: intToIpv4_def)
  with c show ?thesis by (simp add: pg_cidr_def)
qed

definition stored_destinations_ok :: "session_row \<Rightarrow> bool" where
  "stored_destinations_ok row \<longleftrightarrow> (case ss_mode row of
      IpToIp \<Rightarrow> (\<forall>t\<in>set (ss_destinations row). \<exists>n<4294967296. t = intToIpv4 n @ ''/32'' \<and> public_number n)
    | FullTunnel \<Rightarrow> ss_destinations row = [''0.0.0.0/0''])"

lemma accepted_destinations:
  assumes "validateSessionAbusePolicy parsed cfg = None" "\<not> allowPrivateDestinations cfg"
    and "traverse_opt pg_cidr (pc_destinationCidrs parsed) = Some ds"
  shows "stored_destinations_ok (new_session_row e actor parsed s ds src)"
proof (cases "pc_mode parsed")
  case IpToIp
  have "\<exists>n<4294967296. t = intToIpv4 n @ ''/32'' \<and> public_number n" if t: "t \<in> set ds" for t
  proof -
    obtain v where v: "v \<in> set (pc_destinationCidrs parsed)" "pg_cidr v = Some t"
      using bspec[OF conjunct2[OF traverse_opt_Some[OF assms(3)]] t] by (elim bexE)
    have "host_ok (allowPrivateDestinations cfg) v"
      using assms(1)[unfolded abuse_policy_cases IpToIp] v(1) by simp
    then have "host_ok False v" using assms(2) by simp
    then obtain c where c: "parseIpv4Cidr v = Some c" "cidr_prefixLength c = 32"
      "public_number (unat (cidr_address c))"
      by (auto simp: host_ok_def split: option.splits)
    have "unat (cidr_address c) < 4294967296"
      by (rule order_less_le_trans[OF unsigned_less]) simp
    with c pg_cidr_host[OF c(1,2)] v(2) show ?thesis by auto
  qed
  with IpToIp show ?thesis by (simp add: stored_destinations_ok_def new_session_row_def)
next
  case FullTunnel
  then obtain v where "pc_destinationCidrs parsed = [v]" "default_route v"
    using assms(1)[unfolded abuse_policy_cases] by auto
  with assms(3) FullTunnel show ?thesis
    by (simp add: stored_destinations_ok_def new_session_row_def pg_cidr_default_route)
qed

lemma finish_create_cases:
  assumes "finish_create e actor parsed ctl ip grant d = Inr (d', CO_created s)" "s \<notin> ss_id ` set (sessions d)"
  shows "\<exists>ds src. validateSessionAbusePolicy parsed (mergeSessionAbuseControlConfig ctl) = None
     \<and> traverse_opt pg_cidr (pc_destinationCidrs parsed) = Some ds
     \<and> sessions d' = sessions d @ [new_session_row e actor parsed s ds src]
     \<and> session_status d' = session_status d @ [new_status_row e s (if grant \<noteq> None then S_requested
          else case ip of None \<Rightarrow> S_requested | Some p \<Rightarrow> p)]
     \<and> (\<exists>path. choosePath e d (pc_spec parsed) = Inr (Some path))"
proof -
  obtain z where z: "validateSessionAbusePolicy parsed (mergeSessionAbuseControlConfig ctl) = None"
    "createRequestedSessionWithAbuseControls e actor parsed (mergeSessionAbuseControlConfig ctl)
       (case ip of None \<Rightarrow> S_requested | Some p \<Rightarrow> p) grant d = Inr (d', z)"
    "CO_created s = (case z of Created t \<Rightarrow> CO_created t | Rejected err msg \<Rightarrow> CO_invalid (invalid_request err (Some msg)))"
    using assms(1) by (auto simp: finish_create_def Let_def map_sum_Inr split: option.splits)
  then have r: "validateSessionAbusePolicy parsed (mergeSessionAbuseControlConfig ctl) = None"
    "createRequestedSessionWithAbuseControls e actor parsed (mergeSessionAbuseControlConfig ctl)
       (case ip of None \<Rightarrow> S_requested | Some p \<Rightarrow> p) grant d = Inr (d', Created s)"
    by (auto split: create_result.splits)
  from create_outcomes[OF r(2)] show ?thesis
  proof (elim disjE conjE exE)
    assume "\<forall>sa. Created s = Created sa \<longrightarrow> d' = d \<and> (\<exists>row\<in>set (sessions d). ss_id row = sa
        \<and> ss_account row = Some (ow_accountId actor) \<and> ss_createRequest row = pc_createRequestId parsed)"
    with assms(2) show ?thesis by auto
  next
    fix t path
    assume "Created s = Created t" "choosePath e d (pc_spec parsed) = Inr (Some path)"
      "insertRequestedSessionInTransaction e actor parsed
        (case ip of None \<Rightarrow> S_requested | Some p \<Rightarrow> p) grant d = Inr (d', t)"
    with insert_cases[OF this(3)] r(1) show ?thesis by auto
  qed
qed

text \<open>
  End to end, from the JSON body of the public API to the database: a request that creates a
  session stores one that belongs to the caller's account, asks to be active, and whose
  destinations are, for \<open>IpToIp\<close>, single hosts outside every reserved block of IPv4 addresses
  and, for \<open>FullTunnel\<close>, exactly the default route; at that moment a path for it exists.
\<close>

lemma created_session_safe:
  assumes "createSession e resolve actor body ctl ip grant d = Inr (d', CO_created s)"
    and "s \<notin> ss_id ` set (sessions d)" "in_allowPrivate ctl \<noteq> Some True"
  shows "\<exists>row path. sessions d' = sessions d @ [row] \<and> ss_id row = s
    \<and> ss_account row = Some (ow_accountId actor) \<and> ss_desired row = SD_Active \<and> ss_generation row = 1
    \<and> stored_destinations_ok row
    \<and> choosePath e d (ss_spec row) = Inr (Some path)"
proof -
  obtain parsed where p: "finish_create e actor parsed ctl ip grant d = Inr (d', CO_created s)"
    using assms(1,2)
    by (auto simp: createSession_def trading_preset_error_def findSessionIdByCreateRequest_def
        dest!: find_SomeD split: sum.splits option.splits if_splits)
  from finish_create_cases[OF p assms(2)] obtain ds src path where c:
    "validateSessionAbusePolicy parsed (mergeSessionAbuseControlConfig ctl) = None"
    "traverse_opt pg_cidr (pc_destinationCidrs parsed) = Some ds"
    "sessions d' = sessions d @ [new_session_row e actor parsed s ds src]"
    "choosePath e d (pc_spec parsed) = Inr (Some path)" by blast
  have "\<not> allowPrivateDestinations (mergeSessionAbuseControlConfig ctl)"
    using assms(3) by (auto simp: mergeSessionAbuseControlConfig_def defaultSessionAbuseControlConfig_def
        Let_def split: option.split)
  from accepted_destinations[OF c(1) this c(2), of e actor s src] c(3,4) show ?thesis
    by (auto simp: new_session_row_def)
qed

definition api_body :: js_record where
  "api_body = [(''mode'', JStr ''IpToIp''), (''targetIp'', JStr '' 8.8.8.8 ''),
     (''ingressGateName'', JStr ''gate-eu-1''), (''egressGateName'', JStr ''gate-na-1'')]"

definition no_overrides :: partial_abuse_config where
  "no_overrides = \<lparr>in_maxActive = None, in_maxCreates = None, in_windowSeconds = None, in_allowPrivate = None\<rparr>"

definition api_parsed :: session_create_parsed where
  "api_parsed = \<lparr>pc_mode = IpToIp, pc_destinationCidrs = [''8.8.8.8/32''], pc_createRequestId = None,
     pc_sourceCidr = None, pc_clientPublicKey = None, pc_label = None,
     pc_spec = [(''desiredState'', JStr ''Active''), (''clientProtocol'', JStr ''wireguard''),
       (''mode'', JStr ''IpToIp''), (''destinationCidrs'', JArr [JStr ''8.8.8.8/32'']),
       (''ingressGateName'', JStr ''gate-eu-1''), (''egressGateName'', JStr ''gate-na-1''),
       (''pathPolicy'', JObj []), (''artifactPolicy'', JObj [])]\<rparr>"

lemma api_parse: "parseSessionCreateBody api_body = Inr api_parsed"
  by code_simp

lemma api_valid: "validateSessionAbusePolicy api_parsed (mergeSessionAbuseControlConfig no_overrides) = None"
proof -
  have p: "parseIpv4Cidr ''8.8.8.8/32'' = Some \<lparr>cidr_address = 0x08080808, cidr_prefixLength = 32,
      cidr_text = ''8.8.8.8/32''\<rparr>" by code_simp
  show ?thesis
    unfolding abuse_policy_cases
    by (simp add: api_parsed_def host_ok_def p source_ok_def public_number_def reserved_blocks_def
        ipv4_number_def)
qed

lemma api_create:
  "\<exists>d'. createSession sample_env (\<lambda>r. Inr None) sample_owner api_body no_overrides None None gates_db
     = Inr (d', CO_created ''u0'')"
proof -
  have "choosePath sample_env gates_db (pc_spec api_parsed) = Inr (Some sample_path)" by code_simp
  moreover have "traverse_opt pg_cidr (pc_destinationCidrs api_parsed) = Some [''8.8.8.8/32'']"
    using sample_cidr by (simp add: api_parsed_def)
  moreover have "mergeSessionAbuseControlConfig no_overrides = defaultSessionAbuseControlConfig"
    by (simp add: mergeSessionAbuseControlConfig_def no_overrides_def Let_def)
  moreover have "js_prop api_body ''tradingRouteId'' = None" by code_simp
  moreover have "pc_createRequestId api_parsed = None" "pc_sourceCidr api_parsed = None"
    by (simp_all add: api_parsed_def)
  ultimately show ?thesis
    using api_valid
    by (simp add: createSession_def api_parse finish_create_def createRequestedSessionWithAbuseControls_def
        create_new_session_def insertRequestedSessionInTransaction_def gen_uuid_def gates_db_tables sample_uuid
        countNonTerminalSessionsForAccount_def countRecentSessionCreatesForAccount_def
        defaultSessionAbuseControlConfig_def Let_def)
qed

lemma created_session_safe_witness:
  "\<exists>d' row. createSession sample_env (\<lambda>r. Inr None) sample_owner api_body no_overrides None None gates_db
       = Inr (d', CO_created ''u0'')
     \<and> sessions d' = [row] \<and> stored_destinations_ok row"
proof -
  obtain d' where c: "createSession sample_env (\<lambda>r. Inr None) sample_owner api_body no_overrides None None gates_db
     = Inr (d', CO_created ''u0'')" using api_create by (elim exE)
  have "''u0'' \<notin> ss_id ` set (sessions gates_db)" "in_allowPrivate no_overrides \<noteq> Some True"
    by (simp_all add: gates_db_tables no_overrides_def)
  from created_session_safe[OF c this] c show ?thesis by (auto simp: gates_db_tables)
qed

text \<open>
  The abuse policy guarantees that the destinations can be stored, but not the source
  restriction: a source block with address bits right of its mask passes the policy, and the
  insert then fails in PostgreSQL's cast, so the request raises an exception instead of being
  answered with \<open>invalid_source_cidr\<close>.
\<close>

lemma source_cast_gap:
  "(\<forall>parsed cfg. validateSessionAbusePolicy parsed cfg = None \<longrightarrow>
      traverse_opt pg_cidr (pc_destinationCidrs parsed) \<noteq> None)
   \<and> validateSessionAbusePolicy (sample_parsed\<lparr>pc_sourceCidr := Some ''10.0.0.5/24''\<rparr>) defaultSessionAbuseControlConfig = None
   \<and> createRequestedSessionWithAbuseControls sample_env sample_owner (sample_parsed\<lparr>pc_sourceCidr := Some ''10.0.0.5/24''\<rparr>)
       defaultSessionAbuseControlConfig S_requested None gates_db = Inl ''invalid input syntax for type cidr''"
proof (intro conjI allI impI)
  fix parsed cfg
  assume v: "validateSessionAbusePolicy parsed cfg = None"
  show "traverse_opt pg_cidr (pc_destinationCidrs parsed) \<noteq> None"
  proof (rule traverse_opt_total)
    fix x assume x: "x \<in> set (pc_destinationCidrs parsed)"
    show "pg_cidr x \<noteq> None"
    proof (cases "pc_mode parsed")
      case IpToIp
      then have "host_ok (allowPrivateDestinations cfg) x" using v[unfolded abuse_policy_cases] x by simp
      then obtain c where "parseIpv4Cidr x = Some c" "cidr_prefixLength c = 32"
        by (auto simp: host_ok_def split: option.splits)
      from pg_cidr_host[OF this] show ?thesis by simp
    next
      case FullTunnel
      then have "default_route x" using v[unfolded abuse_policy_cases] x by auto
      from pg_cidr_default_route[OF this] show ?thesis by simp
    qed
  qed
next
  have p: "parseIpv4Cidr ''8.8.8.8/32'' = Some \<lparr>cidr_address = 0x08080808, cidr_prefixLength = 32,
      cidr_text = ''8.8.8.8/32''\<rparr>" by code_simp
  have q: "parseIpv4Cidr ''10.0.0.5/24'' = Some \<lparr>cidr_address = 0x0A000005, cidr_prefixLength = 24,
      cidr_text = ''10.0.0.5/24''\<rparr>" by code_simp
  show "validateSessionAbusePolicy (sample_parsed\<lparr>pc_sourceCidr := Some ''10.0.0.5/24''\<rparr>) defaultSessionAbuseControlConfig = None"
    unfolding abuse_policy_cases
    by (simp add: sample_parsed_def host_ok_def p q source_ok_def public_number_def reserved_blocks_def
        ipv4_number_def)
  have "pg_cidr ''10.0.0.5/24'' = None" by (simp add: pg_cidr_def q prefixMask_def)
  then show "createRequestedSessionWithAbuseControls sample_env sample_owner (sample_parsed\<lparr>pc_sourceCidr := Some ''10.0.0.5/24''\<rparr>)
       defaultSessionAbuseControlConfig S_requested None gates_db = Inl ''invalid input syntax for type cidr''"
    using sample_cidr sample_choosePath
    by (simp add: createRequestedSessionWithAbuseControls_def create_new_session_def sample_parsed_def
        findSessionIdByCreateRequest_def gates_db_tables countNonTerminalSessionsForAccount_def
        countRecentSessionCreatesForAccount_def defaultSessionAbuseControlConfig_def
        insertRequestedSessionInTransaction_def split: option.split)
qed

lemma source_cast_gap_witness:
  "validateSessionAbusePolicy (sample_parsed\<lparr>pc_sourceCidr := Some ''10.0.0.5/24''\<rparr>) defaultSessionAbuseControlConfig = None
   \<and> traverse_opt pg_cidr (pc_destinationCidrs (sample_parsed\<lparr>pc_sourceCidr := Some ''10.0.0.5/24''\<rparr>)) \<noteq> None"
  using source_cast_gap by blast

subsection \<open>Paying for a session\<close>

lemma ensure_traffic_frame [simp]:
  "sessions (ensure_traffic_entitlement e s l d) = sessions d"
  "session_status (ensure_traffic_entitlement e s l d) = session_status d"
  "config_payments (ensure_traffic_entitlement e s l d) = config_payments d"
  by (simp_all add: ensure_traffic_entitlement_def split: option.split)

lemma ensure_traffic_present:
  "l \<noteq> None \<Longrightarrow> list_ex (\<lambda>t. te_session t = s) (traffic_entitlements (ensure_traffic_entitlement e s l d))"
  by (auto simp: ensure_traffic_entitlement_def insert_unless_def)

lemma ensure_traffic_again:
  "l = None \<or> list_ex (\<lambda>t. te_session t = s) (traffic_entitlements d) \<Longrightarrow> ensure_traffic_entitlement e s l d = d"
  by (auto simp: ensure_traffic_entitlement_def insert_unless_def split: option.split)

lemma phase_of_ensure_traffic: "phase_of (ensure_traffic_entitlement e s l d) t = phase_of d t"
  by (simp add: phase_of_def)

lemma confirm_tables:
  "sessions (confirm_payment e actor s p g l d) = sessions d"
  "config_payments (confirm_payment e actor s p g l d) = config_payments d"
  "traffic_entitlements (confirm_payment e actor s p g l d) = traffic_entitlements d"
  "session_status (confirm_payment e actor s p g l d)
     = update_where (\<lambda>r. st_session r = s) (\<lambda>r. r\<lparr>st_phase := S_requested, st_updated := env_now e\<rparr>) (session_status d)"
  by (simp_all add: confirm_payment_def Let_def update_status_def)

lemma phase_of_confirm:
  "phase_of (confirm_payment e actor s p g l d) t = (if t = s then map_option (\<lambda>_. S_requested) (phase_of d s) else phase_of d t)"
  by (auto simp: phase_of_def confirm_tables phase_update.row_of_update map_option_case
      dest: row_of_SomeD split: option.splits)

text \<open>
  A paid session starts exactly once and only for a finalised payment: activation needs a
  confirmed payment row of the same account and session with the presented signature; it moves
  the phase from \<open>payment_pending\<close> to \<open>requested\<close>, leaves a traffic entitlement when the payment
  has a limit, and repeating it reports \<open>already_active\<close> without changing anything; any other
  answer leaves every phase as it was.
\<close>

lemma paid_activation:
  assumes "wf_sessions d" "activatePaidSession e actor s payment signature d = (d', r)"
  shows "(r = AP_activated \<longrightarrow>
       (\<exists>p\<in>set (config_payments d). cp_id p = payment \<and> cp_session p = Some s
          \<and> cp_account p = ow_accountId actor \<and> cp_status p = ''confirmed'' \<and> cp_signature p = Some signature
          \<and> (cp_trafficLimit p \<noteq> None \<longrightarrow> list_ex (\<lambda>t. te_session t = s) (traffic_entitlements d')))
       \<and> phase_of d s = Some S_payment_pending \<and> phase_of d' s = Some S_requested
       \<and> (\<forall>t. t \<noteq> s \<longrightarrow> phase_of d' t = phase_of d t)
       \<and> activatePaidSession e2 actor s payment signature d' = (d', AP_already_active))
    \<and> (r \<noteq> AP_activated \<longrightarrow> session_status d' = session_status d)"
proof (cases "find (\<lambda>(ss, st). ss_id ss = s \<and> ss_account ss = Some (ow_accountId actor)) (session_join d)")
  case None
  with assms(2) show ?thesis by (auto simp: activatePaidSession_def)
next
  case (Some j)
  obtain ss st where j: "j = (ss, st)" by (cases j)
  note row = find_join_SomeD[OF Some[unfolded j]]
  have row': "ss \<in> set (sessions d)" "st \<in> set (session_status d)" "st_session st = s" "ss_id ss = s"
    "ss_account ss = Some (ow_accountId actor)" using row by auto
  show ?thesis
  proof (cases "r = AP_activated")
    case False
    with assms(2) Some j show ?thesis
      by (auto simp: activatePaidSession_def Let_def split: option.splits if_splits)
  next
    case True
    then obtain p where p: "find_config_payment d payment ss = Some p" "cp_status p = ''confirmed''"
      "cp_signature p = Some signature" "st_phase st = S_payment_pending"
      "d' = confirm_payment e actor s payment signature (cp_trafficLimit p)
              (ensure_traffic_entitlement e s (cp_trafficLimit p) d)"
      using assms(2) Some j by (auto simp: activatePaidSession_def Let_def split: option.splits if_splits)
    have pm: "p \<in> set (config_payments d)" "cp_id p = payment" "cp_session p = Some s"
      "cp_account p = ow_accountId actor"
      using find_SomeD[OF p(1)[unfolded find_config_payment_def]] row' by auto
    have ph: "phase_of d s = Some S_payment_pending"
      using phase_of_row[OF assms(1) row'(2)] row'(3) p(4) by simp
    have ph': "phase_of d' t = (if t = s then Some S_requested else phase_of d t)" for t
      using ph by (simp add: p(5) phase_of_confirm phase_of_ensure_traffic)
    have traffic: "cp_trafficLimit p \<noteq> None \<Longrightarrow> list_ex (\<lambda>t. te_session t = s) (traffic_entitlements d')"
      by (simp add: p(5) confirm_tables ensure_traffic_present)
    have wf': "wf_sessions d'"
      using assms(1) by (simp add: wf_sessions_def p(5) confirm_tables phase_update.keys_update)
    have ss': "sessions d' = sessions d" by (simp add: p(5) confirm_tables)
    have "s \<in> st_session ` set (session_status d')"
      using ph' [of s] by (auto simp: phase_of_def dest: row_of_SomeD)
    then obtain st2 where st2: "st2 \<in> set (session_status d')" "st_session st2 = s" by blast
    then have "list_ex (\<lambda>(ss, st). ss_id ss = s \<and> ss_account ss = Some (ow_accountId actor)) (session_join d')"
      using row' ss' by (force simp: list_ex_iff in_session_join)
    then obtain q where "find (\<lambda>(ss, st). ss_id ss = s \<and> ss_account ss = Some (ow_accountId actor))
        (session_join d') = Some q" unfolding find_not_None[symmetric] by (elim exE)
    then obtain a b where ab: "find (\<lambda>(ss, st). ss_id ss = s \<and> ss_account ss = Some (ow_accountId actor))
        (session_join d') = Some (a, b)" by (cases q) simp
    note rab = find_join_SomeD[OF ab]
    have keys: "distinct (map ss_id (sessions d))" using assms(1) by (simp add: wf_sessions_def)
    have a_in: "a \<in> set (sessions d)" using rab ss' by simp
    have "ss_id a = ss_id ss" using rab row'(4) by simp
    then have "a = ss" by (rule row_eqI[OF keys a_in row'(1)])
    moreover have "st_phase b = S_requested"
      using phase_of_row[OF wf', of b] rab ph' by auto
    moreover have "find_config_payment d' payment ss = Some p"
      using p(1) by (simp add: find_config_payment_def p(5) confirm_tables)
    moreover have "ensure_traffic_entitlement e2 s (cp_trafficLimit p) d' = d'"
    proof (rule ensure_traffic_again)
      show "cp_trafficLimit p = None \<or> list_ex (\<lambda>t. te_session t = s) (traffic_entitlements d')"
        using traffic by (cases "cp_trafficLimit p = None") simp_all
    qed
    ultimately have "activatePaidSession e2 actor s payment signature d' = (d', AP_already_active)"
      using ab p(2,3) by (simp add: activatePaidSession_def Let_def)
    with True pm p(2,3) ph ph' traffic show ?thesis by auto
  qed
qed

definition paid_db :: db where
  "paid_db = gates_db\<lparr>sessions := sessions created_db,
     session_status := [new_status_row sample_env ''u0'' S_payment_pending],
     config_payments := [\<lparr>cp_id = ''pay'', cp_session = Some ''u0'', cp_account = ''acc'', cp_status = ''confirmed'',
       cp_signature = Some ''sig'', cp_trafficLimit = Some 50000000000\<rparr>]\<rparr>"

lemma paid_activation_witness:
  "\<exists>d'. activatePaidSession sample_env sample_owner ''u0'' ''pay'' ''sig'' paid_db = (d', AP_activated)
     \<and> phase_of d' ''u0'' = Some S_requested
     \<and> activatePaidSession sample_env sample_owner ''u0'' ''pay'' ''sig'' d' = (d', AP_already_active)"
proof -
  have w: "wf_sessions paid_db" by (simp add: wf_sessions_def paid_db_def sample_insert new_status_row_def)
  have "snd (activatePaidSession sample_env sample_owner ''u0'' ''pay'' ''sig'' paid_db) = AP_activated"
    by (simp add: activatePaidSession_def session_join_def paid_db_def sample_insert new_session_row_def
        new_status_row_def sample_owner_def find_config_payment_def)
  then obtain d' where d': "activatePaidSession sample_env sample_owner ''u0'' ''pay'' ''sig'' paid_db = (d', AP_activated)"
    by (metis prod.collapse)
  with paid_activation[OF w d'] show ?thesis by blast
qed

end
