(* ===== verification/Assignments.thy ===== *)
theory Assignments
  imports Sessions
begin

section \<open>Gate assignments\<close>

text \<open>
  \<open>resources/gate-assignments/repository.ts\<close> and \<open>service.ts\<close>: a session is realised by one
  assignment on its ingress gate and one on its egress gate, each with a status row that the
  jobs drive from \<open>queued\<close> through \<open>prepared\<close> to \<open>applied\<close> and, when the session is revoked,
  to \<open>revoked\<close>.
\<close>

subsection \<open>Statements (\<open>repository.ts\<close>)\<close>

text \<open>
  \<open>INSERT ... ON CONFLICT (session_id, role)\<close>: the row of the role keeps its id and its handle;
  its generation moves when what it asks for moves.
\<close>

definition reassign :: "env \<Rightarrow> uuid \<Rightarrow> uuid \<Rightarrow> assignment_desired \<Rightarrow> assignment_row \<Rightarrow> assignment_row" where
  "reassign e g p q a = a\<lparr>ga_desired := q, ga_gate := g, ga_plan := p,
     ga_generation := (if ga_desired a \<noteq> q \<or> ga_gate a \<noteq> g \<or> ga_plan a \<noteq> p
                       then ga_generation a + 1 else ga_generation a), ga_updated := env_now e\<rparr>"

definition upsertGateAssignment ::
    "env \<Rightarrow> uuid \<Rightarrow> uuid \<Rightarrow> gate_role \<Rightarrow> uuid \<Rightarrow> assignment_desired \<Rightarrow> db \<Rightarrow> db \<times> uuid" where
  "upsertGateAssignment e sessionId gateId role planId desired d =
     (let (newId, d1) = gen_uuid e d in
      case find (\<lambda>a. ga_session a = sessionId \<and> ga_role a = role) (gate_assignments d1) of
        None \<Rightarrow>
          (d1\<lparr>gate_assignments := gate_assignments d1 @
             [\<lparr>ga_id = newId, ga_session = sessionId, ga_gate = gateId, ga_role = role, ga_generation = 1,
               ga_desired = desired, ga_handle = ''hs-assignment-'' @ newId, ga_plan = planId,
               ga_updated = env_now e\<rparr>]\<rparr>, newId)
      | Some a \<Rightarrow>
          (d1\<lparr>gate_assignments := update_where (\<lambda>a. ga_session a = sessionId \<and> ga_role a = role)
             (reassign e gateId planId desired) (gate_assignments d1)\<rparr>, ga_id a))"

definition new_assignment_status :: "env \<Rightarrow> uuid \<Rightarrow> assignment_phase \<Rightarrow> assignment_status_row" where
  "new_assignment_status e assignmentId p =
     \<lparr>as_assignment = assignmentId, as_phase = p, as_observedGeneration = 0, as_appliedPlan = None,
      as_hash = None, as_material = [], as_reported = [], as_appliedAt = None, as_revokedAt = None,
      as_lastObserved = None, as_lastError = None, as_updated = env_now e\<rparr>"

definition ensureGateAssignmentStatusPhase :: "env \<Rightarrow> uuid \<Rightarrow> assignment_phase \<Rightarrow> db \<Rightarrow> db" where
  "ensureGateAssignmentStatusPhase e assignmentId p d =
     d\<lparr>assignment_status := upsert (\<lambda>r. as_assignment r = assignmentId)
         (\<lambda>r. r\<lparr>as_phase := (if as_phase r = A_applied then as_phase r else p), as_updated := env_now e\<rparr>)
         (new_assignment_status e assignmentId p) (assignment_status d)\<rparr>"

text \<open>\<open>gate_assignments JOIN gates JOIN gate_assignment_status\<close>.\<close>

record assignment_material =
  am_id :: uuid
  am_gateId :: uuid
  am_role :: gate_role
  am_handle :: string
  am_gateName :: string
  am_publicIpv4 :: string
  am_material :: js_record
  am_phase :: assignment_phase

definition assignment_join :: "db \<Rightarrow> uuid \<Rightarrow> assignment_material list" where
  "assignment_join d sessionId =
     concat (map (\<lambda>a. concat (map (\<lambda>g. map (\<lambda>st.
         \<lparr>am_id = ga_id a, am_gateId = ga_gate a, am_role = ga_role a, am_handle = ga_handle a,
          am_gateName = gt_name g, am_publicIpv4 = gt_publicIpv4 g, am_material = as_material st,
          am_phase = as_phase st\<rparr>)
        (filter (\<lambda>st. as_assignment st = ga_id a) (assignment_status d)))
       (filter (\<lambda>g. gt_id g = ga_gate a) (gates d))))
      (filter (\<lambda>a. ga_session a = sessionId) (gate_assignments d)))"

text \<open>\<open>ORDER BY role\<close>: PostgreSQL orders an enum by its declaration, \<open>Ingress\<close> first.\<close>

instantiation gate_role :: linorder
begin

definition less_eq_gate_role :: "gate_role \<Rightarrow> gate_role \<Rightarrow> bool" where
  "less_eq_gate_role r s \<longleftrightarrow> r = Ingress \<or> s = Egress"

definition less_gate_role :: "gate_role \<Rightarrow> gate_role \<Rightarrow> bool" where
  "less_gate_role r s \<longleftrightarrow> r = Ingress \<and> s = Egress"

instance
proof
  fix r s t :: gate_role
  show "(r < s) = (r \<le> s \<and> \<not> s \<le> r)" by (cases r; cases s) (simp_all add: less_eq_gate_role_def less_gate_role_def)
  show "r \<le> r" by (cases r) (simp_all add: less_eq_gate_role_def)
  show "r \<le> s \<Longrightarrow> s \<le> t \<Longrightarrow> r \<le> t" by (auto simp: less_eq_gate_role_def)
  show "r \<le> s \<Longrightarrow> s \<le> r \<Longrightarrow> r = s" by (auto simp: less_eq_gate_role_def)
  show "r \<le> s \<or> s \<le> r" by (cases r; cases s) (simp_all add: less_eq_gate_role_def)
qed

end

definition listSessionAssignmentMaterials :: "db \<Rightarrow> uuid \<Rightarrow> assignment_material list" where
  "listSessionAssignmentMaterials d sessionId =
     sort_key am_role (assignment_join d sessionId)"

definition listAssignmentPhasesForSession :: "db \<Rightarrow> uuid \<Rightarrow> (string \<times> gate_role \<times> assignment_phase) list" where
  "listAssignmentPhasesForSession d sessionId =
     map (\<lambda>m. (am_gateName m, am_role m, am_phase m))
       (sort_key am_role (assignment_join d sessionId))"

definition update_assignment_status ::
    "(assignment_status_row \<Rightarrow> bool) \<Rightarrow> (assignment_status_row \<Rightarrow> assignment_status_row) \<Rightarrow> db \<Rightarrow> db" where
  "update_assignment_status P f d = d\<lparr>assignment_status := update_where P f (assignment_status d)\<rparr>"

definition markPreparedAssignmentsQueued :: "env \<Rightarrow> uuid \<Rightarrow> uuid \<Rightarrow> assignment_phase \<Rightarrow> db \<Rightarrow> db" where
  "markPreparedAssignmentsQueued e ingressId egressId nextPhase =
     update_assignment_status (\<lambda>r. as_assignment r \<in> {ingressId, egressId} \<and> as_phase r = A_prepared)
       (\<lambda>r. r\<lparr>as_phase := nextPhase, as_updated := env_now e\<rparr>)"

definition markPendingAssignmentsPhaseForSession ::
    "env \<Rightarrow> uuid \<Rightarrow> assignment_phase \<Rightarrow> json \<Rightarrow> assignment_phase list \<Rightarrow> db \<Rightarrow> db" where
  "markPendingAssignmentsPhaseForSession e sessionId nextPhase err candidatePhases d =
     update_assignment_status
       (\<lambda>r. list_ex (\<lambda>a. ga_id a = as_assignment r \<and> ga_session a = sessionId) (gate_assignments d)
          \<and> as_phase r \<in> set candidatePhases)
       (\<lambda>r. r\<lparr>as_phase := nextPhase, as_lastError := Some err, as_updated := env_now e\<rparr>) d"

record revocable_assignment =
  ra_assignmentId :: uuid
  ra_gateId :: uuid
  ra_sessionId :: uuid
  ra_role :: gate_role

definition revocable :: "assignment_row \<Rightarrow> revocable_assignment" where
  "revocable a = \<lparr>ra_assignmentId = ga_id a, ra_gateId = ga_gate a, ra_sessionId = ga_session a, ra_role = ga_role a\<rparr>"

definition has_status :: "db \<Rightarrow> assignment_row \<Rightarrow> bool" where
  "has_status d a \<longleftrightarrow> list_ex (\<lambda>st. as_assignment st = ga_id a) (assignment_status d)"

definition listAssignmentsToRevoke :: "db \<Rightarrow> revocable_assignment list" where
  "listAssignmentsToRevoke d = take 100 (map revocable (filter (\<lambda>a.
     list_ex (\<lambda>s. ss_id s = ga_session a \<and> ss_desired s = SD_Revoked) (sessions d)
     \<and> has_status d a \<and> ga_desired a \<noteq> AD_Revoked) (gate_assignments d)))"

definition updateAssignmentDesiredState :: "env \<Rightarrow> uuid \<Rightarrow> assignment_desired \<Rightarrow> bool \<Rightarrow> db \<Rightarrow> db" where
  "updateAssignmentDesiredState e assignmentId desired incrementGeneration d =
     d\<lparr>gate_assignments := update_where (\<lambda>a. ga_id a = assignmentId)
         (\<lambda>a. a\<lparr>ga_desired := desired,
            ga_generation := (if incrementGeneration then ga_generation a + 1 else ga_generation a),
            ga_updated := env_now e\<rparr>) (gate_assignments d)\<rparr>"

definition markAssignmentRevoking :: "env \<Rightarrow> uuid \<Rightarrow> assignment_phase \<Rightarrow> db \<Rightarrow> db" where
  "markAssignmentRevoking e assignmentId p =
     update_assignment_status (\<lambda>r. as_assignment r = assignmentId \<and> as_phase r \<noteq> A_revoked)
       (\<lambda>r. r\<lparr>as_phase := p, as_updated := env_now e\<rparr>)"

definition findAssignmentPhaseForUpdate :: "db \<Rightarrow> uuid \<Rightarrow> assignment_phase option" where
  "findAssignmentPhaseForUpdate d assignmentId =
     map_option as_phase (find (\<lambda>r. as_assignment r = assignmentId) (assignment_status d))"

definition updateAssignmentPhase :: "env \<Rightarrow> uuid \<Rightarrow> assignment_phase \<Rightarrow> db \<Rightarrow> db" where
  "updateAssignmentPhase e assignmentId p =
     update_assignment_status (\<lambda>r. as_assignment r = assignmentId)
       (\<lambda>r. r\<lparr>as_phase := p, as_updated := env_now e\<rparr>)"

record assignment_report =
  rp_assignmentId :: uuid
  rp_actualStateHash :: string
  rp_errorCode :: string
  rp_resultSummary :: js_record

text \<open>\<open>UPDATE ... FROM gate_assignments\<close>: the joined assignment row, when there is one.\<close>

definition assignment_of :: "db \<Rightarrow> uuid \<Rightarrow> assignment_row option" where
  "assignment_of d a = row_of ga_id a (gate_assignments d)"

definition markAssignmentPreparedFromReport ::
    "env \<Rightarrow> assignment_report \<Rightarrow> assignment_phase \<Rightarrow> js_record \<Rightarrow> db \<Rightarrow> db" where
  "markAssignmentPreparedFromReport e i nextPhase material d = (case assignment_of d (rp_assignmentId i) of
      None \<Rightarrow> d
    | Some a \<Rightarrow> update_assignment_status (\<lambda>r. as_assignment r = rp_assignmentId i)
        (\<lambda>r. r\<lparr>as_phase := nextPhase, as_observedGeneration := ga_generation a,
           as_hash := or_null (rp_actualStateHash i), as_material := material,
           as_reported := rp_resultSummary i, as_lastError := None,
           as_lastObserved := Some (env_now e), as_updated := env_now e\<rparr>) d)"

definition markAssignmentAppliedFromReport ::
    "env \<Rightarrow> assignment_report \<Rightarrow> assignment_phase \<Rightarrow> db \<Rightarrow> db" where
  "markAssignmentAppliedFromReport e i nextPhase d = (case assignment_of d (rp_assignmentId i) of
      None \<Rightarrow> d
    | Some a \<Rightarrow> update_assignment_status (\<lambda>r. as_assignment r = rp_assignmentId i)
        (\<lambda>r. r\<lparr>as_phase := nextPhase, as_observedGeneration := ga_generation a,
           as_appliedPlan := Some (ga_plan a), as_hash := or_null (rp_actualStateHash i),
           as_reported := rp_resultSummary i, as_lastError := None, as_appliedAt := Some (env_now e),
           as_lastObserved := Some (env_now e), as_updated := env_now e\<rparr>) d)"

definition markAssignmentRevokedFromReport ::
    "env \<Rightarrow> assignment_report \<Rightarrow> assignment_phase \<Rightarrow> db \<Rightarrow> db" where
  "markAssignmentRevokedFromReport e i nextPhase =
     update_assignment_status (\<lambda>r. as_assignment r = rp_assignmentId i)
       (\<lambda>r. r\<lparr>as_phase := nextPhase, as_hash := or_null (rp_actualStateHash i),
          as_reported := rp_resultSummary i, as_lastError := None, as_revokedAt := Some (env_now e),
          as_lastObserved := Some (env_now e), as_updated := env_now e\<rparr>)"

definition markAssignmentFailedFromReport ::
    "env \<Rightarrow> uuid \<Rightarrow> assignment_phase \<Rightarrow> string \<Rightarrow> js_record \<Rightarrow> db \<Rightarrow> db" where
  "markAssignmentFailedFromReport e assignmentId nextPhase errorCode resultSummary =
     update_assignment_status (\<lambda>r. as_assignment r = assignmentId)
       (\<lambda>r. r\<lparr>as_phase := nextPhase,
          as_lastError := Some (JObj [(''errorCode'', JStr (or_else errorCode ''job_failed'')),
                                      (''resultSummary'', JObj resultSummary)]),
          as_updated := env_now e\<rparr>)"

definition markMissingHandleAssignmentRowsDrifted ::
    "env \<Rightarrow> uuid \<Rightarrow> string list \<Rightarrow> assignment_phase \<Rightarrow> json \<Rightarrow> db \<Rightarrow> db" where
  "markMissingHandleAssignmentRowsDrifted e gateId missingHandles nextPhase err d =
     (if missingHandles = [] then d
      else update_assignment_status
        (\<lambda>r. list_ex (\<lambda>a. ga_id a = as_assignment r \<and> ga_gate a = gateId
              \<and> ga_handle a \<in> set missingHandles \<and> ga_desired a = AD_Applied) (gate_assignments d)
           \<and> as_phase r = A_applied)
        (\<lambda>r. r\<lparr>as_phase := nextPhase, as_lastError := Some err, as_updated := env_now e\<rparr>) d)"

text \<open>The sessions behind the missing handles that are still wanted, with their current plan.\<close>

definition listMissingHandleRepairSessions :: "db \<Rightarrow> uuid \<Rightarrow> string list \<Rightarrow> (session_row \<times> plan_row) list" where
  "listMissingHandleRepairSessions d gateId missingHandles =
     (if missingHandles = [] then []
      else take 50 (sort_key (\<lambda>(s, p). ss_updated s) (concat (map (\<lambda>a. concat (map (\<lambda>(s, st).
          map (\<lambda>p. (s, p)) (filter (\<lambda>p. pl_session p = ss_id s \<and> pl_generation p = ss_generation s) (rendered_plans d)))
          (filter (\<lambda>(s, st). ss_id s = ga_session a \<and> ss_desired s = SD_Active
             \<and> st_phase st \<in> {S_active, S_provisioning, S_degraded}) (session_join d))))
        (filter (\<lambda>a. ga_gate a = gateId \<and> ga_handle a \<in> set missingHandles \<and> ga_desired a = AD_Applied)
           (gate_assignments d))))))"

definition listKnownOrphanAssignmentsForCleanup :: "db \<Rightarrow> uuid \<Rightarrow> string list \<Rightarrow> revocable_assignment list" where
  "listKnownOrphanAssignmentsForCleanup d gateId orphanHandles =
     (if orphanHandles = [] then []
      else take 100 (map revocable (filter (\<lambda>a. ga_gate a = gateId \<and> ga_handle a \<in> set orphanHandles
         \<and> list_ex (\<lambda>st. as_assignment st = ga_id a
              \<and> (ga_desired a = AD_Revoked \<or> as_phase st \<in> {A_revoking, A_revoked, A_dead})) (assignment_status d))
        (gate_assignments d))))"

subsection \<open>The service (\<open>service.ts\<close>)\<close>

definition createAssignment :: "env \<Rightarrow> uuid \<Rightarrow> uuid \<Rightarrow> gate_role \<Rightarrow> uuid \<Rightarrow> db \<Rightarrow> db \<times> uuid" where
  "createAssignment e sessionId gateId role planId d =
     (let (d1, assignmentId) = upsertGateAssignment e sessionId gateId role planId (fst desiredAppliedTransition) d
      in (ensureGateAssignmentStatusPhase e assignmentId (queuedAfterAssignmentUpsertTransition (Some A_planned)) d1,
          assignmentId))"

definition queuePreparedAssignmentsForCommit :: "env \<Rightarrow> uuid \<Rightarrow> uuid \<Rightarrow> db \<Rightarrow> db" where
  "queuePreparedAssignmentsForCommit e ingressId egressId =
     markPreparedAssignmentsQueued e ingressId egressId queuedForCommitTransition"

definition markPendingAssignmentsDeadForSession :: "env \<Rightarrow> uuid \<Rightarrow> json \<Rightarrow> db \<Rightarrow> db" where
  "markPendingAssignmentsDeadForSession e sessionId err =
     markPendingAssignmentsPhaseForSession e sessionId (deadForProvisioningFailureTransition A_queued) err
       provisioningFailureDeadCandidatePhases"

definition requestAssignmentRevocation :: "env \<Rightarrow> uuid \<Rightarrow> db \<Rightarrow> db" where
  "requestAssignmentRevocation e assignmentId d =
     (let (desired, incrementGeneration, statusPhase) = desiredRevokedTransition
      in markAssignmentRevoking e assignmentId statusPhase
           (updateAssignmentDesiredState e assignmentId desired incrementGeneration d))"

definition missing_handle_error :: json where
  "missing_handle_error = JObj [(''code'', JStr ''actual_state_missing_handle''),
     (''message'', JStr ''Desired assignment handle is absent from gate actual state'')]"

definition markMissingHandleAssignmentsDrifted :: "env \<Rightarrow> uuid \<Rightarrow> string list \<Rightarrow> db \<Rightarrow> db" where
  "markMissingHandleAssignmentsDrifted e gateId missingHandles =
     markMissingHandleAssignmentRowsDrifted e gateId missingHandles driftedAssignmentTransition missing_handle_error"

subsection \<open>Reading the assignment tables back\<close>

definition wf_assignments :: "db \<Rightarrow> bool" where
  "wf_assignments d \<longleftrightarrow> distinct (map ga_id (gate_assignments d))
     \<and> distinct (map (\<lambda>a. (ga_session a, ga_role a)) (gate_assignments d))
     \<and> distinct (map as_assignment (assignment_status d))"

definition fresh_assignment :: "env \<Rightarrow> db \<Rightarrow> bool" where
  "fresh_assignment e d \<longleftrightarrow>
     env_uuid e (uuid_next d) \<notin> ga_id ` set (gate_assignments d) \<union> as_assignment ` set (assignment_status d)"

interpretation assignment_ids: row_update ga_id
    "\<lambda>a. a\<lparr>ga_desired := q, ga_gate := g, ga_plan := p, ga_generation := n a, ga_updated := t\<rparr>" for q g p n t
  by unfold_locales simp

interpretation assignment_desired_update: row_update ga_id
    "\<lambda>a. a\<lparr>ga_desired := q, ga_generation := n a, ga_updated := t\<rparr>" for q n t
  by unfold_locales simp

interpretation assignment_status_upsert: row_upsert as_assignment
    "\<lambda>r. r\<lparr>as_phase := p r, as_updated := u\<rparr>" new for p u new
  by unfold_locales simp

lemma row_of_update_assignment_status:
  assumes "\<And>r. as_assignment (f r) = as_assignment r"
  shows "row_of as_assignment a (assignment_status (update_assignment_status P f d)) =
     map_option (\<lambda>r. if P r then f r else r) (row_of as_assignment a (assignment_status d))"
proof -
  have "row_update as_assignment f" using assms by unfold_locales
  from row_update.row_of_update[OF this] show ?thesis by (simp add: update_assignment_status_def)
qed

lemma assignment_phase_of_update:
  assumes "\<And>r. as_assignment (f r) = as_assignment r" "\<And>r. as_phase (f r) = p"
    and "row_of as_assignment a (assignment_status d) = Some r"
  shows "assignment_phase_of (update_assignment_status P f d) a = Some (if P r then p else as_phase r)"
  using assms by (simp add: assignment_phase_of_def row_of_update_assignment_status)

lemma assignment_phase_of_update_all:
  assumes "\<And>r. as_assignment (f r) = as_assignment r" "\<And>r. as_phase (f r) = p"
  shows "assignment_phase_of (update_assignment_status (\<lambda>r. as_assignment r = b) f d) a =
     (if a = b then map_option (\<lambda>_. p) (assignment_phase_of d a) else assignment_phase_of d a)"
  using assms by (auto simp: assignment_phase_of_def row_of_update_assignment_status map_option_case
      dest: row_of_SomeD split: option.split)

lemma update_assignment_status_frame [simp]:
  "sessions (update_assignment_status P f d) = sessions d"
  "session_status (update_assignment_status P f d) = session_status d"
  "gate_assignments (update_assignment_status P f d) = gate_assignments d"
  "jobs (update_assignment_status P f d) = jobs d"
  "job_attempts (update_assignment_status P f d) = job_attempts d"
  "address_leases (update_assignment_status P f d) = address_leases d"
  "artifacts (update_assignment_status P f d) = artifacts d"
  "rendered_plans (update_assignment_status P f d) = rendered_plans d"
  "gates (update_assignment_status P f d) = gates d"
  "uuid_next (update_assignment_status P f d) = uuid_next d"
  by (simp_all add: update_assignment_status_def)

lemma upsert_frame [simp]:
  "sessions (fst (upsertGateAssignment e s g r p q d)) = sessions d"
  "session_status (fst (upsertGateAssignment e s g r p q d)) = session_status d"
  "assignment_status (fst (upsertGateAssignment e s g r p q d)) = assignment_status d"
  "jobs (fst (upsertGateAssignment e s g r p q d)) = jobs d"
  "gates (fst (upsertGateAssignment e s g r p q d)) = gates d"
  "address_leases (fst (upsertGateAssignment e s g r p q d)) = address_leases d"
  by (simp_all add: upsertGateAssignment_def gen_uuid_def Let_def split: option.split)

lemma ensure_status_frame [simp]:
  "sessions (ensureGateAssignmentStatusPhase e a p d) = sessions d"
  "session_status (ensureGateAssignmentStatusPhase e a p d) = session_status d"
  "gate_assignments (ensureGateAssignmentStatusPhase e a p d) = gate_assignments d"
  "jobs (ensureGateAssignmentStatusPhase e a p d) = jobs d"
  "gates (ensureGateAssignmentStatusPhase e a p d) = gates d"
  "address_leases (ensureGateAssignmentStatusPhase e a p d) = address_leases d"
  by (simp_all add: ensureGateAssignmentStatusPhase_def)

lemma upsert_new:
  assumes "\<not> (\<exists>a\<in>set (gate_assignments d). ga_session a = s \<and> ga_role a = r)"
  shows "gate_assignments (fst (upsertGateAssignment e s g r p q d)) = gate_assignments d @
      [\<lparr>ga_id = env_uuid e (uuid_next d), ga_session = s, ga_gate = g, ga_role = r, ga_generation = 1,
        ga_desired = q, ga_handle = ''hs-assignment-'' @ env_uuid e (uuid_next d), ga_plan = p,
        ga_updated = env_now e\<rparr>]"
    "snd (upsertGateAssignment e s g r p q d) = env_uuid e (uuid_next d)"
  using assms find_None_iff[of "\<lambda>a. ga_session a = s \<and> ga_role a = r" "gate_assignments d"]
  by (auto simp: upsertGateAssignment_def gen_uuid_def Let_def split: option.split)

lemma upsert_existing:
  assumes "wf_assignments d" "a \<in> set (gate_assignments d)" "ga_session a = s" "ga_role a = r"
  shows "gate_assignments (fst (upsertGateAssignment e s g r p q d)) =
      update_where (\<lambda>b. ga_id b = ga_id a) (reassign e g p q) (gate_assignments d)"
    "snd (upsertGateAssignment e s g r p q d) = ga_id a"
proof -
  have uniq: "(ga_session b = s \<and> ga_role b = r) \<longleftrightarrow> ga_id b = ga_id a" if "b \<in> set (gate_assignments d)" for b
    using row_eqI[of "\<lambda>a. (ga_session a, ga_role a)" "gate_assignments d" b a]
      row_eqI[of ga_id "gate_assignments d" b a] assms that by (auto simp: wf_assignments_def)
  obtain b where b: "find (\<lambda>a. ga_session a = s \<and> ga_role a = r) (gate_assignments d) = Some b"
    using assms(2-4) find_NoneD[of "\<lambda>a. ga_session a = s \<and> ga_role a = r" "gate_assignments d" a]
    by (cases "find (\<lambda>a. ga_session a = s \<and> ga_role a = r) (gate_assignments d)") auto
  have "ga_id b = ga_id a" using find_SomeD[OF b] uniq by blast
  with b show "snd (upsertGateAssignment e s g r p q d) = ga_id a"
    by (simp add: upsertGateAssignment_def gen_uuid_def)
  have "map (\<lambda>x. if ga_session x = s \<and> ga_role x = r then reassign e g p q x else x) (gate_assignments d)
      = map (\<lambda>x. if ga_id x = ga_id a then reassign e g p q x else x) (gate_assignments d)"
    by (rule map_cong) (simp_all add: uniq)
  with b show "gate_assignments (fst (upsertGateAssignment e s g r p q d)) =
      update_where (\<lambda>b. ga_id b = ga_id a) (reassign e g p q) (gate_assignments d)"
    by (simp add: upsertGateAssignment_def gen_uuid_def update_where_def)
qed

lemma reassign_keys [simp]:
  "ga_id (reassign e g p q a) = ga_id a" "ga_session (reassign e g p q a) = ga_session a"
  "ga_role (reassign e g p q a) = ga_role a" "ga_handle (reassign e g p q a) = ga_handle a"
  "ga_gate (reassign e g p q a) = g" "ga_plan (reassign e g p q a) = p" "ga_desired (reassign e g p q a) = q"
  by (simp_all add: reassign_def)

interpretation reassign_update: row_update ga_id "reassign e g p q" for e g p q
  by unfold_locales simp

lemma ensure_status_phase:
  "assignment_phase_of (ensureGateAssignmentStatusPhase e a p d) b =
     (if b = a then Some (if assignment_phase_of d a = Some A_applied then A_applied else p)
      else assignment_phase_of d b)"
proof -
  have "row_of as_assignment b (assignment_status (ensureGateAssignmentStatusPhase e a p d)) =
      (if b = a then Some (case row_of as_assignment b (assignment_status d) of None \<Rightarrow> new_assignment_status e a p
          | Some r \<Rightarrow> r\<lparr>as_phase := (if as_phase r = A_applied then as_phase r else p), as_updated := env_now e\<rparr>)
       else row_of as_assignment b (assignment_status d))"
    using assignment_status_upsert.row_of_upsert[where k = b and new = "new_assignment_status e a p"
        and p = "\<lambda>r. if as_phase r = A_applied then as_phase r else p" and u = "env_now e"
        and t = "assignment_status d"]
    by (simp add: ensureGateAssignmentStatusPhase_def new_assignment_status_def)
  then show ?thesis
    by (auto simp: assignment_phase_of_def new_assignment_status_def split: option.split)
qed

lemma ensure_status_distinct:
  "distinct (map as_assignment (assignment_status d)) \<Longrightarrow>
   distinct (map as_assignment (assignment_status (ensureGateAssignmentStatusPhase e a p d)))"
  using assignment_status_upsert.distinct_upsert[where new = "new_assignment_status e a p" 
      and p = "\<lambda>r. if as_phase r = A_applied then as_phase r else p" and u = "env_now e"
      and t = "assignment_status d"]
  by (simp add: ensureGateAssignmentStatusPhase_def new_assignment_status_def)

lemma create_eq:
  "createAssignment e s g r p d = (ensureGateAssignmentStatusPhase e (snd (upsertGateAssignment e s g r p AD_Applied d))
      A_queued (fst (upsertGateAssignment e s g r p AD_Applied d)), snd (upsertGateAssignment e s g r p AD_Applied d))"
  by (simp add: createAssignment_def desiredAppliedTransition_def queuedAfterAssignmentUpsertTransition_def
      case_prod_beta Let_def)

lemma assignment_of_ensure [simp]:
  "assignment_of (ensureGateAssignmentStatusPhase e a p d) b = assignment_of d b"
  by (simp add: assignment_of_def)

lemma phase_of_upsert [simp]:
  "assignment_phase_of (fst (upsertGateAssignment e s g r p q d)) b = assignment_phase_of d b"
  by (simp add: assignment_phase_of_def)

lemma upsert_wf:
  assumes "wf_assignments d" "fresh_assignment e d"
  shows "wf_assignments (fst (upsertGateAssignment e s g r p q d))"
proof (cases "\<exists>a\<in>set (gate_assignments d). ga_session a = s \<and> ga_role a = r")
  case True
  then obtain a where a: "a \<in> set (gate_assignments d)" "ga_session a = s" "ga_role a = r" by blast
  have "map (\<lambda>a. (ga_session a, ga_role a)) (update_where (\<lambda>b. ga_id b = ga_id a) (reassign e g p q) t)
      = map (\<lambda>a. (ga_session a, ga_role a)) t" for t
    by (rule map_update_where) simp
  then show ?thesis
    using assms(1) by (simp add: wf_assignments_def upsert_existing[OF assms(1) a] reassign_update.keys_update)
next
  case False
  then show ?thesis
    using assms by (auto simp: wf_assignments_def fresh_assignment_def upsert_new[OF False])
qed

lemma created_assignment:
  assumes "wf_assignments d" "fresh_assignment e d" "createAssignment e s g r p d = (d', a)"
  shows "wf_assignments d'
    \<and> (\<exists>row. assignment_of d' a = Some row \<and> ga_session row = s \<and> ga_role row = r \<and> ga_gate row = g
         \<and> ga_plan row = p \<and> ga_desired row = AD_Applied
         \<and> (case assignment_of d a of None \<Rightarrow> ga_generation row = 1 \<and> ga_handle row = ''hs-assignment-'' @ a
            | Some old \<Rightarrow> ga_handle row = ga_handle old
                \<and> ga_generation row = ga_generation old +
                   (if ga_desired old = AD_Applied \<and> ga_gate old = g \<and> ga_plan old = p then 0 else 1)))
    \<and> assignment_phase_of d' a = Some (if assignment_phase_of d a = Some A_applied then A_applied else A_queued)
    \<and> (\<forall>b. b \<noteq> a \<longrightarrow> assignment_of d' b = assignment_of d b \<and> assignment_phase_of d' b = assignment_phase_of d b)"
proof -
  let ?u = "upsertGateAssignment e s g r p AD_Applied d"
  have d': "d' = ensureGateAssignmentStatusPhase e a A_queued (fst ?u)" and a: "a = snd ?u"
    using assms(3) by (auto simp: create_eq)
  have wf: "wf_assignments d'"
    using upsert_wf[OF assms(1,2)] by (simp add: d' wf_assignments_def ensure_status_distinct)
  have rows: "(\<exists>row. assignment_of d' a = Some row \<and> ga_session row = s \<and> ga_role row = r \<and> ga_gate row = g
         \<and> ga_plan row = p \<and> ga_desired row = AD_Applied
         \<and> (case assignment_of d a of None \<Rightarrow> ga_generation row = 1 \<and> ga_handle row = ''hs-assignment-'' @ a
            | Some old \<Rightarrow> ga_handle row = ga_handle old
                \<and> ga_generation row = ga_generation old +
                   (if ga_desired old = AD_Applied \<and> ga_gate old = g \<and> ga_plan old = p then 0 else 1)))
     \<and> (\<forall>b. b \<noteq> a \<longrightarrow> assignment_of d' b = assignment_of d b)"
  proof (cases "\<exists>x\<in>set (gate_assignments d). ga_session x = s \<and> ga_role x = r")
    case True
    then obtain x where x: "x \<in> set (gate_assignments d)" "ga_session x = s" "ga_role x = r" by blast
    note ex = upsert_existing[OF assms(1) x, of e g p AD_Applied]
    have old: "assignment_of d (ga_id x) = Some x"
      using assms(1) x(1) by (simp add: assignment_of_def wf_assignments_def row_of_unique)
    have upd: "assignment_of d' b = map_option (\<lambda>y. if ga_id y = ga_id x then reassign e g p AD_Applied y else y)
        (assignment_of d b)" for b
      by (simp add: d' assignment_of_def ex(1) reassign_update.row_of_update)
    have this_row: "assignment_of d' (ga_id x) = Some (reassign e g p AD_Applied x)"
      by (simp add: upd old)
    have other: "assignment_of d' b = assignment_of d b" if ne: "b \<noteq> ga_id x" for b
    proof (cases "assignment_of d b")
      case (Some y)
      then have "row_of ga_id b (gate_assignments d) = Some y" by (simp only: assignment_of_def)
      then have "ga_id y = b" by (rule row_of_SomeD[THEN conjunct2])
      with Some ne show ?thesis by (simp add: upd)
    qed (simp add: upd)
    have ax: "a = ga_id x" by (simp add: a ex(2))
    show ?thesis
      unfolding ax
      using x this_row other old
      by (intro conjI exI[of _ "reassign e g p AD_Applied x"]) (simp_all add: reassign_def)
  next
    case False
    note new = upsert_new[OF False, of e g p AD_Applied]
    have "assignment_of d (env_uuid e (uuid_next d)) = None"
      using assms(2) by (simp add: assignment_of_def row_of_None_iff fresh_assignment_def)
    then show ?thesis
      by (simp add: a new d' assignment_of_def row_of_append split: option.split)
  qed
  have "assignment_phase_of d' b = (if b = a then Some (if assignment_phase_of d a = Some A_applied then A_applied
      else A_queued) else assignment_phase_of d b)" for b
    by (simp add: d' ensure_status_phase)
  with wf rows show ?thesis by simp
qed

text \<open>
  Creating an assignment keeps one assignment per session and role: the returned row asks the
  given gate for the given plan; when the role already had a row it keeps its id and its handle,
  and its generation grows exactly when the gate, the plan or the desired state changed.  The row
  is queued unless it was already applied, and no other assignment is touched.
\<close>

lemma assignment_created:
  assumes "wf_assignments d" "fresh_assignment e d" "createAssignment e s g r p d = (d', a)"
  shows "wf_assignments d'
    \<and> (\<exists>row. assignment_of d' a = Some row \<and> ga_session row = s \<and> ga_role row = r \<and> ga_gate row = g
         \<and> ga_plan row = p \<and> ga_desired row = AD_Applied
         \<and> (case assignment_of d a of None \<Rightarrow> ga_generation row = 1 \<and> ga_handle row = ''hs-assignment-'' @ a
            | Some old \<Rightarrow> ga_handle row = ga_handle old
                \<and> ga_generation row = ga_generation old +
                   (if ga_desired old = AD_Applied \<and> ga_gate old = g \<and> ga_plan old = p then 0 else 1)))
    \<and> assignment_phase_of d' a = Some (if assignment_phase_of d a = Some A_applied then A_applied else A_queued)
    \<and> (\<forall>b. b \<noteq> a \<longrightarrow> assignment_of d' b = assignment_of d b \<and> assignment_phase_of d' b = assignment_phase_of d b)"
  by (rule created_assignment[OF assms])

definition assigned_db :: db where
  "assigned_db = fst (createAssignment sample_env ''s1'' ''g1'' Ingress ''p1'' gates_db)"

lemma assignment_created_witness:
  "snd (createAssignment sample_env ''s1'' ''g9'' Ingress ''p2'' assigned_db) = ''u0''
   \<and> (\<exists>row. assignment_of (fst (createAssignment sample_env ''s1'' ''g9'' Ingress ''p2'' assigned_db)) ''u0'' = Some row
        \<and> ga_gate row = ''g9'' \<and> ga_generation row = 2 \<and> ga_handle row = ''hs-assignment-u0'')"
proof -
  have w: "wf_assignments assigned_db" "fresh_assignment sample_env assigned_db"
    "snd (createAssignment sample_env ''s1'' ''g9'' Ingress ''p2'' assigned_db) = ''u0''"
    by code_simp+
  have o: "assignment_of assigned_db ''u0'' = Some \<lparr>ga_id = ''u0'', ga_session = ''s1'', ga_gate = ''g1'',
      ga_role = Ingress, ga_generation = 1, ga_desired = AD_Applied, ga_handle = ''hs-assignment-u0'',
      ga_plan = ''p1'', ga_updated = env_now sample_env\<rparr>" by code_simp
  from w(3) have "createAssignment sample_env ''s1'' ''g9'' Ingress ''p2'' assigned_db
      = (fst (createAssignment sample_env ''s1'' ''g9'' Ingress ''p2'' assigned_db), ''u0'')"
    by (metis prod.collapse)
  from assignment_created[OF w(1,2) this] w(3) o show ?thesis by auto
qed

end
