(* ===== verification/Deployments.thy ===== *)
theory Deployments
  imports Assignments
begin

section \<open>Agent releases and their deployment\<close>

text \<open>
  \<open>resources/gate-agent-deployments/repository.ts\<close> and \<open>service.ts\<close>, and
  \<open>reconciler/gate-agent-deployment-controller.ts\<close>: a release of the gate agent is rolled out to
  a gate by a job, verified against what the gate's heartbeats report, and rolled back to the
  previous artifact when verification fails.  A time inside a JSON value is its number of
  milliseconds.
\<close>

subsection \<open>Releases (\<open>repository.ts\<close>)\<close>

record release_input =
  ri_version :: string
  ri_revision :: string
  ri_builtAt :: time
  ri_sha256 :: string
  ri_createdBy :: string

definition readGateAgentRelease :: "db \<Rightarrow> uuid \<Rightarrow> release_row option" where
  "readGateAgentRelease d releaseId = find (\<lambda>r. rl_id r = releaseId) (releases d)"

definition activeRelease :: "deployment_phase \<Rightarrow> bool" where
  "activeRelease p \<longleftrightarrow> p \<in> {D_queued, D_staging, D_verifying}"

definition readGateAgentReleaseForGate :: "db \<Rightarrow> uuid \<Rightarrow> uuid \<Rightarrow> release_row option" where
  "readGateAgentReleaseForGate d releaseId gateId =
     find (\<lambda>r. rl_id r = releaseId \<and> list_ex (\<lambda>p. dp_release p = rl_id r \<and> dp_gate p = gateId
       \<and> activeRelease (dp_phase p)) (deployments d)) (releases d)"

definition readGateAgentReleaseBySha :: "db \<Rightarrow> string \<Rightarrow> release_row option" where
  "readGateAgentReleaseBySha d sha = find (\<lambda>r. rl_sha256 r = sha) (releases d)"

definition insertGateAgentRelease :: "env \<Rightarrow> release_input \<Rightarrow> db \<Rightarrow> string + db \<times> release_row" where
  "insertGateAgentRelease e i d =
     (case readGateAgentReleaseBySha d (ri_sha256 i) of
        None \<Rightarrow>
          (let (newId, d1) = gen_uuid e d;
               row = \<lparr>rl_id = newId, rl_version = ri_version i, rl_revision = ri_revision i,
                      rl_builtAt = ri_builtAt i, rl_sha256 = ri_sha256 i, rl_createdBy = ri_createdBy i,
                      rl_created = env_now e\<rparr>
           in Inr (d1\<lparr>releases := releases d1 @ [row]\<rparr>, row))
      | Some existing \<Rightarrow>
          if rl_version existing \<noteq> ri_version i \<or> rl_revision existing \<noteq> ri_revision i
             \<or> rl_builtAt existing \<noteq> ri_builtAt i
          then Inl ''artifact SHA-256 is already registered with different immutable metadata''
          else Inr (d, existing))"

subsection \<open>Deployments (\<open>repository.ts\<close>)\<close>

definition insertDeploymentEvent :: "uuid \<Rightarrow> string \<Rightarrow> js_record \<Rightarrow> db \<Rightarrow> db" where
  "insertDeploymentEvent deploymentId eventType details d =
     d\<lparr>deployment_events := deployment_events d @ [(deploymentId, eventType, details)]\<rparr>"

text \<open>A job row with the defaults of the table.\<close>

definition new_job_row :: "env \<Rightarrow> uuid \<Rightarrow> job_type \<Rightarrow> job_phase \<Rightarrow> uuid option \<Rightarrow> js_record \<Rightarrow> int \<Rightarrow> job_row" where
  "new_job_row e newId jt p gateId payload maxRetries =
     \<lparr>jb_id = newId, jb_type = jt, jb_phase = p, jb_gate = gateId, jb_session = None, jb_assignment = None,
      jb_payload = payload, jb_leaseOwner = None, jb_leaseExpires = None, jb_runAfter = env_now e,
      jb_retryCount = 0, jb_maxRetries = maxRetries, jb_created = env_now e, jb_updated = env_now e\<rparr>"

definition insertAgentDeploymentJob :: "env \<Rightarrow> uuid \<Rightarrow> uuid \<Rightarrow> release_row \<Rightarrow> db \<Rightarrow> db" where
  "insertAgentDeploymentJob e gateId deploymentId release d =
     (let (newId, d1) = gen_uuid e d in
      d1\<lparr>jobs := jobs d1 @ [new_job_row e newId JT_deploy_agent J_queued (Some gateId)
         [(''deploymentId'', JStr deploymentId), (''releaseId'', JStr (rl_id release)),
          (''version'', JStr (rl_version release)), (''revision'', JStr (rl_revision release)),
          (''builtAt'', JInt (rl_builtAt release)), (''artifactSha256'', JStr (rl_sha256 release))] 2]\<rparr>)"

definition unfinishedJob :: "job_phase \<Rightarrow> bool" where
  "unfinishedJob p \<longleftrightarrow> p \<in> {J_queued, J_leased, J_running, J_retryable_failed}"

definition insertRollbackJob :: "env \<Rightarrow> uuid \<Rightarrow> uuid \<Rightarrow> string \<Rightarrow> db \<Rightarrow> db" where
  "insertRollbackJob e gateId deploymentId artifactSha256 d =
     (if list_ex (\<lambda>j. jb_gate j = Some gateId \<and> jb_type j = JT_rollback_agent
           \<and> sql_text (js_prop (jb_payload j) ''deploymentId'') = Some deploymentId
           \<and> unfinishedJob (jb_phase j)) (jobs d)
      then d
      else let (newId, d1) = gen_uuid e d in
        d1\<lparr>jobs := jobs d1 @ [new_job_row e newId JT_rollback_agent J_queued (Some gateId)
           [(''deploymentId'', JStr deploymentId), (''artifactSha256'', JStr artifactSha256)] 2]\<rparr>)"

definition finishedDeployment :: "deployment_phase \<Rightarrow> bool" where
  "finishedDeployment p \<longleftrightarrow> p \<in> {D_succeeded, D_rolled_back, D_failed}"

datatype request_result =
  RQ_created uuid | RQ_gate_not_found | RQ_gate_not_bootstrapped | RQ_release_not_found | RQ_deployment_active

definition new_deployment_row :: "env \<Rightarrow> uuid \<Rightarrow> uuid \<Rightarrow> uuid \<Rightarrow> gate_status_row \<Rightarrow> string \<Rightarrow> deployment_row" where
  "new_deployment_row e newId gateId releaseId status requestedBy =
     \<lparr>dp_id = newId, dp_gate = gateId, dp_release = releaseId, dp_phase = D_queued,
      dp_previousVersion = gs_agentVersion status, dp_previousRevision = gs_agentRevision status,
      dp_previousSha256 = gs_artifactSha256 status, dp_requestedBy = requestedBy,
      dp_requestedAt = env_now e, dp_stagedAt = None, dp_installedAt = None, dp_verifiedAt = None,
      dp_rollbackRequestedAt = None, dp_rollbackAttempts = 0, dp_rolledBackAt = None, dp_failedAt = None,
      dp_deadline = env_now e + seconds 300, dp_failureCode = None, dp_failureMessage = None,
      dp_updated = env_now e\<rparr>"

definition create_deployment ::
    "env \<Rightarrow> uuid \<Rightarrow> gate_status_row \<Rightarrow> release_row \<Rightarrow> string \<Rightarrow> db \<Rightarrow> db \<times> uuid" where
  "create_deployment e gateId status release requestedBy d =
     (let (newId, d1) = gen_uuid e d;
          d2 = d1\<lparr>deployments := deployments d1 @ [new_deployment_row e newId gateId (rl_id release) status requestedBy]\<rparr>;
          d3 = insertDeploymentEvent newId ''requested''
                 [(''releaseId'', JStr (rl_id release)), (''targetArtifactSha256'', JStr (rl_sha256 release)),
                  (''previousArtifactSha256'', json_opt (gs_artifactSha256 status))] d2
      in (insertAgentDeploymentJob e gateId newId release d3, newId))"

text \<open>
  Without a status row the capabilities are empty, so the gate is not bootstrapped.
\<close>

definition insertGateAgentDeployment :: "env \<Rightarrow> uuid \<Rightarrow> uuid \<Rightarrow> string \<Rightarrow> db \<Rightarrow> db \<times> request_result" where
  "insertGateAgentDeployment e gateId releaseId requestedBy d =
     (if \<not> list_ex (\<lambda>g. gt_id g = gateId) (gates d) then (d, RQ_gate_not_found)
      else (case gate_status_of d gateId of
          None \<Rightarrow> (d, RQ_gate_not_bootstrapped)
        | Some status \<Rightarrow>
            if ''control-plane-agent-rollout:v1'' \<notin> set (gs_capabilities status) then (d, RQ_gate_not_bootstrapped)
            else (case readGateAgentRelease d releaseId of
                None \<Rightarrow> (d, RQ_release_not_found)
              | Some release \<Rightarrow>
                  if list_ex (\<lambda>p. dp_gate p = gateId \<and> activeDeploymentPhase (dp_phase p)) (deployments d)
                  then (d, RQ_deployment_active)
                  else map_prod id RQ_created (create_deployment e gateId status release requestedBy d))))"

definition update_deployment ::
    "uuid \<Rightarrow> (deployment_phase \<Rightarrow> bool) \<Rightarrow> (deployment_row \<Rightarrow> deployment_row) \<Rightarrow> db \<Rightarrow> db" where
  "update_deployment deploymentId P f d =
     d\<lparr>deployments := update_where (\<lambda>p. dp_id p = deploymentId \<and> P (dp_phase p)) f (deployments d)\<rparr>"

definition reported_phase :: "job_type \<Rightarrow> bool \<Rightarrow> deployment_phase" where
  "reported_phase jobType succeeded =
     (if succeeded then (if jobType = JT_deploy_agent then D_verifying else D_rolling_back) else D_failed)"

definition job_details :: "job_type \<Rightarrow> string \<Rightarrow> js_record \<Rightarrow> js_record" where
  "job_details jobType errorCode resultSummary =
     [(''jobType'', JStr (if jobType = JT_deploy_agent then ''deploy_agent'' else ''rollback_agent'')),
      (''errorCode'', JStr errorCode), (''resultSummary'', JObj resultSummary)]"

definition apply_report :: "env \<Rightarrow> deployment_phase \<Rightarrow> string \<Rightarrow> js_record \<Rightarrow> deployment_row \<Rightarrow> deployment_row" where
  "apply_report e p errorCode resultSummary r =
     r\<lparr>dp_phase := p,
       dp_stagedAt := (if p = D_verifying then Some (env_now e) else dp_stagedAt r),
       dp_failedAt := (if p = D_failed then Some (env_now e) else dp_failedAt r),
       dp_deadline := env_now e + seconds 300,
       dp_failureCode := (if p = D_failed then or_null errorCode else None),
       dp_failureMessage := (if p = D_failed then or_null (js_stringify (JObj resultSummary)) else None),
       dp_updated := env_now e\<rparr>"

definition markDeploymentJobReported ::
    "env \<Rightarrow> uuid \<Rightarrow> job_type \<Rightarrow> bool \<Rightarrow> bool \<Rightarrow> string \<Rightarrow> js_record \<Rightarrow> db \<Rightarrow> db" where
  "markDeploymentJobReported e deploymentId jobType succeeded terminalFailure errorCode resultSummary d =
     (if \<not> succeeded \<and> \<not> terminalFailure
      then insertDeploymentEvent deploymentId ''job_retryable_failed'' (job_details jobType errorCode resultSummary) d
      else insertDeploymentEvent deploymentId (if succeeded then ''job_staged'' else ''job_failed'')
             (job_details jobType errorCode resultSummary)
             (update_deployment deploymentId (\<lambda>q. \<not> finishedDeployment q)
                (apply_report e (reported_phase jobType succeeded) errorCode resultSummary) d))"

definition markDeploymentSucceeded :: "env \<Rightarrow> uuid \<Rightarrow> time option \<Rightarrow> db \<Rightarrow> db" where
  "markDeploymentSucceeded e deploymentId installedAt d =
     insertDeploymentEvent deploymentId ''verified''
       [(''installedAt'', case installedAt of None \<Rightarrow> JNull | Some t \<Rightarrow> JInt t)]
       (update_deployment deploymentId (\<lambda>q. q \<in> {D_staging, D_verifying})
          (\<lambda>r. r\<lparr>dp_phase := D_succeeded,
             dp_installedAt := Some (case installedAt of None \<Rightarrow> env_now e | Some t \<Rightarrow> t),
             dp_verifiedAt := Some (env_now e), dp_failureCode := None, dp_failureMessage := None,
             dp_updated := env_now e\<rparr>) d)"

datatype rollback_result = RB_queued | RB_not_found | RB_no_previous_release | RB_not_rollbackable

definition start_rollback :: "env \<Rightarrow> string \<Rightarrow> deployment_row \<Rightarrow> deployment_row" where
  "start_rollback e reason r =
     r\<lparr>dp_phase := D_rollback_requested, dp_rollbackRequestedAt := Some (env_now e),
       dp_rollbackAttempts := 1, dp_deadline := env_now e + seconds 300,
       dp_failureCode := or_null reason,
       dp_failureMessage := or_null (''Automatic rollback requested: '' @ reason), dp_updated := env_now e\<rparr>"

definition requestDeploymentRollback :: "env \<Rightarrow> uuid \<Rightarrow> string \<Rightarrow> string \<Rightarrow> db \<Rightarrow> db \<times> rollback_result" where
  "requestDeploymentRollback e deploymentId requestedBy reason d =
     (case find (\<lambda>p. dp_id p = deploymentId) (deployments d) of
        None \<Rightarrow> (d, RB_not_found)
      | Some row \<Rightarrow>
          (case (case dp_previousSha256 row of None \<Rightarrow> None | Some s \<Rightarrow> or_null s) of
             None \<Rightarrow> (d, RB_no_previous_release)
           | Some previous \<Rightarrow>
               if dp_phase row \<notin> {D_succeeded, D_staging, D_verifying, D_failed} then (d, RB_not_rollbackable)
               else if list_ex (\<lambda>p. dp_gate p = dp_gate row \<and> dp_id p \<noteq> deploymentId
                       \<and> activeDeploymentPhase (dp_phase p)) (deployments d)
               then (d, RB_not_rollbackable)
               else (insertDeploymentEvent deploymentId ''rollback_requested''
                       [(''requestedBy'', JStr requestedBy), (''reason'', JStr reason)]
                       (insertRollbackJob e (dp_gate row) deploymentId previous
                          (update_deployment deploymentId (\<lambda>_. True) (start_rollback e reason) d)), RB_queued)))"

definition retryable_rollback :: "deployment_row \<Rightarrow> bool" where
  "retryable_rollback r \<longleftrightarrow> dp_phase r \<in> {D_rollback_requested, D_rolling_back}
     \<and> dp_previousSha256 r \<noteq> None \<and> dp_rollbackAttempts r < 3"

definition retryDeploymentRollback :: "env \<Rightarrow> uuid \<Rightarrow> db \<Rightarrow> db \<times> bool" where
  "retryDeploymentRollback e deploymentId d =
     (case find (\<lambda>p. dp_id p = deploymentId \<and> retryable_rollback p) (deployments d) of
        None \<Rightarrow> (d, False)
      | Some row \<Rightarrow>
          (insertDeploymentEvent deploymentId ''rollback_retried'' []
             (insertRollbackJob e (dp_gate row) deploymentId (the (dp_previousSha256 row))
                (d\<lparr>deployments := update_where (\<lambda>p. dp_id p = deploymentId \<and> retryable_rollback p)
                     (\<lambda>r. r\<lparr>dp_rollbackAttempts := dp_rollbackAttempts r + 1,
                        dp_deadline := env_now e + seconds 300, dp_updated := env_now e\<rparr>) (deployments d)\<rparr>)), True))"

definition markDeploymentRolledBack :: "env \<Rightarrow> uuid \<Rightarrow> string option \<Rightarrow> db \<Rightarrow> db" where
  "markDeploymentRolledBack e deploymentId failureCode d =
     insertDeploymentEvent deploymentId ''rolled_back'' [(''failureCode'', json_opt failureCode)]
       (update_deployment deploymentId
          (\<lambda>q. q \<in> {D_staging, D_verifying, D_rollback_requested, D_rolling_back})
          (\<lambda>r. r\<lparr>dp_phase := D_rolled_back, dp_rolledBackAt := Some (env_now e),
             dp_failureCode := (case failureCode of None \<Rightarrow> dp_failureCode r | Some c \<Rightarrow> Some c),
             dp_failureMessage := (case failureCode of None \<Rightarrow> dp_failureMessage r
               | Some c \<Rightarrow> Some (''Gate release helper restored the previous artifact after '' @ c)),
             dp_updated := env_now e\<rparr>) d)"

definition markDeploymentFailed :: "env \<Rightarrow> uuid \<Rightarrow> string \<Rightarrow> string \<Rightarrow> db \<Rightarrow> db" where
  "markDeploymentFailed e deploymentId code message d =
     insertDeploymentEvent deploymentId ''failed'' [(''code'', JStr code), (''message'', JStr message)]
       (update_deployment deploymentId (\<lambda>q. \<not> finishedDeployment q)
          (\<lambda>r. r\<lparr>dp_phase := D_failed, dp_failedAt := Some (env_now e), dp_failureCode := Some code,
             dp_failureMessage := Some message, dp_updated := env_now e\<rparr>) d)"

subsection \<open>Reading deployments (\<open>repository.ts\<close>)\<close>

record deployment_view =
  dv_row :: deployment_row
  dv_gateName :: string
  dv_release :: release_row

text \<open>\<open>deploymentSelectSql\<close> and \<open>mapDeployment\<close>: the row with its release and its gate's name.\<close>

definition deployment_views :: "db \<Rightarrow> deployment_view list" where
  "deployment_views d = concat (map (\<lambda>p. concat (map (\<lambda>r. map (\<lambda>g.
       \<lparr>dv_row = p, dv_gateName = gt_name g, dv_release = r\<rparr>)
      (filter (\<lambda>g. gt_id g = dp_gate p) (gates d)))
     (filter (\<lambda>r. rl_id r = dp_release p) (releases d)))) (deployments d))"

definition readGateAgentDeployment :: "db \<Rightarrow> uuid \<Rightarrow> deployment_view option" where
  "readGateAgentDeployment d deploymentId = find (\<lambda>v. dp_id (dv_row v) = deploymentId) (deployment_views d)"

definition listGateAgentDeployments :: "db \<Rightarrow> uuid option \<Rightarrow> deployment_view list" where
  "listGateAgentDeployments d gateId = rev (sort_key (\<lambda>v. dp_requestedAt (dv_row v))
     (filter (\<lambda>v. case gateId of None \<Rightarrow> True | Some g \<Rightarrow> g = [] \<or> dp_gate (dv_row v) = g) (deployment_views d)))"

definition listGateAgentReleases :: "db \<Rightarrow> release_row list" where
  "listGateAgentReleases d = rev (sort_key rl_created (releases d))"

record deployment_reconcile =
  dr_id :: uuid
  dr_gate :: uuid
  dr_phase :: deployment_phase
  dr_targetSha256 :: string
  dr_previousSha256 :: "string option"
  dr_stagedAt :: "time option"
  dr_deadline :: time
  dr_rollbackAttempts :: int
  dr_observedSha256 :: "string option"
  dr_installedAt :: "time option"
  dr_lastSeen :: "time option"
  dr_capabilities :: "string list"
  dr_connected :: bool

definition reconcile_row :: "env \<Rightarrow> db \<Rightarrow> deployment_row \<Rightarrow> release_row \<Rightarrow> deployment_reconcile" where
  "reconcile_row e d p r = (let status = gate_status_of d (dp_gate p) in
     \<lparr>dr_id = dp_id p, dr_gate = dp_gate p, dr_phase = dp_phase p, dr_targetSha256 = rl_sha256 r,
      dr_previousSha256 = dp_previousSha256 p, dr_stagedAt = dp_stagedAt p, dr_deadline = dp_deadline p,
      dr_rollbackAttempts = dp_rollbackAttempts p,
      dr_observedSha256 = (case status of None \<Rightarrow> None | Some s \<Rightarrow> gs_artifactSha256 s),
      dr_installedAt = (case status of None \<Rightarrow> None | Some s \<Rightarrow> gs_installedAt s),
      dr_lastSeen = (case status of None \<Rightarrow> None | Some s \<Rightarrow> gs_lastSeen s),
      dr_capabilities = (case status of None \<Rightarrow> [] | Some s \<Rightarrow> gs_capabilities s),
      dr_connected = (condition_true d (dp_gate p) ''AgentConnected'' \<and> fresh_gate_lease e d (dp_gate p))\<rparr>)"

definition listDeploymentsForReconcile :: "env \<Rightarrow> db \<Rightarrow> deployment_reconcile list" where
  "listDeploymentsForReconcile e d = concat (map (\<lambda>p. concat (map (\<lambda>r.
       if list_ex (\<lambda>g. gt_id g = dp_gate p) (gates d) then [reconcile_row e d p r] else [])
      (filter (\<lambda>r. rl_id r = dp_release p) (releases d))))
     (sort_key dp_requestedAt (filter (\<lambda>p. activeDeploymentPhase (dp_phase p)) (deployments d))))"

subsection \<open>The service (\<open>service.ts\<close>)\<close>

definition createGateAgentRelease ::
    "env \<Rightarrow> principal \<Rightarrow> release_input \<Rightarrow> db \<Rightarrow> string + db \<times> release_row option" where
  "createGateAgentRelease e p i d =
     (if \<not> canOperateCluster p then Inr (d, None)
      else map_sum id (map_prod id Some) (insertGateAgentRelease e (i\<lparr>ri_createdBy := pp_id p\<rparr>) d))"

datatype deployment_answer =
  DA_forbidden | DA_refused request_result | DA_deployment deployment_view

definition requestGateAgentDeployment ::
    "env \<Rightarrow> principal \<Rightarrow> uuid \<Rightarrow> uuid \<Rightarrow> db \<Rightarrow> string + db \<times> deployment_answer" where
  "requestGateAgentDeployment e p gateId releaseId d =
     (if \<not> canOperateCluster p then Inr (d, DA_forbidden)
      else (case insertGateAgentDeployment e gateId releaseId (pp_id p) d of
          (d1, RQ_created newId) \<Rightarrow>
            (case readGateAgentDeployment d1 newId of
               None \<Rightarrow> Inl ''created gate-agent deployment was not found''
             | Some v \<Rightarrow> Inr (d1, DA_deployment v))
        | (d1, refused) \<Rightarrow> Inr (d1, DA_refused refused)))"

datatype rollback_answer = RA_forbidden | RA_refused rollback_result | RA_deployment deployment_view

definition requestGateAgentRollback :: "env \<Rightarrow> principal \<Rightarrow> uuid \<Rightarrow> string \<Rightarrow> db \<Rightarrow> db \<times> rollback_answer" where
  "requestGateAgentRollback e p deploymentId reason d =
     (if \<not> canOperateCluster p then (d, RA_forbidden)
      else (case requestDeploymentRollback e deploymentId (pp_id p) reason d of
          (d1, RB_queued) \<Rightarrow>
            (d1, case readGateAgentDeployment d1 deploymentId of
                   None \<Rightarrow> RA_refused RB_not_found | Some v \<Rightarrow> RA_deployment v)
        | (d1, refused) \<Rightarrow> (d1, RA_refused refused)))"

definition readGateAgentDeploymentHistory :: "principal \<Rightarrow> uuid option \<Rightarrow> db \<Rightarrow> deployment_view list option" where
  "readGateAgentDeploymentHistory p gateId d =
     (if canOperateCluster p then Some (listGateAgentDeployments d gateId) else None)"

definition readGateAgentReleases :: "principal \<Rightarrow> db \<Rightarrow> release_row list option" where
  "readGateAgentReleases p d = (if canOperateCluster p then Some (listGateAgentReleases d) else None)"

subsection \<open>The controller (\<open>gate-agent-deployment-controller.ts\<close>)\<close>

record reconcile_result =
  rr_verified :: nat
  rr_rollbackRequested :: nat
  rr_rolledBack :: nat
  rr_failed :: nat

definition failure_code_char :: "char \<Rightarrow> bool" where
  "failure_code_char c \<longleftrightarrow> js_digit c \<or> (97 \<le> (of_char c :: nat) \<and> (of_char c :: nat) \<le> 122) \<or> c = CHR ''_''"

definition readReleaseFailureCode :: "string list \<Rightarrow> string \<Rightarrow> string option" where
  "readReleaseFailureCode capabilities target =
     (let pre = ''agent-release-failure:''; suf = CHR '':'' # target in
      case find (\<lambda>v. prefix pre v \<and> suffix suf v) capabilities of
        None \<Rightarrow> None
      | Some v \<Rightarrow>
          (let code = take (length v - length suf - length pre) (drop (length pre) v)
           in if code \<noteq> [] \<and> length code \<le> 64 \<and> list_all failure_code_char code then Some code else None))"

definition readAssignmentRehydrateFailureCount :: "string list \<Rightarrow> nat option" where
  "readAssignmentRehydrateFailureCount capabilities =
     (let pre = ''assignment-rehydrate:failed:'' in
      case find (prefix pre) capabilities of
        None \<Rightarrow> None
      | Some v \<Rightarrow>
          (let count = drop (length pre) v
           in if count \<noteq> [] \<and> list_all js_digit count \<and> hd count \<noteq> CHR ''0''
                \<and> digits_value count \<le> 9007199254740991
              then Some (digits_value count) else None))"

definition installing :: "deployment_phase \<Rightarrow> bool" where
  "installing p \<longleftrightarrow> p \<in> {D_staging, D_verifying}"

definition rollingBack :: "deployment_phase \<Rightarrow> bool" where
  "rollingBack p \<longleftrightarrow> p \<in> {D_rollback_requested, D_rolling_back}"

definition targetObserved :: "deployment_reconcile \<Rightarrow> bool" where
  "targetObserved row \<longleftrightarrow> dr_observedSha256 row = Some (dr_targetSha256 row)"

definition previousObserved :: "deployment_reconcile \<Rightarrow> bool" where
  "previousObserved row \<longleftrightarrow> (case dr_previousSha256 row of None \<Rightarrow> False
     | Some s \<Rightarrow> s \<noteq> [] \<and> dr_observedSha256 row = Some s)"

definition heartbeatAfterStage :: "deployment_reconcile \<Rightarrow> bool" where
  "heartbeatAfterStage row \<longleftrightarrow> (case dr_lastSeen row of None \<Rightarrow> False
     | Some seen \<Rightarrow> (case dr_stagedAt row of None \<Rightarrow> True | Some staged \<Rightarrow> seen \<ge> staged))"

definition hasPrevious :: "deployment_reconcile \<Rightarrow> bool" where
  "hasPrevious row \<longleftrightarrow> dr_previousSha256 row \<noteq> None \<and> dr_previousSha256 row \<noteq> Some []"

definition selfTestsPassed :: "deployment_reconcile \<Rightarrow> bool" where
  "selfTestsPassed row \<longleftrightarrow> {''agent-artifact-self-test:passed'', ''doublezero-recovery:v1'',
     ''assignment-rehydrate:passed''} \<subseteq> set (dr_capabilities row)"

definition fail_deployment ::
    "env \<Rightarrow> uuid \<Rightarrow> string \<Rightarrow> string \<Rightarrow> db \<times> reconcile_result \<Rightarrow> db \<times> reconcile_result" where
  "fail_deployment e deploymentId code message s =
     (markDeploymentFailed e deploymentId code message (fst s), (snd s)\<lparr>rr_failed := rr_failed (snd s) + 1\<rparr>)"

definition roll_back ::
    "env \<Rightarrow> uuid \<Rightarrow> string option \<Rightarrow> db \<times> reconcile_result \<Rightarrow> db \<times> reconcile_result" where
  "roll_back e deploymentId code s =
     (markDeploymentRolledBack e deploymentId code (fst s), (snd s)\<lparr>rr_rolledBack := rr_rolledBack (snd s) + 1\<rparr>)"

definition order_rollback ::
    "env \<Rightarrow> uuid \<Rightarrow> string \<Rightarrow> db \<times> reconcile_result \<Rightarrow> db \<times> reconcile_result" where
  "order_rollback e deploymentId reason s =
     (case requestDeploymentRollback e deploymentId ''system'' reason (fst s) of
        (d1, RB_queued) \<Rightarrow> (d1, (snd s)\<lparr>rr_rollbackRequested := rr_rollbackRequested (snd s) + 1\<rparr>)
      | (d1, _) \<Rightarrow> (d1, snd s))"

text \<open>The part after the deadline has passed.\<close>

definition expired_deployment ::
    "env \<Rightarrow> deployment_reconcile \<Rightarrow> db \<times> reconcile_result \<Rightarrow> db \<times> reconcile_result" where
  "expired_deployment e row s =
     (if dr_phase row = D_queued
      then fail_deployment e (dr_id row) ''deployment_not_claimed''
             ''Gate did not claim the deployment before its deadline'' s
      else if installing (dr_phase row)
      then (if previousObserved row \<and> dr_connected row
            then roll_back e (dr_id row) (readReleaseFailureCode (dr_capabilities row) (dr_targetSha256 row)) s
            else if hasPrevious row then order_rollback e (dr_id row) ''deployment_verification_timeout'' s
            else fail_deployment e (dr_id row) ''verification_timeout''
                   ''Candidate was not verified and no previous artifact exists'' s)
      else if rollingBack (dr_phase row)
      then (let (d1, retried) = (if hasPrevious row \<and> dr_rollbackAttempts row < 3
                                 then retryDeploymentRollback e (dr_id row) (fst s) else (fst s, False))
            in if retried then (d1, snd s)
               else fail_deployment e (dr_id row) ''rollback_timeout''
                      ''Previous agent artifact was not observed before rollback deadline'' (d1, snd s))
      else s)"

definition reconcile_deployment ::
    "env \<Rightarrow> time \<Rightarrow> deployment_reconcile \<Rightarrow> db \<times> reconcile_result \<Rightarrow> db \<times> reconcile_result" where
  "reconcile_deployment e now row s =
     (let failureCode = readReleaseFailureCode (dr_capabilities row) (dr_targetSha256 row);
          rehydrateFailures = readAssignmentRehydrateFailureCount (dr_capabilities row)
      in if installing (dr_phase row) \<and> targetObserved row \<and> heartbeatAfterStage row \<and> dr_connected row
            \<and> rehydrateFailures \<noteq> None
         then (if hasPrevious row then order_rollback e (dr_id row) ''assignment_rehydrate_failed'' s
               else fail_deployment e (dr_id row) ''assignment_rehydrate_failed''
                      (''Gate-agent startup failed to restore '' @ js_nat (the rehydrateFailures)
                       @ '' persisted assignment(s)'') s)
         else if installing (dr_phase row) \<and> targetObserved row \<and> selfTestsPassed row
            \<and> heartbeatAfterStage row \<and> dr_connected row
         then (markDeploymentSucceeded e (dr_id row) (dr_installedAt row) (fst s),
               (snd s)\<lparr>rr_verified := rr_verified (snd s) + 1\<rparr>)
         else if rollingBack (dr_phase row) \<and> previousObserved row \<and> dr_connected row
         then roll_back e (dr_id row) failureCode s
         else if installing (dr_phase row) \<and> previousObserved row \<and> heartbeatAfterStage row
            \<and> dr_connected row \<and> failureCode \<noteq> None
         then roll_back e (dr_id row) failureCode s
         else if dr_deadline row > now then s
         else expired_deployment e row s)"

definition reconcileGateAgentDeployments :: "env \<Rightarrow> time \<Rightarrow> db \<Rightarrow> db \<times> reconcile_result" where
  "reconcileGateAgentDeployments e now d =
     fold (reconcile_deployment e now) (listDeploymentsForReconcile e d)
       (d, \<lparr>rr_verified = 0, rr_rollbackRequested = 0, rr_rolledBack = 0, rr_failed = 0\<rparr>)"

subsection \<open>Reading the deployment table back\<close>

definition deployment_of :: "db \<Rightarrow> uuid \<Rightarrow> deployment_row option" where
  "deployment_of d i = row_of dp_id i (deployments d)"

lemmas deployment_phase_sets = finishedDeployment_def activeDeploymentPhase_def activeRelease_def
  installing_def rollingBack_def

lemma active_iff_not_finished: "activeDeploymentPhase p \<longleftrightarrow> \<not> finishedDeployment p"
  by (cases p) (auto simp: deployment_phase_sets)

lemma deployments_frame [simp]:
  "deployments (insertDeploymentEvent i t x d) = deployments d"
  "deployments (insertRollbackJob e g i sha d) = deployments d"
  "deployments (insertAgentDeploymentJob e g i r d) = deployments d"
  by (simp_all add: insertDeploymentEvent_def insertRollbackJob_def insertAgentDeploymentJob_def gen_uuid_def)

lemma deployment_of_update:
  assumes "\<And>r. dp_id (f r) = dp_id r"
  shows "deployment_of (update_deployment j P f d) i =
     map_option (\<lambda>r. if dp_id r = j \<and> P (dp_phase r) then f r else r) (deployment_of d i)"
proof -
  have "row_update dp_id f" using assms by unfold_locales
  from row_update.row_of_update[OF this] show ?thesis by (simp add: deployment_of_def update_deployment_def)
qed

lemma deployment_of_id: "deployment_of d i = Some r \<Longrightarrow> dp_id r = i"
  unfolding deployment_of_def by (rule row_of_SomeD[THEN conjunct2])

text \<open>
  The invariant of the table: identifiers are unique, no two active deployments share a gate, and
  the number of rollback attempts stays in the range the table's \<open>CHECK\<close> constraint allows.
\<close>

definition deployments_ok :: "db \<Rightarrow> bool" where
  "deployments_ok d \<longleftrightarrow> distinct (map dp_id (deployments d))
     \<and> (\<forall>p\<in>set (deployments d). \<forall>q\<in>set (deployments d). activeDeploymentPhase (dp_phase p)
          \<longrightarrow> activeDeploymentPhase (dp_phase q) \<longrightarrow> dp_gate p = dp_gate q \<longrightarrow> dp_id p = dp_id q)
     \<and> (\<forall>p\<in>set (deployments d). 0 \<le> dp_rollbackAttempts p \<and> dp_rollbackAttempts p \<le> 3)"

lemma update_where_ok:
  assumes "deployments_ok d" "deployments d' = update_where P f (deployments d)"
    and "\<And>r. r \<in> set (deployments d) \<Longrightarrow> P r \<Longrightarrow> dp_id (f r) = dp_id r \<and> dp_gate (f r) = dp_gate r
          \<and> 0 \<le> dp_rollbackAttempts (f r) \<and> dp_rollbackAttempts (f r) \<le> 3"
    and "\<And>r q. r \<in> set (deployments d) \<Longrightarrow> P r \<Longrightarrow> activeDeploymentPhase (dp_phase (f r)) \<Longrightarrow>
          q \<in> set (deployments d) \<Longrightarrow> activeDeploymentPhase (dp_phase q) \<Longrightarrow> dp_gate q = dp_gate r \<Longrightarrow> dp_id q = dp_id r"
    and "\<And>r q. r \<in> set (deployments d) \<Longrightarrow> P r \<Longrightarrow> q \<in> set (deployments d) \<Longrightarrow> P q \<Longrightarrow> dp_id r = dp_id q"
  shows "deployments_ok d'"
proof -
  define u where "u r = (if P r then f r else r)" for r
  have keys: "dp_id (u r) = dp_id r" "dp_gate (u r) = dp_gate r"
    "0 \<le> dp_rollbackAttempts (u r) \<and> dp_rollbackAttempts (u r) \<le> 3" if "r \<in> set (deployments d)" for r
    using assms(1) assms(3)[OF that] that by (simp_all add: u_def deployments_ok_def)
  have ids: "map dp_id (deployments d') = map dp_id (deployments d)"
    using keys(1) by (simp add: assms(2) update_where_def u_def)
  have pair: "dp_id r = dp_id q" if rq: "r \<in> set (deployments d)" "q \<in> set (deployments d)"
    "activeDeploymentPhase (dp_phase (u r))" "activeDeploymentPhase (dp_phase (u q))" "dp_gate r = dp_gate q" for r q
  proof (cases "P r")
    case r: True
    show ?thesis
    proof (cases "P q")
      case True
      then show ?thesis using assms(5) r rq(1,2) by blast
    next
      case False
      then show ?thesis using assms(4)[of r q] r rq by (simp add: u_def)
    qed
  next
    case r: False
    show ?thesis
    proof (cases "P q")
      case True
      then show ?thesis using assms(4)[of q r] r rq by (simp add: u_def)
    next
      case False
      have "activeDeploymentPhase (dp_phase r)" "activeDeploymentPhase (dp_phase q)" using r False rq(3,4) by (simp_all add: u_def)
      then show ?thesis using assms(1) rq(1,2,5) unfolding deployments_ok_def by blast
    qed
  qed
  have sets: "set (deployments d') = u ` set (deployments d)"
    by (simp add: assms(2) update_where_def u_def[abs_def])
  show ?thesis
    unfolding deployments_ok_def
  proof (intro conjI ballI impI)
    show "distinct (map dp_id (deployments d'))" using ids assms(1) by (simp add: deployments_ok_def)
  next
    fix p q
    assume pq: "p \<in> set (deployments d')" "q \<in> set (deployments d')" "activeDeploymentPhase (dp_phase p)"
      "activeDeploymentPhase (dp_phase q)" "dp_gate p = dp_gate q"
    then obtain r t where rt: "r \<in> set (deployments d)" "t \<in> set (deployments d)" "p = u r" "q = u t"
      unfolding sets by blast
    have "dp_gate r = dp_gate t" using pq(5) rt keys(2) by metis
    then have "dp_id r = dp_id t" using pair rt(1,2) pq(3,4) unfolding rt(3,4) by blast
    then show "dp_id p = dp_id q" using rt keys(1) by metis
  next
    fix p assume "p \<in> set (deployments d')"
    then obtain r where "r \<in> set (deployments d)" "p = u r" unfolding sets by blast
    then show "0 \<le> dp_rollbackAttempts p" "dp_rollbackAttempts p \<le> 3" using keys(3) by metis+
  qed
qed

lemma deployments_okD:
  assumes "deployments_ok d"
  shows "distinct (map dp_id (deployments d))"
    "r \<in> set (deployments d) \<Longrightarrow> 0 \<le> dp_rollbackAttempts r \<and> dp_rollbackAttempts r \<le> 3"
  using assms unfolding deployments_ok_def by blast+

text \<open>A statement on one deployment that does not wake up a finished one.\<close>

lemma update_deployment_ok:
  assumes "deployments_ok d"
    and "\<And>r. dp_id (f r) = dp_id r \<and> dp_gate (f r) = dp_gate r \<and> dp_rollbackAttempts (f r) = dp_rollbackAttempts r"
    and "\<And>r. P (dp_phase r) \<Longrightarrow> activeDeploymentPhase (dp_phase (f r)) \<Longrightarrow> activeDeploymentPhase (dp_phase r)"
  shows "deployments_ok (update_deployment i P f d)"
proof (rule update_where_ok[OF assms(1), of _ "\<lambda>p. dp_id p = i \<and> P (dp_phase p)" f])
  show "deployments (update_deployment i P f d)
      = update_where (\<lambda>p. dp_id p = i \<and> P (dp_phase p)) f (deployments d)"
    by (simp add: update_deployment_def)
next
  fix r assume "r \<in> set (deployments d)"
  then show "dp_id (f r) = dp_id r \<and> dp_gate (f r) = dp_gate r
      \<and> 0 \<le> dp_rollbackAttempts (f r) \<and> dp_rollbackAttempts (f r) \<le> 3"
    using assms(2) deployments_okD(2)[OF assms(1)] by simp
next
  fix r q
  assume r: "r \<in> set (deployments d)" "dp_id r = i \<and> P (dp_phase r)" "activeDeploymentPhase (dp_phase (f r))"
    and q: "q \<in> set (deployments d)" "activeDeploymentPhase (dp_phase q)" "dp_gate q = dp_gate r"
  have "activeDeploymentPhase (dp_phase r)" using assms(3) r(2,3) by blast
  with assms(1) r(1) q show "dp_id q = dp_id r" unfolding deployments_ok_def by blast
qed simp

lemma deployments_ok_frame [simp]:
  "deployments_ok (insertDeploymentEvent i t x d) = deployments_ok d"
  "deployments_ok (insertRollbackJob e g i sha d) = deployments_ok d"
  "deployments_ok (insertAgentDeploymentJob e g i r d) = deployments_ok d"
  unfolding deployments_ok_def deployments_frame by (rule refl)+

lemma reported_ok: "deployments_ok d \<Longrightarrow> deployments_ok (markDeploymentJobReported e i jt s tf ec rs d)"
proof -
  assume ok: "deployments_ok d"
  have "deployments_ok (update_deployment i (\<lambda>q. \<not> finishedDeployment q) (apply_report e (reported_phase jt s) ec rs) d)"
    by (rule update_deployment_ok[OF ok]) (simp_all add: apply_report_def active_iff_not_finished)
  with ok show ?thesis by (simp add: markDeploymentJobReported_def)
qed

lemma succeeded_ok: "deployments_ok d \<Longrightarrow> deployments_ok (markDeploymentSucceeded e i t d)"
proof -
  assume ok: "deployments_ok d"
  have "deployments_ok (update_deployment i (\<lambda>q. q \<in> {D_staging, D_verifying})
      (\<lambda>r. r\<lparr>dp_phase := D_succeeded,
             dp_installedAt := Some (case t of None \<Rightarrow> env_now e | Some t \<Rightarrow> t),
             dp_verifiedAt := Some (env_now e), dp_failureCode := None, dp_failureMessage := None,
             dp_updated := env_now e\<rparr>) d)"
    by (rule update_deployment_ok[OF ok]) (simp_all add: activeDeploymentPhase_def)
  then show ?thesis by (simp add: markDeploymentSucceeded_def)
qed

lemma rolled_back_ok: "deployments_ok d \<Longrightarrow> deployments_ok (markDeploymentRolledBack e i c d)"
proof -
  assume ok: "deployments_ok d"
  have "deployments_ok (update_deployment i (\<lambda>q. q \<in> {D_staging, D_verifying, D_rollback_requested, D_rolling_back})
      (\<lambda>r. r\<lparr>dp_phase := D_rolled_back, dp_rolledBackAt := Some (env_now e),
             dp_failureCode := (case c of None \<Rightarrow> dp_failureCode r | Some c \<Rightarrow> Some c),
             dp_failureMessage := (case c of None \<Rightarrow> dp_failureMessage r
               | Some c \<Rightarrow> Some (''Gate release helper restored the previous artifact after '' @ c)),
             dp_updated := env_now e\<rparr>) d)"
    by (rule update_deployment_ok[OF ok]) (simp_all add: activeDeploymentPhase_def)
  then show ?thesis by (simp add: markDeploymentRolledBack_def)
qed

lemma failed_ok: "deployments_ok d \<Longrightarrow> deployments_ok (markDeploymentFailed e i c m d)"
proof -
  assume ok: "deployments_ok d"
  have "deployments_ok (update_deployment i (\<lambda>q. \<not> finishedDeployment q)
      (\<lambda>r. r\<lparr>dp_phase := D_failed, dp_failedAt := Some (env_now e), dp_failureCode := Some c,
             dp_failureMessage := Some m, dp_updated := env_now e\<rparr>) d)"
    by (rule update_deployment_ok[OF ok]) (simp_all add: activeDeploymentPhase_def)
  then show ?thesis by (simp add: markDeploymentFailed_def)
qed

lemma start_rollback_keys [simp]:
  "dp_id (start_rollback e c r) = dp_id r" "dp_gate (start_rollback e c r) = dp_gate r"
  "dp_rollbackAttempts (start_rollback e c r) = 1" "dp_phase (start_rollback e c r) = D_rollback_requested"
  by (simp_all add: start_rollback_def)

lemma rollback_ok:
  assumes ok: "deployments_ok d"
  shows "deployments_ok (fst (requestDeploymentRollback e i by reason d))"
proof (cases "snd (requestDeploymentRollback e i by reason d) = RB_queued")
  case False
  then have "fst (requestDeploymentRollback e i by reason d) = d"
    by (auto simp: requestDeploymentRollback_def split: option.splits if_splits)
  with ok show ?thesis by simp
next
  case True
  then obtain row where row: "find (\<lambda>p. dp_id p = i) (deployments d) = Some row"
    "\<not> list_ex (\<lambda>p. dp_gate p = dp_gate row \<and> dp_id p \<noteq> i \<and> activeDeploymentPhase (dp_phase p)) (deployments d)"
    and new: "deployments (fst (requestDeploymentRollback e i by reason d))
      = deployments (update_deployment i (\<lambda>_. True) (start_rollback e reason) d)"
    by (auto simp: requestDeploymentRollback_def split: option.splits if_splits)
  have mine: "r = row" if "r \<in> set (deployments d)" "dp_id r = i" for r
    using row_eqI[of dp_id "deployments d" r row] find_SomeD[OF row(1)] that deployments_okD(1)[OF ok] by simp
  show ?thesis
  proof (rule update_where_ok[OF ok, of _ "\<lambda>p. dp_id p = i" "start_rollback e reason"])
    show "deployments (fst (requestDeploymentRollback e i by reason d))
        = update_where (\<lambda>p. dp_id p = i) (start_rollback e reason) (deployments d)"
      by (simp add: new update_deployment_def)
  next
    fix r q assume r: "r \<in> set (deployments d)" "dp_id r = i" and q: "q \<in> set (deployments d)"
      "activeDeploymentPhase (dp_phase q)" "dp_gate q = dp_gate r"
    show "dp_id q = dp_id r"
      using row(2) q mine[OF r] r(2) unfolding list_ex_iff by blast
  qed simp_all
qed

lemma retry_ok:
  assumes ok: "deployments_ok d"
  shows "deployments_ok (fst (retryDeploymentRollback e i d))"
proof (cases "find (\<lambda>p. dp_id p = i \<and> retryable_rollback p) (deployments d)")
  case None
  with ok show ?thesis by (simp add: retryDeploymentRollback_def)
next
  case (Some row)
  show ?thesis
  proof (rule update_where_ok[OF ok, of _ "\<lambda>p. dp_id p = i \<and> retryable_rollback p"
      "\<lambda>r. r\<lparr>dp_rollbackAttempts := dp_rollbackAttempts r + 1,
         dp_deadline := env_now e + seconds 300, dp_updated := env_now e\<rparr>"])
    show "deployments (fst (retryDeploymentRollback e i d)) = update_where (\<lambda>p. dp_id p = i \<and> retryable_rollback p)
        (\<lambda>r. r\<lparr>dp_rollbackAttempts := dp_rollbackAttempts r + 1,
           dp_deadline := env_now e + seconds 300, dp_updated := env_now e\<rparr>) (deployments d)"
      using Some by (simp add: retryDeploymentRollback_def)
  next
    fix r q assume r: "r \<in> set (deployments d)" "dp_id r = i \<and> retryable_rollback r"
      and q: "q \<in> set (deployments d)" "activeDeploymentPhase (dp_phase q)" "dp_gate q = dp_gate r"
    have "activeDeploymentPhase (dp_phase r)" using r(2) by (auto simp: retryable_rollback_def activeDeploymentPhase_def)
    with ok r(1) q show "dp_id q = dp_id r" unfolding deployments_ok_def by blast
  next
    fix r assume "r \<in> set (deployments d)" "dp_id r = i \<and> retryable_rollback r"
    with deployments_okD(2)[OF ok] show "dp_id (r\<lparr>dp_rollbackAttempts := dp_rollbackAttempts r + 1,
           dp_deadline := env_now e + seconds 300, dp_updated := env_now e\<rparr>) = dp_id r
      \<and> dp_gate (r\<lparr>dp_rollbackAttempts := dp_rollbackAttempts r + 1,
           dp_deadline := env_now e + seconds 300, dp_updated := env_now e\<rparr>) = dp_gate r
      \<and> 0 \<le> dp_rollbackAttempts (r\<lparr>dp_rollbackAttempts := dp_rollbackAttempts r + 1,
           dp_deadline := env_now e + seconds 300, dp_updated := env_now e\<rparr>)
      \<and> dp_rollbackAttempts (r\<lparr>dp_rollbackAttempts := dp_rollbackAttempts r + 1,
           dp_deadline := env_now e + seconds 300, dp_updated := env_now e\<rparr>) \<le> 3"
      by (simp add: retryable_rollback_def)
  qed simp
qed

definition fresh_deployment :: "env \<Rightarrow> db \<Rightarrow> bool" where
  "fresh_deployment e d \<longleftrightarrow> env_uuid e (uuid_next d) \<notin> dp_id ` set (deployments d)"

lemma append_ok:
  assumes "deployments_ok d" "deployments d' = deployments d @ [n]" "dp_id n \<notin> dp_id ` set (deployments d)"
    "\<not> list_ex (\<lambda>p. dp_gate p = dp_gate n \<and> activeDeploymentPhase (dp_phase p)) (deployments d)"
    "dp_rollbackAttempts n = 0"
  shows "deployments_ok d'"
  unfolding deployments_ok_def
proof (intro conjI ballI impI)
  show "distinct (map dp_id (deployments d'))" using deployments_okD(1)[OF assms(1)] assms(2,3) by simp
next
  fix p q
  assume pq: "p \<in> set (deployments d')" "q \<in> set (deployments d')" "activeDeploymentPhase (dp_phase p)"
    "activeDeploymentPhase (dp_phase q)" "dp_gate p = dp_gate q"
  have "p = n \<or> p \<in> set (deployments d)" "q = n \<or> q \<in> set (deployments d)" using pq(1,2) assms(2) by auto
  moreover have "p = n \<Longrightarrow> q \<in> set (deployments d) \<Longrightarrow> False" using assms(4) pq(4,5) by (auto simp: list_ex_iff)
  moreover have "q = n \<Longrightarrow> p \<in> set (deployments d) \<Longrightarrow> False" using assms(4) pq(3,5) by (auto simp: list_ex_iff)
  ultimately show "dp_id p = dp_id q" using assms(1) pq(3,4,5) unfolding deployments_ok_def by blast
next
  fix p assume "p \<in> set (deployments d')"
  then have "p = n \<or> p \<in> set (deployments d)" using assms(2) by auto
  then show "0 \<le> dp_rollbackAttempts p" "dp_rollbackAttempts p \<le> 3"
    using deployments_okD(2)[OF assms(1)] assms(5) by auto
qed

lemma insert_deployment_cases:
  "fst (insertGateAgentDeployment e g r by d) = d
   \<or> (\<exists>n. \<not> list_ex (\<lambda>p. dp_gate p = g \<and> activeDeploymentPhase (dp_phase p)) (deployments d)
      \<and> dp_id n = env_uuid e (uuid_next d) \<and> dp_gate n = g \<and> dp_rollbackAttempts n = 0
      \<and> deployments (fst (insertGateAgentDeployment e g r by d)) = deployments d @ [n])"
  by (simp add: insertGateAgentDeployment_def create_deployment_def gen_uuid_def Let_def
      new_deployment_row_def split: option.split)

lemma insert_deployment_ok:
  assumes "deployments_ok d" "fresh_deployment e d"
  shows "deployments_ok (fst (insertGateAgentDeployment e g r by d))"
  using insert_deployment_cases[of e g r "by" d]
proof
  assume "\<exists>n. \<not> list_ex (\<lambda>p. dp_gate p = g \<and> activeDeploymentPhase (dp_phase p)) (deployments d)
      \<and> dp_id n = env_uuid e (uuid_next d) \<and> dp_gate n = g \<and> dp_rollbackAttempts n = 0
      \<and> deployments (fst (insertGateAgentDeployment e g r by d)) = deployments d @ [n]"
  then obtain n where n: "\<not> list_ex (\<lambda>p. dp_gate p = g \<and> activeDeploymentPhase (dp_phase p)) (deployments d)
      \<and> dp_id n = env_uuid e (uuid_next d) \<and> dp_gate n = g \<and> dp_rollbackAttempts n = 0
      \<and> deployments (fst (insertGateAgentDeployment e g r by d)) = deployments d @ [n]" by (elim exE)
  then have a: "dp_gate n = g" "dp_id n = env_uuid e (uuid_next d)" "dp_rollbackAttempts n = 0"
    "deployments (fst (insertGateAgentDeployment e g r by d)) = deployments d @ [n]"
    "\<not> list_ex (\<lambda>p. dp_gate p = g \<and> activeDeploymentPhase (dp_phase p)) (deployments d)" by blast+
  have "dp_id n \<notin> dp_id ` set (deployments d)"
    unfolding a(2) using assms(2) unfolding fresh_deployment_def by assumption
  from append_ok[OF assms(1) a(4) this _ a(3)] a(5) show ?thesis unfolding a(1) by blast
qed (use assms(1) in simp)

interpretation deployment_loop: loop_invariant "\<lambda>s. deployments_ok (fst s)" "reconcile_deployment e now" for e now
proof unfold_locales
  fix s :: "db \<times> reconcile_result" and row
  assume ok: "deployments_ok (fst s)"
  have r: "deployments_ok (fst (order_rollback e i reason s))" for i reason
    using rollback_ok[OF ok, of e i "''system''" reason]
    by (auto simp: order_rollback_def split: prod.split rollback_result.split)
  have x: "deployments_ok (fst (expired_deployment e row s))"
    using r failed_ok[OF ok] rolled_back_ok[OF ok] retry_ok[OF ok, of e "dr_id row"] failed_ok[OF retry_ok[OF ok]] ok
    by (auto simp: expired_deployment_def fail_deployment_def roll_back_def case_prod_beta Let_def)
  show "deployments_ok (fst (reconcile_deployment e now row s))"
    using r x ok failed_ok[OF ok] rolled_back_ok[OF ok] succeeded_ok[OF ok]
    by (auto simp: reconcile_deployment_def fail_deployment_def roll_back_def Let_def)
qed

lemma reconcile_ok: "deployments_ok d \<Longrightarrow> deployments_ok (fst (reconcileGateAgentDeployments e now d))"
  unfolding reconcileGateAgentDeployments_def by (rule deployment_loop.loop_keeps) simp

text \<open>Everything that changes the deployments.\<close>

inductive deployment_op :: "db \<Rightarrow> db \<Rightarrow> bool" where
  requested: "fresh_deployment e d \<Longrightarrow> deployment_op d (fst (insertGateAgentDeployment e g r requestedBy d))"
| reported: "deployment_op d (markDeploymentJobReported e i jt s tf ec rs d)"
| rollback: "deployment_op d (fst (requestDeploymentRollback e i requestedBy reason d))"
| reconciled: "deployment_op d (fst (reconcileGateAgentDeployments e now d))"

lemma deployment_op_ok: "deployment_op d d' \<Longrightarrow> deployments_ok d \<Longrightarrow> deployments_ok d'"
  by (induction rule: deployment_op.induct)
    (rule insert_deployment_ok reported_ok rollback_ok reconcile_ok, assumption+)+

lemma deployment_ops_ok: "deployment_op\<^sup>*\<^sup>* d d' \<Longrightarrow> deployments_ok d \<Longrightarrow> deployments_ok d'"
  by (induction rule: rtranclp_induct) (simp_all add: deployment_op_ok)

lemma one_active:
  assumes "deployments_ok d"
  shows "length (filter (\<lambda>p. dp_gate p = g \<and> activeDeploymentPhase (dp_phase p)) (deployments d)) \<le> 1"
proof -
  let ?l = "filter (\<lambda>p. dp_gate p = g \<and> activeDeploymentPhase (dp_phase p)) (deployments d)"
  have d: "distinct (map dp_id ?l)" using deployments_okD(1)[OF assms] distinct_map_filter by blast
  have same: "dp_id p = dp_id q" if "p \<in> set ?l" "q \<in> set ?l" for p q
    using that assms unfolding deployments_ok_def by simp
  show ?thesis
  proof (cases ?l)
    case (Cons p l)
    show ?thesis
    proof (cases l)
      case (Cons q l')
      with \<open>?l = p # l\<close> have "dp_id p = dp_id q" using same[of p q] by simp
      with d \<open>?l = p # l\<close> Cons show ?thesis by simp
    qed (use \<open>?l = p # l\<close> in simp)
  qed simp
qed

text \<open>
  C34: Whatever sequence of deployment requests, job reports, rollback requests and controller
  passes runs, a gate never has two deployments in progress, and the number of rollback attempts
  of a deployment stays between 0 and 3: the code never runs into the table's unique index or its
  range check.
\<close>

theorem one_deployment_per_gate:
  assumes "deployment_op\<^sup>*\<^sup>* d d'" "deployments_ok d"
  shows "length (filter (\<lambda>p. dp_gate p = g \<and> activeDeploymentPhase (dp_phase p)) (deployments d')) \<le> 1
    \<and> list_all (\<lambda>p. 0 \<le> dp_rollbackAttempts p \<and> dp_rollbackAttempts p \<le> 3) (deployments d')
    \<and> deployments_ok d'"
proof -
  have ok: "deployments_ok d'" by (rule deployment_ops_ok[OF assms])
  with one_active[OF ok] deployments_okD(2)[OF ok] show ?thesis by (simp add: list_all_iff)
qed

subsection \<open>What the controller believes\<close>

definition phase_of_deployment :: "db \<Rightarrow> uuid \<Rightarrow> deployment_phase option" where
  "phase_of_deployment d i = map_option dp_phase (deployment_of d i)"

lemma phase_update_deployment:
  assumes "\<And>r. dp_id (f r) = dp_id r" "\<And>r. dp_phase (f r) = p"
  shows "phase_of_deployment (update_deployment j P f d) i =
     (if i = j then map_option (\<lambda>q. if P q then p else q) (phase_of_deployment d i) else phase_of_deployment d i)"
proof (cases "deployment_of d i")
  case (Some r)
  then have "dp_id r = i" by (rule deployment_of_id)
  with Some assms show ?thesis
    by (cases "i = j") (simp_all add: phase_of_deployment_def deployment_of_update)
next
  case None
  then show ?thesis
    by (cases "i = j") (simp_all add: phase_of_deployment_def deployment_of_update assms(1))
qed

lemma phase_frame [simp]:
  "phase_of_deployment (insertDeploymentEvent i t x d) j = phase_of_deployment d j"
  "phase_of_deployment (insertRollbackJob e g i sha d) j = phase_of_deployment d j"
  by (simp_all add: phase_of_deployment_def deployment_of_def)

lemma phase_statements:
  "phase_of_deployment (markDeploymentSucceeded e j t d) i =
     (if i = j then map_option (\<lambda>q. if q \<in> {D_staging, D_verifying} then D_succeeded else q) (phase_of_deployment d i)
      else phase_of_deployment d i)"
  "phase_of_deployment (markDeploymentRolledBack e j c d) i =
     (if i = j then map_option (\<lambda>q. if q \<in> {D_staging, D_verifying, D_rollback_requested, D_rolling_back}
        then D_rolled_back else q) (phase_of_deployment d i) else phase_of_deployment d i)"
  "phase_of_deployment (markDeploymentFailed e j code m d) i =
     (if i = j then map_option (\<lambda>q. if \<not> finishedDeployment q then D_failed else q) (phase_of_deployment d i)
      else phase_of_deployment d i)"
  by (simp_all only: markDeploymentSucceeded_def markDeploymentRolledBack_def markDeploymentFailed_def phase_frame)
    (rule phase_update_deployment; simp)+

lemma rollback_phase:
  "phase_of_deployment (fst (requestDeploymentRollback e j by reason d)) i \<in>
     {phase_of_deployment d i, Some D_rollback_requested}"
proof (cases "snd (requestDeploymentRollback e j by reason d) = RB_queued")
  case True
  then have "phase_of_deployment (fst (requestDeploymentRollback e j by reason d)) i
      = phase_of_deployment (update_deployment j (\<lambda>_. True) (start_rollback e reason) d) i"
    by (auto simp: requestDeploymentRollback_def split: option.splits if_splits)
  then show ?thesis
    by (cases "i = j"; cases "phase_of_deployment d i")
      (simp_all add: phase_update_deployment[where p = D_rollback_requested])
next
  case False
  then have "fst (requestDeploymentRollback e j by reason d) = d"
    by (auto simp: requestDeploymentRollback_def split: option.splits if_splits)
  then show ?thesis by simp
qed

lemma retry_phase: "phase_of_deployment (fst (retryDeploymentRollback e j d)) i = phase_of_deployment d i"
proof -
  have "row_update dp_id (\<lambda>r. r\<lparr>dp_rollbackAttempts := dp_rollbackAttempts r + 1,
      dp_deadline := env_now e + seconds 300, dp_updated := env_now e\<rparr>)" by unfold_locales simp
  note upd = row_update.row_of_update[OF this]
  show ?thesis
    by (cases "row_of dp_id i (deployments d)")
      (auto simp: retryDeploymentRollback_def phase_of_deployment_def deployment_of_def upd split: option.split)
qed

text \<open>A row that justifies calling its deployment a success.\<close>

definition verified_row :: "deployment_reconcile \<Rightarrow> bool" where
  "verified_row row \<longleftrightarrow> installing (dr_phase row) \<and> targetObserved row \<and> selfTestsPassed row
     \<and> heartbeatAfterStage row \<and> dr_connected row
     \<and> readAssignmentRehydrateFailureCount (dr_capabilities row) = None"

lemma expired_phase:
  "phase_of_deployment (fst (expired_deployment e row s)) i = Some D_succeeded \<Longrightarrow>
   phase_of_deployment (fst s) i = Some D_succeeded"
  using rollback_phase[of e "dr_id row" "''system''" "''deployment_verification_timeout''" "fst s" i]
  by (auto simp: expired_deployment_def fail_deployment_def roll_back_def order_rollback_def phase_statements
      case_prod_beta retry_phase finishedDeployment_def Let_def
      split: if_splits rollback_result.splits)

lemma step_phase:
  assumes "phase_of_deployment (fst (reconcile_deployment e now row s)) i = Some D_succeeded"
  shows "phase_of_deployment (fst s) i = Some D_succeeded \<or> (dr_id row = i \<and> verified_row row)"
  using assms rollback_phase[of e "dr_id row" "''system''" "''assignment_rehydrate_failed''" "fst s" i]
    expired_phase[of e row s i]
  by (auto simp: reconcile_deployment_def verified_row_def fail_deployment_def roll_back_def order_rollback_def
      phase_statements case_prod_beta finishedDeployment_def Let_def
      split: if_splits rollback_result.splits)

lemma steps_phase:
  "phase_of_deployment (fst (fold (reconcile_deployment e now) rows s)) i = Some D_succeeded \<Longrightarrow>
   phase_of_deployment (fst s) i = Some D_succeeded \<or> (\<exists>row\<in>set rows. dr_id row = i \<and> verified_row row)"
proof (induction rows arbitrary: s)
  case (Cons row rows)
  from Cons.IH[of "reconcile_deployment e now row s"] Cons.prems step_phase[of e now row s i] show ?case by auto
qed simp

lemma in_reconcile_list:
  "row \<in> set (listDeploymentsForReconcile e d) \<Longrightarrow>
   \<exists>p r. p \<in> set (deployments d) \<and> r \<in> set (releases d) \<and> rl_id r = dp_release p \<and> row = reconcile_row e d p r"
  by (auto simp: listDeploymentsForReconcile_def split: if_splits)

lemma verified_row_facts:
  assumes "verified_row (reconcile_row e d p r)"
  shows "\<exists>status. gate_status_of d (dp_gate p) = Some status
    \<and> dp_phase p \<in> {D_staging, D_verifying}
    \<and> gs_artifactSha256 status = Some (rl_sha256 r)
    \<and> {''agent-artifact-self-test:passed'', ''doublezero-recovery:v1'', ''assignment-rehydrate:passed''}
        \<subseteq> set (gs_capabilities status)
    \<and> (\<exists>seen. gs_lastSeen status = Some seen \<and> (case dp_stagedAt p of None \<Rightarrow> True | Some staged \<Rightarrow> staged \<le> seen))
    \<and> condition_true d (dp_gate p) ''AgentConnected'' \<and> fresh_gate_lease e d (dp_gate p)"
proof (cases "gate_status_of d (dp_gate p)")
  case None
  with assms show ?thesis by (simp add: verified_row_def reconcile_row_def targetObserved_def Let_def)
next
  case (Some status)
  with assms show ?thesis
    by (simp add: verified_row_def reconcile_row_def targetObserved_def selfTestsPassed_def heartbeatAfterStage_def
        installing_def Let_def split: option.splits)
qed

text \<open>
  A controller pass calls a deployment a success only when the gate itself says so: the gate
  is connected, its heartbeat since the artifact was staged reports the artifact of the release,
  and the agent's self test, the recovery test and the restoration of assignments have passed.
\<close>

lemma deployment_verified:
  assumes "distinct (map dp_id (deployments d))" "deployment_of d i = Some p" "dp_phase p \<noteq> D_succeeded"
    and "phase_of_deployment (fst (reconcileGateAgentDeployments e now d)) i = Some D_succeeded"
  shows "\<exists>release\<in>set (releases d). \<exists>status. rl_id release = dp_release p
    \<and> gate_status_of d (dp_gate p) = Some status
    \<and> dp_phase p \<in> {D_staging, D_verifying}
    \<and> gs_artifactSha256 status = Some (rl_sha256 release)
    \<and> {''agent-artifact-self-test:passed'', ''doublezero-recovery:v1'', ''assignment-rehydrate:passed''}
        \<subseteq> set (gs_capabilities status)
    \<and> (\<exists>seen. gs_lastSeen status = Some seen \<and> (case dp_stagedAt p of None \<Rightarrow> True | Some staged \<Rightarrow> staged \<le> seen))
    \<and> condition_true d (dp_gate p) ''AgentConnected'' \<and> fresh_gate_lease e d (dp_gate p)"
proof -
  have "phase_of_deployment d i \<noteq> Some D_succeeded" using assms(2,3) by (simp add: phase_of_deployment_def)
  then obtain row where row: "row \<in> set (listDeploymentsForReconcile e d)" "dr_id row = i" "verified_row row"
    using steps_phase[of e now "listDeploymentsForReconcile e d"] assms(4)
    unfolding reconcileGateAgentDeployments_def by fastforce
  from in_reconcile_list[OF row(1)] obtain q r where q: "q \<in> set (deployments d)" "r \<in> set (releases d)"
    "rl_id r = dp_release q" "row = reconcile_row e d q r" by (elim exE conjE)
  have "dp_id q = i" using row(2) q(4) by (simp add: reconcile_row_def Let_def)
  then have "deployment_of d i = Some q" using row_of_unique[OF assms(1) q(1)] by (simp add: deployment_of_def)
  with assms(2) have "q = p" by simp
  with verified_row_facts[OF row(3)[unfolded q(4)]] q(2,3) show ?thesis by blast
qed

text \<open>
  A job report moves an unfinished deployment of its payload and nothing else: a success of
  the deployment job to \<open>verifying\<close>, a success of the rollback job to \<open>rolling_back\<close>, a final
  failure of either to \<open>failed\<close>; a failure that will be retried changes nothing.  The direction of
  the deployment is not looked at, so a late success of the deployment job moves a deployment
  whose rollback was requested back to \<open>verifying\<close> and clears the reason of the rollback.
\<close>

lemma deployment_report_effect:
  assumes "deployment_of d i = Some p"
  shows "phase_of_deployment (markDeploymentJobReported e i jobType succeeded terminal errorCode summary d) i = Some
      (if finishedDeployment (dp_phase p) \<or> \<not> succeeded \<and> \<not> terminal then dp_phase p
       else if \<not> succeeded then D_failed
       else if jobType = JT_deploy_agent then D_verifying else D_rolling_back)
    \<and> (\<forall>j. j \<noteq> i \<longrightarrow> deployment_of (markDeploymentJobReported e i jobType succeeded terminal errorCode summary d) j
           = deployment_of d j)
    \<and> (dp_phase p = D_rollback_requested \<and> succeeded \<and> jobType = JT_deploy_agent \<longrightarrow>
         (\<exists>q. deployment_of (markDeploymentJobReported e i jobType succeeded terminal errorCode summary d) i = Some q
            \<and> dp_phase q = D_verifying \<and> dp_failureCode q = None \<and> dp_rollbackAttempts q = dp_rollbackAttempts p))"
proof -
  let ?f = "apply_report e (reported_phase jobType succeeded) errorCode summary"
  have id: "dp_id (?f r) = dp_id r" for r by (simp add: apply_report_def)
  have frame: "deployment_of (insertDeploymentEvent k t x c) j = deployment_of c j" for k t x c j
    by (simp add: deployment_of_def)
  have ev: "deployment_of (markDeploymentJobReported e i jobType succeeded terminal errorCode summary d) j =
      (if \<not> succeeded \<and> \<not> terminal then deployment_of d j
       else map_option (\<lambda>r. if dp_id r = i \<and> \<not> finishedDeployment (dp_phase r) then ?f r else r) (deployment_of d j))" for j
    unfolding markDeploymentJobReported_def
    by (cases "\<not> succeeded \<and> \<not> terminal") (simp_all only: not_False_eq_True simp_thms if_True if_False frame deployment_of_update id)
  have other: "deployment_of (markDeploymentJobReported e i jobType succeeded terminal errorCode summary d) j
      = deployment_of d j" if "j \<noteq> i" for j
  proof (cases "deployment_of d j")
    case (Some r)
    then have "dp_id r = j" by (rule deployment_of_id)
    with Some that show ?thesis by (simp add: ev)
  qed (simp add: ev)
  have "dp_id p = i" by (rule deployment_of_id[OF assms])
  then have this_one: "deployment_of (markDeploymentJobReported e i jobType succeeded terminal errorCode summary d) i =
      Some (if \<not> succeeded \<and> \<not> terminal \<or> finishedDeployment (dp_phase p) then p else ?f p)"
    unfolding ev assms by simp
  show ?thesis
    unfolding phase_of_deployment_def this_one
    using other by (simp add: apply_report_def reported_phase_def finishedDeployment_def)
qed

definition rollout_db :: db where
  "rollout_db = gates_db\<lparr>
     releases := [\<lparr>rl_id = ''r1'', rl_version = ''1.2'', rl_revision = ''abc'', rl_builtAt = 0, rl_sha256 = ''aa'',
       rl_createdBy = ''op'', rl_created = 0\<rparr>],
     gate_status := map (\<lambda>s. s\<lparr>gs_capabilities := [''control-plane-agent-rollout:v1''], gs_artifactSha256 := Some ''old''\<rparr>)
       (gate_status gates_db)\<rparr>"

definition deploying_db :: db where
  "deploying_db = fst (insertGateAgentDeployment sample_env ''g1'' ''r1'' ''op'' rollout_db)"

theorem one_deployment_per_gate_witness:
  "length (filter (\<lambda>p. dp_gate p = ''g1'' \<and> activeDeploymentPhase (dp_phase p)) (deployments deploying_db)) = 1
   \<and> deployments_ok deploying_db"
proof -
  have "deployment_op rollout_db deploying_db"
    unfolding deploying_db_def by (rule deployment_op.requested) code_simp
  then have "deployment_op\<^sup>*\<^sup>* rollout_db deploying_db" by (rule r_into_rtranclp)
  moreover have "deployments_ok rollout_db" by code_simp
  moreover have "length (filter (\<lambda>p. dp_gate p = ''g1'' \<and> activeDeploymentPhase (dp_phase p)) (deployments deploying_db)) = 1"
    by code_simp
  ultimately show ?thesis
    using one_deployment_per_gate[of rollout_db deploying_db "''g1''"] by blast
qed

lemma deployment_report_effect_witness:
  "phase_of_deployment (markDeploymentJobReported sample_env ''u0'' JT_deploy_agent True False [] [] deploying_db) ''u0''
     = Some D_verifying"
proof -
  have "map_option dp_phase (deployment_of deploying_db ''u0'') = Some D_queued" by code_simp
  then obtain p where p: "deployment_of deploying_db ''u0'' = Some p" "dp_phase p = D_queued" by auto
  show ?thesis
    using deployment_report_effect[OF p(1), of sample_env JT_deploy_agent True False "[]" "[]"] p(2)
    by (simp add: finishedDeployment_def)
qed

definition verifying_db :: db where
  "verifying_db = (let d = markDeploymentJobReported sample_env ''u0'' JT_deploy_agent True False [] [] deploying_db in
     d\<lparr>gate_status := map (\<lambda>s. s\<lparr>gs_artifactSha256 := Some ''aa'', gs_lastSeen := Some (env_now sample_env),
         gs_capabilities := [''agent-artifact-self-test:passed'', ''doublezero-recovery:v1'',
           ''assignment-rehydrate:passed'']\<rparr>) (gate_status d)\<rparr>)"

lemma deployment_verified_witness:
  "phase_of_deployment (fst (reconcileGateAgentDeployments sample_env 0 verifying_db)) ''u0'' = Some D_succeeded
   \<and> (\<exists>status. gate_status_of verifying_db ''g1'' = Some status \<and> gs_artifactSha256 status = Some ''aa'')"
proof -
  have d: "distinct (map dp_id (deployments verifying_db))" by code_simp
  have s: "phase_of_deployment (fst (reconcileGateAgentDeployments sample_env 0 verifying_db)) ''u0'' = Some D_succeeded"
    by code_simp
  have "map_option (\<lambda>p. (dp_phase p, dp_gate p)) (deployment_of verifying_db ''u0'') = Some (D_verifying, ''g1'')"
    by code_simp
  then obtain p where p: "deployment_of verifying_db ''u0'' = Some p" "dp_phase p = D_verifying" "dp_gate p = ''g1''"
    by auto
  have "releases verifying_db = releases rollout_db" by code_simp
  with deployment_verified[OF d p(1) _ s] s p show ?thesis by (auto simp: rollout_db_def)
qed

end
