(* ===== verification/Jobs.thy ===== *)
theory Jobs
  imports Deployments
begin

section \<open>Jobs\<close>

text \<open>
  \<open>resources/jobs\<close>: the queue through which the control plane drives the gates.  A gate's agent
  claims a job (a lease of sixty seconds and a numbered attempt), executes it and reports; the
  report moves the job, the assignment it is for or the deployment it is for.  The connection is
  the core database (\<open>probeStore\<close> is null).  Foreign keys are not checked.
\<close>

subsection \<open>Data (\<open>repository.ts\<close>)\<close>

datatype job_lane = Lane_control | Lane_probe

record claimed_job =
  cj_id :: uuid
  cj_type :: job_type
  cj_payload :: js_record
  cj_session :: "uuid option"
  cj_assignment :: "uuid option"
  cj_attemptNumber :: int

datatype apply_operation = Op_prepare | Op_commit

definition operation_text :: "apply_operation \<Rightarrow> string" where
  "operation_text x = (case x of Op_prepare \<Rightarrow> ''prepare'' | Op_commit \<Rightarrow> ''commit'')"

definition role_text :: "gate_role \<Rightarrow> string" where
  "role_text r = (case r of Ingress \<Rightarrow> ''Ingress'' | Egress \<Rightarrow> ''Egress'')"

record apply_job_input =
  aj_assignment :: uuid
  aj_gate :: uuid
  aj_session :: uuid
  aj_operation :: apply_operation
  aj_role :: gate_role
  aj_plan :: "js_record option"
  aj_networkPlan :: "js_record option"

record job_report =
  jr_status :: report_status
  jr_actualStateHash :: string
  jr_errorCode :: string
  jr_resultSummary :: js_record

subsection \<open>Claiming (\<open>repository.ts\<close>, \<open>client-tunnel-secret.ts\<close>, \<open>leasing.ts\<close>)\<close>

definition in_lane :: "job_lane option \<Rightarrow> job_type \<Rightarrow> bool" where
  "in_lane lane jt = (case lane of None \<Rightarrow> True | Some Lane_probe \<Rightarrow> jt = JT_probe
     | Some Lane_control \<Rightarrow> jt \<noteq> JT_probe)"

definition claimable :: "env \<Rightarrow> uuid \<Rightarrow> job_lane option \<Rightarrow> job_row \<Rightarrow> bool" where
  "claimable e gateId lane j \<longleftrightarrow> jb_gate j = Some gateId \<and> jb_phase j \<in> {J_queued, J_retryable_failed}
     \<and> jb_runAfter j \<le> env_now e
     \<and> (case jb_leaseExpires j of None \<Rightarrow> True | Some t \<Rightarrow> t < env_now e) \<and> in_lane lane (jb_type j)"

definition findClaimableGateJobForUpdate :: "env \<Rightarrow> uuid \<Rightarrow> job_lane option \<Rightarrow> db \<Rightarrow> job_row option" where
  "findClaimableGateJobForUpdate e gateId lane d =
     (case sort_key jb_created (filter (claimable e gateId lane) (jobs d)) of [] \<Rightarrow> None | j # _ \<Rightarrow> Some j)"

definition nextJobAttemptNumber :: "db \<Rightarrow> uuid \<Rightarrow> int" where
  "nextJobAttemptNumber d jobId =
     (case map at_number (filter (\<lambda>a. at_job a = jobId) (job_attempts d)) of
        [] \<Rightarrow> 0 | n # ns \<Rightarrow> foldr max ns n) + 1"

definition update_job :: "(job_row \<Rightarrow> bool) \<Rightarrow> (job_row \<Rightarrow> job_row) \<Rightarrow> db \<Rightarrow> db" where
  "update_job P f d = d\<lparr>jobs := update_where P f (jobs d)\<rparr>"

definition updateJobLease :: "env \<Rightarrow> uuid \<Rightarrow> job_phase \<Rightarrow> string \<Rightarrow> int \<Rightarrow> db \<Rightarrow> db" where
  "updateJobLease e jobId p leaseOwner leaseSeconds =
     update_job (\<lambda>j. jb_id j = jobId) (\<lambda>j. j\<lparr>jb_phase := p, jb_leaseOwner := Some leaseOwner,
       jb_leaseExpires := Some (env_now e + seconds leaseSeconds), jb_updated := env_now e\<rparr>)"

definition insertJobAttemptLease :: "env \<Rightarrow> uuid \<Rightarrow> int \<Rightarrow> string \<Rightarrow> int \<Rightarrow> db \<Rightarrow> db" where
  "insertJobAttemptLease e jobId attemptNumber leaseOwner leaseSeconds d =
     d\<lparr>job_attempts := job_attempts d @ [\<lparr>at_job = jobId, at_number = attemptNumber, at_owner = leaseOwner,
        at_leaseExpires = env_now e + seconds leaseSeconds, at_completed = None, at_result = None,
        at_error = None, at_hash = None\<rparr>]\<rparr>"

definition selectRenderedPlanSecret :: "db \<Rightarrow> uuid \<Rightarrow> encrypted option" where
  "selectRenderedPlanSecret d planId = map_option snd (find (\<lambda>s. fst s = planId) (plan_secrets d))"

text \<open>
  The obfuscation key is added to the response of an ingress job only; \<open>keyed\<close> says whether the
  server has an encryption key.
\<close>

definition withClientTunnelSecret :: "env \<Rightarrow> bool \<Rightarrow> job_row \<Rightarrow> db \<Rightarrow> string + js_record" where
  "withClientTunnelSecret e keyed j d =
     (let payload = jb_payload j in
      if jb_type j \<noteq> JT_apply_assignment \<or> js_prop payload ''role'' \<noteq> Some (JStr ''Ingress'') then Inr payload
      else (let plan = js_prop payload (if js_prop payload ''operation'' = Some (JStr ''prepare'')
                                        then ''plan'' else ''networkPlan'');
                material = json_get plan ''publicMaterial''
            in case readClientTunnel (json_get material ''clientTunnel'') of
                 Inl err \<Rightarrow> Inl err
               | Inr TunnelWireGuard \<Rightarrow> Inr payload
               | Inr tunnel \<Rightarrow>
                   (case json_get plan ''planId'' of
                      Some (JStr planId) \<Rightarrow>
                        if \<not> keyed then Inl ''AmneziaWG secret delivery is not configured''
                        else (case selectRenderedPlanSecret d planId of
                            None \<Rightarrow> Inl ''missing AmneziaWG plan secret''
                          | Some cipher \<Rightarrow>
                              (case validateHeaderProtectionKey (env_keyFingerprint e) (env_reencode e) tunnel
                                      (js_prop (env_decrypt e cipher) ''headerProtectionKey'') of
                                 Inl err \<Rightarrow> Inl err
                               | Inr key \<Rightarrow> Inr (js_put payload ''clientTunnelSecret''
                                   (JObj [(''headerProtectionKey'', JStr key)]))))
                    | _ \<Rightarrow> Inl ''AmneziaWG secret delivery is not configured'')))"

definition claimGateJob ::
    "env \<Rightarrow> uuid \<Rightarrow> string \<Rightarrow> job_lane option \<Rightarrow> bool \<Rightarrow> db \<Rightarrow> string + db \<times> claimed_job option" where
  "claimGateJob e gateId gateName lane keyed d =
     (case findClaimableGateJobForUpdate e gateId lane d of
        None \<Rightarrow> Inr (d, None)
      | Some job \<Rightarrow>
          (case withClientTunnelSecret e keyed job d of
             Inl err \<Rightarrow> Inl err
           | Inr payload \<Rightarrow>
               (let attemptNumber = nextJobAttemptNumber d (jb_id job);
                    d1 = updateJobLease e (jb_id job) (fst claimJobTransition) gateName (snd claimJobTransition) d;
                    d2 = insertJobAttemptLease e (jb_id job) attemptNumber gateName (snd claimJobTransition) d1;
                    claim = \<lparr>cj_id = jb_id job, cj_type = jb_type job, cj_payload = payload,
                      cj_session = jb_session job, cj_assignment = jb_assignment job,
                      cj_attemptNumber = attemptNumber\<rparr>
                in case jb_assignment job of
                     None \<Rightarrow> Inr (d2, Some claim)
                   | Some assignmentId \<Rightarrow>
                       (case findAssignmentPhaseForUpdate d2 assignmentId of
                          None \<Rightarrow> Inl (''job '' @ jb_id job @ '' references missing assignment '' @ assignmentId)
                        | Some p \<Rightarrow> Inr (updateAssignmentPhase e assignmentId
                            (leasedAssignmentTransition (jb_type job) p) d2, Some claim)))))"

subsection \<open>Reports (\<open>repository.ts\<close>, \<open>attempts.ts\<close>)\<close>

definition findJobForReportForUpdate :: "db \<Rightarrow> uuid \<Rightarrow> uuid \<Rightarrow> job_row option" where
  "findJobForReportForUpdate d gateId jobId = find (\<lambda>j. jb_id j = jobId \<and> jb_gate j = Some gateId) (jobs d)"

definition recordJobReportOutcome ::
    "env \<Rightarrow> uuid \<Rightarrow> job_phase \<Rightarrow> int option \<Rightarrow> string \<Rightarrow> string \<Rightarrow> js_record \<Rightarrow> db \<Rightarrow> db" where
  "recordJobReportOutcome e jobId nextPhase retryDelaySeconds hash errorCode resultSummary d =
     (let d1 = update_job (\<lambda>j. jb_id j = jobId) (\<lambda>j. j\<lparr>jb_phase := nextPhase,
            jb_retryCount := (if nextPhase = J_retryable_failed then jb_retryCount j + 1 else jb_retryCount j),
            jb_leaseExpires := None,
            jb_runAfter := (case retryDelaySeconds of None \<Rightarrow> env_now e | Some n \<Rightarrow> env_now e + seconds n),
            jb_updated := env_now e\<rparr>) d
      in d1\<lparr>job_attempts := update_where (\<lambda>a. at_job a = jobId \<and> at_completed a = None)
             (\<lambda>a. a\<lparr>at_completed := Some (env_now e), at_result := Some resultSummary,
                at_error := or_null errorCode, at_hash := or_null hash\<rparr>) (job_attempts d1)\<rparr>)"

definition without_samples :: "json \<Rightarrow> json" where
  "without_samples v = (case v of JObj fs \<Rightarrow> JObj (filter (\<lambda>f. fst f \<noteq> ''samples'') fs) | _ \<Rightarrow> v)"

definition compactAttemptResultSummary :: "job_type \<Rightarrow> js_record \<Rightarrow> js_record \<Rightarrow> js_record" where
  "compactAttemptResultSummary jobType payload resultSummary =
     (if jobType \<noteq> JT_probe \<or> readString payload ''kind'' \<noteq> ''gate_benchmark_v1'' then resultSummary
      else (case js_prop resultSummary ''results'' of
          Some (JArr results) \<Rightarrow> js_put resultSummary ''results'' (JArr (map without_samples results))
        | _ \<Rightarrow> resultSummary))"

definition recordAssignmentProgress ::
    "env \<Rightarrow> uuid \<Rightarrow> job_type \<Rightarrow> job_report \<Rightarrow> bool \<Rightarrow> db \<Rightarrow> db" where
  "recordAssignmentProgress e assignmentId jobType report terminalFailure d =
     (let i = \<lparr>rp_assignmentId = assignmentId, rp_actualStateHash = jr_actualStateHash report,
               rp_errorCode = jr_errorCode report, rp_resultSummary = jr_resultSummary report\<rparr> in
      if jr_status report = RS_succeeded \<and> jobType = JT_apply_assignment
      then (if or_else (readString (jr_resultSummary report) ''operation'') ''commit'' = ''prepare''
            then markAssignmentPreparedFromReport e i preparedFromReportTransition
                   (asRecord (js_prop (jr_resultSummary report) ''material'')) d
            else markAssignmentAppliedFromReport e i appliedFromReportTransition d)
      else if jr_status report = RS_succeeded \<and> jobType = JT_revoke_assignment
      then markAssignmentRevokedFromReport e i revokedFromReportTransition d
      else markAssignmentFailedFromReport e assignmentId (failedFromReportTransition terminalFailure)
             (jr_errorCode report) (jr_resultSummary report) d)"

text \<open>
  The measurements of a probe job go to tables (or to an outbox) outside the model:
  \<open>me_outbox\<close> says whether a measurement store is configured, \<open>me_benchmark\<close> is the error
  \<open>recordGateBenchmarkJobReport\<close> ends with, when it does; the transaction is then rolled back.
\<close>

record measurements =
  me_outbox :: bool
  me_benchmark :: "uuid \<Rightarrow> js_record \<Rightarrow> js_record \<Rightarrow> string option"

definition persisted_summary :: "measurements \<Rightarrow> job_row \<Rightarrow> job_report \<Rightarrow> js_record" where
  "persisted_summary m row report =
     (if me_outbox m \<and> jb_type row = JT_probe \<and> js_prop (jb_payload row) ''kind'' = Some (JStr ''gate_benchmark_v1'')
      then [(''kind'', JStr ''gate_benchmark_v1''), (''delivery'', JStr ''outbox'')]
      else compactAttemptResultSummary (jb_type row) (jb_payload row) (jr_resultSummary report))"

definition report_assignment :: "env \<Rightarrow> job_row \<Rightarrow> job_report \<Rightarrow> bool \<Rightarrow> db \<Rightarrow> db" where
  "report_assignment e row report terminalFailure d = (case jb_assignment row of
       None \<Rightarrow> d
     | Some a \<Rightarrow> recordAssignmentProgress e a (jb_type row) report terminalFailure d)"

definition report_deployment :: "env \<Rightarrow> job_row \<Rightarrow> job_report \<Rightarrow> bool \<Rightarrow> db \<Rightarrow> db" where
  "report_deployment e row report terminalFailure d =
     (if jb_type row \<in> {JT_deploy_agent, JT_rollback_agent} \<and> readString (jb_payload row) ''deploymentId'' \<noteq> []
      then markDeploymentJobReported e (readString (jb_payload row) ''deploymentId'') (jb_type row)
             (jr_status report = RS_succeeded) terminalFailure (jr_errorCode report) (jr_resultSummary report) d
      else d)"

definition recordGateJobReport ::
    "env \<Rightarrow> measurements \<Rightarrow> uuid \<Rightarrow> uuid \<Rightarrow> job_report \<Rightarrow> db \<Rightarrow> string + db \<times> bool" where
  "recordGateJobReport e m gateId jobId report d =
     (case findJobForReportForUpdate d gateId jobId of
        None \<Rightarrow> Inr (d, False)
      | Some row \<Rightarrow>
          (let t = resolveReportedJobTransition (jr_status report) (jb_retryCount row) (jb_maxRetries row);
               d1 = recordJobReportOutcome e (jb_id row) (rt_nextPhase t) (rt_retryDelaySeconds t)
                      (jr_actualStateHash report) (jr_errorCode report) (persisted_summary m row report) d;
               d2 = report_assignment e row report (rt_terminalFailure t) d1
           in case (if jb_type row = JT_probe
                    then me_benchmark m (jb_id row) (jb_payload row) (jr_resultSummary report) else None) of
                Some err \<Rightarrow> Inl err
              | None \<Rightarrow> Inr (report_deployment e row report (rt_terminalFailure t) d2, True)))"

subsection \<open>Enqueuing (\<open>repository.ts\<close>, \<open>service.ts\<close>)\<close>

definition apply_payload :: "apply_job_input \<Rightarrow> js_record" where
  "apply_payload i = [(''assignmentId'', JStr (aj_assignment i)), (''operation'', JStr (operation_text (aj_operation i))),
       (''role'', JStr (role_text (aj_role i)))]
     @ (case aj_plan i of None \<Rightarrow> [] | Some p \<Rightarrow> [(''plan'', JObj p)])
     @ (case aj_networkPlan i of None \<Rightarrow> [] | Some p \<Rightarrow> [(''networkPlan'', JObj p)])"

definition apply_job_for :: "uuid \<Rightarrow> apply_operation \<Rightarrow> job_row \<Rightarrow> bool" where
  "apply_job_for a x j \<longleftrightarrow> jb_assignment j = Some a \<and> jb_type j = JT_apply_assignment
     \<and> sql_text (js_prop (jb_payload j) ''operation'') = Some (operation_text x)"

text \<open>\<open>COALESCE(payload->'plan'->>'planId', payload->'networkPlan'->>'planId')\<close>.\<close>

definition job_plan :: "job_row \<Rightarrow> string option" where
  "job_plan j = (case sql_text (json_get (js_prop (jb_payload j) ''plan'') ''planId'') of
      Some p \<Rightarrow> Some p
    | None \<Rightarrow> sql_text (json_get (js_prop (jb_payload j) ''networkPlan'') ''planId''))"

definition insert_job ::
    "env \<Rightarrow> job_type \<Rightarrow> job_phase \<Rightarrow> uuid \<Rightarrow> uuid \<Rightarrow> uuid \<Rightarrow> js_record \<Rightarrow> db \<Rightarrow> db" where
  "insert_job e jt p gateId sessionId assignmentId payload d =
     (let (newId, d1) = gen_uuid e d in
      d1\<lparr>jobs := jobs d1 @ [(new_job_row e newId jt p (Some gateId) payload 5)
         \<lparr>jb_session := Some sessionId, jb_assignment := Some assignmentId\<rparr>]\<rparr>)"

definition insertApplyAssignmentJob :: "env \<Rightarrow> apply_job_input \<Rightarrow> job_phase \<Rightarrow> db \<Rightarrow> db" where
  "insertApplyAssignmentJob e i p d =
     (if list_ex (\<lambda>j. apply_job_for (aj_assignment i) (aj_operation i) j \<and> unfinishedJob (jb_phase j)) (jobs d)
       \<or> list_ex (\<lambda>j. apply_job_for (aj_assignment i) (aj_operation i) j \<and> jb_phase j = J_succeeded
            \<and> list_ex (\<lambda>a. ga_id a = aj_assignment i \<and> job_plan j = Some (ga_plan a)) (gate_assignments d)
            \<and> list_ex (\<lambda>st. as_assignment st = aj_assignment i
                 \<and> as_phase st \<in> {A_queued, A_leased, A_applying, A_prepared, A_applied}) (assignment_status d)) (jobs d)
      then d
      else insert_job e JT_apply_assignment p (aj_gate i) (aj_session i) (aj_assignment i) (apply_payload i) d)"

definition revoke_job_for :: "uuid \<Rightarrow> job_row \<Rightarrow> bool" where
  "revoke_job_for a j \<longleftrightarrow> jb_assignment j = Some a \<and> jb_type j = JT_revoke_assignment"

definition insertRevokeAssignmentJob :: "env \<Rightarrow> revocable_assignment \<Rightarrow> job_phase \<Rightarrow> db \<Rightarrow> db" where
  "insertRevokeAssignmentJob e i p d =
     (if list_ex (\<lambda>j. revoke_job_for (ra_assignmentId i) j \<and> unfinishedJob (jb_phase j)) (jobs d)
       \<or> list_ex (\<lambda>j. revoke_job_for (ra_assignmentId i) j \<and> jb_phase j = J_succeeded
            \<and> list_ex (\<lambda>a. ga_id a = ra_assignmentId i \<and> jb_created j \<ge> ga_updated a) (gate_assignments d)) (jobs d)
      then d
      else insert_job e JT_revoke_assignment p (ra_gateId i) (ra_sessionId i) (ra_assignmentId i)
             [(''assignmentId'', JStr (ra_assignmentId i)), (''role'', JStr (role_text (ra_role i)))] d)"

definition markApplyJobsPhaseForSession :: "env \<Rightarrow> uuid \<Rightarrow> job_phase \<Rightarrow> job_phase list \<Rightarrow> db \<Rightarrow> db" where
  "markApplyJobsPhaseForSession e sessionId nextPhase candidatePhases =
     update_job (\<lambda>j. jb_session j = Some sessionId \<and> jb_type j = JT_apply_assignment \<and> jb_phase j \<in> set candidatePhases)
       (\<lambda>j. j\<lparr>jb_phase := nextPhase, jb_leaseOwner := None, jb_leaseExpires := None, jb_updated := env_now e\<rparr>)"

definition updateExpiredJobLeasePhases :: "env \<Rightarrow> job_phase \<Rightarrow> job_phase list \<Rightarrow> db \<Rightarrow> db" where
  "updateExpiredJobLeasePhases e nextPhase candidatePhases =
     update_job (\<lambda>j. jb_phase j \<in> set candidatePhases
         \<and> (case jb_leaseExpires j of None \<Rightarrow> False | Some t \<Rightarrow> t < env_now e))
       (\<lambda>j. j\<lparr>jb_phase := nextPhase, jb_leaseOwner := None, jb_leaseExpires := None, jb_updated := env_now e\<rparr>)"

record reconcile_job_input =
  rj_gate :: string
  rj_session :: string
  rj_requestedBy :: string
  rj_reason :: string

definition insertReconcileJob :: "env \<Rightarrow> reconcile_job_input \<Rightarrow> job_phase \<Rightarrow> db \<Rightarrow> db \<times> uuid" where
  "insertReconcileJob e i p d =
     (let (newId, d1) = gen_uuid e d in
      (d1\<lparr>jobs := jobs d1 @ [(new_job_row e newId JT_reconcile p (or_null (rj_gate i))
           ((''requestedBy'', JStr (rj_requestedBy i))
            # (if rj_reason i = [] then [] else [(''reason'', JStr (rj_reason i))])) 5)
         \<lparr>jb_session := or_null (rj_session i)\<rparr>]\<rparr>, newId))"

definition enqueueApplyJob :: "env \<Rightarrow> apply_job_input \<Rightarrow> db \<Rightarrow> db" where
  "enqueueApplyJob e i = insertApplyAssignmentJob e i queuedJobTransition"

definition enqueueRevokeAssignmentJob :: "env \<Rightarrow> revocable_assignment \<Rightarrow> db \<Rightarrow> db" where
  "enqueueRevokeAssignmentJob e assignment = insertRevokeAssignmentJob e assignment queuedJobTransition"

definition enqueueReconcileJob :: "env \<Rightarrow> reconcile_job_input \<Rightarrow> db \<Rightarrow> db \<times> uuid" where
  "enqueueReconcileJob e i = insertReconcileJob e i queuedJobTransition"

definition markApplyJobsDeadForSession :: "env \<Rightarrow> uuid \<Rightarrow> db \<Rightarrow> db" where
  "markApplyJobsDeadForSession e sessionId =
     markApplyJobsPhaseForSession e sessionId (deadForSessionFailureTransition J_queued)
       sessionFailureDeadCandidateJobPhases"

definition requeueExpiredJobLeases :: "env \<Rightarrow> db \<Rightarrow> db" where
  "requeueExpiredJobLeases e = updateExpiredJobLeasePhases e (expiredLeaseTransition J_leased)
     expiredLeaseCandidateJobPhases"

subsection \<open>Reading the queue back\<close>

lemma job_of_update:
  assumes "\<And>r. jb_id (f r) = jb_id r"
  shows "job_of (update_job P f d) i = map_option (\<lambda>r. if P r then f r else r) (job_of d i)"
proof -
  have "row_update jb_id f" using assms by unfold_locales
  from row_update.row_of_update[OF this] show ?thesis by (simp add: job_of_def update_job_def)
qed

lemma update_job_frame [simp]:
  "jobs (update_job P f d) = update_where P f (jobs d)"
  "job_attempts (update_job P f d) = job_attempts d"
  "uuid_next (update_job P f d) = uuid_next d"
  "gate_assignments (update_job P f d) = gate_assignments d"
  "assignment_status (update_job P f d) = assignment_status d"
  "sessions (update_job P f d) = sessions d"
  "session_status (update_job P f d) = session_status d"
  by (simp_all add: update_job_def)

lemma attempt_lease_frame [simp]:
  "jobs (insertJobAttemptLease e j n w k d) = jobs d"
  "uuid_next (insertJobAttemptLease e j n w k d) = uuid_next d"
  "gate_assignments (insertJobAttemptLease e j n w k d) = gate_assignments d"
  "assignment_status (insertJobAttemptLease e j n w k d) = assignment_status d"
  by (simp_all add: insertJobAttemptLease_def)

lemma updateAssignmentPhase_frame [simp]:
  "jobs (updateAssignmentPhase e a p d) = jobs d"
  "job_attempts (updateAssignmentPhase e a p d) = job_attempts d"
  "uuid_next (updateAssignmentPhase e a p d) = uuid_next d"
  by (simp_all add: updateAssignmentPhase_def)

lemma progress_frame [simp]:
  "jobs (recordAssignmentProgress e a t r x d) = jobs d"
  "job_attempts (recordAssignmentProgress e a t r x d) = job_attempts d"
  "uuid_next (recordAssignmentProgress e a t r x d) = uuid_next d"
  "gate_assignments (recordAssignmentProgress e a t r x d) = gate_assignments d"
  "sessions (recordAssignmentProgress e a t r x d) = sessions d"
  "session_status (recordAssignmentProgress e a t r x d) = session_status d"
  by (simp_all add: recordAssignmentProgress_def markAssignmentPreparedFromReport_def
      markAssignmentAppliedFromReport_def markAssignmentRevokedFromReport_def
      markAssignmentFailedFromReport_def Let_def split: option.split)

lemma deployment_report_frame [simp]:
  "jobs (markDeploymentJobReported e i t s x c y d) = jobs d"
  "job_attempts (markDeploymentJobReported e i t s x c y d) = job_attempts d"
  "uuid_next (markDeploymentJobReported e i t s x c y d) = uuid_next d"
  "gate_assignments (markDeploymentJobReported e i t s x c y d) = gate_assignments d"
  "assignment_status (markDeploymentJobReported e i t s x c y d) = assignment_status d"
  "sessions (markDeploymentJobReported e i t s x c y d) = sessions d"
  "session_status (markDeploymentJobReported e i t s x c y d) = session_status d"
  by (simp_all add: markDeploymentJobReported_def insertDeploymentEvent_def update_deployment_def)

lemma report_parts_frame [simp]:
  "jobs (report_assignment e row r x d) = jobs d"
  "job_attempts (report_assignment e row r x d) = job_attempts d"
  "uuid_next (report_assignment e row r x d) = uuid_next d"
  "gate_assignments (report_assignment e row r x d) = gate_assignments d"
  "sessions (report_assignment e row r x d) = sessions d"
  "session_status (report_assignment e row r x d) = session_status d"
  "jobs (report_deployment e row r x d) = jobs d"
  "job_attempts (report_deployment e row r x d) = job_attempts d"
  "uuid_next (report_deployment e row r x d) = uuid_next d"
  "gate_assignments (report_deployment e row r x d) = gate_assignments d"
  "assignment_status (report_deployment e row r x d) = assignment_status d"
  "sessions (report_deployment e row r x d) = sessions d"
  "session_status (report_deployment e row r x d) = session_status d"
  by (simp_all add: report_assignment_def report_deployment_def split: option.split)

lemma report_outcome_frame [simp]:
  "uuid_next (recordJobReportOutcome e j p n h c y d) = uuid_next d"
  "gate_assignments (recordJobReportOutcome e j p n h c y d) = gate_assignments d"
  "assignment_status (recordJobReportOutcome e j p n h c y d) = assignment_status d"
  "sessions (recordJobReportOutcome e j p n h c y d) = sessions d"
  "session_status (recordJobReportOutcome e j p n h c y d) = session_status d"
  by (simp_all add: recordJobReportOutcome_def)

text \<open>The row of a job after a report about it.\<close>

definition reported_job :: "env \<Rightarrow> report_status \<Rightarrow> job_row \<Rightarrow> job_row" where
  "reported_job e status j = (let t = resolveReportedJobTransition status (jb_retryCount j) (jb_maxRetries j) in
     j\<lparr>jb_phase := rt_nextPhase t,
       jb_retryCount := (if rt_nextPhase t = J_retryable_failed then jb_retryCount j + 1 else jb_retryCount j),
       jb_leaseExpires := None,
       jb_runAfter := (case rt_retryDelaySeconds t of None \<Rightarrow> env_now e | Some n \<Rightarrow> env_now e + seconds n),
       jb_updated := env_now e\<rparr>)"

definition leased_job :: "env \<Rightarrow> string \<Rightarrow> job_row \<Rightarrow> job_row" where
  "leased_job e owner j = j\<lparr>jb_phase := J_leased, jb_leaseOwner := Some owner,
     jb_leaseExpires := Some (env_now e + seconds 60), jb_updated := env_now e\<rparr>"

lemma job_row_ids [simp]:
  "jb_id (reported_job e s j) = jb_id j" "jb_id (leased_job e w j) = jb_id j"
  by (simp_all add: reported_job_def leased_job_def Let_def)

interpretation leased_update: row_update jb_id "leased_job e w" for e w
  by unfold_locales simp

interpretation reported_update: row_update jb_id "reported_job e s" for e s
  by unfold_locales simp

text \<open>What a claim does, when it succeeds.\<close>

lemma claim_cases:
  assumes "claimGateJob e g w lane keyed d = Inr (d', r)"
  obtains (nothing) "findClaimableGateJobForUpdate e g lane d = None" "d' = d" "r = None"
  | (claimed) job payload where "findClaimableGateJobForUpdate e g lane d = Some job"
      "withClientTunnelSecret e keyed job d = Inr payload"
      "r = Some \<lparr>cj_id = jb_id job, cj_type = jb_type job, cj_payload = payload, cj_session = jb_session job,
         cj_assignment = jb_assignment job, cj_attemptNumber = nextJobAttemptNumber d (jb_id job)\<rparr>"
      "jobs d' = update_where (\<lambda>j. jb_id j = jb_id job) (leased_job e w) (jobs d)"
      "job_attempts d' = job_attempts d @ [\<lparr>at_job = jb_id job, at_number = nextJobAttemptNumber d (jb_id job),
         at_owner = w, at_leaseExpires = env_now e + seconds 60, at_completed = None, at_result = None,
         at_error = None, at_hash = None\<rparr>]"
      "uuid_next d' = uuid_next d"
      "assignment_status d' = (case jb_assignment job of None \<Rightarrow> assignment_status d
         | Some a \<Rightarrow> (case assignment_phase_of d a of None \<Rightarrow> assignment_status d
             | Some p \<Rightarrow> update_where (\<lambda>st. as_assignment st = a)
                 (\<lambda>st. st\<lparr>as_phase := leasedAssignmentTransition (jb_type job) p, as_updated := env_now e\<rparr>)
                 (assignment_status d)))"
proof (cases "findClaimableGateJobForUpdate e g lane d")
  case None
  with assms have "d' = d" "r = None" by (auto simp: claimGateJob_def)
  with None show ?thesis by (rule nothing)
next
  case (Some job)
  then obtain payload where p: "withClientTunnelSecret e keyed job d = Inr payload"
    using assms by (cases "withClientTunnelSecret e keyed job d") (auto simp: claimGateJob_def)
  define d2 where "d2 = insertJobAttemptLease e (jb_id job) (nextJobAttemptNumber d (jb_id job)) w 60
    (updateJobLease e (jb_id job) J_leased w 60 d)"
  have find: "findAssignmentPhaseForUpdate d2 a = assignment_phase_of d a" for a
    by (simp add: d2_def findAssignmentPhaseForUpdate_def assignment_phase_of_def row_of_def updateJobLease_def)
  have r: "r = Some \<lparr>cj_id = jb_id job, cj_type = jb_type job, cj_payload = payload, cj_session = jb_session job,
         cj_assignment = jb_assignment job, cj_attemptNumber = nextJobAttemptNumber d (jb_id job)\<rparr>"
    and d': "d' = (case jb_assignment job of None \<Rightarrow> d2
      | Some a \<Rightarrow> (case assignment_phase_of d a of None \<Rightarrow> d2
          | Some q \<Rightarrow> updateAssignmentPhase e a (leasedAssignmentTransition (jb_type job) q) d2))"
    using assms by (auto simp: claimGateJob_def Some p claimJobTransition_def Let_def find simp flip: d2_def
        split: option.splits)
  have upd: "jobs d2 = update_where (\<lambda>j. jb_id j = jb_id job) (leased_job e w) (jobs d)"
    by (simp add: d2_def updateJobLease_def leased_job_def[abs_def])
  show ?thesis
    by (rule claimed[OF Some p r])
       (auto simp: d' upd updateAssignmentPhase_def update_assignment_status_def d2_def
          insertJobAttemptLease_def updateJobLease_def leased_job_def[abs_def] split: option.split)
qed

lemma report_cases:
  assumes "recordGateJobReport e m g i report d = Inr (d', b)" "distinct (map jb_id (jobs d))"
  obtains (unknown) "findJobForReportForUpdate d g i = None" "d' = d" "\<not> b"
  | (known) row where "job_of d i = Some row" "b" "jb_gate row = Some g" "uuid_next d' = uuid_next d"
      "jobs d' = update_where (\<lambda>j. jb_id j = i) (reported_job e (jr_status report)) (jobs d)"
      "map (\<lambda>a. (at_job a, at_number a)) (job_attempts d') = map (\<lambda>a. (at_job a, at_number a)) (job_attempts d)"
      "gate_assignments d' = gate_assignments d" "sessions d' = sessions d" "session_status d' = session_status d"
      "assignment_status d' = assignment_status (report_assignment e row report
         (rt_terminalFailure (resolveReportedJobTransition (jr_status report) (jb_retryCount row) (jb_maxRetries row))) d)"
proof (cases "findJobForReportForUpdate d g i")
  case None
  with assms have "d' = d" "\<not> b" by (auto simp: recordGateJobReport_def)
  with None show ?thesis by (rule unknown)
next
  case (Some row)
  then have row: "row \<in> set (jobs d)" "jb_id row = i" "jb_gate row = Some g"
    using find_SomeD[OF Some[unfolded findJobForReportForUpdate_def]] by simp_all
  let ?t = "resolveReportedJobTransition (jr_status report) (jb_retryCount row) (jb_maxRetries row)"
  define d1 where "d1 = recordJobReportOutcome e (jb_id row) (rt_nextPhase ?t) (rt_retryDelaySeconds ?t)
     (jr_actualStateHash report) (jr_errorCode report) (persisted_summary m row report) d"
  have d': "d' = report_deployment e row report (rt_terminalFailure ?t)
      (report_assignment e row report (rt_terminalFailure ?t) d1)" and b: "b"
    using assms(1) by (simp_all add: recordGateJobReport_def Some Let_def d1_def split: option.splits)
  have of: "job_of d i = Some row" using row_of_unique[OF assms(2) row(1)] by (simp add: job_of_def row(2))
  have "j = row" if "j \<in> set (jobs d)" "jb_id j = i" for j
    using row_eqI[OF assms(2) that(1) row(1)] that(2) row(2) by simp
  then have out: "jobs d1 = update_where (\<lambda>j. jb_id j = i) (reported_job e (jr_status report)) (jobs d)"
    using row(2) by (simp add: d1_def recordJobReportOutcome_def update_where_def reported_job_def Let_def)
  have att: "map (\<lambda>a. (at_job a, at_number a)) (job_attempts d1) = map (\<lambda>a. (at_job a, at_number a)) (job_attempts d)"
    by (simp add: d1_def recordJobReportOutcome_def Let_def map_update_where)
  have st: "assignment_status (report_assignment e row report x d1) = assignment_status (report_assignment e row report x d)" for x
    by (simp add: report_assignment_def recordAssignmentProgress_def markAssignmentPreparedFromReport_def
      markAssignmentAppliedFromReport_def markAssignmentRevokedFromReport_def assignment_of_def
      markAssignmentFailedFromReport_def update_assignment_status_def d1_def Let_def split: option.split) auto
  show ?thesis
    by (rule known[OF of b row(3)]) (simp_all add: d' out att st, simp_all add: d1_def)
qed

subsection \<open>Interleavings\<close>

text \<open>
  The transactions of this component as one executable step; one that ends with an error is rolled
  back.  A run is a sequence of transactions, each at its own time, with the claimed jobs in order.
\<close>

datatype job_operation =
    Claim uuid string "job_lane option" bool
  | Report uuid uuid job_report
  | Enqueue_apply apply_job_input
  | Enqueue_revoke revocable_assignment
  | Enqueue_reconcile reconcile_job_input
  | Fail_session uuid
  | Expire_leases

fun job_step :: "env \<Rightarrow> measurements \<Rightarrow> job_operation \<Rightarrow> db \<Rightarrow> db \<times> uuid list" where
  "job_step e m (Claim g w lane keyed) d = (case claimGateJob e g w lane keyed d of
      Inr (d', Some c) \<Rightarrow> (d', [cj_id c]) | Inr (d', None) \<Rightarrow> (d', []) | Inl _ \<Rightarrow> (d, []))"
| "job_step e m (Report g i report) d = (case recordGateJobReport e m g i report d of
      Inr (d', _) \<Rightarrow> (d', []) | Inl _ \<Rightarrow> (d, []))"
| "job_step e m (Enqueue_apply i) d = (enqueueApplyJob e i d, [])"
| "job_step e m (Enqueue_revoke i) d = (enqueueRevokeAssignmentJob e i d, [])"
| "job_step e m (Enqueue_reconcile i) d = (fst (enqueueReconcileJob e i d), [])"
| "job_step e m (Fail_session s) d = (markApplyJobsDeadForSession e s d, [])"
| "job_step e m Expire_leases d = (requeueExpiredJobLeases e d, [])"

definition at_time :: "env \<Rightarrow> time \<Rightarrow> env" where
  "at_time e t = e\<lparr>env_now := t\<rparr>"

fun job_run :: "env \<Rightarrow> measurements \<Rightarrow> (time \<times> job_operation) list \<Rightarrow> db \<Rightarrow> db \<times> uuid list" where
  "job_run e m [] d = (d, [])"
| "job_run e m ((t, x) # xs) d = (let (d1, c) = job_step (at_time e t) m x d; (d2, cs) = job_run e m xs d1
     in (d2, c @ cs))"

text \<open>
  The invariant of the queue: identifiers are unique and the supply only yields new ones, a job
  stays below its number of retries, and the attempts of a job have different numbers.
\<close>

definition supply_ok :: "env \<Rightarrow> db \<Rightarrow> bool" where
  "supply_ok e d \<longleftrightarrow> inj (env_uuid e) \<and> (\<forall>n\<ge>uuid_next d. env_uuid e n \<notin> jb_id ` set (jobs d))"

definition queue_ok :: "db \<Rightarrow> bool" where
  "queue_ok d \<longleftrightarrow> distinct (map jb_id (jobs d))
     \<and> list_all (\<lambda>j. 0 \<le> jb_retryCount j \<and> jb_retryCount j < jb_maxRetries j) (jobs d)
     \<and> distinct (map (\<lambda>a. (at_job a, at_number a)) (job_attempts d))"

lemma queue_okD:
  assumes "queue_ok d"
  shows "distinct (map jb_id (jobs d))"
    "list_all (\<lambda>j. 0 \<le> jb_retryCount j \<and> jb_retryCount j < jb_maxRetries j) (jobs d)"
    "distinct (map (\<lambda>a. (at_job a, at_number a)) (job_attempts d))"
  using assms by (simp_all add: queue_ok_def)

lemma queue_ok_update:
  assumes "queue_ok d" "jobs d' = update_where P f (jobs d)" "\<And>j. jb_id (f j) = jb_id j"
    and "\<And>j. 0 \<le> jb_retryCount j \<and> jb_retryCount j < jb_maxRetries j \<Longrightarrow>
          0 \<le> jb_retryCount (f j) \<and> jb_retryCount (f j) < jb_maxRetries (f j)"
    and "distinct (map (\<lambda>a. (at_job a, at_number a)) (job_attempts d'))"
  shows "queue_ok d'"
  using assms by (auto simp: queue_ok_def map_update_where list_all_iff set_update_where)

lemma queue_ok_insert:
  assumes "queue_ok d" "supply_ok e d" "jobs d' = jobs d @ [j]" "jb_id j = env_uuid e (uuid_next d)"
    and "jb_retryCount j = 0" "0 < jb_maxRetries j" "job_attempts d' = job_attempts d"
  shows "queue_ok d'"
  using assms by (auto simp: queue_ok_def supply_ok_def)

lemma supply_update:
  assumes "supply_ok e d" "jobs d' = update_where P f (jobs d)" "\<And>j. jb_id (f j) = jb_id j"
    and "uuid_next d' = uuid_next d"
  shows "supply_ok e d'"
  using assms by (auto simp: supply_ok_def set_update_where image_iff split: if_splits)

lemma supply_insert:
  assumes "supply_ok e d" "jobs d' = jobs d @ [j]" "jb_id j = env_uuid e (uuid_next d)"
    and "uuid_next d' = Suc (uuid_next d)"
  shows "supply_ok e d'"
  using assms by (auto simp: supply_ok_def inj_eq)

lemma insert_job_frame [simp]:
  "jobs (insert_job e jt p g s a y d) = jobs d @ [(new_job_row e (env_uuid e (uuid_next d)) jt p (Some g) y 5)
     \<lparr>jb_session := Some s, jb_assignment := Some a\<rparr>]"
  "job_attempts (insert_job e jt p g s a y d) = job_attempts d"
  "uuid_next (insert_job e jt p g s a y d) = Suc (uuid_next d)"
  "gate_assignments (insert_job e jt p g s a y d) = gate_assignments d"
  "assignment_status (insert_job e jt p g s a y d) = assignment_status d"
  by (simp_all add: insert_job_def gen_uuid_def)

lemma new_job_row_simps [simp]:
  "jb_id (new_job_row e i t p g y n) = i" "jb_retryCount (new_job_row e i t p g y n) = 0"
  "jb_maxRetries (new_job_row e i t p g y n) = n" "jb_phase (new_job_row e i t p g y n) = p"
  "jb_type (new_job_row e i t p g y n) = t" "jb_payload (new_job_row e i t p g y n) = y"
  "jb_session (new_job_row e i t p g y n) = None" "jb_assignment (new_job_row e i t p g y n) = None"
  by (simp_all add: new_job_row_def)

lemma reported_retry:
  "0 \<le> jb_retryCount j \<and> jb_retryCount j < jb_maxRetries j \<Longrightarrow>
   0 \<le> jb_retryCount (reported_job e s j) \<and> jb_retryCount (reported_job e s j) < jb_maxRetries (reported_job e s j)"
  by (cases s) (auto simp: reported_job_def resolveReportedJobTransition_def Let_def)

lemma foldr_max_ge: "x \<in> set (n # ns) \<Longrightarrow> x \<le> foldr max ns (n :: int)"
  by (induction ns) auto

lemma next_attempt_greater:
  assumes "a \<in> set (job_attempts d)" "at_job a = i"
  shows "at_number a < nextJobAttemptNumber d i"
proof -
  have "at_number a \<in> set (map at_number (filter (\<lambda>a. at_job a = i) (job_attempts d)))" using assms by auto
  moreover obtain n ns where ns: "map at_number (filter (\<lambda>a. at_job a = i) (job_attempts d)) = n # ns"
    using calculation by (cases "map at_number (filter (\<lambda>a. at_job a = i) (job_attempts d))") auto
  ultimately have "at_number a \<le> foldr max ns n" using foldr_max_ge[of "at_number a" n ns] by simp
  then show ?thesis by (simp add: nextJobAttemptNumber_def ns)
qed

text \<open>The tables of the queue after one transaction: an update that keeps the keys, or one new row.\<close>

lemma at_time_simps [simp]:
  "env_uuid (at_time e t) = env_uuid e" "env_now (at_time e t) = t" "supply_ok (at_time e t) d = supply_ok e d"
  by (simp_all add: at_time_def supply_ok_def)

lemma job_step_ok:
  assumes "queue_ok d" "supply_ok e d"
  shows "queue_ok (fst (job_step e m x d)) \<and> supply_ok e (fst (job_step e m x d))"
proof (cases x)
  case (Claim g w lane keyed)
  show ?thesis
  proof (cases "claimGateJob e g w lane keyed d")
    case (Inr p)
    obtain d' r where p: "p = (d', r)" by (cases p)
    have fst: "fst (job_step e m x d) = d'" using Inr p Claim by (auto split: option.split)
    from Inr p have "claimGateJob e g w lane keyed d = Inr (d', r)" by simp
    then show ?thesis
    proof (cases rule: claim_cases)
      case nothing
      with assms fst show ?thesis by simp
    next
      case (claimed job payload)
      have "distinct (map (\<lambda>a. (at_job a, at_number a)) (job_attempts d'))"
        using queue_okD(3)[OF assms(1)] next_attempt_greater[of _ d "jb_id job"] by (fastforce simp: claimed(5))
      moreover have "queue_ok d'"
        by (rule queue_ok_update[OF assms(1) claimed(4)]) (use calculation in \<open>auto simp: leased_job_def\<close>)
      moreover have "supply_ok e d'"
        by (rule supply_update[OF assms(2) claimed(4)]) (simp_all add: claimed(6))
      ultimately show ?thesis by (simp add: fst)
    qed
  qed (use assms Claim in simp)
next
  case (Report g i report)
  show ?thesis
  proof (cases "recordGateJobReport e m g i report d")
    case (Inr p)
    obtain d' b where p: "p = (d', b)" by (cases p)
    have fst: "fst (job_step e m x d) = d'" using Inr p Report by simp
    from Inr p have "recordGateJobReport e m g i report d = Inr (d', b)" by simp
    from this queue_okD(1)[OF assms(1)] show ?thesis
    proof (cases rule: report_cases)
      case unknown
      with assms fst show ?thesis by simp
    next
      case (known row)
      have "queue_ok d'"
        by (rule queue_ok_update[OF assms(1) known(5)])
           (use queue_okD(3)[OF assms(1)] known(6) reported_retry in simp_all)
      moreover have "supply_ok e d'"
        by (rule supply_update[OF assms(2) known(5)]) (simp_all add: known(4))
      ultimately show ?thesis by (simp add: fst)
    qed
  qed (use assms Report in simp)
next
  case (Enqueue_apply i)
  with assms show ?thesis
    by (auto simp: enqueueApplyJob_def insertApplyAssignmentJob_def
        intro: queue_ok_insert[OF assms] supply_insert[OF assms(2)])
next
  case (Enqueue_revoke i)
  with assms show ?thesis
    by (auto simp: enqueueRevokeAssignmentJob_def insertRevokeAssignmentJob_def
        intro: queue_ok_insert[OF assms] supply_insert[OF assms(2)])
next
  case (Enqueue_reconcile i)
  with assms show ?thesis
    by (auto simp: enqueueReconcileJob_def insertReconcileJob_def gen_uuid_def Let_def
        intro: queue_ok_insert[OF assms] supply_insert[OF assms(2)])
next
  case (Fail_session s)
  then show ?thesis
    using queue_okD(3)[OF assms(1)]
    by (auto simp: markApplyJobsDeadForSession_def markApplyJobsPhaseForSession_def
        intro: queue_ok_update[OF assms(1)] supply_update[OF assms(2)])
next
  case Expire_leases
  then show ?thesis
    using queue_okD(3)[OF assms(1)]
    by (auto simp: requeueExpiredJobLeases_def updateExpiredJobLeasePhases_def
        intro: queue_ok_update[OF assms(1)] supply_update[OF assms(2)])
qed

subsection \<open>All writers of the queue\<close>

text \<open>
  Jobs are also written outside this component: agent deployments and their rollbacks
  (\<open>Deployments\<close>), the probe jobs of \<open>resources/benchmarks/repository.ts\<close> (one row of its
  \<open>INSERT ... SELECT\<close> here; which gates are due is left open), the cascade of a deleted session,
  the operator's acknowledgement of dead jobs (\<open>scripts/acknowledge-dead-jobs.mjs\<close>) and the
  retention of two days (\<open>probes/retention.ts\<close> of the worker).
\<close>

definition insert_probe_job :: "env \<Rightarrow> uuid \<Rightarrow> js_record \<Rightarrow> int \<Rightarrow> db \<Rightarrow> db" where
  "insert_probe_job e gateId payload maxRetries d =
     (let (newId, d1) = gen_uuid e d
      in d1\<lparr>jobs := jobs d1 @ [new_job_row e newId JT_probe J_queued (Some gateId) payload maxRetries]\<rparr>)"

definition dead_candidate :: "env \<Rightarrow> time \<Rightarrow> job_type list \<Rightarrow> string \<Rightarrow> db \<Rightarrow> job_row \<Rightarrow> bool" where
  "dead_candidate e olderThan types gateName d j \<longleftrightarrow> jb_phase j = J_dead \<and> jb_updated j < env_now e - olderThan
     \<and> (types = [] \<or> jb_type j \<in> set types)
     \<and> (gateName = [] \<or> list_ex (\<lambda>g. jb_gate j = Some (gt_id g) \<and> gt_name g = gateName) (gates d))"

definition acknowledge_dead_jobs :: "env \<Rightarrow> time \<Rightarrow> job_type list \<Rightarrow> string \<Rightarrow> string \<Rightarrow> string \<Rightarrow> db \<Rightarrow> db" where
  "acknowledge_dead_jobs e olderThan types gateName acknowledgedBy reason d =
     update_job (dead_candidate e olderThan types gateName d)
       (\<lambda>j. j\<lparr>jb_phase := J_acknowledged_dead, jb_leaseOwner := None, jb_leaseExpires := None, jb_updated := env_now e,
          jb_payload := js_put (jb_payload j) ''operatorAcknowledgement''
            (JObj [(''acknowledgedAt'', JInt (env_now e)), (''acknowledgedBy'', JStr acknowledgedBy), (''reason'', JStr reason)])\<rparr>) d"

definition cleanup_jobs :: "env \<Rightarrow> db \<Rightarrow> db" where
  "cleanup_jobs e d =
     (let expired = map jb_id (take 1000 (sort_key jb_updated (sort_key jb_id
            (filter (\<lambda>j. jb_phase j \<in> {J_succeeded, J_dead, J_acknowledged_dead} \<and> jb_updated j < env_now e - seconds 172800) (jobs d)))))
      in d\<lparr>jobs := delete_where (\<lambda>j. jb_id j \<in> set expired) (jobs d),
           job_attempts := delete_where (\<lambda>a. at_job a \<in> set expired) (job_attempts d)\<rparr>)"

inductive queue_step :: "env \<Rightarrow> db \<Rightarrow> db \<Rightarrow> bool" for e where
  transaction: "queue_step e d (fst (job_step (at_time e t) m x d))"
| deployment: "queue_step e d (fst (insertGateAgentDeployment (at_time e t) g r requestedBy d))"
| rollback: "queue_step e d (fst (requestDeploymentRollback (at_time e t) i requestedBy reason d))"
| deployments_pass: "queue_step e d (fst (reconcileGateAgentDeployments (at_time e t) now d))"
| probe: "n \<in> {1, 2} \<Longrightarrow> queue_step e d (insert_probe_job (at_time e t) g payload n d)"
| deletion: "queue_step e d (deleteUnpaidSession (at_time e t) actor s d)"
| acknowledgement: "queue_step e d (acknowledge_dead_jobs (at_time e t) age types gate by why d)"
| retention: "queue_step e d (cleanup_jobs (at_time e t) d)"

definition queue_safe :: "env \<Rightarrow> db \<Rightarrow> bool" where
  "queue_safe e d \<longleftrightarrow> queue_ok d \<and> supply_ok e d"

lemma queue_safe_same:
  "queue_safe e d \<Longrightarrow> jobs d' = jobs d \<Longrightarrow> job_attempts d' = job_attempts d \<Longrightarrow> uuid_next d \<le> uuid_next d' \<Longrightarrow> queue_safe e d'"
  by (simp add: queue_safe_def queue_ok_def supply_ok_def)

lemma queue_safe_insert:
  assumes "queue_safe e d" "jobs d' = jobs d @ [j]" "jb_id j = env_uuid e (uuid_next d)" "jb_retryCount j = 0" "0 < jb_maxRetries j"
    and "job_attempts d' = job_attempts d" "uuid_next d' = Suc (uuid_next d)"
  shows "queue_safe e d'"
  using assms queue_ok_insert[of d e d' j] supply_insert[of e d d' j] by (simp add: queue_safe_def)

lemma queue_safe_delete:
  assumes "queue_safe e d" "jobs d' = delete_where P (jobs d)" "job_attempts d' = delete_where Q (job_attempts d)"
    and "uuid_next d' = uuid_next d"
  shows "queue_safe e d'"
  using assms unfolding queue_safe_def queue_ok_def supply_ok_def delete_where_def
  by (auto simp: list_all_iff distinct_map_filter)

lemma safe_at_time [simp]: "queue_safe (at_time e t) d = queue_safe e d"
  by (simp add: queue_safe_def)

lemma event_queue [simp]: "queue_safe e (insertDeploymentEvent i k v d) = queue_safe e d"
  by (simp add: queue_safe_def queue_ok_def supply_ok_def insertDeploymentEvent_def)

lemma deployment_queue [simp]: "queue_safe e (update_deployment i P f d) = queue_safe e d"
  by (simp add: queue_safe_def queue_ok_def supply_ok_def update_deployment_def)

lemma rollback_job_safe: "queue_safe e d \<Longrightarrow> queue_safe e (insertRollbackJob e g i x d)"
  by (auto simp: insertRollbackJob_def gen_uuid_def intro: queue_safe_insert)

lemma request_rollback_safe: "queue_safe e d \<Longrightarrow> queue_safe e (fst (requestDeploymentRollback e i q why d))"
  by (auto simp: requestDeploymentRollback_def rollback_job_safe split: option.split)

lemma retry_rollback_safe: "queue_safe e d \<Longrightarrow> queue_safe e (fst (retryDeploymentRollback e i d))"
proof -
  assume safe: "queue_safe e d"
  then have "queue_safe e (d\<lparr>deployments := xs\<rparr>)" for xs by (rule queue_safe_same) simp_all
  with safe show ?thesis by (auto simp: retryDeploymentRollback_def rollback_job_safe split: option.split)
qed

lemma agent_job_safe: "queue_safe e d \<Longrightarrow> queue_safe e (insertAgentDeploymentJob e g i rel d)"
  by (auto simp: insertAgentDeploymentJob_def gen_uuid_def new_job_row_def intro: queue_safe_insert)

lemma insert_deployment_safe: "queue_safe e d \<Longrightarrow> queue_safe e (fst (insertGateAgentDeployment e g r q d))"
proof -
  assume safe: "queue_safe e d"
  have "queue_safe e (fst (create_deployment e g st rel q d))" for st rel
  proof -
    obtain i d1 where i: "gen_uuid e d = (i, d1)" by (cases "gen_uuid e d")
    have "queue_safe e d1" using i by (intro queue_safe_same[OF safe]) (auto simp: gen_uuid_def)
    then have "queue_safe e (d1\<lparr>deployments := xs\<rparr>)" for xs by (rule queue_safe_same) simp_all
    then have "queue_safe e (insertDeploymentEvent i k v (d1\<lparr>deployments := xs\<rparr>))" for k v xs by simp
    then have "queue_safe e (insertAgentDeploymentJob e g i rel (insertDeploymentEvent i k v (d1\<lparr>deployments := xs\<rparr>)))" for k v xs
      by (rule agent_job_safe)
    then show ?thesis by (simp add: create_deployment_def i Let_def)
  qed
  with safe show ?thesis by (auto simp: insertGateAgentDeployment_def Let_def split: option.split)
qed

lemma deployment_ends_safe:
  "queue_safe e d \<Longrightarrow> queue_safe e (markDeploymentFailed e' i c m d)"
  "queue_safe e d \<Longrightarrow> queue_safe e (markDeploymentRolledBack e' i k d)"
  "queue_safe e d \<Longrightarrow> queue_safe e (markDeploymentSucceeded e' i t d)"
  by (simp_all add: markDeploymentFailed_def markDeploymentRolledBack_def markDeploymentSucceeded_def)

lemma order_rollback_safe: "queue_safe e (fst s) \<Longrightarrow> queue_safe e (fst (order_rollback e i why s))"
  using request_rollback_safe[of e "fst s" i "''system''" why]
  by (auto simp: order_rollback_def split: prod.split rollback_result.split)

lemma expired_safe: "queue_safe e (fst s) \<Longrightarrow> queue_safe e (fst (expired_deployment e row s))"
  using retry_rollback_safe[of e "fst s" "dr_id row"] order_rollback_safe[of e s "dr_id row"]
  by (auto simp: expired_deployment_def fail_deployment_def roll_back_def deployment_ends_safe Let_def split: prod.split)

lemma reconcile_row_safe: "queue_safe e (fst s) \<Longrightarrow> queue_safe e (fst (reconcile_deployment e now row s))"
  by (simp add: reconcile_deployment_def Let_def expired_safe order_rollback_safe fail_deployment_def roll_back_def deployment_ends_safe)

lemma deployments_pass_safe: "queue_safe e d \<Longrightarrow> queue_safe e (fst (reconcileGateAgentDeployments e now d))"
proof -
  have "queue_safe e (fst s) \<Longrightarrow> queue_safe e (fst (fold (reconcile_deployment e now) rows s))" for rows s
    by (induction rows arbitrary: s) (simp_all add: reconcile_row_safe)
  then show "queue_safe e d \<Longrightarrow> ?thesis" by (simp add: reconcileGateAgentDeployments_def)
qed

lemma queue_step_safe: "queue_step e d d' \<Longrightarrow> queue_safe e d \<Longrightarrow> queue_safe e d'"
proof (induction rule: queue_step.induct)
  case (transaction d t m x)
  then show ?case using job_step_ok[of d "at_time e t" m x] by (simp add: queue_safe_def)
next
  case (deployment d t g r q)
  then show ?case using insert_deployment_safe[of "at_time e t" d g r q] by simp
next
  case (rollback d t i q why)
  then show ?case using request_rollback_safe[of "at_time e t" d i q why] by simp
next
  case (deployments_pass d t now)
  then show ?case using deployments_pass_safe[of "at_time e t" d now] by simp
next
  case (probe n d t g payload)
  show ?case by (rule queue_safe_insert[OF probe.prems]) (use probe.hyps in \<open>auto simp: insert_probe_job_def gen_uuid_def\<close>)
next
  case (deletion d t actor s)
  then show ?case
    by (auto simp: deleteUnpaidSession_def delete_session_cascade_def Let_def elim: queue_safe_delete)
next
  case (acknowledgement d t age types gate who why)
  let ?d = "acknowledge_dead_jobs (at_time e t) age types gate who why d"
  have upd: "jobs ?d = jobs (update_job P f d)" "job_attempts ?d = job_attempts d" "uuid_next ?d = uuid_next d"
    if "P = dead_candidate (at_time e t) age types gate d" and "f = (\<lambda>j. j\<lparr>jb_phase := J_acknowledged_dead, jb_leaseOwner := None,
        jb_leaseExpires := None, jb_updated := t, jb_payload := js_put (jb_payload j) ''operatorAcknowledgement''
        (JObj [(''acknowledgedAt'', JInt t), (''acknowledgedBy'', JStr who), (''reason'', JStr why)])\<rparr>)" for P f
    using that by (simp_all add: acknowledge_dead_jobs_def)
  have "queue_ok ?d" "supply_ok e ?d"
    using acknowledgement queue_okD(3)[of d] upd
    by (auto simp: queue_safe_def intro: queue_ok_update supply_update)
  then show ?case by (simp add: queue_safe_def)
next
  case (retention d t)
  then show ?case by (auto simp: cleanup_jobs_def Let_def elim: queue_safe_delete)
qed

lemma queue_steps_safe: "(queue_step e)\<^sup>*\<^sup>* d d' \<Longrightarrow> queue_safe e d \<Longrightarrow> queue_safe e d'"
  by (induction rule: rtranclp_induct) (auto dest: queue_step_safe)

text \<open>
  C31: Whatever sequence of transactions writes the queue, each at its own time - claims, reports,
  enqueues, lease expiry and session failures, agent deployments and rollbacks, probe jobs, deleted
  sessions, acknowledged dead jobs and the retention - job identifiers stay unique, no job reaches
  its number of retries (the last failure makes it dead instead), and no two attempts of a job have
  the same number.
\<close>

theorem queue_invariant:
  assumes "queue_ok d" "supply_ok e d" "(queue_step e)\<^sup>*\<^sup>* d d'"
  shows "distinct (map jb_id (jobs d'))
    \<and> list_all (\<lambda>j. 0 \<le> jb_retryCount j \<and> jb_retryCount j < jb_maxRetries j) (jobs d')
    \<and> distinct (map (\<lambda>a. (at_job a, at_number a)) (job_attempts d'))"
proof -
  have "queue_ok d'" using queue_steps_safe[OF assms(3)] assms(1,2) by (simp add: queue_safe_def)
  then show ?thesis using queue_okD by blast
qed

subsection \<open>A lease is exclusive\<close>

text \<open>An event that is neither after the end of the lease, nor a report about the job, nor the
  failure of its session.\<close>

definition event_spares :: "uuid \<Rightarrow> uuid option \<Rightarrow> time \<Rightarrow> time \<times> job_operation \<Rightarrow> bool" where
  "event_spares j session until x \<longleftrightarrow> fst x \<le> until
     \<and> (case snd x of Report _ i _ \<Rightarrow> i \<noteq> j | Fail_session s \<Rightarrow> session \<noteq> Some s | _ \<Rightarrow> True)"

lemma found_claimable:
  assumes "findClaimableGateJobForUpdate e g lane d = Some job"
  shows "job \<in> set (jobs d)" "claimable e g lane job"
    "\<And>k. k \<in> set (jobs d) \<Longrightarrow> claimable e g lane k \<Longrightarrow> jb_created job \<le> jb_created k"
proof -
  let ?l = "sort_key jb_created (filter (claimable e g lane) (jobs d))"
  obtain ks where l: "?l = job # ks"
    using assms by (auto simp: findClaimableGateJobForUpdate_def split: list.splits)
  then have "job \<in> set ?l" by simp
  then show "job \<in> set (jobs d)" "claimable e g lane job" by simp_all
  fix k assume "k \<in> set (jobs d)" "claimable e g lane k"
  then have "k \<in> set ?l" by simp
  then have "k \<in> set (job # ks)" by (simp only: l)
  moreover have "sorted (map jb_created ?l)" by (rule sorted_sort_key)
  then have "sorted (map jb_created (job # ks))" by (simp only: l)
  ultimately show "jb_created job \<le> jb_created k" by auto
qed

lemma not_found_claimable:
  assumes "findClaimableGateJobForUpdate e g lane d = None"
  shows "list_all (\<lambda>k. \<not> claimable e g lane k) (jobs d)"
proof -
  have "sort_key jb_created (filter (claimable e g lane) (jobs d)) = []"
    using assms by (auto simp: findClaimableGateJobForUpdate_def split: list.splits)
  then have "filter (claimable e g lane) (jobs d) = []" by (metis set_empty set_sort)
  then show ?thesis by (simp add: filter_empty_conv list_all_iff)
qed

lemma job_of_other:
  assumes "jobs d' = update_where P f (jobs d)" "\<And>r. jb_id (f r) = jb_id r"
    and "job_of d j = Some row" "\<not> P row"
  shows "job_of d' j = Some row"
proof -
  have "row_update jb_id f" using assms(2) by unfold_locales
  from row_update.row_of_update[OF this] assms show ?thesis by (simp add: job_of_def)
qed

lemma job_of_append:
  "jobs d' = jobs d @ js \<Longrightarrow> job_of d j = Some row \<Longrightarrow> job_of d' j = Some row"
  by (simp add: job_of_def row_of_append)

lemma enqueue_appends:
  "\<exists>js. jobs (enqueueApplyJob e i d) = jobs d @ js"
  "\<exists>js. jobs (enqueueRevokeAssignmentJob e a d) = jobs d @ js"
  "\<exists>js. jobs (fst (enqueueReconcileJob e r d)) = jobs d @ js"
  by (simp_all add: enqueueApplyJob_def insertApplyAssignmentJob_def enqueueRevokeAssignmentJob_def
      insertRevokeAssignmentJob_def enqueueReconcileJob_def insertReconcileJob_def gen_uuid_def)

lemma job_of_enqueue:
  assumes "job_of d j = Some row"
  shows "job_of (enqueueApplyJob e i d) j = Some row" "job_of (enqueueRevokeAssignmentJob e a d) j = Some row"
    "job_of (fst (enqueueReconcileJob e r d)) j = Some row"
  using enqueue_appends job_of_append[OF _ assms] by blast+

lemma job_of_id: "job_of d j = Some row \<Longrightarrow> jb_id row = j"
  unfolding job_of_def by (rule row_of_SomeD[THEN conjunct2])

lemma job_of_mem: "job_of d j = Some row \<Longrightarrow> row \<in> set (jobs d)"
  unfolding job_of_def by (rule row_of_SomeD[THEN conjunct1])

lemma leased_job_spared:
  assumes "queue_ok d" "job_of d j = Some row" "jb_phase row = J_leased" "jb_leaseExpires row = Some until"
    and "event_spares j (jb_session row) until (env_now e, x)"
  shows "j \<notin> set (snd (job_step e m x d)) \<and> job_of (fst (job_step e m x d)) j = Some row"
proof (cases x)
  case (Claim g w lane keyed)
  show ?thesis
  proof (cases "claimGateJob e g w lane keyed d")
    case (Inr p)
    obtain d' r where p: "p = (d', r)" by (cases p)
    have step: "job_step e m x d = (d', case r of None \<Rightarrow> [] | Some c \<Rightarrow> [cj_id c])"
      using Inr p Claim by (auto split: option.split)
    from Inr p have "claimGateJob e g w lane keyed d = Inr (d', r)" by simp
    then show ?thesis
    proof (cases rule: claim_cases)
      case nothing
      with assms step show ?thesis by simp
    next
      case (claimed job payload)
      have "jb_id job \<noteq> j"
        using row_eqI[OF queue_okD(1)[OF assms(1)] found_claimable(1)[OF claimed(1)] job_of_mem[OF assms(2)]]
          found_claimable(2)[OF claimed(1)] assms(3) job_of_id[OF assms(2)] by (auto simp: claimable_def)
      then show ?thesis
        using job_of_other[OF claimed(4) _ assms(2)] job_of_id[OF assms(2)] claimed(3) step by simp
    qed
  qed (use assms Claim in simp)
next
  case (Report g i report)
  show ?thesis
  proof (cases "recordGateJobReport e m g i report d")
    case (Inr p)
    obtain d' b where p: "p = (d', b)" by (cases p)
    have step: "job_step e m x d = (d', [])" using Inr p Report by simp
    from Inr p have "recordGateJobReport e m g i report d = Inr (d', b)" by simp
    from this queue_okD(1)[OF assms(1)] show ?thesis
    proof (cases rule: report_cases)
      case unknown
      with assms step show ?thesis by simp
    next
      case (known r)
      have "jb_id row \<noteq> i" using assms(5) job_of_id[OF assms(2)] Report by (auto simp: event_spares_def)
      with job_of_other[OF known(5) _ assms(2)] step show ?thesis by simp
    qed
  qed (use assms Report in simp)
next
  case (Fail_session s)
  then show ?thesis
    using job_of_other[OF _ _ assms(2)] assms(5)
    by (auto simp: markApplyJobsDeadForSession_def markApplyJobsPhaseForSession_def event_spares_def
        job_of_update assms(2))
next
  case Expire_leases
  then show ?thesis
    using assms(4,5) by (simp add: requeueExpiredJobLeases_def updateExpiredJobLeasePhases_def event_spares_def
        job_of_update assms(2))
qed (simp_all add: job_of_enqueue[OF assms(2)])

text \<open>
  C30: While a gate's lease on a job runs, no other transaction takes the job away: however claims,
  reports of other jobs, enqueues and lease expiry interleave, the job's row stays as it is and no
  claim returns the job.
\<close>

theorem job_lease_exclusive:
  assumes "queue_ok d" "supply_ok e d"
    and "job_of d j = Some row" "jb_phase row = J_leased" "jb_leaseExpires row = Some until"
    and "list_all (event_spares j (jb_session row) until) xs"
  shows "j \<notin> set (snd (job_run e m xs d)) \<and> job_of (fst (job_run e m xs d)) j = Some row"
  using assms(1-3,6)
proof (induction xs arbitrary: d)
  case (Cons y xs)
  obtain t x where y: "y = (t, x)" by (cases y)
  let ?s = "job_step (at_time e t) m x d"
  have "event_spares j (jb_session row) until (env_now (at_time e t), x)" using Cons.prems(4) y by simp
  from leased_job_spared[OF Cons.prems(1,3) assms(4,5) this, of m]
  have "j \<notin> set (snd ?s) \<and> job_of (fst ?s) j = Some row" .
  moreover have "queue_ok (fst ?s) \<and> supply_ok e (fst ?s)"
    using job_step_ok[of d "at_time e t" m x] Cons.prems by simp
  ultimately show ?case using Cons.IH[of "fst ?s"] Cons.prems(4)
    by (simp add: y case_prod_beta Let_def)
qed simp

subsection \<open>What a claim returns\<close>

lemma assignment_phase_after:
  assumes "assignment_status d' = update_where (\<lambda>st. as_assignment st = a) (\<lambda>st. st\<lparr>as_phase := p, as_updated := t\<rparr>)
      (assignment_status d)"
  shows "assignment_phase_of d' b = (if b = a then map_option (\<lambda>_. p) (assignment_phase_of d b) else assignment_phase_of d b)"
proof -
  have "assignment_status d' = assignment_status (update_assignment_status (\<lambda>st. as_assignment st = a)
      (\<lambda>st. st\<lparr>as_phase := p, as_updated := t\<rparr>) d)" using assms by (simp add: update_assignment_status_def)
  then have "assignment_phase_of d' b = assignment_phase_of (update_assignment_status (\<lambda>st. as_assignment st = a)
      (\<lambda>st. st\<lparr>as_phase := p, as_updated := t\<rparr>) d) b" by (simp add: assignment_phase_of_def)
  then show ?thesis by (simp add: assignment_phase_of_update_all)
qed

text \<open>
  A claim by a gate returns the oldest of the jobs the gate may run now, and returns nothing
  only when there is none.  The job is leased to the gate for sixty seconds, the attempt gets a
  number above all earlier attempts of the job, the assignment of the job moves to \<open>applying\<close> or
  \<open>revoking\<close> unless it is already applied or revoked, and no other job or assignment changes.
\<close>

lemma claim_effect:
  assumes "queue_ok d" "claimGateJob e g w lane keyed d = Inr (d', r)"
  shows "case r of None \<Rightarrow> d' = d \<and> list_all (\<lambda>k. \<not> claimable e g lane k) (jobs d)
    | Some c \<Rightarrow> \<exists>job. job_of d (cj_id c) = Some job \<and> claimable e g lane job
        \<and> list_all (\<lambda>k. claimable e g lane k \<longrightarrow> jb_created job \<le> jb_created k) (jobs d)
        \<and> job_of d' (cj_id c) = Some (leased_job e w job)
        \<and> (\<forall>i. i \<noteq> cj_id c \<longrightarrow> job_of d' i = job_of d i)
        \<and> list_all (\<lambda>a. at_job a = cj_id c \<longrightarrow> at_number a < cj_attemptNumber c) (job_attempts d)
        \<and> (\<forall>a. assignment_phase_of d' a = (if jb_assignment job = Some a
             then map_option (leasedAssignmentTransition (jb_type job)) (assignment_phase_of d a)
             else assignment_phase_of d a))"
  using assms(2)
proof (cases rule: claim_cases)
  case nothing
  then show ?thesis using not_found_claimable by simp
next
  case (claimed job payload)
  note f = found_claimable[OF claimed(1)]
  have job: "job_of d (jb_id job) = Some job"
    using row_of_unique[OF queue_okD(1)[OF assms(1)] f(1)] by (simp add: job_of_def)
  have upd: "job_of d' i = map_option (\<lambda>j. if jb_id j = jb_id job then leased_job e w j else j) (job_of d i)" for i
    by (simp add: job_of_def claimed(4) leased_update.row_of_update)
  have other: "job_of d' i = job_of d i" if "i \<noteq> jb_id job" for i
    using that job_of_id[of d i] by (cases "job_of d i") (simp_all add: upd)
  have attempts: "list_all (\<lambda>a. at_job a = jb_id job \<longrightarrow> at_number a < nextJobAttemptNumber d (jb_id job)) (job_attempts d)"
    using next_attempt_greater by (simp add: list_all_iff)
  have phases: "assignment_phase_of d' a = (if jb_assignment job = Some a
      then map_option (leasedAssignmentTransition (jb_type job)) (assignment_phase_of d a)
      else assignment_phase_of d a)" for a
  proof (cases "jb_assignment job")
    case None
    with claimed(7) show ?thesis by (simp add: assignment_phase_of_def)
  next
    case (Some b)
    show ?thesis
    proof (cases "assignment_phase_of d b")
      case None
      with claimed(7) Some have "assignment_status d' = assignment_status d" by simp
      with Some None show ?thesis by (auto simp: assignment_phase_of_def)
    next
      case (Some p)
      with claimed(7) \<open>jb_assignment job = Some b\<close> have "assignment_status d' = update_where (\<lambda>st. as_assignment st = b)
         (\<lambda>st. st\<lparr>as_phase := leasedAssignmentTransition (jb_type job) p, as_updated := env_now e\<rparr>) (assignment_status d)"
        by simp
      from assignment_phase_after[OF this] Some \<open>jb_assignment job = Some b\<close> show ?thesis by auto
    qed
  qed
  show ?thesis
    using f(2,3) job upd[of "jb_id job"] other attempts phases
    by (simp add: claimed(3)) (simp add: list_all_iff)
qed

subsection \<open>Enqueuing twice\<close>

lemma apply_payload_operation:
  "sql_text (js_prop (apply_payload i) ''operation'') = Some (operation_text (aj_operation i))"
  by (simp add: apply_payload_def js_prop_def sql_text_def)

text \<open>
  Enqueuing an apply or a revoke job is idempotent: asking again for the same operation on the
  same assignment adds no second job while the first is unfinished, whatever the time.
\<close>

lemma enqueue_idempotent:
  "enqueueApplyJob e' i (enqueueApplyJob e i d) = enqueueApplyJob e i d
   \<and> enqueueRevokeAssignmentJob e' a (enqueueRevokeAssignmentJob e a d) = enqueueRevokeAssignmentJob e a d"
proof
  show "enqueueApplyJob e' i (enqueueApplyJob e i d) = enqueueApplyJob e i d"
    unfolding enqueueApplyJob_def insertApplyAssignmentJob_def
    by (simp add: apply_job_for_def unfinishedJob_def queuedJobTransition_def apply_payload_operation)
  show "enqueueRevokeAssignmentJob e' a (enqueueRevokeAssignmentJob e a d) = enqueueRevokeAssignmentJob e a d"
    unfolding enqueueRevokeAssignmentJob_def insertRevokeAssignmentJob_def
    by (simp add: revoke_job_for_def unfinishedJob_def queuedJobTransition_def)
qed

subsection \<open>What a report does\<close>

definition terminal_report :: "job_row \<Rightarrow> job_report \<Rightarrow> bool" where
  "terminal_report row report =
     rt_terminalFailure (resolveReportedJobTransition (jr_status report) (jb_retryCount row) (jb_maxRetries row))"

text \<open>The phase a report leads the job's assignment to.\<close>

definition reported_assignment_phase :: "job_row \<Rightarrow> job_report \<Rightarrow> assignment_phase" where
  "reported_assignment_phase row report =
     (if jr_status report = RS_succeeded \<and> jb_type row = JT_apply_assignment
      then (if readString (jr_resultSummary report) ''operation'' = ''prepare'' then A_prepared else A_applied)
      else if jr_status report = RS_succeeded \<and> jb_type row = JT_revoke_assignment then A_revoked
      else if terminal_report row report then A_dead else A_retryable_failed)"

lemma report_assignment_phase:
  assumes "jb_assignment row = Some a" "assignment_of d a \<noteq> None"
  shows "assignment_phase_of (report_assignment e row report (terminal_report row report) d) b =
     (if b = a then map_option (\<lambda>_. reported_assignment_phase row report) (assignment_phase_of d b)
      else assignment_phase_of d b)"
proof -
  obtain x where x: "assignment_of d a = Some x" using assms(2) by blast
  have op: "or_else s ''commit'' = ''prepare'' \<longleftrightarrow> s = ''prepare''" for s
    by (simp add: or_else_def)
  show ?thesis
    by (simp add: report_assignment_def assms(1) recordAssignmentProgress_def Let_def op x
        markAssignmentPreparedFromReport_def markAssignmentAppliedFromReport_def markAssignmentRevokedFromReport_def
        markAssignmentFailedFromReport_def assignment_phase_of_update_all reported_assignment_phase_def
        preparedFromReportTransition_def appliedFromReportTransition_def revokedFromReportTransition_def
        failedFromReportTransition_def)
qed

text \<open>
  A report by the job's gate moves the job (succeeded, to be retried ten seconds later, or
  dead) and its assignment (prepared or applied, revoked, to be retried, or dead) as the report
  says, and no other job, no other assignment, no session.
\<close>

lemma report_effect:
  assumes "queue_ok d" "recordGateJobReport e m g i report d = Inr (d', b)"
    and "job_of d i = Some row" "jb_gate row = Some g" "jb_assignment row = Some a" "assignment_of d a \<noteq> None"
  shows "b \<and> job_of d' i = Some (reported_job e (jr_status report) row)
    \<and> (\<forall>k. k \<noteq> i \<longrightarrow> job_of d' k = job_of d k)
    \<and> (\<forall>c. assignment_phase_of d' c = (if c = a
         then map_option (\<lambda>_. reported_assignment_phase row report) (assignment_phase_of d a)
         else assignment_phase_of d c))
    \<and> gate_assignments d' = gate_assignments d \<and> sessions d' = sessions d \<and> session_status d' = session_status d"
  using assms(2) queue_okD(1)[OF assms(1)]
proof (cases rule: report_cases)
  case unknown
  with job_of_mem[OF assms(3)] job_of_id[OF assms(3)] assms(4) show ?thesis
    by (auto simp: findJobForReportForUpdate_def find_is_None list_ex_iff)
next
  case (known r)
  have r: "r = row" using known(1) assms(3) by simp
  have upd: "job_of d' k = map_option (\<lambda>j. if jb_id j = i then reported_job e (jr_status report) j else j) (job_of d k)" for k
    by (simp add: job_of_def known(5) reported_update.row_of_update)
  have other: "job_of d' k = job_of d k" if "k \<noteq> i" for k
    using that job_of_id[of d k] by (cases "job_of d k") (simp_all add: upd)
  have "assignment_phase_of d' c = assignment_phase_of (report_assignment e row report (terminal_report row report) d) c" for c
    using known(10) by (simp add: assignment_phase_of_def r terminal_report_def)
  then show ?thesis
    using other upd[of i] job_of_id[OF assms(3)] assms(3) known(2,7,8,9)
    by (simp add: report_assignment_phase[OF assms(5,6)])
qed

subsection \<open>A job that keeps failing\<close>

text \<open>What every transaction other than a report about the job leaves alone in its row.\<close>

definition same_job :: "job_row \<Rightarrow> job_row \<Rightarrow> bool" where
  "same_job j k \<longleftrightarrow> jb_gate k = jb_gate j \<and> jb_type k = jb_type j \<and> jb_retryCount k = jb_retryCount j
     \<and> jb_maxRetries k = jb_maxRetries j \<and> (jb_phase j = J_dead \<longrightarrow> jb_phase k = J_dead)"

fun report_about :: "uuid \<Rightarrow> uuid \<Rightarrow> time \<times> job_operation \<Rightarrow> bool" where
  "report_about g j (t, Report g' i r) \<longleftrightarrow> g' = g \<and> i = j"
| "report_about g j x \<longleftrightarrow> False"

fun failing_report :: "time \<times> job_operation \<Rightarrow> bool" where
  "failing_report (t, Report g i r) \<longleftrightarrow> jr_status r = RS_retryable_failed"
| "failing_report x \<longleftrightarrow> True"

definition given_up :: "job_row \<Rightarrow> bool" where
  "given_up j \<longleftrightarrow> jb_phase j = J_dead \<and> jb_maxRetries j \<le> jb_retryCount j + 1"

lemma same_job_refl [simp]: "same_job j j" by (simp add: same_job_def)

lemma job_after_update:
  assumes "jobs d' = update_where P f (jobs d)" "\<And>r. jb_id (f r) = jb_id r"
    and "job_of d j = Some row" "P row \<Longrightarrow> same_job row (f row)"
  shows "\<exists>k. job_of d' j = Some k \<and> same_job row k"
proof -
  have "row_update jb_id f" using assms(2) by unfold_locales
  from row_update.row_of_update[OF this] assms(1,3,4) show ?thesis by (auto simp: job_of_def)
qed

lemma other_step:
  assumes "queue_ok d" "job_of d j = Some row" "jb_gate row = Some g" "\<not> report_about g j (t, x)"
  shows "\<exists>k. job_of (fst (job_step e m x d)) j = Some k \<and> same_job row k"
proof (cases x)
  case (Claim g w lane keyed)
  show ?thesis
  proof (cases "claimGateJob e g w lane keyed d")
    case (Inr p)
    obtain d' r where p: "p = (d', r)" by (cases p)
    have step: "fst (job_step e m x d) = d'" using Inr p Claim by (auto split: option.split)
    from Inr p have "claimGateJob e g w lane keyed d = Inr (d', r)" by simp
    then show ?thesis
    proof (cases rule: claim_cases)
      case nothing
      with assms step show ?thesis by simp
    next
      case (claimed job payload)
      have "same_job row (leased_job e w row)" if "jb_id row = jb_id job"
        using row_eqI[OF queue_okD(1)[OF assms(1)] found_claimable(1)[OF claimed(1)] job_of_mem[OF assms(2)]]
          found_claimable(2)[OF claimed(1)] that by (auto simp: claimable_def same_job_def leased_job_def)
      then show ?thesis using job_after_update[OF claimed(4) _ assms(2)] step by simp
    qed
  qed (use assms Claim in simp)
next
  case (Report h i report)
  show ?thesis
  proof (cases "recordGateJobReport e m h i report d")
    case (Inr p)
    obtain d' b where p: "p = (d', b)" by (cases p)
    have step: "fst (job_step e m x d) = d'" using Inr p Report by simp
    from Inr p have "recordGateJobReport e m h i report d = Inr (d', b)" by simp
    from this queue_okD(1)[OF assms(1)] show ?thesis
    proof (cases rule: report_cases)
      case unknown
      with assms step show ?thesis by simp
    next
      case (known r)
      have "jb_id row \<noteq> i" using assms(2-4) known(1,3) Report job_of_id[OF assms(2)] by auto
      with job_after_update[OF known(5) _ assms(2)] step show ?thesis by simp
    qed
  qed (use assms Report in simp)
next
  case (Fail_session s)
  have "\<exists>k. job_of (markApplyJobsDeadForSession e s d) j = Some k \<and> same_job row k"
    unfolding markApplyJobsDeadForSession_def markApplyJobsPhaseForSession_def
    by (rule job_after_update[OF update_job_frame(1) _ assms(2)])
       (auto simp: same_job_def deadForSessionFailureTransition_def)
  with Fail_session show ?thesis by simp
next
  case Expire_leases
  have "\<exists>k. job_of (requeueExpiredJobLeases e d) j = Some k \<and> same_job row k"
    unfolding requeueExpiredJobLeases_def updateExpiredJobLeasePhases_def
    by (rule job_after_update[OF update_job_frame(1) _ assms(2)])
       (auto simp: same_job_def expiredLeaseCandidateJobPhases_def)
  with Expire_leases show ?thesis by simp
qed (simp_all add: job_of_enqueue[OF assms(2)])

lemma report_step:
  assumes "queue_ok d" "job_of d j = Some row" "jb_gate row = Some g" "jb_type row \<noteq> JT_probe"
  shows "job_of (fst (job_step e m (Report g j report) d)) j = Some (reported_job e (jr_status report) row)"
proof -
  have row: "row \<in> set (jobs d)" "jb_id row = j" using job_of_mem[OF assms(2)] job_of_id[OF assms(2)] by auto
  have f: "findJobForReportForUpdate d g j = Some row"
  proof (cases "findJobForReportForUpdate d g j")
    case None
    with row assms(3) show ?thesis by (auto simp: findJobForReportForUpdate_def find_is_None list_ex_iff)
  next
    case (Some r)
    then have "r \<in> set (jobs d) \<and> jb_id r = j"
      using find_SomeD by (fastforce simp: findJobForReportForUpdate_def)
    then have "r = row" using row_eqI[OF queue_okD(1)[OF assms(1)]] row by blast
    with Some show ?thesis by simp
  qed
  obtain d' where d': "recordGateJobReport e m g j report d = Inr (d', True)"
    using assms(4) by (auto simp: recordGateJobReport_def f Let_def)
  from d' queue_okD(1)[OF assms(1)] show ?thesis
  proof (cases rule: report_cases)
    case (known r)
    then show ?thesis using assms(2) row(2) d' by (simp add: job_of_def reported_update.row_of_update)
  qed (simp add: f)
qed

lemma failing_run:
  assumes "queue_ok d" "supply_ok e d" "job_of d j = Some row" "jb_gate row = Some g" "jb_type row \<noteq> JT_probe"
    and "list_all (\<lambda>x. report_about g j x \<longrightarrow> failing_report x) xs"
    and "given_up row \<or> jb_maxRetries row \<le> jb_retryCount row + int (length (filter (report_about g j) xs))"
  shows "\<exists>k. job_of (fst (job_run e m xs d)) j = Some k \<and> given_up k"
  using assms
proof (induction xs arbitrary: d row)
  case Nil
  then have "jb_retryCount row < jb_maxRetries row"
    using queue_okD(2)[OF Nil(1)] job_of_mem[OF Nil(3)] by (auto simp: list_all_iff)
  with Nil show ?case by simp
next
  case (Cons y xs)
  obtain t x where y: "y = (t, x)" by (cases y)
  let ?d = "fst (job_step (at_time e t) m x d)"
  have ok: "queue_ok ?d" "supply_ok e ?d"
    using job_step_ok[of d "at_time e t" m x] Cons.prems(1,2) by simp_all
  have rest: "list_all (\<lambda>x. report_about g j x \<longrightarrow> failing_report x) xs" using Cons.prems(6) by simp
  have run: "fst (job_run e m (y # xs) d) = fst (job_run e m xs ?d)" by (simp add: y case_prod_beta Let_def)
  show ?case
  proof (cases "report_about g j y")
    case True
    then obtain report where x: "x = Report g j report" using y by (cases x) auto
    have fails: "jr_status report = RS_retryable_failed" using Cons.prems(6) True y x by simp
    have k: "job_of ?d j = Some (reported_job (at_time e t) RS_retryable_failed row)"
      using report_step[OF Cons.prems(1,3,4,5)] x fails by simp
    have "given_up (reported_job (at_time e t) RS_retryable_failed row)
      \<or> jb_maxRetries row \<le> jb_retryCount (reported_job (at_time e t) RS_retryable_failed row)
          + int (length (filter (report_about g j) xs))"
      using Cons.prems(7) True
      by (auto simp: given_up_def reported_job_def resolveReportedJobTransition_def Let_def)
    with Cons.IH[OF ok k _ _ rest] Cons.prems(4,5) show ?thesis
      unfolding run by (simp add: reported_job_def Let_def)
  next
    case False
    then obtain k where k: "job_of ?d j = Some k" "same_job row k"
      using other_step[OF Cons.prems(1,3,4)] y by blast
    have "given_up k \<or> jb_maxRetries k \<le> jb_retryCount k + int (length (filter (report_about g j) xs))"
      using Cons.prems(7) False k(2) by (auto simp: same_job_def given_up_def)
    with Cons.IH[OF ok k(1) _ _ rest] Cons.prems(4,5) k(2) show ?thesis
      unfolding run by (simp add: same_job_def)
  qed
qed

text \<open>
  C32: A job other than a probe job cannot fail for ever: in any interleaving of claims, reports,
  enqueues, lease expiry and session failures in which its gate reports retryable failures as often
  as the job has retries left, and nothing else about it, the job ends up dead, and no gate is given
  it again.  Probe jobs are left out: when the measurements of a probe report cannot be stored, the
  whole report is rolled back and the failure is not counted.
\<close>

theorem failing_job_dies:
  assumes "queue_ok d" "supply_ok e d" "job_of d j = Some row" "jb_gate row = Some g" "jb_type row \<noteq> JT_probe"
    and "list_all (\<lambda>x. report_about g j x \<longrightarrow> failing_report x) xs"
    and "jb_maxRetries row \<le> jb_retryCount row + int (length (filter (report_about g j) xs))"
  shows "\<exists>k. job_of (fst (job_run e m xs d)) j = Some k \<and> jb_phase k = J_dead \<and> \<not> claimable e' g lane k"
proof -
  from failing_run[OF assms(1-6), of m] assms(7) obtain k where
    "job_of (fst (job_run e m xs d)) j = Some k" "given_up k" by blast
  then show ?thesis by (auto simp: given_up_def claimable_def)
qed

text \<open>
  C33: When a session fails, its unfinished apply jobs become dead; but a failure report that a gate
  sends afterwards for such a job is accepted: it makes the dead job one to be retried, which the
  gate may claim again ten seconds later.
\<close>

theorem late_report_revives:
  assumes "queue_ok d" "supply_ok e d" "job_of d i = Some row" "jb_gate row = Some g" "jb_type row = JT_apply_assignment"
    and "jb_session row = Some s" "unfinishedJob (jb_phase row)" "jb_retryCount row + 1 < jb_maxRetries row"
    and "jr_status report = RS_retryable_failed"
  shows "map_option jb_phase (job_of (markApplyJobsDeadForSession e s d) i) = Some J_dead
    \<and> (\<exists>k. job_of (fst (job_step e m (Report g i report) (markApplyJobsDeadForSession e s d))) i = Some k
         \<and> jb_phase k = J_retryable_failed \<and> claimable (at_time e (env_now e + seconds 10)) g None k)"
proof -
  let ?d = "markApplyJobsDeadForSession e s d"
  let ?dead = "row\<lparr>jb_phase := J_dead, jb_leaseOwner := None, jb_leaseExpires := None, jb_updated := env_now e\<rparr>"
  have dead: "job_of ?d i = Some ?dead"
    using assms(3,5-7) by (auto simp: markApplyJobsDeadForSession_def markApplyJobsPhaseForSession_def job_of_update
        deadForSessionFailureTransition_def sessionFailureDeadCandidateJobPhases_def unfinishedJob_def)
  have "queue_ok ?d" using job_step_ok[OF assms(1,2), of m "Fail_session s"] by simp
  from report_step[OF this dead] assms(4,5)
  have "job_of (fst (job_step e m (Report g i report) ?d)) i = Some (reported_job e RS_retryable_failed ?dead)"
    by (simp add: assms(9))
  moreover have "jb_phase (reported_job e RS_retryable_failed ?dead) = J_retryable_failed
      \<and> claimable (at_time e (env_now e + seconds 10)) g None (reported_job e RS_retryable_failed ?dead)"
    using assms(4,8)
    by (simp add: reported_job_def resolveReportedJobTransition_def claimable_def in_lane_def Let_def)
  ultimately show ?thesis using dead by simp
qed

subsection \<open>Witnesses\<close>

definition sample_measurements :: measurements where
  "sample_measurements = \<lparr>me_outbox = False, me_benchmark = (\<lambda>i p r. None)\<rparr>"

definition queue_db :: db where
  "queue_db = enqueueApplyJob sample_env \<lparr>aj_assignment = ''u0'', aj_gate = ''g1'', aj_session = ''s1'',
     aj_operation = Op_prepare, aj_role = Ingress, aj_plan = None, aj_networkPlan = None\<rparr> assigned_db"

definition leased_db :: db where
  "leased_db = fst (job_step sample_env sample_measurements (Claim ''g1'' ''gate-eu-1'' (Some Lane_control) False) queue_db)"

definition sample_job_report :: "report_status \<Rightarrow> job_report" where
  "sample_job_report s = \<lparr>jr_status = s, jr_actualStateHash = ''h'', jr_errorCode = [],
     jr_resultSummary = [(''operation'', JStr ''prepare'')]\<rparr>"

lemma sample_supply:
  assumes "map jb_id (jobs d) = [''u1'']" "uuid_next d = 2"
  shows "supply_ok sample_env d"
proof -
  have "jb_id ` set (jobs d) = {''u1''}" using assms(1) by (metis list.set(1) list.set_map list.simps(15))
  moreover have "''u'' @ js_nat n \<noteq> ''u1''" if "2 \<le> n" for n
  proof
    assume "''u'' @ js_nat n = ''u1''"
    moreover have "js_nat 1 = ''1''" by code_simp
    ultimately have "js_nat n = js_nat 1" by simp
    with js_nat_inj have "n = 1" by blast
    with that show False by simp
  qed
  ultimately show ?thesis
    using assms(2) by (auto simp: supply_ok_def sample_env_def inj_def dest: js_nat_inj)
qed

lemma sample_queue:
  "queue_ok queue_db" "supply_ok sample_env queue_db" "queue_ok leased_db" "supply_ok sample_env leased_db"
proof -
  show "queue_ok queue_db" "queue_ok leased_db" by code_simp+
  have "map jb_id (jobs queue_db) = [''u1''] \<and> uuid_next queue_db = 2"
    "map jb_id (jobs leased_db) = [''u1''] \<and> uuid_next leased_db = 2" by code_simp+
  then show "supply_ok sample_env queue_db" "supply_ok sample_env leased_db" by (simp_all add: sample_supply)
qed

lemma sample_queued_job:
  "\<exists>row. job_of queue_db ''u1'' = Some row \<and> jb_gate row = Some ''g1'' \<and> jb_type row = JT_apply_assignment
     \<and> jb_session row = Some ''s1'' \<and> jb_assignment row = Some ''u0'' \<and> jb_phase row = J_queued
     \<and> jb_retryCount row = 0 \<and> jb_maxRetries row = 5"
proof -
  have "map_option (\<lambda>r. (jb_gate r, jb_type r, jb_session r, jb_assignment r, jb_phase r, jb_retryCount r, jb_maxRetries r))
      (job_of queue_db ''u1'') = Some (Some ''g1'', JT_apply_assignment, Some ''s1'', Some ''u0'', J_queued, 0, 5)"
    by code_simp
  then show ?thesis by auto
qed

theorem queue_invariant_witness:
  "\<exists>d'. (queue_step sample_env)\<^sup>*\<^sup>* queue_db d' \<and> length (jobs d') = 2 \<and> length (job_attempts d') = 1
     \<and> distinct (map jb_id (jobs d'))"
proof -
  let ?d1 = "fst (job_step (at_time sample_env 1000000) sample_measurements (Claim ''g1'' ''gate-eu-1'' None False) queue_db)"
  let ?d2 = "insert_probe_job (at_time sample_env 1000100) ''g1'' [] 2 ?d1"
  have "queue_step sample_env queue_db ?d1" by (rule queue_step.transaction)
  moreover have "queue_step sample_env ?d1 ?d2" by (rule queue_step.probe) simp
  ultimately have run: "(queue_step sample_env)\<^sup>*\<^sup>* queue_db ?d2" by (meson rtranclp.rtrancl_into_rtrancl r_into_rtranclp)
  have "length (jobs ?d2) = 2 \<and> length (job_attempts ?d2) = 1" by code_simp
  with run queue_invariant[OF sample_queue(1,2) run] show ?thesis by blast
qed

theorem job_lease_exclusive_witness:
  "''u1'' \<notin> set (snd (job_run sample_env sample_measurements
     [(1050000, Claim ''g1'' ''gate-eu-1'' None False), (1060000, Expire_leases)] leased_db))"
proof -
  have "map_option (\<lambda>r. (jb_phase r, jb_leaseExpires r)) (job_of leased_db ''u1'') = Some (J_leased, Some 1060000)"
    by code_simp
  then obtain row where row: "job_of leased_db ''u1'' = Some row" "jb_phase row = J_leased"
    "jb_leaseExpires row = Some 1060000" by auto
  have "list_all (event_spares ''u1'' (jb_session row) 1060000)
     [(1050000, Claim ''g1'' ''gate-eu-1'' None False), (1060000, Expire_leases)]"
    by (simp add: event_spares_def)
  from job_lease_exclusive[OF sample_queue(3,4) row this, of sample_measurements] show ?thesis by blast
qed

lemma claim_effect_witness:
  "\<exists>d' c job. claimGateJob sample_env ''g1'' ''gate-eu-1'' None False queue_db = Inr (d', Some c)
     \<and> cj_id c = ''u1'' \<and> job_of d' ''u1'' = Some (leased_job sample_env ''gate-eu-1'' job)"
proof -
  have "(case claimGateJob sample_env ''g1'' ''gate-eu-1'' None False queue_db of
      Inr (d', Some c) \<Rightarrow> cj_id c = ''u1'' | _ \<Rightarrow> False)" by code_simp
  then obtain d' c where c: "claimGateJob sample_env ''g1'' ''gate-eu-1'' None False queue_db = Inr (d', Some c)"
    "cj_id c = ''u1''" by (auto split: sum.splits option.splits)
  from claim_effect[OF sample_queue(1) c(1)] c show ?thesis by auto
qed

lemma report_effect_witness:
  "\<exists>d' b. recordGateJobReport sample_env sample_measurements ''g1'' ''u1'' (sample_job_report RS_succeeded) leased_db = Inr (d', b)
     \<and> b \<and> assignment_phase_of d' ''u0'' = Some A_prepared"
proof -
  have "map_option (\<lambda>r. (jb_gate r, jb_assignment r, jb_type r)) (job_of leased_db ''u1'')
      = Some (Some ''g1'', Some ''u0'', JT_apply_assignment)" by code_simp
  then obtain row where row: "job_of leased_db ''u1'' = Some row" "jb_gate row = Some ''g1''"
    "jb_assignment row = Some ''u0''" "jb_type row = JT_apply_assignment" by auto
  have a: "assignment_of leased_db ''u0'' \<noteq> None" "assignment_phase_of leased_db ''u0'' = Some A_applying" by code_simp+
  have "\<not> isl (recordGateJobReport sample_env sample_measurements ''g1'' ''u1'' (sample_job_report RS_succeeded) leased_db)"
    by code_simp
  then obtain d' b where r: "recordGateJobReport sample_env sample_measurements ''g1'' ''u1'' (sample_job_report RS_succeeded)
      leased_db = Inr (d', b)"
    by (cases "recordGateJobReport sample_env sample_measurements ''g1'' ''u1'' (sample_job_report RS_succeeded) leased_db") auto
  have "reported_assignment_phase row (sample_job_report RS_succeeded) = A_prepared"
  proof -
    have "readString [(''operation'', JStr ''prepare'')] ''operation'' = ''prepare''" by code_simp
    then show ?thesis using row(4) by (simp add: reported_assignment_phase_def sample_job_report_def)
  qed
  with report_effect[OF sample_queue(3) r row(1-3) a(1)] r a(2) show ?thesis by auto
qed

theorem failing_job_dies_witness:
  "\<exists>k. job_of (fst (job_run sample_env sample_measurements
        (concat (replicate 5 [(1000000, Claim ''g1'' ''gate-eu-1'' None False),
          (1010000, Report ''g1'' ''u1'' (sample_job_report RS_retryable_failed))])) queue_db)) ''u1'' = Some k
     \<and> jb_phase k = J_dead"
proof -
  obtain row where row: "job_of queue_db ''u1'' = Some row" "jb_gate row = Some ''g1''"
    "jb_type row = JT_apply_assignment" "jb_retryCount row = 0" "jb_maxRetries row = 5"
    using sample_queued_job by blast
  let ?xs = "concat (replicate 5 [(1000000, Claim ''g1'' ''gate-eu-1'' None False),
          (1010000, Report ''g1'' ''u1'' (sample_job_report RS_retryable_failed))])"
  have "list_all (\<lambda>x. report_about ''g1'' ''u1'' x \<longrightarrow> failing_report x) ?xs"
    "length (filter (report_about ''g1'' ''u1'') ?xs) = 5"
    by (simp_all add: numeral_eq_Suc sample_job_report_def)
  with failing_job_dies[OF sample_queue(1,2) row(1,2), of ?xs sample_measurements] row(3-5) show ?thesis by auto
qed

theorem late_report_revives_witness:
  "\<exists>k. job_of (fst (job_step sample_env sample_measurements
         (Report ''g1'' ''u1'' (sample_job_report RS_retryable_failed))
         (markApplyJobsDeadForSession sample_env ''s1'' queue_db))) ''u1'' = Some k
     \<and> jb_phase k = J_retryable_failed"
proof -
  obtain row where row: "job_of queue_db ''u1'' = Some row" "jb_gate row = Some ''g1''"
    "jb_type row = JT_apply_assignment" "jb_session row = Some ''s1''" "jb_phase row = J_queued"
    "jb_retryCount row = 0" "jb_maxRetries row = 5"
    using sample_queued_job by blast
  have "unfinishedJob (jb_phase row)" "jb_retryCount row + 1 < jb_maxRetries row"
    "jr_status (sample_job_report RS_retryable_failed) = RS_retryable_failed"
    using row(5-7) by (simp_all add: unfinishedJob_def sample_job_report_def)
  from late_report_revives[OF sample_queue(1,2) row(1-4) this, of sample_measurements] show ?thesis by blast
qed

end
