(* ===== verification/Plans.thy ===== *)
theory Plans
  imports Jobs
begin

section \<open>Rendered plans, probe runs and entitlements\<close>

text \<open>
  \<open>planning/render-plan.ts\<close> and \<open>planning/network-plan.ts\<close>: the description of a session's
  network that the gates get; \<open>resources/rendered-plans\<close>, where it is stored under the session
  and its generation, its secrets encrypted in a table of their own; \<open>resources/probes\<close> and
  \<open>resources/entitlements\<close>, as far as the session controllers use them.
\<close>

subsection \<open>Rendering (\<open>planning/render-plan.ts\<close>)\<close>

definition json_strings :: "string list \<Rightarrow> json" where
  "json_strings xs = JArr (map JStr xs)"

definition json_opt :: "string option \<Rightarrow> json" where
  "json_opt x = (case x of None \<Rightarrow> JNull | Some s \<Rightarrow> JStr s)"

definition path_json :: "path_choice \<Rightarrow> json" where
  "path_json p = JObj [(''ingressGateId'', JStr (pth_ingressGateId p)), (''ingressGateName'', JStr (pth_ingressGateName p)),
     (''ingressPublicIpv4'', JStr (pth_ingressPublicIpv4 p)), (''egressGateId'', JStr (pth_egressGateId p)),
     (''egressGateName'', JStr (pth_egressGateName p)), (''egressPublicIpv4'', JStr (pth_egressPublicIpv4 p))]"

record rendered_plan =
  rpl_planHash :: string
  rpl_publicMaterial :: js_record
  rpl_routingModel :: js_record
  rpl_firewallModel :: js_record
  rpl_secretRefs :: js_record
  rpl_secretPayload :: "encrypted option"

definition key_mode :: "(string \<times> string) option \<Rightarrow> json" where
  "key_mode generated = JStr (case generated of None \<Rightarrow> ''BringYourOwnPublicKey'' | Some _ \<Rightarrow> ''ServerGenerated'')"

text \<open>
  A missing public key and an empty one are both falsy, but only a missing one is replaced by the
  generated key.
\<close>

definition client_keys :: "env \<Rightarrow> session_row \<Rightarrow> string + (string \<times> string) option \<times> string" where
  "client_keys e s =
     (let generated = (if ss_clientPublicKey s \<in> {None, Some []} then Some (env_keyPair e (ss_id s)) else None);
          publicKey = (case ss_clientPublicKey s of Some k \<Rightarrow> k
             | None \<Rightarrow> (case generated of Some (priv, pub) \<Rightarrow> pub | None \<Rightarrow> []))
      in if publicKey = [] then Inl (''missing client public key for session '' @ ss_id s)
         else Inr (generated, publicKey))"

definition plan_tunnel :: "env \<Rightarrow> session_row \<Rightarrow> client_protocol \<Rightarrow> client_tunnel \<times> string option" where
  "plan_tunnel e s protocol = (case protocol of
     WireGuard \<Rightarrow> (TunnelWireGuard, None)
   | AmneziaWG \<Rightarrow> (let (key, pre, jc) = env_tunnelDraw e (ss_id s);
         (tunnel, headerProtectionKey) = createClientTunnel (env_keyFingerprint e) key pre jc
       in (tunnel, Some headerProtectionKey)))"

definition plan_secret :: "(string \<times> string) option \<Rightarrow> string option \<Rightarrow> js_record" where
  "plan_secret generated headerProtectionKey =
     (case generated of None \<Rightarrow> [] | Some (priv, pub) \<Rightarrow> [(''clientPrivateKey'', JStr priv), (''clientPublicKey'', JStr pub)])
     @ (case headerProtectionKey of None \<Rightarrow> [] | Some k \<Rightarrow> if k = [] then [] else [(''headerProtectionKey'', JStr k)])"

definition plan_secret_refs :: "(string \<times> string) option \<Rightarrow> string option \<Rightarrow> js_record" where
  "plan_secret_refs generated headerProtectionKey =
     (case generated of None \<Rightarrow> [] | Some _ \<Rightarrow> [(''clientPrivateKey'', JStr ''rendered_plan_secrets'')])
     @ (case headerProtectionKey of None \<Rightarrow> []
        | Some k \<Rightarrow> if k = [] then [] else [(''headerProtectionKey'', JStr ''rendered_plan_secrets'')])"

definition plan_model ::
    "session_row \<Rightarrow> path_choice \<Rightarrow> string \<Rightarrow> string \<Rightarrow> (string \<times> string) option \<Rightarrow> client_tunnel \<Rightarrow> json" where
  "plan_model s path clientAddress publicKey generated tunnel = JObj
     [(''sessionId'', JStr (ss_id s)), (''generation'', JInt (ss_generation s)), (''mode'', JStr (show_mode (ss_mode s))),
      (''destinationCidrs'', json_strings (ss_destinations s)), (''sourceCidr'', json_opt (ss_sourceCidr s)),
      (''clientAddress'', JStr clientAddress), (''clientPublicKey'', JStr publicKey),
      (''clientKeyMode'', key_mode generated), (''clientTunnel'', tunnel_json tunnel), (''path'', path_json path)]"

definition renderWireGuardPlan ::
    "env \<Rightarrow> session_row \<Rightarrow> path_choice \<Rightarrow> string \<Rightarrow> string + rendered_plan" where
  "renderWireGuardPlan e s path clientAddress =
     (case client_keys e s of
        Inl err \<Rightarrow> Inl err
      | Inr (generated, publicKey) \<Rightarrow>
          (case readSessionClientProtocol (js_prop (ss_spec s) ''clientProtocol'') of
             Inl err \<Rightarrow> Inl err
           | Inr protocol \<Rightarrow>
               (let (tunnel, headerProtectionKey) = plan_tunnel e s protocol;
                    secret = plan_secret generated headerProtectionKey
                in Inr
                 \<lparr>rpl_planHash = env_sha256 e (js_stringify (plan_model s path clientAddress publicKey generated tunnel)),
                  rpl_publicMaterial =
                    [(''sessionId'', JStr (ss_id s)), (''generation'', JInt (ss_generation s)),
                     (''mode'', JStr (show_mode (ss_mode s))), (''destinationCidrs'', json_strings (ss_destinations s)),
                     (''clientAddress'', JStr clientAddress), (''clientPublicKey'', JStr publicKey),
                     (''clientKeyMode'', key_mode generated), (''persistentKeepaliveSeconds'', JInt 25),
                     (''clientTunnel'', tunnel_json tunnel), (''mtu'', JInt (if protocol = AmneziaWG then 1280 else 1420)),
                     (''path'', path_json path)],
                  rpl_routingModel =
                    [(''transitInterface'', JStr ''doublezero0''), (''destinationCidrs'', json_strings (ss_destinations s)),
                     (''sourceCidr'', json_opt (ss_sourceCidr s)), (''clientAddress'', JStr clientAddress),
                     (''path'', path_json path)],
                  rpl_firewallModel =
                    [(''mode'', JStr (show_mode (ss_mode s))), (''sourceCidr'', json_opt (ss_sourceCidr s)),
                     (''destinationCidrs'', json_strings (ss_destinations s)), (''clientAddress'', JStr clientAddress)],
                  rpl_secretRefs = plan_secret_refs generated headerProtectionKey,
                  rpl_secretPayload = (if secret = [] then None else Some (env_encrypt e secret
                    (''rendered-plan:'' @ ss_id s @ '':'' @ js_int (ss_generation s))))\<rparr>)))"

subsection \<open>What the gates get (\<open>planning/network-plan.ts\<close>)\<close>

definition toGatePreparePlan :: "uuid \<Rightarrow> rendered_plan \<Rightarrow> js_record" where
  "toGatePreparePlan planId plan = [(''planId'', JStr planId), (''publicMaterial'', JObj (rpl_publicMaterial plan)),
     (''routingModel'', JObj (rpl_routingModel plan)), (''firewallModel'', JObj (rpl_firewallModel plan))]"

definition assignmentNetworkMaterial :: "assignment_material \<Rightarrow> js_record" where
  "assignmentNetworkMaterial m = [(''assignmentId'', JStr (am_id m)), (''role'', JStr (role_text (am_role m))),
     (''handle'', JStr (am_handle m)), (''gateName'', JStr (am_gateName m)), (''publicIpv4'', JStr (am_publicIpv4 m)),
     (''localMaterial'', JObj (am_material m))]"

subsection \<open>Storing plans (\<open>resources/rendered-plans\<close>)\<close>

definition upsertRenderedPlanRecord :: "env \<Rightarrow> uuid \<Rightarrow> int \<Rightarrow> rendered_plan \<Rightarrow> db \<Rightarrow> db \<times> uuid" where
  "upsertRenderedPlanRecord e sessionId generation plan d =
     (let (newId, d1) = gen_uuid e d in
      case find (\<lambda>p. pl_session p = sessionId \<and> pl_generation p = generation) (rendered_plans d1) of
        None \<Rightarrow>
          (d1\<lparr>rendered_plans := rendered_plans d1 @ [\<lparr>pl_id = newId, pl_session = sessionId, pl_generation = generation,
             pl_hash = rpl_planHash plan, pl_public = rpl_publicMaterial plan, pl_routing = rpl_routingModel plan,
             pl_firewall = rpl_firewallModel plan, pl_secretRefs = rpl_secretRefs plan, pl_created = env_now e\<rparr>]\<rparr>, newId)
      | Some old \<Rightarrow>
          (d1\<lparr>rendered_plans := update_where (\<lambda>p. pl_session p = sessionId \<and> pl_generation p = generation)
             (\<lambda>p. p\<lparr>pl_hash := rpl_planHash plan, pl_public := rpl_publicMaterial plan,
                pl_routing := rpl_routingModel plan, pl_firewall := rpl_firewallModel plan,
                pl_secretRefs := rpl_secretRefs plan\<rparr>) (rendered_plans d1)\<rparr>, pl_id old))"

definition insertRenderedPlanSecret :: "uuid \<Rightarrow> encrypted \<Rightarrow> db \<Rightarrow> db" where
  "insertRenderedPlanSecret planId payload d =
     d\<lparr>plan_secrets := insert_unless (\<lambda>s. fst s = planId) (planId, payload) (plan_secrets d)\<rparr>"

definition upsertRenderedPlan :: "env \<Rightarrow> uuid \<Rightarrow> int \<Rightarrow> rendered_plan \<Rightarrow> db \<Rightarrow> db \<times> uuid" where
  "upsertRenderedPlan = upsertRenderedPlanRecord"

definition writeRenderedPlanSecret :: "uuid \<Rightarrow> encrypted \<Rightarrow> db \<Rightarrow> db" where
  "writeRenderedPlanSecret = insertRenderedPlanSecret"

subsection \<open>Probe runs (\<open>resources/probes\<close>)\<close>

definition createProbeRun :: "env \<Rightarrow> string \<Rightarrow> string list \<Rightarrow> db \<Rightarrow> db \<times> uuid" where
  "createProbeRun e sessionId targetCidrs d =
     (let (newId, d1) = gen_uuid e d in
      (d1\<lparr>probe_runs := probe_runs d1 @ [\<lparr>pr_id = newId, pr_session = or_null sessionId, pr_targets = targetCidrs,
         pr_status = ''queued'', pr_completed = None\<rparr>]\<rparr>, newId))"

definition markProbeRunCompleted :: "env \<Rightarrow> uuid \<Rightarrow> db \<Rightarrow> db" where
  "markProbeRunCompleted e probeRunId d =
     d\<lparr>probe_runs := update_where (\<lambda>p. pr_id p = probeRunId)
         (\<lambda>p. p\<lparr>pr_status := ''completed'', pr_completed := Some (env_now e)\<rparr>) (probe_runs d)\<rparr>"

text \<open>The controllers record runs with no results: the table of results is left out.\<close>

definition recordProbeRun :: "env \<Rightarrow> uuid \<Rightarrow> string list \<Rightarrow> db \<Rightarrow> db \<times> uuid" where
  "recordProbeRun e sessionId targetCidrs d =
     (let (d1, probeRunId) = createProbeRun e sessionId targetCidrs d
      in (markProbeRunCompleted e probeRunId d1, probeRunId))"

subsection \<open>Entitlements (\<open>resources/entitlements\<close>)\<close>

definition revokeEntitlementsForSession :: "env \<Rightarrow> uuid \<Rightarrow> db \<Rightarrow> db" where
  "revokeEntitlementsForSession e sessionId d =
     d\<lparr>entitlements := update_where (\<lambda>x. en_session x = Some sessionId \<and> en_revoked x = None)
         (\<lambda>x. x\<lparr>en_revoked := Some (env_now e)\<rparr>) (entitlements d)\<rparr>"

definition listExpiredEntitlementSessionIds :: "env \<Rightarrow> db \<Rightarrow> uuid list" where
  "listExpiredEntitlementSessionIds e d =
     js_set_list (concat (map (\<lambda>x. case en_session x of None \<Rightarrow> [] | Some s \<Rightarrow> [s])
       (filter (\<lambda>x. en_revoked x = None \<and> en_expiry x \<le> env_now e) (entitlements d))))"

subsection \<open>Secrets stay out of the plan\<close>

definition public_part :: "rendered_plan \<Rightarrow> rendered_plan" where
  "public_part p = p\<lparr>rpl_secretPayload := None\<rparr>"

text \<open>
  The private key and the header protection key drawn for a session flow into the encrypted
  payload only: two renderings whose draws have the same public key, the same fingerprint of the
  header protection key and the same public parameters differ in nothing but that payload, so
  neither the plan's hash nor what is sent to a gate or stored in clear depends on them.
\<close>

lemma plan_noninterference:
  assumes "snd (env_keyPair e (ss_id s)) = snd (env_keyPair e' (ss_id s))"
    and "env_tunnelDraw e (ss_id s) = (k, pre, jc)" "env_tunnelDraw e' (ss_id s) = (k', pre, jc)"
    and "env_keyFingerprint e k = env_keyFingerprint e' k'" "k \<noteq> []" "k' \<noteq> []"
    and "env_sha256 e = env_sha256 e'"
  shows "map_sum id public_part (renderWireGuardPlan e s path address) = map_sum id public_part (renderWireGuardPlan e' s path address)
    \<and> map_sum id (toGatePreparePlan planId) (renderWireGuardPlan e s path address)
      = map_sum id (toGatePreparePlan planId) (renderWireGuardPlan e' s path address)"
proof -
  obtain priv pub priv' where keys: "env_keyPair e (ss_id s) = (priv, pub)" "env_keyPair e' (ss_id s) = (priv', pub)"
    using assms(1) by (metis prod.collapse)
  have ck: "map_sum id (map_prod (map_option (\<lambda>_. ())) id) (client_keys e s)
      = map_sum id (map_prod (map_option (\<lambda>_. ())) id) (client_keys e' s)"
    by (auto simp: client_keys_def Let_def keys split: option.splits)
  show ?thesis
  proof (cases "client_keys e s")
    case (Inl err)
    with ck have "client_keys e' s = Inl err" by (cases "client_keys e' s") auto
    with Inl show ?thesis by (simp add: renderWireGuardPlan_def)
  next
    case (Inr a)
    obtain g p where a: "a = (g, p)" by (cases a)
    from Inr ck obtain g' where g': "client_keys e' s = Inr (g', p)" "map_option (\<lambda>_. ()) g' = map_option (\<lambda>_. ()) g"
      by (cases "client_keys e' s") (auto simp: a)
    from g'(2) have same: "key_mode g' = key_mode g"
      "plan_model s path address p g' t = plan_model s path address p g t" for t
      by (cases g; cases g'; simp add: plan_model_def key_mode_def)+
    from g'(2) have refs: "plan_secret_refs g' h = plan_secret_refs g h" for h
      by (cases g; cases g'; simp add: plan_secret_refs_def)
    show ?thesis
    proof (cases "readSessionClientProtocol (js_prop (ss_spec s) ''clientProtocol'')")
      case (Inl err)
      with Inr a g' show ?thesis by (simp add: renderWireGuardPlan_def)
    next
      case protocol: (Inr protocol)
      have refs': "plan_secret_refs g (Some k') = plan_secret_refs g (Some k)"
        using assms(5,6) by (simp add: plan_secret_refs_def)
      show ?thesis
        by (cases protocol)
           (simp_all add: renderWireGuardPlan_def Inr a g'(1) protocol plan_tunnel_def assms createClientTunnel_def
              public_part_def toGatePreparePlan_def same refs refs' Let_def)
    qed
  qed
qed

definition scheduled_session :: session_row where
  "scheduled_session = \<lparr>ss_id = ''s1'', ss_account = Some ''a1'', ss_createRequest = None, ss_mode = IpToIp,
     ss_destinations = [''8.8.8.8/32''], ss_sourceCidr = None, ss_clientPublicKey = None, ss_label = None,
     ss_spec = [(''clientProtocol'', JStr ''amneziawg'')], ss_pathPolicy = JObj [], ss_artifactPolicy = JObj [],
     ss_generation = 1, ss_desired = SD_Active, ss_created = 0, ss_updated = 0, ss_hidden = None\<rparr>"

lemma plan_noninterference_witness:
  "map_sum id public_part (renderWireGuardPlan (sample_env\<lparr>env_keyPair := (\<lambda>s. (''other'', ''public''))\<rparr>)
       scheduled_session sample_path ''10.64.0.1/32'')
     = map_sum id public_part (renderWireGuardPlan sample_env scheduled_session sample_path ''10.64.0.1/32'')"
  using plan_noninterference[of "sample_env\<lparr>env_keyPair := (\<lambda>s. (''other'', ''public''))\<rparr>" scheduled_session sample_env
      sample_key 20 5 sample_key sample_path "''10.64.0.1/32''" "''p''"]
  by (simp add: sample_env_def sample_key_def)

subsection \<open>Reading plans back\<close>

definition wf_plans :: "db \<Rightarrow> bool" where
  "wf_plans d \<longleftrightarrow> distinct (map pl_id (rendered_plans d))
     \<and> distinct (map (\<lambda>p. (pl_session p, pl_generation p)) (rendered_plans d))"

definition plan_for :: "db \<Rightarrow> uuid \<Rightarrow> int \<Rightarrow> plan_row option" where
  "plan_for d s g = row_of (\<lambda>p. (pl_session p, pl_generation p)) (s, g) (rendered_plans d)"

lemma find_plan: "find (\<lambda>p. pl_session p = s \<and> pl_generation p = g) t = row_of (\<lambda>p. (pl_session p, pl_generation p)) (s, g) t"
  by (induction t) auto

interpretation plan_update: row_update "\<lambda>p. (pl_session p, pl_generation p)"
    "\<lambda>p. p\<lparr>pl_hash := h, pl_public := m, pl_routing := r, pl_firewall := f, pl_secretRefs := x\<rparr>" for h m r f x
  by unfold_locales simp

lemma plan_stored:
  assumes "upsertRenderedPlan e s g plan d = (d', i)"
  shows "\<exists>p. plan_for d' s g = Some p \<and> pl_id p = i \<and> pl_session p = s \<and> pl_generation p = g
    \<and> pl_public p = rpl_publicMaterial plan \<and> pl_routing p = rpl_routingModel plan \<and> pl_firewall p = rpl_firewallModel plan
    \<and> pl_hash p = rpl_planHash plan \<and> (case plan_for d s g of None \<Rightarrow> i = env_uuid e (uuid_next d) | Some q \<Rightarrow> i = pl_id q)"
proof (cases "plan_for d s g")
  case None
  then show ?thesis using assms
    by (auto simp: upsertRenderedPlan_def upsertRenderedPlanRecord_def gen_uuid_def plan_for_def find_plan row_of_append)
next
  case (Some q)
  have q: "pl_session q = s" "pl_generation q = g"
    using Some row_of_SomeD[of "\<lambda>p. (pl_session p, pl_generation p)" "(s, g)"] by (auto simp: plan_for_def)
  from Some have row: "row_of (\<lambda>p. (pl_session p, pl_generation p)) (s, g) (rendered_plans d) = Some q"
    by (simp only: plan_for_def)
  define f where "f = (\<lambda>p :: plan_row. p\<lparr>pl_hash := rpl_planHash plan, pl_public := rpl_publicMaterial plan,
     pl_routing := rpl_routingModel plan, pl_firewall := rpl_firewallModel plan, pl_secretRefs := rpl_secretRefs plan\<rparr>)"
  have d': "rendered_plans d' = update_where (\<lambda>p. pl_session p = s \<and> pl_generation p = g) f (rendered_plans d)" "i = pl_id q"
    using assms row by (auto simp: upsertRenderedPlan_def upsertRenderedPlanRecord_def gen_uuid_def find_plan f_def)
  have "plan_for d' s g = Some (f q)"
    unfolding plan_for_def d'(1) using q row by (simp add: f_def plan_update.row_of_update)
  then show ?thesis using q d'(2) by (simp add: f_def Some)
qed

lemma upsert_plan_frame [simp]:
  "sessions (fst (upsertRenderedPlan e s g p d)) = sessions d"
  "session_status (fst (upsertRenderedPlan e s g p d)) = session_status d"
  "gate_assignments (fst (upsertRenderedPlan e s g p d)) = gate_assignments d"
  "assignment_status (fst (upsertRenderedPlan e s g p d)) = assignment_status d"
  "jobs (fst (upsertRenderedPlan e s g p d)) = jobs d"
  "job_attempts (fst (upsertRenderedPlan e s g p d)) = job_attempts d"
  "address_leases (fst (upsertRenderedPlan e s g p d)) = address_leases d"
  "address_pools (fst (upsertRenderedPlan e s g p d)) = address_pools d"
  "artifacts (fst (upsertRenderedPlan e s g p d)) = artifacts d"
  "gates (fst (upsertRenderedPlan e s g p d)) = gates d"
  by (simp_all add: upsertRenderedPlan_def upsertRenderedPlanRecord_def gen_uuid_def split: option.split)

lemma plan_secret_frame [simp]:
  "sessions (writeRenderedPlanSecret i x d) = sessions d"
  "session_status (writeRenderedPlanSecret i x d) = session_status d"
  "gate_assignments (writeRenderedPlanSecret i x d) = gate_assignments d"
  "assignment_status (writeRenderedPlanSecret i x d) = assignment_status d"
  "jobs (writeRenderedPlanSecret i x d) = jobs d"
  "job_attempts (writeRenderedPlanSecret i x d) = job_attempts d"
  "address_leases (writeRenderedPlanSecret i x d) = address_leases d"
  "address_pools (writeRenderedPlanSecret i x d) = address_pools d"
  "artifacts (writeRenderedPlanSecret i x d) = artifacts d"
  "rendered_plans (writeRenderedPlanSecret i x d) = rendered_plans d"
  "gates (writeRenderedPlanSecret i x d) = gates d"
  by (simp_all add: writeRenderedPlanSecret_def insertRenderedPlanSecret_def)

lemma probe_run_frame [simp]:
  "sessions (fst (recordProbeRun e s cs d)) = sessions d"
  "session_status (fst (recordProbeRun e s cs d)) = session_status d"
  "gate_assignments (fst (recordProbeRun e s cs d)) = gate_assignments d"
  "assignment_status (fst (recordProbeRun e s cs d)) = assignment_status d"
  "jobs (fst (recordProbeRun e s cs d)) = jobs d"
  "address_leases (fst (recordProbeRun e s cs d)) = address_leases d"
  "artifacts (fst (recordProbeRun e s cs d)) = artifacts d"
  by (simp_all add: recordProbeRun_def createProbeRun_def markProbeRunCompleted_def gen_uuid_def)

end
