(* ===== verification/Artifacts.thy ===== *)
theory Artifacts
  imports Plans "HOL-Library.Countable"
begin

section \<open>Artifacts\<close>

text \<open>
  \<open>resources/artifacts\<close>: the configuration file of an active session, rendered from its plan and
  the ingress gate's key material, stored encrypted, downloaded with a token of limited life, and
  invalidated with the session.
\<close>

subsection \<open>Statements (\<open>repository.ts\<close>)\<close>

definition selectRenderedPlanForArtifact :: "db \<Rightarrow> uuid \<Rightarrow> int \<Rightarrow> plan_row option" where
  "selectRenderedPlanForArtifact d sessionId generation =
     (case sort_key (\<lambda>p. - pl_created p)
             (filter (\<lambda>p. pl_session p = sessionId \<and> pl_generation p = generation) (rendered_plans d)) of
        [] \<Rightarrow> None | p # _ \<Rightarrow> Some p)"

definition listAssignmentMaterialsForArtifact :: "db \<Rightarrow> uuid \<Rightarrow> assignment_material list" where
  "listAssignmentMaterialsForArtifact = assignment_join"

definition insertClientConfigArtifact ::
    "env \<Rightarrow> uuid \<Rightarrow> js_record \<Rightarrow> string list \<Rightarrow> artifact_phase \<Rightarrow> db \<Rightarrow> db \<times> uuid" where
  "insertClientConfigArtifact e sessionId publicPayload keyFingerprints initialPhase d =
     (let (newId, d1) = gen_uuid e d in
      (d1\<lparr>artifacts := artifacts d1 @ [\<lparr>ar_id = newId, ar_session = sessionId, ar_type = ''client_config'',
         ar_phase = initialPhase, ar_public = publicPayload, ar_fingerprints = keyFingerprints, ar_issuedAt = None,
         ar_downloadedAt = None, ar_invalidatedAt = None, ar_created = env_now e\<rparr>]\<rparr>, newId))"

definition insertClientConfigArtifactPayload :: "uuid \<Rightarrow> encrypted \<Rightarrow> db \<Rightarrow> db" where
  "insertClientConfigArtifactPayload artifactId encryptedArtifact d =
     d\<lparr>artifact_payloads := artifact_payloads d @ [(artifactId, encryptedArtifact)]\<rparr>"

definition attachArtifactToSessionStatus :: "env \<Rightarrow> uuid \<Rightarrow> uuid \<Rightarrow> db \<Rightarrow> db" where
  "attachArtifactToSessionStatus e sessionId artifactId =
     update_status sessionId (\<lambda>r. r\<lparr>st_artifact := Some artifactId, st_updated := env_now e\<rparr>)"

definition selectLatestClientConfigArtifactForSession :: "db \<Rightarrow> uuid \<Rightarrow> uuid \<Rightarrow> uuid option" where
  "selectLatestClientConfigArtifactForSession d accountId sessionId =
     (case sort_key (\<lambda>a. - ar_created a) (filter (\<lambda>a. ar_session a = sessionId
           \<and> list_ex (\<lambda>s. ss_id s = sessionId \<and> ss_account s = Some accountId \<and> ss_hidden s = None) (sessions d)
           \<and> ar_type a = ''client_config'' \<and> ar_invalidatedAt a = None
           \<and> ar_phase a \<in> {AR_prepared, AR_available, AR_downloaded}) (artifacts d)) of
        [] \<Rightarrow> None | a # _ \<Rightarrow> Some (ar_id a))"

definition insertArtifactDownloadToken ::
    "env \<Rightarrow> uuid \<Rightarrow> uuid \<Rightarrow> string \<Rightarrow> time \<Rightarrow> artifact_phase \<Rightarrow> db \<Rightarrow> db" where
  "insertArtifactDownloadToken e artifactId subjectUserId tokenHash expiresAt availablePhase d =
     (let (newId, d1) = gen_uuid e d in
      d1\<lparr>download_tokens := download_tokens d1 @ [\<lparr>dt_id = newId, dt_artifact = artifactId, dt_hash = tokenHash,
           dt_user = subjectUserId, dt_expires = expiresAt, dt_used = None, dt_revoked = None\<rparr>],
         artifacts := update_where (\<lambda>a. ar_id a = artifactId) (\<lambda>a. a\<lparr>ar_phase := availablePhase,
           ar_issuedAt := (case ar_issuedAt a of None \<Rightarrow> Some (env_now e) | Some t \<Rightarrow> Some t)\<rparr>) (artifacts d1)\<rparr>)"

definition invalidateArtifactsForSession :: "env \<Rightarrow> uuid \<Rightarrow> artifact_phase \<Rightarrow> db \<Rightarrow> db" where
  "invalidateArtifactsForSession e sessionId invalidatedPhase d =
     d\<lparr>artifacts := update_where (\<lambda>a. ar_session a = sessionId \<and> ar_invalidatedAt a = None)
         (\<lambda>a. a\<lparr>ar_invalidatedAt := Some (env_now e), ar_phase := invalidatedPhase\<rparr>) (artifacts d)\<rparr>"

definition revokeExpiredArtifactDownloadTokens :: "env \<Rightarrow> db \<Rightarrow> db \<times> nat" where
  "revokeExpiredArtifactDownloadTokens e d =
     (let expired = (\<lambda>t. dt_revoked t = None \<and> dt_expires t \<le> env_now e) in
      (d\<lparr>download_tokens := update_where expired (\<lambda>t. t\<lparr>dt_revoked := Some (env_now e)\<rparr>) (download_tokens d)\<rparr>,
       length (filter expired (download_tokens d))))"

record download_row =
  dw_id :: uuid
  dw_artifactId :: uuid
  dw_public :: js_record
  dw_payload :: "encrypted option"

definition redeemable :: "env \<Rightarrow> string \<Rightarrow> token_row \<Rightarrow> bool" where
  "redeemable e tokenHash t \<longleftrightarrow> dt_hash t = tokenHash \<and> dt_expires t > env_now e \<and> dt_revoked t = None"

text \<open>The left join with the payloads.\<close>

definition payloads_of :: "db \<Rightarrow> uuid \<Rightarrow> encrypted option list" where
  "payloads_of d artifactId = (case filter (\<lambda>p. fst p = artifactId) (artifact_payloads d) of
     [] \<Rightarrow> [None] | ps \<Rightarrow> map (\<lambda>p. Some (snd p)) ps)"

definition download_row_of :: "token_row \<Rightarrow> artifact_row \<Rightarrow> encrypted option \<Rightarrow> download_row" where
  "download_row_of t a c = \<lparr>dw_id = dt_id t, dw_artifactId = ar_id a, dw_public = ar_public a, dw_payload = c\<rparr>"

definition download_rows :: "env \<Rightarrow> string \<Rightarrow> db \<Rightarrow> download_row list" where
  "download_rows e tokenHash d = concat (map (\<lambda>t. concat (map (\<lambda>a.
       map (download_row_of t a) (payloads_of d (ar_id a)))
      (filter (\<lambda>a. ar_id a = dt_artifact t \<and> ar_invalidatedAt a = None) (artifacts d))))
     (filter (redeemable e tokenHash) (download_tokens d)))"

definition redeemArtifactDownloadTokenRow ::
    "env \<Rightarrow> string \<Rightarrow> artifact_phase \<Rightarrow> db \<Rightarrow> db \<times> download_row option" where
  "redeemArtifactDownloadTokenRow e tokenHash downloadedPhase d = (case download_rows e tokenHash d of
      [] \<Rightarrow> (d, None)
    | row # _ \<Rightarrow>
        (d\<lparr>download_tokens := update_where (\<lambda>t. dt_id t = dw_id row \<and> dt_used t = None)
             (\<lambda>t. t\<lparr>dt_used := Some (env_now e)\<rparr>) (download_tokens d),
           artifacts := update_where (\<lambda>a. ar_id a = dw_artifactId row)
             (\<lambda>a. a\<lparr>ar_phase := downloadedPhase, ar_downloadedAt := Some (env_now e)\<rparr>) (artifacts d)\<rparr>, Some row))"

subsection \<open>Preparing and invalidating (\<open>service.ts\<close>)\<close>

definition and_then :: "'e + 'a \<Rightarrow> ('a \<Rightarrow> 'e + 'b) \<Rightarrow> 'e + 'b" where
  "and_then x f = (case x of Inl err \<Rightarrow> Inl err | Inr v \<Rightarrow> f v)"

lemma and_then_Inr [simp]: "and_then x f = Inr y \<longleftrightarrow> (\<exists>v. x = Inr v \<and> f v = Inr y)"
  by (cases x) (simp_all add: and_then_def)

definition required :: "string \<Rightarrow> bool \<Rightarrow> 'a \<Rightarrow> string + 'a" where
  "required message ok v = (if ok then Inr v else Inl message)"

lemma required_Inr [simp]: "required m ok v = Inr w \<longleftrightarrow> ok \<and> w = v"
  by (auto simp: required_def)

definition readRequiredString :: "js_record \<Rightarrow> string \<Rightarrow> string + string" where
  "readRequiredString r key = required (''missing required string '' @ key) (readString r key \<noteq> []) (readString r key)"

text \<open>The number is used in a text only: its decimal notation is returned.\<close>

definition readRequiredNumber :: "js_record \<Rightarrow> string \<Rightarrow> string + string" where
  "readRequiredNumber r key = (case js_prop r key of
     Some (JInt i) \<Rightarrow> Inr (js_int i) | Some (JFrac s) \<Rightarrow> Inr s | _ \<Rightarrow> Inl (''missing required number '' @ key))"

definition readStringList :: "js_record \<Rightarrow> string \<Rightarrow> string list" where
  "readStringList r key = (case js_prop r key of
     Some (JArr vs) \<Rightarrow> concat (map (\<lambda>v. case v of JStr s \<Rightarrow> (if js_trim s \<noteq> [] then [s] else []) | _ \<Rightarrow> []) vs)
   | _ \<Rightarrow> [])"

definition tunnel_protocol :: "client_tunnel \<Rightarrow> string" where
  "tunnel_protocol t = (case t of TunnelWireGuard \<Rightarrow> ''wireguard'' | TunnelAmneziaWG sha p \<Rightarrow> ''amneziawg'')"

text \<open>What the stored file is made of.\<close>

record config_file =
  cf_fileName :: string
  cf_configText :: string
  cf_tunnel :: client_tunnel
  cf_mode :: string
  cf_clientKeyMode :: string
  cf_clientAddress :: string
  cf_destinationCidrs :: "string list"
  cf_serverPublicKey :: string
  cf_ingressGateName :: string
  cf_egressGateName :: string

definition secret_payload :: "env \<Rightarrow> db \<Rightarrow> uuid \<Rightarrow> js_record" where
  "secret_payload e d planId = (case selectRenderedPlanSecret d planId of None \<Rightarrow> [] | Some c \<Rightarrow> env_decrypt e c)"

definition client_private_key :: "js_record \<Rightarrow> string" where
  "client_private_key secret = (case js_prop secret ''clientPrivateKey'' of
     Some (JStr k) \<Rightarrow> k | _ \<Rightarrow> ''<client-private-key>'')"

definition plan_mtu :: "js_record \<Rightarrow> int" where
  "plan_mtu publicMaterial = (case js_prop publicMaterial ''mtu'' of Some (JInt m) \<Rightarrow> m | _ \<Rightarrow> 1420)"

text \<open>The part of \<open>prepareClientConfigArtifact\<close> up to the encryption.\<close>

definition config_file_for ::
    "env \<Rightarrow> db \<Rightarrow> uuid \<Rightarrow> plan_row \<Rightarrow> assignment_material \<Rightarrow> assignment_material \<Rightarrow> string + config_file" where
  "config_file_for e d sessionId plan ingress egress =
     (let publicMaterial = pl_public plan;
          destinationCidrs = readStringList publicMaterial ''destinationCidrs'';
          ingressMaterial = am_material ingress;
          ingressWireGuard = asRecord (js_prop ingressMaterial ''wireGuard'');
          secret = secret_payload e d (pl_id plan)
      in and_then (readRequiredString publicMaterial ''clientAddress'') (\<lambda>clientAddress.
         and_then (readRequiredString publicMaterial ''mode'') (\<lambda>mode.
         and_then (readRequiredString publicMaterial ''clientKeyMode'') (\<lambda>clientKeyMode.
         and_then (readRequiredString publicMaterial ''clientPublicKey'') (\<lambda>clientPublicKey.
         and_then (readClientTunnel (js_prop publicMaterial ''clientTunnel'')) (\<lambda>clientTunnel.
         and_then (readClientTunnel (js_prop ingressMaterial ''clientTunnel'')) (\<lambda>ingressTunnel.
         and_then (required ''ingress client tunnel does not match rendered plan''
             (js_stringify (tunnel_json ingressTunnel) = js_stringify (tunnel_json clientTunnel)) ()) (\<lambda>_.
         and_then (readRequiredString ingressWireGuard ''clientPublicKey'') (\<lambda>serverPublicKey.
         and_then (readRequiredNumber ingressWireGuard ''clientListenPort'') (\<lambda>listenPort.
         and_then (validateHeaderProtectionKey (env_keyFingerprint e) (env_reencode e) clientTunnel
             (js_prop secret ''headerProtectionKey'')) (\<lambda>headerProtectionKey.
         and_then (renderClientConfig (env_keyFingerprint e) (env_reencode e)
             \<lparr>ci_privateKey = client_private_key secret, ci_clientPublicKey = clientPublicKey,
              ci_clientKeyMode = clientKeyMode, ci_address = clientAddress, ci_serverPublicKey = serverPublicKey,
              ci_endpoint = am_publicIpv4 ingress @ '':'' @ listenPort, ci_allowedIps = destinationCidrs,
              ci_persistentKeepaliveSeconds = 25, ci_clientTunnel = Some (tunnel_json clientTunnel),
              ci_headerProtectionKey = (if clientTunnel = TunnelWireGuard then None else Some (JStr headerProtectionKey)),
              ci_mtu = Some (plan_mtu publicMaterial)\<rparr>) (\<lambda>configText.
         Inr \<lparr>cf_fileName = ''hyperspace-'' @ take 8 sessionId @ ''.conf'', cf_configText = configText,
              cf_tunnel = clientTunnel, cf_mode = mode, cf_clientKeyMode = clientKeyMode,
              cf_clientAddress = clientAddress, cf_destinationCidrs = destinationCidrs,
              cf_serverPublicKey = serverPublicKey, cf_ingressGateName = am_gateName ingress,
              cf_egressGateName = am_gateName egress\<rparr>))))))))))))"

definition encrypted_payload :: "config_file \<Rightarrow> js_record" where
  "encrypted_payload c = [(''fileName'', JStr (cf_fileName c)), (''configText'', JStr (cf_configText c)),
     (''clientProtocol'', JStr (tunnel_protocol (cf_tunnel c))), (''mode'', JStr (cf_mode c)),
     (''clientKeyMode'', JStr (cf_clientKeyMode c)), (''clientAddress'', JStr (cf_clientAddress c)),
     (''destinationCidrs'', json_strings (cf_destinationCidrs c)), (''ingressGateName'', JStr (cf_ingressGateName c)),
     (''egressGateName'', JStr (cf_egressGateName c))]"

definition public_payload :: "config_file \<Rightarrow> js_record" where
  "public_payload c = [(''status'', JStr ''prepared''), (''clientProtocol'', JStr (tunnel_protocol (cf_tunnel c))),
     (''fileName'', JStr (cf_fileName c)), (''mode'', JStr (cf_mode c)), (''clientKeyMode'', JStr (cf_clientKeyMode c)),
     (''clientAddress'', JStr (cf_clientAddress c)), (''destinationCidrs'', json_strings (cf_destinationCidrs c)),
     (''ingressGateName'', JStr (cf_ingressGateName c)), (''egressGateName'', JStr (cf_egressGateName c))]"

definition prepareClientConfigArtifact :: "env \<Rightarrow> uuid \<Rightarrow> int \<Rightarrow> db \<Rightarrow> string + db" where
  "prepareClientConfigArtifact e sessionId generation d =
     (case selectRenderedPlanForArtifact d sessionId generation of
        None \<Rightarrow> Inl (''missing rendered plan for session '' @ sessionId)
      | Some plan \<Rightarrow>
          (let assignments = listAssignmentMaterialsForArtifact d sessionId in
           case (find (\<lambda>m. am_role m = Ingress) assignments, find (\<lambda>m. am_role m = Egress) assignments) of
             (Some ingress, Some egress) \<Rightarrow>
               and_then (config_file_for e d sessionId plan ingress egress) (\<lambda>c.
                 let (d1, artifactId) = insertClientConfigArtifact e sessionId (public_payload c) [cf_serverPublicKey c]
                       preparedArtifactTransition d;
                     d2 = insertClientConfigArtifactPayload artifactId (env_encrypt e (encrypted_payload c)
                       (''artifact:'' @ sessionId @ '':'' @ js_int generation)) d1
                 in Inr (attachArtifactToSessionStatus e sessionId artifactId d2))
           | _ \<Rightarrow> Inl (''missing applied assignment material for session '' @ sessionId)))"

definition invalidateSessionArtifacts :: "env \<Rightarrow> uuid \<Rightarrow> db \<Rightarrow> db" where
  "invalidateSessionArtifacts e sessionId = invalidateArtifactsForSession e sessionId artifactInvalidatedTransition"

subsection \<open>Downloads (\<open>download-tokens.ts\<close>)\<close>

definition findLatestClientConfigArtifactForSession :: "db \<Rightarrow> uuid \<Rightarrow> uuid \<Rightarrow> uuid option" where
  "findLatestClientConfigArtifactForSession = selectLatestClientConfigArtifactForSession"

record download_token =
  tk_token :: string
  tk_expiresAt :: time
  tk_downloadUrl :: string
  tk_downloadConfigUrl :: string

text \<open>The random token is an argument.\<close>

definition createArtifactDownloadToken ::
    "env \<Rightarrow> string \<Rightarrow> uuid \<Rightarrow> uuid \<Rightarrow> int \<Rightarrow> db \<Rightarrow> db \<times> download_token" where
  "createArtifactDownloadToken e token artifactId subjectUserId ttlSeconds d =
     (let expiresAt = env_now e + ttlSeconds * 1000 in
      (insertArtifactDownloadToken e artifactId subjectUserId (env_sha256 e token) expiresAt artifactAvailableTransition d,
       \<lparr>tk_token = token, tk_expiresAt = expiresAt, tk_downloadUrl = ''/v1/public/artifacts/download/'' @ token,
        tk_downloadConfigUrl = ''/v1/public/artifacts/download/'' @ token @ ''?format=conf''\<rparr>))"

record download_payload =
  dl_artifactId :: uuid
  dl_metadata :: js_record
  dl_payload :: js_record
  dl_payloadType :: "string option"

datatype redeem_result = RD_not_found | RD_encryption_not_configured | RD_payload download_payload

definition redeemArtifactDownloadToken :: "env \<Rightarrow> bool \<Rightarrow> string \<Rightarrow> db \<Rightarrow> db \<times> redeem_result" where
  "redeemArtifactDownloadToken e keyed token d =
     (case redeemArtifactDownloadTokenRow e (env_sha256 e token) artifactDownloadedTransition d of
        (d1, None) \<Rightarrow> (d1, RD_not_found)
      | (d1, Some row) \<Rightarrow>
          (d1, case dw_payload row of
             None \<Rightarrow> RD_payload \<lparr>dl_artifactId = dw_artifactId row, dl_metadata = dw_public row,
                       dl_payload = dw_public row, dl_payloadType = None\<rparr>
           | Some c \<Rightarrow>
               if \<not> keyed then RD_encryption_not_configured
               else RD_payload \<lparr>dl_artifactId = dw_artifactId row, dl_metadata = dw_public row,
                      dl_payload = env_decrypt e c, dl_payloadType = Some ''wireguard_client_config''\<rparr>))"

definition safe_name_char :: "char \<Rightarrow> bool" where
  "safe_name_char c \<longleftrightarrow> (let n = (of_char c :: nat) in (65 \<le> n \<and> n \<le> 90) \<or> (97 \<le> n \<and> n \<le> 122)
     \<or> js_digit c \<or> c = CHR ''.'' \<or> c = CHR ''_'' \<or> c = CHR ''-'')"

text \<open>\<open>split(/[\\/]/).pop()\<close>: what follows the last separator.\<close>

definition base_name :: "string \<Rightarrow> string" where
  "base_name s = rev (takeWhile (\<lambda>c. c \<noteq> CHR ''/'' \<and> c \<noteq> CHR 0x5C) (rev s))"

definition attachmentFileName :: "string option \<Rightarrow> uuid \<Rightarrow> string" where
  "attachmentFileName v artifactId =
     (let fallback = ''hyperspace-'' @ take 8 artifactId @ ''.conf'';
          baseName = (case v of None \<Rightarrow> fallback | Some s \<Rightarrow> or_else (js_trim (base_name s)) fallback);
          sanitized = map (\<lambda>c. if safe_name_char c then c else CHR ''-'') baseName
      in if sanitized = [] \<or> sanitized = ''.'' \<or> sanitized = ''..'' then fallback
         else if suffix ''.conf'' sanitized then sanitized else sanitized @ ''.conf'')"

subsection \<open>Who can download what\<close>

lemma payloads_not_Nil: "payloads_of d i \<noteq> []"
  by (simp add: payloads_of_def split: list.split)

lemma in_download_rows:
  assumes "row \<in> set (download_rows e h d)"
  shows "\<exists>t a. t \<in> set (download_tokens d) \<and> redeemable e h t \<and> a \<in> set (artifacts d)
     \<and> ar_id a = dt_artifact t \<and> ar_invalidatedAt a = None \<and> dw_id row = dt_id t \<and> dw_artifactId row = ar_id a
     \<and> dw_public row = ar_public a"
proof -
  from assms obtain t a c where "t \<in> set (download_tokens d)" "redeemable e h t" "a \<in> set (artifacts d)"
    "ar_id a = dt_artifact t" "ar_invalidatedAt a = None" "row = download_row_of t a c"
    unfolding download_rows_def by fastforce
  then show ?thesis by (intro exI[of _ t] exI[of _ a]) (simp add: download_row_of_def)
qed

lemma no_download_rows:
  "download_rows e h d = [] \<longleftrightarrow> \<not> (\<exists>t a. t \<in> set (download_tokens d) \<and> redeemable e h t \<and> a \<in> set (artifacts d)
     \<and> ar_id a = dt_artifact t \<and> ar_invalidatedAt a = None)"
proof -
  have "download_rows e h d = [] \<longleftrightarrow> (\<forall>t\<in>set (filter (redeemable e h) (download_tokens d)).
      filter (\<lambda>a. ar_id a = dt_artifact t \<and> ar_invalidatedAt a = None) (artifacts d) = [])"
    unfolding download_rows_def by (simp add: concat_eq_Nil_conv payloads_not_Nil filter_empty_conv) blast
  then show ?thesis unfolding filter_empty_conv set_filter by blast
qed

text \<open>
  C29: Once the artifacts of a session are invalidated, no token gives access to any of them, and
  trying changes nothing.
\<close>

theorem invalidated_not_downloadable:
  assumes "\<And>t a. t \<in> set (download_tokens d) \<Longrightarrow> dt_hash t = env_sha256 e' token \<Longrightarrow> a \<in> set (artifacts d) \<Longrightarrow>
      ar_id a = dt_artifact t \<Longrightarrow> ar_session a = s"
  shows "redeemArtifactDownloadToken e' keyed token (invalidateSessionArtifacts e s d)
     = (invalidateSessionArtifacts e s d, RD_not_found)"
proof -
  let ?d = "invalidateSessionArtifacts e s d"
  have "ar_invalidatedAt a \<noteq> None"
    if t: "t \<in> set (download_tokens d)" "dt_hash t = env_sha256 e' token" and a: "a \<in> set (artifacts ?d)" "ar_id a = dt_artifact t"
    for t a
  proof -
    from a(1) obtain b where b: "b \<in> set (artifacts d)" "a = (if ar_session b = s \<and> ar_invalidatedAt b = None
        then b\<lparr>ar_invalidatedAt := Some (env_now e), ar_phase := AR_invalidated\<rparr> else b)"
      by (auto simp: invalidateSessionArtifacts_def invalidateArtifactsForSession_def set_update_where
          artifactInvalidatedTransition_def)
    then have "ar_id b = dt_artifact t" using a(2) by (auto split: if_splits)
    from assms[OF t b(1) this] b(2) show ?thesis by simp
  qed
  moreover have "download_tokens ?d = download_tokens d"
    by (simp add: invalidateSessionArtifacts_def invalidateArtifactsForSession_def)
  ultimately have "download_rows e' (env_sha256 e' token) ?d = []"
    unfolding no_download_rows redeemable_def by metis
  then show ?thesis by (simp add: redeemArtifactDownloadToken_def redeemArtifactDownloadTokenRow_def)
qed

interpretation downloaded_update: row_update ar_id "\<lambda>a. a\<lparr>ar_phase := p, ar_downloadedAt := t\<rparr>" for p t
  by unfold_locales simp

interpretation invalidated_update: row_update ar_id "\<lambda>a. a\<lparr>ar_invalidatedAt := t, ar_phase := p\<rparr>" for p t
  by unfold_locales simp

definition artifact_of :: "db \<Rightarrow> uuid \<Rightarrow> artifact_row option" where
  "artifact_of d a = row_of ar_id a (artifacts d)"

text \<open>
  A token is accepted exactly while it has not expired, has not been revoked and its artifact
  has not been invalidated; then the artifact counts as downloaded now, and no other artifact
  changes.
\<close>

lemma redeem_exact:
  assumes "redeemArtifactDownloadToken e keyed token d = (d', r)" "distinct (map ar_id (artifacts d))"
  shows "(r = RD_not_found \<longleftrightarrow> \<not> (\<exists>t a. t \<in> set (download_tokens d) \<and> dt_hash t = env_sha256 e token
        \<and> env_now e < dt_expires t \<and> dt_revoked t = None \<and> artifact_of d (dt_artifact t) = Some a \<and> ar_invalidatedAt a = None))
    \<and> (r = RD_not_found \<longrightarrow> d' = d)
    \<and> (case r of RD_payload p \<Rightarrow>
          (\<exists>a. artifact_of d (dl_artifactId p) = Some a \<and> ar_invalidatedAt a = None \<and> dl_metadata p = ar_public a
            \<and> artifact_of d' (dl_artifactId p) = Some (a\<lparr>ar_phase := AR_downloaded, ar_downloadedAt := Some (env_now e)\<rparr>)
            \<and> (\<forall>b. b \<noteq> dl_artifactId p \<longrightarrow> artifact_of d' b = artifact_of d b))
        | _ \<Rightarrow> True)"
proof -
  have of: "a \<in> set (artifacts d) \<Longrightarrow> artifact_of d (ar_id a) = Some a" for a
    using row_of_unique[OF assms(2)] by (simp add: artifact_of_def)
  have mem: "artifact_of d i = Some a \<Longrightarrow> a \<in> set (artifacts d) \<and> ar_id a = i" for i a
    unfolding artifact_of_def by (rule row_of_SomeD)
  have key: "artifact_of d i = Some a \<longleftrightarrow> a \<in> set (artifacts d) \<and> ar_id a = i" for i a
    using mem of by blast
  define X where "X \<longleftrightarrow> (\<exists>t a. t \<in> set (download_tokens d) \<and> dt_hash t = env_sha256 e token
        \<and> env_now e < dt_expires t \<and> dt_revoked t = None \<and> artifact_of d (dt_artifact t) = Some a \<and> ar_invalidatedAt a = None)"
  have X: "X \<longleftrightarrow> download_rows e (env_sha256 e token) d \<noteq> []"
    unfolding X_def no_download_rows redeemable_def key by blast
  show ?thesis
    unfolding X_def[symmetric]
  proof (cases "download_rows e (env_sha256 e token) d")
    case Nil
    then have "\<not> X" "r = RD_not_found" "d' = d"
      using assms(1) X by (simp_all add: redeemArtifactDownloadToken_def redeemArtifactDownloadTokenRow_def)
    then show "(r = RD_not_found \<longleftrightarrow> \<not> X) \<and> (r = RD_not_found \<longrightarrow> d' = d) \<and> (case r of RD_payload p \<Rightarrow>
          (\<exists>a. artifact_of d (dl_artifactId p) = Some a \<and> ar_invalidatedAt a = None \<and> dl_metadata p = ar_public a
            \<and> artifact_of d' (dl_artifactId p) = Some (a\<lparr>ar_phase := AR_downloaded, ar_downloadedAt := Some (env_now e)\<rparr>)
            \<and> (\<forall>b. b \<noteq> dl_artifactId p \<longrightarrow> artifact_of d' b = artifact_of d b)) | _ \<Rightarrow> True)"
      by simp
  next
    case (Cons row rows)
    then obtain t a where ta: "a \<in> set (artifacts d)" "ar_invalidatedAt a = None" "dw_artifactId row = ar_id a"
      "dw_public row = ar_public a"
      using in_download_rows[of row e "env_sha256 e token" d] by auto
    have d': "artifacts d' = update_where (\<lambda>x. ar_id x = ar_id a)
        (\<lambda>x. x\<lparr>ar_phase := AR_downloaded, ar_downloadedAt := Some (env_now e)\<rparr>) (artifacts d)"
      and r: "r \<noteq> RD_not_found" "\<And>p. r = RD_payload p \<Longrightarrow> dl_artifactId p = ar_id a \<and> dl_metadata p = ar_public a"
      using assms(1) Cons ta(3,4)
      by (auto simp: redeemArtifactDownloadToken_def redeemArtifactDownloadTokenRow_def artifactDownloadedTransition_def
          split: option.splits if_splits)
    have upd: "artifact_of d' b = map_option (\<lambda>x. if ar_id x = ar_id a
        then x\<lparr>ar_phase := AR_downloaded, ar_downloadedAt := Some (env_now e)\<rparr> else x) (artifact_of d b)" for b
      by (simp add: artifact_of_def d' downloaded_update.row_of_update)
    have other: "artifact_of d' b = artifact_of d b" if "b \<noteq> ar_id a" for b
      using that mem[of b] by (cases "artifact_of d b") (auto simp: upd)
    have this_one: "artifact_of d' (ar_id a) = Some (a\<lparr>ar_phase := AR_downloaded, ar_downloadedAt := Some (env_now e)\<rparr>)"
      by (simp add: upd of[OF ta(1)])
    have "\<exists>a. artifact_of d (dl_artifactId p) = Some a \<and> ar_invalidatedAt a = None \<and> dl_metadata p = ar_public a
            \<and> artifact_of d' (dl_artifactId p) = Some (a\<lparr>ar_phase := AR_downloaded, ar_downloadedAt := Some (env_now e)\<rparr>)
            \<and> (\<forall>b. b \<noteq> dl_artifactId p \<longrightarrow> artifact_of d' b = artifact_of d b)" if "r = RD_payload p" for p
      using r(2)[OF that] other this_one of[OF ta(1)] ta(2) by (intro exI[of _ a]) simp
    then show "(r = RD_not_found \<longleftrightarrow> \<not> X) \<and> (r = RD_not_found \<longrightarrow> d' = d) \<and> (case r of RD_payload p \<Rightarrow>
          (\<exists>a. artifact_of d (dl_artifactId p) = Some a \<and> ar_invalidatedAt a = None \<and> dl_metadata p = ar_public a
            \<and> artifact_of d' (dl_artifactId p) = Some (a\<lparr>ar_phase := AR_downloaded, ar_downloadedAt := Some (env_now e)\<rparr>)
            \<and> (\<forall>b. b \<noteq> dl_artifactId p \<longrightarrow> artifact_of d' b = artifact_of d b)) | _ \<Rightarrow> True)"
      using r(1) X Cons by (cases r) simp_all
  qed
qed

text \<open>
  The name a configuration is downloaded under is safe whatever name the payload asks for: it
  has only letters, digits, dots, underscores and hyphens (no path separator, no line break, no
  quote), is not empty, and ends with \<open>.conf\<close>.
\<close>

lemma attachment_name_safe:
  assumes "list_all safe_name_char (take 8 artifactId)"
  shows "list_all safe_name_char (attachmentFileName v artifactId) \<and> suffix ''.conf'' (attachmentFileName v artifactId)"
proof -
  let ?fallback = "''hyperspace-'' @ take 8 artifactId @ ''.conf''"
  let ?base = "case v of None \<Rightarrow> ?fallback | Some s \<Rightarrow> or_else (js_trim (base_name s)) ?fallback"
  let ?name = "map (\<lambda>c. if safe_name_char c then c else CHR ''-'') ?base"
  have fallback: "list_all safe_name_char ?fallback" "suffix ''.conf'' ?fallback"
    using assms by (auto simp: safe_name_char_def js_digit_def suffix_def)
  have name: "list_all safe_name_char ?name" by (auto simp: list_all_iff safe_name_char_def)
  have more: "list_all safe_name_char (?name @ ''.conf'')"
    using name by (simp add: safe_name_char_def)
  have "attachmentFileName v artifactId \<in> {?fallback, ?name, ?name @ ''.conf''}
      \<and> (attachmentFileName v artifactId = ?name \<longrightarrow> attachmentFileName v artifactId \<noteq> ?fallback \<longrightarrow> suffix ''.conf'' ?name)"
    unfolding attachmentFileName_def Let_def by auto
  with fallback name more show ?thesis by (auto simp: suffix_def)
qed

lemma attachment_name_safe_witness:
  "list_all safe_name_char (attachmentFileName (Some ''../../etc/pass wd'') ''0123abcd'')"
proof -
  have "list_all safe_name_char (take 8 ''0123abcd'')" by code_simp
  from attachment_name_safe[OF this] show ?thesis by blast
qed

subsection \<open>From the plan to the file the user gets\<close>

lemma sublist_js_join: "x \<in> set xs \<Longrightarrow> sublist x (js_join sep xs)"
proof (induction sep xs rule: js_join.induct)
  case (3 sep a b xs)
  show ?case
  proof (cases "x = a")
    case True
    then show ?thesis by (simp add: sublist_append_rightI)
  next
    case False
    with 3 have "sublist x (js_join sep (b # xs))" by simp
    then obtain p q where "js_join sep (b # xs) = p @ x @ q" by (auto simp: sublist_def)
    then have "js_join sep (a # b # xs) = (a @ sep @ p) @ x @ q" by simp
    then show ?thesis unfolding sublist_def by blast
  qed
qed auto

lemma rendered_config_lines:
  assumes "renderClientConfig f r i = Inr text"
  shows "sublist (''AllowedIPs = '' @ js_join '', '' (ci_allowedIps i)) text" "sublist (''Address = '' @ ci_address i) text"
  using assms by (auto simp: renderClientConfig_def split: sum.splits intro!: sublist_js_join)

lemma readStringList_strings:
  "list_all (\<lambda>x. js_trim x \<noteq> []) xs \<Longrightarrow> js_prop m k = Some (json_strings xs) \<Longrightarrow> readStringList m k = xs"
proof -
  have "list_all (\<lambda>x. js_trim x \<noteq> []) xs \<Longrightarrow>
      concat (map (\<lambda>v. case v of JStr s \<Rightarrow> (if js_trim s \<noteq> [] then [s] else []) | _ \<Rightarrow> []) (map JStr xs)) = xs"
    by (induction xs) simp_all
  then show "list_all (\<lambda>x. js_trim x \<noteq> []) xs \<Longrightarrow> js_prop m k = Some (json_strings xs) \<Longrightarrow> readStringList m k = xs"
    by (simp add: readStringList_def json_strings_def)
qed

lemma rendered_material:
  assumes "renderWireGuardPlan e s path address = Inr plan"
  shows "js_prop (rpl_publicMaterial plan) ''destinationCidrs'' = Some (json_strings (ss_destinations s))"
    "js_prop (rpl_publicMaterial plan) ''clientAddress'' = Some (JStr address)"
    "js_prop (rpl_publicMaterial plan) ''mode'' = Some (JStr (show_mode (ss_mode s)))"
  using assms by (auto simp: renderWireGuardPlan_def Let_def js_prop_def split: sum.splits prod.splits)

text \<open>
  The configuration file of a session is that of its plan: it routes exactly the session's
  destinations through the tunnel, carries the leased client address and the session's mode, and
  these are lines of its text.
\<close>

lemma config_matches_plan:
  assumes "renderWireGuardPlan e s path address = Inr plan" "pl_public row = rpl_publicMaterial plan"
    and "config_file_for e' d i row ingress egress = Inr c"
    and "list_all (\<lambda>x. js_trim x \<noteq> []) (ss_destinations s)" "js_trim address = address"
  shows "cf_destinationCidrs c = ss_destinations s \<and> cf_clientAddress c = address
    \<and> cf_mode c = js_trim (show_mode (ss_mode s))
    \<and> sublist (''AllowedIPs = '' @ js_join '', '' (ss_destinations s)) (cf_configText c)
    \<and> sublist (''Address = '' @ address) (cf_configText c)"
proof -
  have list: "readStringList (pl_public row) ''destinationCidrs'' = ss_destinations s"
    using readStringList_strings[OF assms(4)] rendered_material(1)[OF assms(1)] assms(2) by simp
  have strings: "readString (pl_public row) ''clientAddress'' = address"
    "readString (pl_public row) ''mode'' = js_trim (show_mode (ss_mode s))"
    using rendered_material(2,3)[OF assms(1)] assms(2,5) by (simp_all add: readString_def)
  obtain tx x where x: "renderClientConfig (env_keyFingerprint e') (env_reencode e') x = Inr tx"
    "ci_allowedIps x = ss_destinations s" "ci_address x = address"
    "cf_destinationCidrs c = ss_destinations s" "cf_clientAddress c = address"
    "cf_mode c = js_trim (show_mode (ss_mode s))" "cf_configText c = tx"
    using assms(3)
    unfolding config_file_for_def Let_def list and_then_Inr readRequiredString_def required_Inr strings
    apply (elim exE conjE)
    apply (simp only: sum.inject)
    apply hypsubst
    apply (erule meta_allE)+
    apply (erule meta_impE, assumption)
    by (simp only: client_config_input.simps config_file.simps simp_thms)
  show ?thesis using rendered_config_lines[OF x(1)] x by simp
qed

text \<open>
  C28: Preparing a session's artifact and redeeming a token for it before the token expires gives
  back the configuration that was rendered: what is stored decrypts to it.  (AES-GCM decrypts what
  it encrypted, the identifier and the token's hash are new.)
\<close>

theorem config_roundtrip:
  assumes "\<And>r aad. env_decrypt e (env_encrypt e r aad) = r"
    and "prepareClientConfigArtifact e s g d = Inr d1"
    and "env_uuid e (uuid_next d) \<notin> ar_id ` set (artifacts d) \<union> fst ` set (artifact_payloads d)"
    and "env_sha256 e token \<notin> dt_hash ` set (download_tokens d)" "t < env_now e + ttl * 1000"
  shows "\<exists>plan ingress egress c p. selectRenderedPlanForArtifact d s g = Some plan
    \<and> config_file_for e d s plan ingress egress = Inr c
    \<and> snd (redeemArtifactDownloadToken (at_time e t) True token
         (fst (createArtifactDownloadToken e token (env_uuid e (uuid_next d)) user ttl d1))) = RD_payload p
    \<and> dl_payload p = encrypted_payload c \<and> js_prop (dl_payload p) ''configText'' = Some (JStr (cf_configText c))"
proof -
  let ?u = "env_uuid e (uuid_next d)"
  from assms(2) obtain plan ingress egress c where c: "selectRenderedPlanForArtifact d s g = Some plan"
    "config_file_for e d s plan ingress egress = Inr c"
    and d1: "d1 = attachArtifactToSessionStatus e s ?u (insertClientConfigArtifactPayload ?u (env_encrypt e (encrypted_payload c)
         (''artifact:'' @ s @ '':'' @ js_int g)) (fst (insertClientConfigArtifact e s (public_payload c) [cf_serverPublicKey c]
         preparedArtifactTransition d)))"
    by (auto simp: prepareClientConfigArtifact_def Let_def insertClientConfigArtifact_def gen_uuid_def split: option.splits)
  let ?a = "\<lparr>ar_id = ?u, ar_session = s, ar_type = ''client_config'', ar_phase = AR_prepared, ar_public = public_payload c,
       ar_fingerprints = [cf_serverPublicKey c], ar_issuedAt = None, ar_downloadedAt = None, ar_invalidatedAt = None,
       ar_created = env_now e\<rparr>"
  have tables: "artifacts d1 = artifacts d @ [?a]" "artifact_payloads d1 = artifact_payloads d @
       [(?u, env_encrypt e (encrypted_payload c) (''artifact:'' @ s @ '':'' @ js_int g))]"
     "download_tokens d1 = download_tokens d"
    by (simp_all add: d1 attachArtifactToSessionStatus_def update_status_def insertClientConfigArtifactPayload_def
        insertClientConfigArtifact_def gen_uuid_def preparedArtifactTransition_def)
  let ?d2 = "fst (createArtifactDownloadToken e token ?u user ttl d1)"
  have tokens: "filter (redeemable (at_time e t) (env_sha256 e token)) (download_tokens ?d2)
      = [\<lparr>dt_id = env_uuid e (uuid_next d1), dt_artifact = ?u, dt_hash = env_sha256 e token, dt_user = user,
          dt_expires = env_now e + ttl * 1000, dt_used = None, dt_revoked = None\<rparr>]"
  proof -
    have "filter (redeemable (at_time e t) (env_sha256 e token)) (download_tokens d) = []"
      using assms(4) by (force simp: filter_empty_conv redeemable_def)
    then show ?thesis
      using assms(5) by (simp add: createArtifactDownloadToken_def insertArtifactDownloadToken_def gen_uuid_def
          tables Let_def redeemable_def)
  qed
  have other: "filter (\<lambda>a. ar_id a = ?u \<and> ar_invalidatedAt a = None) (update_where (\<lambda>a. ar_id a = ?u) f (artifacts d)) = []" for f
  proof -
    have no: "ar_id a \<noteq> ?u" if "a \<in> set (artifacts d)" for a using assms(3) that by (metis UnI1 image_eqI)
    then have "update_where (\<lambda>a. ar_id a = ?u) f (artifacts d) = artifacts d" by (rule update_where_id)
    with no show ?thesis by (simp add: filter_empty_conv)
  qed
  have arts: "\<exists>b. filter (\<lambda>a. ar_id a = ?u \<and> ar_invalidatedAt a = None) (artifacts ?d2) = [b] \<and> ar_id b = ?u"
    using other by (simp add: createArtifactDownloadToken_def insertArtifactDownloadToken_def gen_uuid_def
        tables Let_def update_where_def)
  have pays: "payloads_of ?d2 ?u = [Some (env_encrypt e (encrypted_payload c) (''artifact:'' @ s @ '':'' @ js_int g))]"
  proof -
    have "filter (\<lambda>p. fst p = ?u) (artifact_payloads d) = []"
      using assms(3) by (force simp: filter_empty_conv)
    then show ?thesis
      by (simp add: payloads_of_def createArtifactDownloadToken_def insertArtifactDownloadToken_def gen_uuid_def tables Let_def)
  qed
  from arts obtain b where b: "filter (\<lambda>a. ar_id a = ?u \<and> ar_invalidatedAt a = None) (artifacts ?d2) = [b]" "ar_id b = ?u"
    by blast
  have rows: "download_rows (at_time e t) (env_sha256 e token) ?d2 = [download_row_of
      \<lparr>dt_id = env_uuid e (uuid_next d1), dt_artifact = ?u, dt_hash = env_sha256 e token, dt_user = user,
          dt_expires = env_now e + ttl * 1000, dt_used = None, dt_revoked = None\<rparr> b
      (Some (env_encrypt e (encrypted_payload c) (''artifact:'' @ s @ '':'' @ js_int g)))]"
    by (simp add: download_rows_def tokens b pays)
  have env: "env_sha256 (at_time e t) = env_sha256 e" "env_decrypt (at_time e t) = env_decrypt e"
    by (simp_all add: at_time_def)
  have "snd (redeemArtifactDownloadToken (at_time e t) True token ?d2) = RD_payload
      \<lparr>dl_artifactId = ?u, dl_metadata = ar_public b, dl_payload = encrypted_payload c,
       dl_payloadType = Some ''wireguard_client_config''\<rparr>"
    by (simp add: redeemArtifactDownloadToken_def redeemArtifactDownloadTokenRow_def env rows download_row_of_def
        assms(1) b(2))
  moreover have "js_prop (encrypted_payload c) ''configText'' = Some (JStr (cf_configText c))"
    by (simp add: encrypted_payload_def js_prop_def)
  ultimately show ?thesis using c by (intro exI conjI) auto
qed

subsection \<open>Witnesses\<close>

definition byo_session :: session_row where
  "byo_session = scheduled_session\<lparr>ss_spec := [], ss_clientPublicKey := Some ''pk''\<rparr>"

definition byo_material :: js_record where
  "byo_material = [(''sessionId'', JStr ''s1''), (''generation'', JInt 1), (''mode'', JStr ''IpToIp''),
     (''destinationCidrs'', JArr [JStr ''8.8.8.8/32'']), (''clientAddress'', JStr ''10.64.0.1/32''),
     (''clientPublicKey'', JStr ''pk''), (''clientKeyMode'', JStr ''BringYourOwnPublicKey''),
     (''persistentKeepaliveSeconds'', JInt 25), (''clientTunnel'', JObj [(''protocol'', JStr ''wireguard'')]),
     (''mtu'', JInt 1420), (''path'', path_json sample_path)]"

lemma byo_rendered:
  "\<exists>p. renderWireGuardPlan sample_env byo_session sample_path ''10.64.0.1/32'' = Inr p \<and> rpl_publicMaterial p = byo_material"
  by (simp add: renderWireGuardPlan_def byo_session_def scheduled_session_def client_keys_def plan_tunnel_def Let_def
      byo_material_def readSessionClientProtocol_def js_prop_def json_strings_def key_mode_def tunnel_json_def)

definition sample_assignment :: "uuid \<Rightarrow> uuid \<Rightarrow> gate_role \<Rightarrow> assignment_row" where
  "sample_assignment i g r = \<lparr>ga_id = i, ga_session = ''s1'', ga_gate = g, ga_role = r, ga_generation = 1,
     ga_desired = AD_Applied, ga_handle = ''h'' @ i, ga_plan = ''p1'', ga_updated = 0\<rparr>"

definition sample_material :: js_record where
  "sample_material = [(''wireGuard'', JObj [(''clientPublicKey'', JStr ''srv''), (''clientListenPort'', JInt 51820)])]"

definition config_db :: db where
  "config_db = gates_db\<lparr>
     rendered_plans := [\<lparr>pl_id = ''p1'', pl_session = ''s1'', pl_generation = 1, pl_hash = [],
       pl_public = byo_material, pl_routing = [], pl_firewall = [], pl_secretRefs = [], pl_created = 0\<rparr>],
     gate_assignments := [sample_assignment ''a1'' ''g1'' Ingress, sample_assignment ''a2'' ''g2'' Egress],
     assignment_status := [(new_assignment_status sample_env ''a1'' A_applied)\<lparr>as_material := sample_material\<rparr>,
       new_assignment_status sample_env ''a2'' A_applied]\<rparr>"

definition sample_ingress :: assignment_material where
  "sample_ingress = \<lparr>am_id = ''a1'', am_gateId = ''g1'', am_role = Ingress, am_handle = ''ha1'', am_gateName = ''gate-eu-1'',
     am_publicIpv4 = ''1.1.1.1'', am_material = sample_material, am_phase = A_applied\<rparr>"

definition sample_egress :: assignment_material where
  "sample_egress = \<lparr>am_id = ''a2'', am_gateId = ''g2'', am_role = Egress, am_handle = ''ha2'', am_gateName = ''gate-na-1'',
     am_publicIpv4 = ''2.2.2.2'', am_material = [], am_phase = A_applied\<rparr>"

lemma sample_material_parts:
  "readRequiredString byo_material ''clientAddress'' = Inr ''10.64.0.1/32''"
  "readRequiredString byo_material ''mode'' = Inr ''IpToIp''"
  "readRequiredString byo_material ''clientKeyMode'' = Inr ''BringYourOwnPublicKey''"
  "readRequiredString byo_material ''clientPublicKey'' = Inr ''pk''"
  "readClientTunnel (js_prop byo_material ''clientTunnel'') = Inr TunnelWireGuard"
  "readClientTunnel (js_prop sample_material ''clientTunnel'') = Inr TunnelWireGuard"
  "readRequiredString (asRecord (js_prop sample_material ''wireGuard'')) ''clientPublicKey'' = Inr ''srv''"
  by code_simp+

lemma sample_config:
  "\<exists>c. config_file_for sample_env config_db ''s1'' (hd (rendered_plans config_db)) sample_ingress sample_egress = Inr c"
proof -
  have plan: "pl_public (hd (rendered_plans config_db)) = byo_material" by (simp add: config_db_def)
  have ingress: "am_material sample_ingress = sample_material" by (simp add: sample_ingress_def)
  have port: "\<exists>p. readRequiredNumber (asRecord (js_prop sample_material ''wireGuard'')) ''clientListenPort'' = Inr p"
    by (simp add: readRequiredNumber_def sample_material_def asRecord_def js_prop_def)
  have wg: "readClientTunnel (Some (tunnel_json TunnelWireGuard)) = Inr TunnelWireGuard" by code_simp
  from port show ?thesis
    unfolding config_file_for_def Let_def plan ingress sample_material_parts and_then_def required_def
    by (auto simp: validateHeaderProtectionKey_def renderClientConfig_def wg)
qed

lemma config_matches_plan_witness:
  "\<exists>c. config_file_for sample_env config_db ''s1'' (hd (rendered_plans config_db)) sample_ingress sample_egress = Inr c
     \<and> cf_destinationCidrs c = [''8.8.8.8/32'']"
proof -
  obtain c where c: "config_file_for sample_env config_db ''s1'' (hd (rendered_plans config_db)) sample_ingress sample_egress = Inr c"
    using sample_config by blast
  obtain p where p: "renderWireGuardPlan sample_env byo_session sample_path ''10.64.0.1/32'' = Inr p"
    "rpl_publicMaterial p = byo_material" using byo_rendered by blast
  have row: "pl_public (hd (rendered_plans config_db)) = rpl_publicMaterial p"
    by (simp add: config_db_def p(2))
  have "list_all (\<lambda>x. js_trim x \<noteq> []) (ss_destinations byo_session)" "js_trim ''10.64.0.1/32'' = ''10.64.0.1/32''"
    "ss_destinations byo_session = [''8.8.8.8/32'']" by code_simp+
  with config_matches_plan[OF p(1) row c] c show ?thesis by auto
qed

instance json :: countable
  by countable_datatype

definition crypt_env :: env where
  "crypt_env = sample_env\<lparr>env_encrypt := (\<lambda>r aad. js_nat (to_nat r)), env_decrypt := (\<lambda>s. from_nat (digits_value s))\<rparr>"

theorem config_roundtrip_witness:
  "\<exists>d1 p. prepareClientConfigArtifact crypt_env ''s1'' 1 config_db = Inr d1
     \<and> snd (redeemArtifactDownloadToken (at_time crypt_env 1000001) True ''tok''
         (fst (createArtifactDownloadToken crypt_env ''tok'' (env_uuid crypt_env (uuid_next config_db)) ''user'' 60 d1))) = RD_payload p"
proof -
  have dec: "env_decrypt crypt_env (env_encrypt crypt_env r aad) = r" for r aad
    by (simp add: crypt_env_def digits_value_js_nat)
  have secret: "secret_payload crypt_env config_db i = secret_payload sample_env config_db i" for i
    by (simp add: secret_payload_def selectRenderedPlanSecret_def config_db_def gates_db_def pool_db_def empty_db_def)
  have same: "env_keyFingerprint crypt_env = env_keyFingerprint sample_env" "env_reencode crypt_env = env_reencode sample_env"
    by (simp_all add: crypt_env_def)
  have cfg: "config_file_for crypt_env config_db s pl a b = config_file_for sample_env config_db s pl a b" for s pl a b
    unfolding config_file_for_def secret same ..
  have sel: "selectRenderedPlanForArtifact config_db ''s1'' 1 = Some (hd (rendered_plans config_db))"
    "find (\<lambda>m. am_role m = Ingress) (listAssignmentMaterialsForArtifact config_db ''s1'') = Some sample_ingress"
    "find (\<lambda>m. am_role m = Egress) (listAssignmentMaterialsForArtifact config_db ''s1'') = Some sample_egress"
    by code_simp+
  obtain c where c: "config_file_for sample_env config_db ''s1'' (hd (rendered_plans config_db)) sample_ingress sample_egress = Inr c"
    using sample_config by blast
  obtain d1 where d1: "prepareClientConfigArtifact crypt_env ''s1'' 1 config_db = Inr d1"
    by (simp add: prepareClientConfigArtifact_def sel cfg c Let_def case_prod_beta)
  have fresh: "env_uuid crypt_env (uuid_next config_db) \<notin> ar_id ` set (artifacts config_db) \<union> fst ` set (artifact_payloads config_db)"
    "env_sha256 crypt_env ''tok'' \<notin> dt_hash ` set (download_tokens config_db)"
    by (simp_all add: config_db_def gates_db_def pool_db_def empty_db_def)
  have "(1000001 :: int) < env_now crypt_env + 60 * 1000" by (simp add: crypt_env_def sample_env_def)
  from config_roundtrip[OF dec d1 fresh this, of "''user''"] d1 show ?thesis by blast
qed

definition downloadable_db :: db where
  "downloadable_db = config_db\<lparr>artifacts := [\<lparr>ar_id = ''x1'', ar_session = ''s1'', ar_type = ''client_config'',
       ar_phase = AR_available, ar_public = [], ar_fingerprints = [], ar_issuedAt = None, ar_downloadedAt = None,
       ar_invalidatedAt = None, ar_created = 0\<rparr>],
     download_tokens := [\<lparr>dt_id = ''t1'', dt_artifact = ''x1'', dt_hash = ''hash'', dt_user = ''user'', dt_expires = 2000000,
       dt_used = None, dt_revoked = None\<rparr>]\<rparr>"

theorem invalidated_not_downloadable_witness:
  "snd (redeemArtifactDownloadToken sample_env True ''tok'' downloadable_db) \<noteq> RD_not_found
   \<and> snd (redeemArtifactDownloadToken sample_env True ''tok'' (invalidateSessionArtifacts sample_env ''s1'' downloadable_db)) = RD_not_found"
proof
  show "snd (redeemArtifactDownloadToken sample_env True ''tok'' downloadable_db) \<noteq> RD_not_found" by code_simp
  have "redeemArtifactDownloadToken sample_env True ''tok'' (invalidateSessionArtifacts sample_env ''s1'' downloadable_db)
      = (invalidateSessionArtifacts sample_env ''s1'' downloadable_db, RD_not_found)"
    by (rule invalidated_not_downloadable) (simp add: downloadable_db_def)
  then show "snd (redeemArtifactDownloadToken sample_env True ''tok''
      (invalidateSessionArtifacts sample_env ''s1'' downloadable_db)) = RD_not_found" by simp
qed

lemma redeem_exact_witness:
  "snd (redeemArtifactDownloadToken sample_env True ''tok'' downloadable_db) \<noteq> RD_not_found"
proof -
  have d: "distinct (map ar_id (artifacts downloadable_db))" by code_simp
  have "\<exists>t a. t \<in> set (download_tokens downloadable_db) \<and> dt_hash t = env_sha256 sample_env ''tok''
      \<and> env_now sample_env < dt_expires t \<and> dt_revoked t = None
      \<and> artifact_of downloadable_db (dt_artifact t) = Some a \<and> ar_invalidatedAt a = None"
    by (simp add: downloadable_db_def sample_env_def artifact_of_def)
  moreover obtain d' r where "redeemArtifactDownloadToken sample_env True ''tok'' downloadable_db = (d', r)"
    by (cases "redeemArtifactDownloadToken sample_env True ''tok'' downloadable_db")
  ultimately show ?thesis using redeem_exact[OF _ d, of sample_env True "''tok''" d' r] by simp
qed

end
