(* ===== verification/SessionController.thy ===== *)
theory SessionController
  imports Artifacts
begin

section \<open>The session controllers\<close>

text \<open>
  \<open>reconciler/session-controller.ts\<close>, \<open>assignment-controller.ts\<close> and \<open>expiry-controller.ts\<close>: the
  worker's transactions that move sessions through their life cycle.  Each selects the sessions
  of a phase and handles them one by one; an exception rolls the whole transaction back (\<open>Inl\<close>).
\<close>

subsection \<open>Loops that may throw\<close>

fun for_each :: "('a \<Rightarrow> 's \<Rightarrow> 'e + 's) \<Rightarrow> 'a list \<Rightarrow> 's \<Rightarrow> 'e + 's" where
  "for_each f [] s = Inr s"
| "for_each f (x # xs) s = and_then (f x s) (for_each f xs)"

subsection \<open>Probing and scheduling\<close>

definition begin_probing :: "env \<Rightarrow> session_row \<Rightarrow> db \<Rightarrow> db" where
  "begin_probing e s d =
     setSessionCondition e (ss_id s) ''Ready'' C_False ''Probing'' ''Path probe inputs are being collected'' (ss_generation s)
       (updateSessionStatusPhase e (ss_id s) probingTransition None
         (fst (recordProbeRun e (ss_id s) (ss_destinations s) d)))"

definition beginRequestedSessionProbing :: "env \<Rightarrow> db \<Rightarrow> string + db" where
  "beginRequestedSessionProbing e d =
     for_each (\<lambda>s d. Inr (begin_probing e s d)) (listRequestedSessionsForUpdate d) d"

definition advance_probed :: "env \<Rightarrow> session_row \<Rightarrow> db \<Rightarrow> db" where
  "advance_probed e s d =
     setSessionCondition e (ss_id s) ''Ready'' C_False ''Scheduling''
       ''Ingress and egress gate candidates are being selected'' (ss_generation s)
       (updateSessionStatusPhase e (ss_id s) schedulingTransition None d)"

definition advanceProbedSessionsToScheduling :: "env \<Rightarrow> db \<Rightarrow> string + db" where
  "advanceProbedSessionsToScheduling e d =
     for_each (\<lambda>s d. Inr (advance_probed e s d)) (listProbingSessionsForUpdate d) d"

definition error_json :: "string \<Rightarrow> string \<Rightarrow> js_record" where
  "error_json code message = [(''code'', JStr code), (''message'', JStr message)]"

definition fail_scheduling :: "env \<Rightarrow> session_row \<Rightarrow> string \<Rightarrow> string \<Rightarrow> string \<Rightarrow> db \<Rightarrow> db" where
  "fail_scheduling e s reason code message d =
     markSessionFailed e (ss_id s) (failedTransition (JObj (error_json code message)))
       (setSessionCondition e (ss_id s) ''Ready'' C_False reason message (ss_generation s) d)"

definition prepare_job :: "uuid \<Rightarrow> uuid \<Rightarrow> uuid \<Rightarrow> gate_role \<Rightarrow> js_record \<Rightarrow> apply_job_input" where
  "prepare_job assignmentId gateId sessionId role plan =
     \<lparr>aj_assignment = assignmentId, aj_gate = gateId, aj_session = sessionId, aj_operation = Op_prepare,
      aj_role = role, aj_plan = Some plan, aj_networkPlan = None\<rparr>"

text \<open>What follows once the path, the address and the plan are known.\<close>

definition store_plan :: "env \<Rightarrow> session_row \<Rightarrow> rendered_plan \<Rightarrow> db \<Rightarrow> db \<times> uuid" where
  "store_plan e s plan d =
     (let (d1, planId) = upsertRenderedPlan e (ss_id s) (ss_generation s) plan d
      in (case rpl_secretPayload plan of None \<Rightarrow> d1 | Some c \<Rightarrow> writeRenderedPlanSecret planId c d1, planId))"

definition provision_session :: "env \<Rightarrow> session_row \<Rightarrow> path_choice \<Rightarrow> rendered_plan \<Rightarrow> db \<Rightarrow> db" where
  "provision_session e s path plan d =
     (let (d1, planId) = store_plan e s plan d;
          (d2, ingressAssignment) = createAssignment e (ss_id s) (pth_ingressGateId path) Ingress planId d1;
          (d3, egressAssignment) = createAssignment e (ss_id s) (pth_egressGateId path) Egress planId d2;
          d4 = enqueueApplyJob e (prepare_job ingressAssignment (pth_ingressGateId path) (ss_id s) Ingress
                 (toGatePreparePlan planId plan)) d3;
          d5 = enqueueApplyJob e (prepare_job egressAssignment (pth_egressGateId path) (ss_id s) Egress
                 (toGatePreparePlan planId plan)) d4;
          d6 = markSessionProvisioning e (ss_id s) (provisioningTransition (ss_generation s)) (path_json path) d5
      in setSessionCondition e (ss_id s) ''Ready'' C_False ''Provisioning''
           ''Ingress and egress gate assignments are being applied'' (ss_generation s) d6)"

definition schedule_session :: "env \<Rightarrow> session_row \<Rightarrow> db \<Rightarrow> string + db" where
  "schedule_session e s d =
     (case choosePath e d (ss_spec s) of
        Inl err \<Rightarrow> Inl err
      | Inr None \<Rightarrow> and_then (sessionClientProtocolLabel (ss_spec s)) (\<lambda>label.
          Inr (fail_scheduling e s ''NoSchedulablePath'' ''no_schedulable_path''
            (''No ready '' @ label @ '' ingress / WireGuard egress gate pair is currently schedulable'') d))
      | Inr (Some path) \<Rightarrow>
          (case ensureClientAddressLease e (ss_id s) d of
             (d1, None) \<Rightarrow> Inr (fail_scheduling e s ''AddressPoolExhausted'' ''address_pool_exhausted''
                ''No WireGuard client address is currently available'' d1)
           | (d1, Some clientAddress) \<Rightarrow> and_then (renderWireGuardPlan e s path clientAddress) (\<lambda>plan.
               Inr (provision_session e s path plan d1))))"

definition scheduleSessionsForProvisioning :: "env \<Rightarrow> db \<Rightarrow> string + db" where
  "scheduleSessionsForProvisioning e d = for_each (schedule_session e) (listSchedulingSessionsForUpdate d) d"

subsection \<open>Activation and its timeout\<close>

definition activate_session :: "env \<Rightarrow> session_row \<Rightarrow> db \<Rightarrow> string + db" where
  "activate_session e s d =
     and_then (if hasActiveClientConfigArtifact d (ss_id s) then Inr d
               else prepareClientConfigArtifact e (ss_id s) (ss_generation s) d) (\<lambda>d1.
       Inr (insertSessionAuditEvent e ''session_active'' (ss_id s) []
         (setSessionCondition e (ss_id s) ''Ready'' C_True ''AssignmentsApplied'' ''Session is active'' (ss_generation s)
           (markSessionActive e (ss_id s) (activeTransition (ss_generation s)) d1))))"

definition completeProvisionedSessions :: "env \<Rightarrow> db \<Rightarrow> string + db" where
  "completeProvisionedSessions e d = for_each (activate_session e) (listProvisionedSessionsForActivation d) d"

fun assignment_phase_text :: "assignment_phase \<Rightarrow> string" where
  "assignment_phase_text A_planned = ''planned''"
| "assignment_phase_text A_queued = ''queued''"
| "assignment_phase_text A_leased = ''leased''"
| "assignment_phase_text A_applying = ''applying''"
| "assignment_phase_text A_prepared = ''prepared''"
| "assignment_phase_text A_applied = ''applied''"
| "assignment_phase_text A_drifted = ''drifted''"
| "assignment_phase_text A_revoking = ''revoking''"
| "assignment_phase_text A_revoked = ''revoked''"
| "assignment_phase_text A_retryable_failed = ''retryable_failed''"
| "assignment_phase_text A_dead = ''dead''"

definition timeout_message :: "(string \<times> gate_role \<times> assignment_phase) list \<Rightarrow> string" where
  "timeout_message assignments =
     (let pendingText = js_join ''; '' (map (\<lambda>(gateName, role, p).
            js_lower (role_text role) @ '' '' @ gateName @ '': '' @ assignment_phase_text p)
            (filter (\<lambda>(gateName, role, p). p \<noteq> A_applied) assignments))
      in if pendingText = [] then ''Provisioning timed out waiting for gate confirmation''
         else ''Provisioning timed out waiting for gate confirmation ('' @ pendingText @ '')'')"

definition time_out_session :: "env \<Rightarrow> session_row \<Rightarrow> db \<Rightarrow> db" where
  "time_out_session e s d =
     (let message = timeout_message (listAssignmentPhasesForSession d (ss_id s));
          err = error_json ''gate_confirmation_timeout'' message;
          d1 = markApplyJobsDeadForSession e (ss_id s) d;
          d2 = markPendingAssignmentsDeadForSession e (ss_id s) (JObj err) d1;
          d3 = invalidateSessionArtifacts e (ss_id s) d2;
          d4 = markSessionFailed e (ss_id s) (failedTransition (JObj err)) d3;
          d5 = releaseClientAddressLease e (ss_id s) ''provisioning_failed'' d4;
          d6 = setSessionCondition e (ss_id s) ''Ready'' C_False ''ProvisioningFailed'' message (ss_generation s) d5
      in insertSessionAuditEvent e ''session_failed'' (ss_id s) err d6)"

definition failTimedOutProvisioningSessions :: "env \<Rightarrow> int \<Rightarrow> db \<Rightarrow> string + db" where
  "failTimedOutProvisioningSessions e provisioningTimeoutSeconds d =
     for_each (\<lambda>s d. Inr (time_out_session e s d)) (listTimedOutProvisioningSessions e d provisioningTimeoutSeconds) d"

subsection \<open>Revocation\<close>

definition begin_revocation :: "env \<Rightarrow> session_row \<times> session_status_row \<Rightarrow> db \<Rightarrow> db" where
  "begin_revocation e x d = (case beginRevokingTransition (st_phase (snd x)) of
      None \<Rightarrow> d | Some transition \<Rightarrow> markSessionRevoking e (ss_id (fst x)) transition d)"

definition beginSessionRevocation :: "env \<Rightarrow> db \<Rightarrow> string + db" where
  "beginSessionRevocation e d = for_each (\<lambda>x d. Inr (begin_revocation e x d)) (listSessionsToBeginRevocation d) d"

definition finish_revocation :: "env \<Rightarrow> session_row \<Rightarrow> db \<Rightarrow> db" where
  "finish_revocation e s d =
     insertSessionAuditEvent e ''session_revoked'' (ss_id s) []
       (setSessionCondition e (ss_id s) ''Ready'' C_False ''Revoked'' ''Session has been revoked'' (ss_generation s)
         (releaseClientAddressLease e (ss_id s) ''session_revoked''
           (markSessionRevoked e (ss_id s) (revokedTransition (ss_generation s))
             (invalidateSessionArtifacts e (ss_id s) d))))"

definition completeRevokedSessions :: "env \<Rightarrow> db \<Rightarrow> string + db" where
  "completeRevokedSessions e d = for_each (\<lambda>s d. Inr (finish_revocation e s d)) (listSessionsReadyToMarkRevoked d) d"

definition expire_session :: "env \<Rightarrow> uuid \<Rightarrow> db \<Rightarrow> db" where
  "expire_session e sessionId d = revokeEntitlementsForSession e sessionId
     (fst (requestSystemSessionRevocation e sessionId
       (error_json ''entitlement_expired'' ''Session entitlement expired'') d))"

definition reconcileExpiry :: "env \<Rightarrow> db \<Rightarrow> string + db" where
  "reconcileExpiry e d = for_each (\<lambda>s d. Inr (expire_session e s d)) (listExpiredEntitlementSessionIds e d) d"

subsection \<open>Commits and revocation jobs (\<open>assignment-controller.ts\<close>)\<close>

definition network_plan :: "session_row \<Rightarrow> plan_row \<Rightarrow> assignment_material \<Rightarrow> assignment_material \<Rightarrow> js_record" where
  "network_plan s p ingress egress = [(''planId'', JStr (pl_id p)), (''sessionId'', JStr (ss_id s)),
     (''generation'', JInt (ss_generation s)), (''publicMaterial'', JObj (pl_public p)),
     (''routingModel'', JObj (pl_routing p)), (''firewallModel'', JObj (pl_firewall p)),
     (''ingress'', JObj (assignmentNetworkMaterial ingress)), (''egress'', JObj (assignmentNetworkMaterial egress))]"

definition commit_job :: "uuid \<Rightarrow> assignment_material \<Rightarrow> gate_role \<Rightarrow> js_record \<Rightarrow> apply_job_input" where
  "commit_job sessionId m role networkPlan =
     \<lparr>aj_assignment = am_id m, aj_gate = am_gateId m, aj_session = sessionId, aj_operation = Op_commit,
      aj_role = role, aj_plan = None, aj_networkPlan = Some networkPlan\<rparr>"

definition commit_session :: "env \<Rightarrow> session_row \<times> plan_row \<Rightarrow> db \<Rightarrow> db" where
  "commit_session e x d =
     (let s = fst x; assignments = listSessionAssignmentMaterials d (ss_id s) in
      case (find (\<lambda>m. am_role m = Ingress) assignments, find (\<lambda>m. am_role m = Egress) assignments) of
        (Some ingress, Some egress) \<Rightarrow>
          (let networkPlan = network_plan s (snd x) ingress egress;
               d1 = enqueueApplyJob e (commit_job (ss_id s) ingress Ingress networkPlan) d;
               d2 = enqueueApplyJob e (commit_job (ss_id s) egress Egress networkPlan) d1;
               d3 = queuePreparedAssignmentsForCommit e (am_id ingress) (am_id egress) d2;
               d4 = touchSessionStatus e (ss_id s) d3
           in setSessionCondition e (ss_id s) ''Ready'' C_False ''ApplyingNetworkPlan''
                ''Both gates prepared local key material; network plan commit is queued'' (ss_generation s) d4)
      | _ \<Rightarrow> d)"

definition enqueueCommitJobsForPreparedAssignments :: "env \<Rightarrow> db \<Rightarrow> string + db" where
  "enqueueCommitJobsForPreparedAssignments e d =
     for_each (\<lambda>x d. Inr (commit_session e x d)) (listSessionsReadyForCommit d) d"

definition revoke_assignment :: "env \<Rightarrow> revocable_assignment \<Rightarrow> db \<Rightarrow> db" where
  "revoke_assignment e a d =
     enqueueRevokeAssignmentJob e a (requestAssignmentRevocation e (ra_assignmentId a) d)"

definition enqueueRevocationJobsForAssignments :: "env \<Rightarrow> db \<Rightarrow> string + db" where
  "enqueueRevocationJobsForAssignments e d =
     for_each (\<lambda>a d. Inr (revoke_assignment e a d)) (listAssignmentsToRevoke d) d"

subsection \<open>What the statements leave alone\<close>

text \<open>The allocator changes two tables.\<close>

definition address_tables_only :: "db \<Rightarrow> db \<Rightarrow> bool" where
  "address_tables_only d d' \<longleftrightarrow> (\<exists>l p. d' = d\<lparr>address_leases := l, address_pools := p\<rparr>)"

lemma address_tables_refl [simp]: "address_tables_only d d"
  by (auto simp: address_tables_only_def intro!: exI[of _ "address_leases d"] exI[of _ "address_pools d"])

lemma address_tables_iff:
  "address_tables_only d d' \<longleftrightarrow> d' = d\<lparr>address_leases := address_leases d', address_pools := address_pools d'\<rparr>"
  by (auto simp: address_tables_only_def)

lemma address_tables_trans:
  "address_tables_only d d' \<Longrightarrow> address_tables_only d' d'' \<Longrightarrow> address_tables_only d d''"
  unfolding address_tables_iff by (cases d; cases d'; cases d''; simp)

lemma first_success_tables:
  "(\<And>x d. address_tables_only d (fst (f x d))) \<Longrightarrow> address_tables_only d (fst (first_success f xs d))"
proof (induction xs arbitrary: d)
  case (Cons x xs)
  obtain d1 r where f: "f x d = (d1, r)" by (cases "f x d")
  have "address_tables_only d d1" using Cons.prems[of d x] by (simp add: f)
  then show ?case using Cons.IH[OF Cons.prems] by (auto simp: f split: option.split intro: address_tables_trans)
qed simp

lemma ensure_lease_tables: "address_tables_only d (fst (ensureClientAddressLease e s d))"
proof -
  have "address_tables_only d (d\<lparr>address_pools := p\<rparr>)" for d p
    by (auto simp: address_tables_only_def intro!: exI[of _ "address_leases d"])
  then have u: "address_tables_only d (updateAddressPoolNextOffset e i n c)" if "address_tables_only d c" for i n c d
    unfolding updateAddressPoolNextOffset_def using that address_tables_trans by blast
  have t: "address_tables_only d (d\<lparr>address_leases := l\<rparr>)" for d l
    by (auto simp: address_tables_only_def intro!: exI[of _ "address_pools d"])
  have "address_tables_only d (fst (attempt_offset e s pool block k d))" for pool block k d
    by (simp add: attempt_offset_def tryInsertClientAddressLease_def Let_def u t)
  then have "address_tables_only d (fst (attempt_pool e s pool d))" for pool d
    by (simp add: attempt_pool_def first_success_tables split: option.split)
  then show ?thesis by (simp add: ensureClientAddressLease_def first_success_tables split: option.split)
qed

lemma ensure_lease_frame [simp]:
  "sessions (fst (ensureClientAddressLease e s d)) = sessions d"
  "session_status (fst (ensureClientAddressLease e s d)) = session_status d"
  "gate_assignments (fst (ensureClientAddressLease e s d)) = gate_assignments d"
  "assignment_status (fst (ensureClientAddressLease e s d)) = assignment_status d"
  "jobs (fst (ensureClientAddressLease e s d)) = jobs d"
  "rendered_plans (fst (ensureClientAddressLease e s d)) = rendered_plans d"
  "artifacts (fst (ensureClientAddressLease e s d)) = artifacts d"
  "uuid_next (fst (ensureClientAddressLease e s d)) = uuid_next d"
  using ensure_lease_tables[of d e s] by (auto simp: address_tables_only_def)

text \<open>The session phases through the statements of the other resources.\<close>

lemma resource_phase_frame [simp]:
  "phase_of (setSessionCondition e s t c r m n d) u = phase_of d u"
  "phase_of (fst (recordProbeRun e s cs d)) u = phase_of d u"
  "phase_of (fst (ensureClientAddressLease e s d)) u = phase_of d u"
  "phase_of (releaseClientAddressLease e s m d) u = phase_of d u"
  "phase_of (fst (store_plan e v plan d)) u = phase_of d u"
  "phase_of (fst (createAssignment e s g ro p d)) u = phase_of d u"
  "phase_of (enqueueApplyJob e i d) u = phase_of d u"
  "phase_of (enqueueRevokeAssignmentJob e a d) u = phase_of d u"
  "phase_of (insertSessionAuditEvent e m s y d) u = phase_of d u"
  "phase_of (markApplyJobsDeadForSession e s d) u = phase_of d u"
  "phase_of (markPendingAssignmentsDeadForSession e s j d) u = phase_of d u"
  "phase_of (invalidateSessionArtifacts e s d) u = phase_of d u"
  "phase_of (revokeEntitlementsForSession e s d) u = phase_of d u"
  "phase_of (queuePreparedAssignmentsForCommit e s t d) u = phase_of d u"
  "phase_of (requestAssignmentRevocation e s d) u = phase_of d u"
  by (rule phase_of_cong, simp add: setSessionCondition_def upsertSessionCondition_def
      releaseClientAddressLease_def markClientAddressLeaseReleased_def store_plan_def Let_def create_eq
      enqueueApplyJob_def insertApplyAssignmentJob_def insert_job_def gen_uuid_def enqueueRevokeAssignmentJob_def
      insertRevokeAssignmentJob_def insertSessionAuditEvent_def markApplyJobsDeadForSession_def
      markApplyJobsPhaseForSession_def markPendingAssignmentsDeadForSession_def
      markPendingAssignmentsPhaseForSession_def invalidateSessionArtifacts_def invalidateArtifactsForSession_def
      revokeEntitlementsForSession_def queuePreparedAssignmentsForCommit_def markPreparedAssignmentsQueued_def
      requestAssignmentRevocation_def desiredRevokedTransition_def markAssignmentRevoking_def
      updateAssignmentDesiredState_def case_prod_beta split: option.split)+

lemma phase_of_touch_status [simp]: "phase_of (touchSessionStatus e s d) u = phase_of d u"
  by (simp add: touchSessionStatus_def phase_of_touch)

lemma phase_of_prepare:
  assumes "prepareClientConfigArtifact e s g d = Inr d'"
  shows "phase_of d' u = phase_of d u"
proof -
  have "phase_of (attachArtifactToSessionStatus e s a c) u = phase_of c u" for a c
    by (auto simp: attachArtifactToSessionStatus_def phase_of_def row_of_update_status map_option_case split: option.split)
  moreover have "phase_of (insertClientConfigArtifactPayload a c (fst (insertClientConfigArtifact e s p k q d))) u = phase_of d u"
    for a c p k q
    by (simp add: phase_of_def insertClientConfigArtifactPayload_def insertClientConfigArtifact_def gen_uuid_def)
  ultimately show ?thesis
    using assms by (auto simp: prepareClientConfigArtifact_def Let_def case_prod_beta split: option.splits)
qed

subsection \<open>The controllers follow the life cycle\<close>

text \<open>What a transaction may do to the phases: nothing, or steps of \<open>session_step\<close>.\<close>

definition phases_refine :: "db \<Rightarrow> db \<Rightarrow> bool" where
  "phases_refine d d' \<longleftrightarrow> (\<forall>s. rel_option session_step\<^sup>*\<^sup>* (phase_of d s) (phase_of d' s))"

lemma phases_refine_refl [simp]: "phases_refine d d"
  by (simp add: phases_refine_def option.rel_refl)

lemma phases_refine_trans:
  assumes "phases_refine d d'" "phases_refine d' d''"
  shows "phases_refine d d''"
  unfolding phases_refine_def
proof
  fix s
  from assms have "rel_option session_step\<^sup>*\<^sup>* (phase_of d s) (phase_of d' s)"
    "rel_option session_step\<^sup>*\<^sup>* (phase_of d' s) (phase_of d'' s)" by (simp_all add: phases_refine_def)
  then show "rel_option session_step\<^sup>*\<^sup>* (phase_of d s) (phase_of d'' s)"
    by (cases "phase_of d s"; cases "phase_of d' s"; cases "phase_of d'' s") auto
qed

lemma phases_refine_eq: "(\<And>s. phase_of d' s = phase_of d s) \<Longrightarrow> phases_refine d d'"
  by (simp add: phases_refine_def option.rel_refl)

lemma phases_refine_step:
  assumes "phase_of d s = Some p" "\<And>t. phase_of d' t = (if t = s then map_option (\<lambda>_. q) (phase_of d s) else phase_of d t)"
    and "p = q \<or> session_step p q"
  shows "phases_refine d d'"
  using assms by (auto simp: phases_refine_def option.rel_refl)

text \<open>
  The contract of a controller's loop body: it changes the phase of its own session only, and by
  one step when the session is in the phase the loop selects.
\<close>

locale session_loop =
  fixes body :: "'a \<Rightarrow> db \<Rightarrow> string + db" and sid :: "'a \<Rightarrow> uuid" and selected :: "session_phase \<Rightarrow> bool"
  assumes body_others: "body x d = Inr d' \<Longrightarrow> t \<noteq> sid x \<Longrightarrow> phase_of d' t = phase_of d t"
    and body_own: "body x d = Inr d' \<Longrightarrow> phase_of d (sid x) = Some p \<Longrightarrow> selected p \<Longrightarrow>
          \<exists>q. phase_of d' (sid x) = Some q \<and> (q = p \<or> session_step p q)"
begin

lemma body_refines:
  assumes "body x d = Inr d'" "phase_of d (sid x) = Some p" "selected p"
  shows "phases_refine d d'"
proof -
  obtain q where q: "phase_of d' (sid x) = Some q" "q = p \<or> session_step p q" using body_own[OF assms] by blast
  have "rel_option session_step\<^sup>*\<^sup>* (phase_of d t) (phase_of d' t)" for t
  proof (cases "t = sid x")
    case True
    with q assms(2) show ?thesis by auto
  next
    case False
    with body_others[OF assms(1)] show ?thesis by (simp add: option.rel_refl)
  qed
  then show ?thesis by (simp add: phases_refine_def)
qed

lemma loop_others: "for_each body xs d = Inr d' \<Longrightarrow> t \<notin> sid ` set xs \<Longrightarrow> phase_of d' t = phase_of d t"
  by (induction xs arbitrary: d) (auto dest: body_others)

lemma loop_refines:
  assumes "for_each body xs d = Inr d'" "distinct (map sid xs)"
    and "\<And>x. x \<in> set xs \<Longrightarrow> \<exists>p. phase_of d (sid x) = Some p \<and> selected p"
  shows "phases_refine d d'"
  using assms
proof (induction xs arbitrary: d)
  case (Cons x xs)
  from Cons.prems(1) obtain d1 where d1: "body x d = Inr d1" "for_each body xs d1 = Inr d'" by auto
  obtain p where p: "phase_of d (sid x) = Some p" "selected p" using Cons.prems(3)[of x] by auto
  have "\<exists>p. phase_of d1 (sid y) = Some p \<and> selected p" if "y \<in> set xs" for y
  proof -
    have "sid y \<in> sid ` set xs" using that by (rule imageI)
    then have "sid y \<noteq> sid x" using Cons.prems(2) by auto
    with body_others[OF d1(1)] Cons.prems(3)[of y] that show ?thesis by simp
  qed
  with Cons.IH[OF d1(2)] Cons.prems(2) have "phases_refine d1 d'" by simp
  with body_refines[OF d1(1) p] show ?case by (rule phases_refine_trans)
qed simp

end

interpretation probing_loop: session_loop "\<lambda>s d. Inr (begin_probing e s d)" ss_id "\<lambda>p. p = S_requested" for e
  by unfold_locales (auto simp: begin_probing_def phase_of_statements probingTransition_def intro: session_step.intros)

interpretation advance_loop: session_loop "\<lambda>s d. Inr (advance_probed e s d)" ss_id "\<lambda>p. p = S_probing" for e
  by unfold_locales (auto simp: advance_probed_def phase_of_statements schedulingTransition_def intro: session_step.intros)

lemma phase_of_fail_scheduling: "phase_of (fail_scheduling e s r c m d) t =
    (if t = ss_id s then map_option (\<lambda>_. S_failed) (phase_of d t) else phase_of d t)"
  by (simp add: fail_scheduling_def phase_of_statements failedTransition_def)

lemma phase_of_provision: "phase_of (provision_session e s path plan d) t =
    (if t = ss_id s then map_option (\<lambda>_. S_provisioning) (phase_of d t) else phase_of d t)"
  by (simp add: provision_session_def phase_of_statements provisioningTransition_def case_prod_beta Let_def)

lemma phase_of_schedule:
  assumes "schedule_session e s d = Inr d'"
  shows "(\<forall>t. phase_of d' t = (if t = ss_id s then map_option (\<lambda>_. S_failed) (phase_of d t) else phase_of d t))
    \<or> (\<forall>t. phase_of d' t = (if t = ss_id s then map_option (\<lambda>_. S_provisioning) (phase_of d t) else phase_of d t))"
proof (cases "choosePath e d (ss_spec s)")
  case (Inl err)
  with assms show ?thesis by (simp add: schedule_session_def)
next
  case (Inr path)
  show ?thesis
  proof (cases path)
    case None
    with Inr assms show ?thesis by (auto simp: schedule_session_def phase_of_fail_scheduling)
  next
    case (Some p)
    obtain d1 a where l: "ensureClientAddressLease e (ss_id s) d = (d1, a)" by (cases "ensureClientAddressLease e (ss_id s) d")
    have d1: "phase_of d1 t = phase_of d t" for t using resource_phase_frame(3)[of e "ss_id s" d t] by (simp add: l)
    show ?thesis using Inr Some assms
      by (cases a) (auto simp: schedule_session_def l phase_of_fail_scheduling phase_of_provision d1)
  qed
qed

interpretation schedule_loop: session_loop "schedule_session e" ss_id "\<lambda>p. p = S_scheduling" for e
proof
  show "schedule_session e x d = Inr d' \<Longrightarrow> t \<noteq> ss_id x \<Longrightarrow> phase_of d' t = phase_of d t" for x d d' t
    using phase_of_schedule[of e x d d'] by auto
  show "\<exists>q. phase_of d' (ss_id x) = Some q \<and> (q = p \<or> session_step p q)"
    if "schedule_session e x d = Inr d'" "phase_of d (ss_id x) = Some p" "p = S_scheduling" for x d d' p
    using phase_of_schedule[OF that(1)] that(2,3) by (auto intro: session_step.intros)
qed

lemma phase_of_activate:
  assumes "activate_session e s d = Inr d'"
  shows "phase_of d' t = (if t = ss_id s then map_option (\<lambda>_. S_active) (phase_of d t) else phase_of d t)"
  using assms phase_of_prepare[of e "ss_id s" "ss_generation s" d]
  by (auto simp: activate_session_def phase_of_statements activeTransition_def split: if_splits)

interpretation activate_loop: session_loop "activate_session e" ss_id "\<lambda>p. p = S_provisioning" for e
  by unfold_locales (auto simp: phase_of_activate intro: session_step.intros)

interpretation timeout_loop: session_loop "\<lambda>s d. Inr (time_out_session e s d)" ss_id "\<lambda>p. p = S_provisioning" for e
  by unfold_locales (auto simp: time_out_session_def Let_def phase_of_statements failedTransition_def intro: session_step.intros)

interpretation revoking_loop: session_loop "\<lambda>x d. Inr (begin_revocation e x d)" "\<lambda>x. ss_id (fst x)" "\<lambda>p. p \<noteq> S_revoked" for e
  by unfold_locales (auto simp: begin_revocation_def beginRevokingTransition_def phase_of_statements
      intro: session_step.intros split: if_splits)

interpretation finish_loop: session_loop "\<lambda>s d. Inr (finish_revocation e s d)" ss_id "\<lambda>p. p = S_revoking" for e
  by unfold_locales (auto simp: finish_revocation_def phase_of_statements revokedTransition_def intro: session_step.intros)

text \<open>The selections: at most one row per session, in the phase asked for.\<close>

lemma distinct_filter_key: "distinct (map f t) \<Longrightarrow> length (filter (\<lambda>x. f x = k) t) \<le> 1"
  by (induction t) (auto simp: filter_empty_conv image_iff)

lemma join_distinct:
  assumes "wf_sessions d"
  shows "distinct (map (\<lambda>x. ss_id (fst x)) (session_join d))"
proof -
  have st: "length (filter (\<lambda>st. st_session st = k) (session_status d)) \<le> 1" for k
    using assms distinct_filter_key by (auto simp: wf_sessions_def)
  have "distinct (map ss_id t) \<Longrightarrow> distinct (map (\<lambda>x. ss_id (fst x)) (concat (map (\<lambda>s. map (\<lambda>st. (s, st))
      (filter (\<lambda>st. st_session st = ss_id s) (session_status d))) t)))" for t :: "session_row list"
  proof (induction t)
    case (Cons a t)
    have "distinct (map (\<lambda>x. ss_id (fst x)) (map (\<lambda>st. (a, st)) (filter (\<lambda>st. st_session st = ss_id a) (session_status d))))"
      using st[of "ss_id a"] by (cases "filter (\<lambda>st. st_session st = ss_id a) (session_status d)") (auto simp: o_def)
    with Cons show ?case by (auto simp: o_def)
  qed simp
  with assms show ?thesis by (simp add: session_join_def wf_sessions_def)
qed

lemma distinct_key_take: "distinct (map f xs) \<Longrightarrow> distinct (map f (take n xs))"
  by (simp add: take_map[symmetric])

lemma distinct_key_sort: "distinct (map f (sort_key k xs)) \<longleftrightarrow> distinct (map f xs)"
  by (simp add: distinct_map)

lemma distinct_key_filter: "distinct (map f xs) \<Longrightarrow> distinct (map f (filter P xs))"
  by (rule distinct_map_filter)

lemmas distinct_listing = distinct_key_take distinct_key_sort distinct_key_filter

lemma join_phase:
  assumes "wf_sessions d" "x \<in> set (session_join d)"
  shows "phase_of d (ss_id (fst x)) = Some (st_phase (snd x))" "fst x \<in> set (sessions d)"
  using assms in_session_join[of "fst x" "snd x" d] phase_of_row[OF assms(1), of "snd x"] by auto

lemma phase_listing:
  assumes "wf_sessions d"
  shows "distinct (map ss_id (listSessionRowsForPhaseForUpdate d p))"
    "s \<in> set (listSessionRowsForPhaseForUpdate d p) \<Longrightarrow> phase_of d (ss_id s) = Some p"
proof -
  show "distinct (map ss_id (listSessionRowsForPhaseForUpdate d p))"
    using join_distinct[OF assms]
    by (simp add: listSessionRowsForPhaseForUpdate_def distinct_listing o_def)
  assume "s \<in> set (listSessionRowsForPhaseForUpdate d p)"
  then have "s \<in> fst ` {x \<in> set (session_join d). st_phase (snd x) = p}"
    by (auto simp: listSessionRowsForPhaseForUpdate_def image_iff dest!: in_set_takeD)
  with join_phase[OF assms] show "phase_of d (ss_id s) = Some p" by auto
qed

lemma provisioned_listing:
  assumes "wf_sessions d"
  shows "distinct (map ss_id (listProvisionedSessionsForActivation d))"
    "s \<in> set (listProvisionedSessionsForActivation d) \<Longrightarrow>
       phase_of d (ss_id s) = Some S_provisioning \<and> count_assignments d (ss_id s) A_applied = 2"
proof -
  show "distinct (map ss_id (listProvisionedSessionsForActivation d))"
    using join_distinct[OF assms] by (simp add: listProvisionedSessionsForActivation_def distinct_listing o_def)
  assume "s \<in> set (listProvisionedSessionsForActivation d)"
  then have "s \<in> fst ` {x \<in> set (session_join d). st_phase (snd x) = S_provisioning
      \<and> count_assignments d (ss_id (fst x)) A_applied = 2}"
    by (auto simp: listProvisionedSessionsForActivation_def image_iff dest!: in_set_takeD)
  with join_phase[OF assms] show "phase_of d (ss_id s) = Some S_provisioning \<and> count_assignments d (ss_id s) A_applied = 2"
    by auto
qed

lemma timed_out_listing:
  assumes "wf_sessions d"
  shows "distinct (map ss_id (listTimedOutProvisioningSessions e d n))"
    "s \<in> set (listTimedOutProvisioningSessions e d n) \<Longrightarrow> phase_of d (ss_id s) = Some S_provisioning"
proof -
  show "distinct (map ss_id (listTimedOutProvisioningSessions e d n))"
    using join_distinct[OF assms] by (simp add: listTimedOutProvisioningSessions_def distinct_listing o_def)
  assume "s \<in> set (listTimedOutProvisioningSessions e d n)"
  then have "s \<in> fst ` {x \<in> set (session_join d). st_phase (snd x) = S_provisioning}"
    by (auto simp: listTimedOutProvisioningSessions_def image_iff dest!: in_set_takeD)
  with join_phase[OF assms] show "phase_of d (ss_id s) = Some S_provisioning" by auto
qed

lemma revoking_listing:
  assumes "wf_sessions d"
  shows "distinct (map (\<lambda>x. ss_id (fst x)) (listSessionsToBeginRevocation d))"
    "x \<in> set (listSessionsToBeginRevocation d) \<Longrightarrow>
       phase_of d (ss_id (fst x)) = Some (st_phase (snd x)) \<and> st_phase (snd x) \<noteq> S_revoked"
proof -
  show "distinct (map (\<lambda>x. ss_id (fst x)) (listSessionsToBeginRevocation d))"
    using join_distinct[OF assms] by (simp add: listSessionsToBeginRevocation_def distinct_listing)
  assume "x \<in> set (listSessionsToBeginRevocation d)"
  then have "x \<in> set (session_join d)" "st_phase (snd x) \<noteq> S_revoked"
    by (auto simp: listSessionsToBeginRevocation_def dest!: in_set_takeD)
  with join_phase[OF assms] show "phase_of d (ss_id (fst x)) = Some (st_phase (snd x)) \<and> st_phase (snd x) \<noteq> S_revoked" by blast
qed

lemma revoked_listing:
  assumes "wf_sessions d"
  shows "distinct (map ss_id (listSessionsReadyToMarkRevoked d))"
    "s \<in> set (listSessionsReadyToMarkRevoked d) \<Longrightarrow>
       phase_of d (ss_id s) = Some S_revoking \<and> all_assignments_revoked d (ss_id s)"
proof -
  show "distinct (map ss_id (listSessionsReadyToMarkRevoked d))"
    using join_distinct[OF assms] by (simp add: listSessionsReadyToMarkRevoked_def distinct_listing o_def)
  assume "s \<in> set (listSessionsReadyToMarkRevoked d)"
  then have "s \<in> fst ` {x \<in> set (session_join d). st_phase (snd x) = S_revoking \<and> all_assignments_revoked d (ss_id (fst x))}"
    by (auto simp: listSessionsReadyToMarkRevoked_def image_iff dest!: in_set_takeD)
  with join_phase[OF assms] show "phase_of d (ss_id s) = Some S_revoking \<and> all_assignments_revoked d (ss_id s)" by auto
qed

text \<open>The keys of the session tables, which no controller changes.\<close>

definition session_keys :: "db \<Rightarrow> uuid list \<times> uuid list" where
  "session_keys d = (map ss_id (sessions d), map st_session (session_status d))"

lemma wf_session_keys: "wf_sessions d \<longleftrightarrow> distinct (fst (session_keys d)) \<and> distinct (snd (session_keys d))"
  by (simp add: wf_sessions_def session_keys_def)

lemma expire_refines:
  assumes "wf_sessions d"
  shows "phases_refine d (expire_session e s d) \<and> wf_sessions (expire_session e s d)"
proof (cases "findSessionPhaseForUpdate d s")
  case None
  then have same: "session_status (expire_session e s d) = session_status d" "sessions (expire_session e s d) = sessions d"
    by (simp_all add: expire_session_def requestSystemSessionRevocation_def revokeEntitlementsForSession_def)
  then show ?thesis using assms by (simp add: phases_refine_eq phase_of_def wf_sessions_def)
next
  case (Some p)
  then obtain a st where f: "find (\<lambda>(x, st). ss_id x = s \<and> ss_hidden x = None) (session_join d) = Some (a, st)" "p = st_phase st"
    by (auto simp: findSessionPhaseForUpdate_def)
  have a: "a \<in> set (sessions d)" "ss_id a = s" "phase_of d s = Some p"
    using find_join_SomeD[OF f(1)] f(2) phase_of_row[OF assms] by fastforce+
  let ?r = "apply_revocation e s p d"
  have eff: "session_status (expire_session e s d) = session_status ?r" "sessions (expire_session e s d) = sessions ?r"
    using Some by (simp_all add: expire_session_def requestSystemSessionRevocation_def revokeEntitlementsForSession_def
        insertSystemSessionRevokeRequestedAudit_def)
  have phases: "phase_of ?r t = (if t = s then map_option (\<lambda>_. if p = S_revoked then S_revoked else S_revoking) (phase_of d s)
      else phase_of d t)" for t
    by (simp add: apply_revocation_def Let_def requestRevocationTransition_def phase_of_statements)
       (simp add: phase_of_def)
  have "phases_refine d (expire_session e s d)"
    using phases phase_of_cong[OF eff(1)]
    by (intro phases_refine_step[OF a(3), of _ "if p = S_revoked then S_revoked else S_revoking"])
       (auto intro: session_step.revoke)
  moreover have "session_keys ?r = session_keys d"
    by (simp add: session_keys_def apply_revocation_def Let_def requestRevocationTransition_def
        updateSessionStatusPhase_def update_status_def updateSessionDesiredState_def map_update_where)
  then have "session_keys (expire_session e s d) = session_keys d" using eff by (simp add: session_keys_def)
  ultimately show ?thesis using assms by (simp add: wf_session_keys)
qed

lemma expiry_refines:
  "for_each (\<lambda>s d. Inr (expire_session e s d)) xs d = Inr d' \<Longrightarrow> wf_sessions d \<Longrightarrow> phases_refine d d' \<and> wf_sessions d'"
proof (induction xs arbitrary: d)
  case (Cons s xs)
  from expire_refines[OF Cons.prems(2)] Cons.IH[of "expire_session e s d"] Cons.prems(1)
  show ?case by (auto intro: phases_refine_trans)
qed simp

lemma for_each_keeps:
  assumes "for_each body xs d = Inr d'" "\<And>x d d'. body x d = Inr d' \<Longrightarrow> f d' = f d"
  shows "f d' = f d"
  using assms(1) by (induction xs arbitrary: d) (auto dest: assms(2))

lemma keys_update_status: "(\<And>r. st_session (f r) = st_session r) \<Longrightarrow> session_keys (update_status s f d) = session_keys d"
  by (simp add: session_keys_def update_status_def map_update_where)

lemma session_keys_cong: "sessions d' = sessions d \<Longrightarrow> session_status d' = session_status d \<Longrightarrow> session_keys d' = session_keys d"
  by (simp add: session_keys_def)

lemma keys_frame [simp]:
  "session_keys (setSessionCondition e s t c r m n d) = session_keys d"
  "session_keys (fst (recordProbeRun e s cs d)) = session_keys d"
  "session_keys (fst (ensureClientAddressLease e s d)) = session_keys d"
  "session_keys (releaseClientAddressLease e s m d) = session_keys d"
  "session_keys (fst (store_plan e v plan d)) = session_keys d"
  "session_keys (fst (createAssignment e s g ro p d)) = session_keys d"
  "session_keys (enqueueApplyJob e i d) = session_keys d"
  "session_keys (insertSessionAuditEvent e m s y d) = session_keys d"
  "session_keys (markApplyJobsDeadForSession e s d) = session_keys d"
  "session_keys (markPendingAssignmentsDeadForSession e s j d) = session_keys d"
  "session_keys (invalidateSessionArtifacts e s d) = session_keys d"
  by (rule session_keys_cong; simp add: setSessionCondition_def upsertSessionCondition_def
      releaseClientAddressLease_def markClientAddressLeaseReleased_def store_plan_def Let_def create_eq
      enqueueApplyJob_def insertApplyAssignmentJob_def insert_job_def gen_uuid_def insertSessionAuditEvent_def
      markApplyJobsDeadForSession_def markApplyJobsPhaseForSession_def markPendingAssignmentsDeadForSession_def
      markPendingAssignmentsPhaseForSession_def invalidateSessionArtifacts_def invalidateArtifactsForSession_def
      case_prod_beta split: option.split)+

lemma keys_statements [simp]:
  "session_keys (updateSessionStatusPhase e s tr sp d) = session_keys d"
  "session_keys (markSessionFailed e s tr d) = session_keys d"
  "session_keys (markSessionActive e s tr d) = session_keys d"
  "session_keys (markSessionRevoked e s tr d) = session_keys d"
  "session_keys (markSessionRevoking e s tr d) = session_keys d"
  "session_keys (markSessionProvisioning e s tr j d) = session_keys d"
  "session_keys (touchSessionStatus e s d) = session_keys d"
  unfolding status_statements touchSessionStatus_def by (simp_all add: keys_update_status)

lemma keys_prepare: "prepareClientConfigArtifact e s g d = Inr d' \<Longrightarrow> session_keys d' = session_keys d"
  by (auto simp: prepareClientConfigArtifact_def Let_def case_prod_beta attachArtifactToSessionStatus_def keys_update_status
      insertClientConfigArtifactPayload_def insertClientConfigArtifact_def gen_uuid_def split: option.splits)
     (simp_all add: session_keys_def)

lemma keys_schedule: "schedule_session e s d = Inr d' \<Longrightarrow> session_keys d' = session_keys d"
  using keys_frame(3)[of e "ss_id s" d]
  by (auto simp: schedule_session_def fail_scheduling_def provision_session_def case_prod_beta Let_def
      split: sum.splits option.splits prod.splits simp del: keys_frame(3))

lemma keys_activate: "activate_session e s d = Inr d' \<Longrightarrow> session_keys d' = session_keys d"
  by (auto simp: activate_session_def dest: keys_prepare split: if_splits)

text \<open>The worker's transactions on sessions.\<close>

inductive session_controller :: "db \<Rightarrow> db \<Rightarrow> bool" where
  probing: "beginRequestedSessionProbing e d = Inr d' \<Longrightarrow> session_controller d d'"
| advancing: "advanceProbedSessionsToScheduling e d = Inr d' \<Longrightarrow> session_controller d d'"
| scheduling: "scheduleSessionsForProvisioning e d = Inr d' \<Longrightarrow> session_controller d d'"
| committing: "enqueueCommitJobsForPreparedAssignments e d = Inr d' \<Longrightarrow> session_controller d d'"
| completing: "completeProvisionedSessions e d = Inr d' \<Longrightarrow> session_controller d d'"
| timing_out: "failTimedOutProvisioningSessions e n d = Inr d' \<Longrightarrow> session_controller d d'"
| revoking: "beginSessionRevocation e d = Inr d' \<Longrightarrow> session_controller d d'"
| revoking_assignments: "enqueueRevocationJobsForAssignments e d = Inr d' \<Longrightarrow> session_controller d d'"
| finishing: "completeRevokedSessions e d = Inr d' \<Longrightarrow> session_controller d d'"
| expiring: "reconcileExpiry e d = Inr d' \<Longrightarrow> session_controller d d'"

lemma commit_session_frame:
  "phase_of (commit_session e x d) t = phase_of d t" "session_keys (commit_session e x d) = session_keys d"
proof -
  have q: "session_keys (queuePreparedAssignmentsForCommit e a b c) = session_keys c" for a b c
    by (simp add: session_keys_def queuePreparedAssignmentsForCommit_def markPreparedAssignmentsQueued_def)
  show "phase_of (commit_session e x d) t = phase_of d t" "session_keys (commit_session e x d) = session_keys d"
    by (simp_all add: commit_session_def Let_def q split: option.split)
qed

lemma revoke_assignment_frame:
  "phase_of (revoke_assignment e a d) t = phase_of d t" "session_keys (revoke_assignment e a d) = session_keys d"
proof -
  have "session_keys (enqueueRevokeAssignmentJob e a c) = session_keys c"
    "session_keys (requestAssignmentRevocation e i c) = session_keys c" for c i
    by (simp_all add: session_keys_def enqueueRevokeAssignmentJob_def insertRevokeAssignmentJob_def insert_job_def
        gen_uuid_def requestAssignmentRevocation_def desiredRevokedTransition_def markAssignmentRevoking_def
        updateAssignmentDesiredState_def)
  then show "phase_of (revoke_assignment e a d) t = phase_of d t" "session_keys (revoke_assignment e a d) = session_keys d"
    by (simp_all add: revoke_assignment_def)
qed

lemma controller_step:
  assumes "session_controller d d'" "wf_sessions d"
  shows "phases_refine d d' \<and> wf_sessions d'"
  using assms
proof (cases rule: session_controller.cases)
  case (probing e)
  have "session_keys d' = session_keys d"
    by (rule for_each_keeps[OF probing[unfolded beginRequestedSessionProbing_def]]) (auto simp: begin_probing_def)
  moreover have "phases_refine d d'"
    by (rule probing_loop.loop_refines[OF probing[unfolded beginRequestedSessionProbing_def]])
       (simp_all add: listRequestedSessionsForUpdate_def phase_listing[OF assms(2)])
  ultimately show ?thesis using assms(2) by (simp add: wf_session_keys)
next
  case (advancing e)
  have "session_keys d' = session_keys d"
    by (rule for_each_keeps[OF advancing[unfolded advanceProbedSessionsToScheduling_def]]) (auto simp: advance_probed_def)
  moreover have "phases_refine d d'"
    by (rule advance_loop.loop_refines[OF advancing[unfolded advanceProbedSessionsToScheduling_def]])
       (simp_all add: listProbingSessionsForUpdate_def phase_listing[OF assms(2)])
  ultimately show ?thesis using assms(2) by (simp add: wf_session_keys)
next
  case (scheduling e)
  have "session_keys d' = session_keys d"
    by (rule for_each_keeps[OF scheduling[unfolded scheduleSessionsForProvisioning_def]]) (rule keys_schedule)
  moreover have "phases_refine d d'"
    by (rule schedule_loop.loop_refines[OF scheduling[unfolded scheduleSessionsForProvisioning_def]])
       (simp_all add: listSchedulingSessionsForUpdate_def phase_listing[OF assms(2)])
  ultimately show ?thesis using assms(2) by (simp add: wf_session_keys)
next
  case (committing e)
  have "session_keys d' = session_keys d" "phase_of d' t = phase_of d t" for t
    by (rule for_each_keeps[OF committing[unfolded enqueueCommitJobsForPreparedAssignments_def]],
        auto simp: commit_session_frame)+
  then show ?thesis using assms(2) by (simp add: wf_session_keys phases_refine_eq)
next
  case (completing e)
  have "session_keys d' = session_keys d"
    by (rule for_each_keeps[OF completing[unfolded completeProvisionedSessions_def]]) (rule keys_activate)
  moreover have "phases_refine d d'"
    by (rule activate_loop.loop_refines[OF completing[unfolded completeProvisionedSessions_def]])
       (simp_all add: provisioned_listing[OF assms(2)])
  ultimately show ?thesis using assms(2) by (simp add: wf_session_keys)
next
  case (timing_out e n)
  have "session_keys d' = session_keys d"
    by (rule for_each_keeps[OF timing_out[unfolded failTimedOutProvisioningSessions_def]])
       (auto simp: time_out_session_def Let_def)
  moreover have "phases_refine d d'"
    by (rule timeout_loop.loop_refines[OF timing_out[unfolded failTimedOutProvisioningSessions_def]])
       (simp_all add: timed_out_listing[OF assms(2)])
  ultimately show ?thesis using assms(2) by (simp add: wf_session_keys)
next
  case (revoking e)
  have "session_keys d' = session_keys d"
    by (rule for_each_keeps[OF revoking[unfolded beginSessionRevocation_def]])
       (auto simp: begin_revocation_def split: option.split)
  moreover have "phases_refine d d'"
    by (rule revoking_loop.loop_refines[OF revoking[unfolded beginSessionRevocation_def]])
       (simp_all add: revoking_listing[OF assms(2)])
  ultimately show ?thesis using assms(2) by (simp add: wf_session_keys)
next
  case (revoking_assignments e)
  have "session_keys d' = session_keys d" "phase_of d' t = phase_of d t" for t
    by (rule for_each_keeps[OF revoking_assignments[unfolded enqueueRevocationJobsForAssignments_def]],
        auto simp: revoke_assignment_frame)+
  then show ?thesis using assms(2) by (simp add: wf_session_keys phases_refine_eq)
next
  case (finishing e)
  have "session_keys d' = session_keys d"
    by (rule for_each_keeps[OF finishing[unfolded completeRevokedSessions_def]]) (auto simp: finish_revocation_def)
  moreover have "phases_refine d d'"
    by (rule finish_loop.loop_refines[OF finishing[unfolded completeRevokedSessions_def]])
       (simp_all add: revoked_listing[OF assms(2)])
  ultimately show ?thesis using assms(2) by (simp add: wf_session_keys)
next
  case (expiring e)
  from expiry_refines[OF expiring[unfolded reconcileExpiry_def] assms(2)] show ?thesis .
qed

text \<open>
  C1: However the worker's transactions follow one another, every session's phase moves along the
  abstract life cycle only: the controllers refine \<open>session_step\<close>, and in particular a revoked
  session stays revoked.
\<close>

theorem controllers_follow_lifecycle:
  assumes "session_controller\<^sup>*\<^sup>* d d'" "wf_sessions d"
  shows "(\<forall>s. rel_option session_step\<^sup>*\<^sup>* (phase_of d s) (phase_of d' s))
    \<and> (\<forall>s. phase_of d s = Some S_revoked \<longrightarrow> phase_of d' s = Some S_revoked)"
proof -
  have "phases_refine d d' \<and> wf_sessions d'"
    using assms by (induction rule: rtranclp_induct) (auto dest: controller_step intro: phases_refine_trans)
  then have r: "rel_option session_step\<^sup>*\<^sup>* (phase_of d s) (phase_of d' s)" for s by (simp add: phases_refine_def)
  moreover have "phase_of d' s = Some S_revoked" if "phase_of d s = Some S_revoked" for s
    using r[of s] that session_machine.final_forever[of S_revoked] by (cases "phase_of d' s") auto
  ultimately show ?thesis by blast
qed

subsection \<open>Activation\<close>


lemma artifact_frame [simp]:
  "artifacts (insertSessionAuditEvent e m s y d) = artifacts d"
  "artifacts (setSessionCondition e s t c r m n d) = artifacts d"
  "artifacts (markSessionActive e s tr d) = artifacts d"
  by (simp_all add: insertSessionAuditEvent_def setSessionCondition_def upsertSessionCondition_def
      markSessionActive_def mark_observed_def update_status_def)




subsection \<open>The end of a session\<close>

definition artifacts_invalidated :: "db \<Rightarrow> uuid \<Rightarrow> bool" where
  "artifacts_invalidated d s \<longleftrightarrow> list_all (\<lambda>a. ar_session a = s \<longrightarrow> ar_invalidatedAt a \<noteq> None) (artifacts d)"

definition released_session :: "db \<Rightarrow> uuid \<Rightarrow> bool" where
  "released_session d s \<longleftrightarrow> artifacts_invalidated d s \<and> \<not> has_lease d s"

lemma finish_tables:
  "artifacts (finish_revocation e v d) = artifacts (invalidateSessionArtifacts e (ss_id v) d)"
  "address_leases (finish_revocation e v d) = address_leases (releaseClientAddressLease e (ss_id v) ''session_revoked'' d)"
  by (simp_all add: finish_revocation_def insertSessionAuditEvent_def setSessionCondition_def upsertSessionCondition_def
      markSessionRevoked_def mark_observed_def update_status_def releaseClientAddressLease_def
      markClientAddressLeaseReleased_def invalidateSessionArtifacts_def invalidateArtifactsForSession_def)

lemma has_lease_cong: "address_leases d' = address_leases d \<Longrightarrow> has_lease d' s = has_lease d s"
  by (simp add: has_lease_def active_leases_def)

lemma finish_releases:
  "released_session (finish_revocation e v d) (ss_id v)" "released_session d t \<Longrightarrow> released_session (finish_revocation e v d) t"
proof -
  have inv: "artifacts_invalidated (finish_revocation e v d) t \<longleftrightarrow> t = ss_id v \<or> artifacts_invalidated d t" for t
    by (auto simp: artifacts_invalidated_def finish_tables invalidateSessionArtifacts_def invalidateArtifactsForSession_def
        list_all_iff set_update_where split: if_splits)
  have lease: "has_lease (finish_revocation e v d) t \<longleftrightarrow> t \<noteq> ss_id v \<and> has_lease d t" for t
    using has_lease_cong[OF finish_tables(2)] release_no_lease release_other_lease by (cases "t = ss_id v") auto
  show "released_session (finish_revocation e v d) (ss_id v)" "released_session d t \<Longrightarrow> released_session (finish_revocation e v d) t"
    by (auto simp: released_session_def inv lease)
qed

lemma finish_all:
  "for_each (\<lambda>v d. Inr (finish_revocation e v d)) xs d = Inr d' \<Longrightarrow> t \<in> ss_id ` set xs \<or> released_session d t \<Longrightarrow>
   released_session d' t"
proof (induction xs arbitrary: d)
  case (Cons x xs)
  from Cons.prems(2) finish_releases have "t \<in> ss_id ` set xs \<or> released_session (finish_revocation e x d) t" by auto
  with Cons.IH[of "finish_revocation e x d"] Cons.prems(1) show ?case by simp
qed simp

text \<open>
  C4: A session becomes revoked only from \<open>revoking\<close> and only when every assignment it has is
  revoked; by then its client address is free and all its artifacts are invalidated.
\<close>

theorem revoked_cleaned_up:
  assumes "wf_sessions d" "completeRevokedSessions e d = Inr d'"
    and "phase_of d' s = Some S_revoked" "phase_of d s \<noteq> Some S_revoked"
  shows "phase_of d s = Some S_revoking \<and> all_assignments_revoked d s \<and> \<not> has_lease d' s
    \<and> list_all (\<lambda>a. ar_session a = s \<longrightarrow> ar_invalidatedAt a \<noteq> None) (artifacts d')"
proof -
  note loop = assms(2)[unfolded completeRevokedSessions_def]
  have s: "s \<in> ss_id ` set (listSessionsReadyToMarkRevoked d)"
    using finish_loop.loop_others[OF loop, of s] assms(3,4) by auto
  with finish_all[OF loop] have "released_session d' s" by blast
  with s revoked_listing(2)[OF assms(1)] show ?thesis
    unfolding released_session_def artifacts_invalidated_def by blast
qed

subsection \<open>Witnesses\<close>

definition in_phase :: "session_phase \<Rightarrow> db \<Rightarrow> db" where
  "in_phase p d = d\<lparr>sessions := [byo_session], session_status := [\<lparr>st_session = ''s1'', st_phase = p,
     st_observedGeneration = 1, st_selectedPath = None, st_artifact = None, st_lastError = None, st_updated = 0\<rparr>]\<rparr>"

lemma in_phase_simps [simp]: "wf_sessions (in_phase p d)" "phase_of (in_phase p d) ''s1'' = Some p"
  by (simp_all add: wf_sessions_def in_phase_def phase_of_def row_of_def)

theorem controllers_follow_lifecycle_witness:
  "\<exists>d'. beginRequestedSessionProbing sample_env (in_phase S_requested gates_db) = Inr d'
     \<and> phase_of d' ''s1'' = Some S_probing \<and> session_step\<^sup>*\<^sup>* S_requested S_probing"
proof -
  obtain d' where d': "beginRequestedSessionProbing sample_env (in_phase S_requested gates_db) = Inr d'"
    "phase_of d' ''s1'' = Some S_probing"
  proof -
    have "case beginRequestedSessionProbing sample_env (in_phase S_requested gates_db) of
        Inl _ \<Rightarrow> False | Inr d' \<Rightarrow> phase_of d' ''s1'' = Some S_probing" by code_simp
    with that show thesis by (auto split: sum.splits)
  qed
  have "session_controller\<^sup>*\<^sup>* (in_phase S_requested gates_db) d'"
    using session_controller.probing[OF d'(1)] by (rule r_into_rtranclp)
  then have "rel_option session_step\<^sup>*\<^sup>* (phase_of (in_phase S_requested gates_db) ''s1'') (phase_of d' ''s1'')"
    using controllers_follow_lifecycle in_phase_simps(1) by blast
  with d' show ?thesis by simp
qed


definition revoked_db :: db where
  "revoked_db = in_phase S_revoking (downloadable_db\<lparr>
     assignment_status := [new_assignment_status sample_env ''a1'' A_revoked, new_assignment_status sample_env ''a2'' A_revoked],
     address_leases := [\<lparr>al_pool = ''p1'', al_session = ''s1'', al_address = ''10.64.0.1'', al_allocated = 0,
       al_released = None, al_reason = None\<rparr>]\<rparr>)"

theorem revoked_cleaned_up_witness:
  "has_lease revoked_db ''s1'' \<and> (\<exists>d'. completeRevokedSessions sample_env revoked_db = Inr d'
     \<and> phase_of d' ''s1'' = Some S_revoked \<and> \<not> has_lease d' ''s1'')"
proof -
  have "case completeRevokedSessions sample_env revoked_db of
      Inl _ \<Rightarrow> False | Inr d' \<Rightarrow> phase_of d' ''s1'' = Some S_revoked" by code_simp
  then obtain d' where d': "completeRevokedSessions sample_env revoked_db = Inr d'"
    "phase_of d' ''s1'' = Some S_revoked" by (auto split: sum.splits)
  have "wf_sessions revoked_db" "phase_of revoked_db ''s1'' \<noteq> Some S_revoked" by (simp_all add: revoked_db_def)
  from revoked_cleaned_up[OF this(1) d' this(2)] d'
  have "\<exists>d'. completeRevokedSessions sample_env revoked_db = Inr d'
     \<and> phase_of d' ''s1'' = Some S_revoked \<and> \<not> has_lease d' ''s1''" by blast
  moreover have "has_lease revoked_db ''s1''" by code_simp
  ultimately show ?thesis by blast
qed

end
