(* ===== verification/Provisioning.thy ===== *)
theory Provisioning
  imports SessionController
begin

section \<open>What provisioning a session sets up\<close>

text \<open>
  The end-to-end account of \<open>schedule_session\<close> (\<open>scheduleSessionsForProvisioning\<close> for one
  session): either the session fails and no gate hears of it, or the address, the plan, both
  assignments and both prepare jobs are there.
\<close>

subsection \<open>A supply of identifiers for the assignments\<close>

definition assignment_supply :: "env \<Rightarrow> db \<Rightarrow> bool" where
  "assignment_supply e d \<longleftrightarrow> inj (env_uuid e) \<and>
     (\<forall>n\<ge>uuid_next d. env_uuid e n \<notin> ga_id ` set (gate_assignments d) \<union> as_assignment ` set (assignment_status d))"

lemma supply_fresh: "assignment_supply e d \<Longrightarrow> fresh_assignment e d"
  by (simp add: assignment_supply_def fresh_assignment_def)

lemma assignment_supply_cong:
  assumes "assignment_supply e d" "gate_assignments d' = gate_assignments d"
    "assignment_status d' = assignment_status d" "uuid_next d \<le> uuid_next d'"
  shows "assignment_supply e d'"
  using assms by (auto simp: assignment_supply_def)

lemma wf_assignments_cong:
  "gate_assignments d' = gate_assignments d \<Longrightarrow> assignment_status d' = assignment_status d \<Longrightarrow>
   wf_assignments d' = wf_assignments d"
  by (simp add: wf_assignments_def)

lemma ensure_status_keys:
  "as_assignment ` set (assignment_status (ensureGateAssignmentStatusPhase e a p d))
   \<subseteq> insert a (as_assignment ` set (assignment_status d))"
  by (auto simp: ensureGateAssignmentStatusPhase_def new_assignment_status_def upsert_def set_update_where split: if_splits)

lemma upsert_keys:
  "ga_id ` set (gate_assignments (fst (upsertGateAssignment e s g r p q d)))
     \<subseteq> insert (env_uuid e (uuid_next d)) (ga_id ` set (gate_assignments d))"
  "snd (upsertGateAssignment e s g r p q d) \<in> insert (env_uuid e (uuid_next d)) (ga_id ` set (gate_assignments d))"
  "uuid_next (fst (upsertGateAssignment e s g r p q d)) = Suc (uuid_next d)"
  by (auto simp: upsertGateAssignment_def gen_uuid_def Let_def set_update_where dest: find_SomeD split: option.splits if_splits)

lemma key_sets:
  "X \<subseteq> insert k B \<Longrightarrow> Y \<subseteq> insert n A \<Longrightarrow> k \<in> insert n A \<Longrightarrow> Y \<union> X \<subseteq> insert n (A \<union> B)"
  by auto

lemma create_supply:
  assumes "assignment_supply e d"
  shows "assignment_supply e (fst (createAssignment e s g r p d))"
proof -
  let ?d = "fst (createAssignment e s g r p d)"
  let ?S = "ga_id ` set (gate_assignments d) \<union> as_assignment ` set (assignment_status d)"
  have ids: "ga_id ` set (gate_assignments ?d) \<union> as_assignment ` set (assignment_status ?d) \<subseteq> insert (env_uuid e (uuid_next d)) ?S"
  proof -
    let ?u = "upsertGateAssignment e s g r p AD_Applied d"
    have "as_assignment ` set (assignment_status ?d) \<subseteq> insert (snd ?u) (as_assignment ` set (assignment_status d))"
      using ensure_status_keys[of e "snd ?u" A_queued "fst ?u"] by (simp add: create_eq)
    moreover have "ga_id ` set (gate_assignments ?d) \<subseteq> insert (env_uuid e (uuid_next d)) (ga_id ` set (gate_assignments d))"
      using upsert_keys(1)[of e s g r p AD_Applied d] by (simp add: create_eq)
    ultimately show ?thesis using key_sets upsert_keys(2)[of e s g r p AD_Applied d] by metis
  qed
  have nxt: "uuid_next ?d = Suc (uuid_next d)"
    by (simp add: create_eq ensureGateAssignmentStatusPhase_def upsert_keys(3))
  have "env_uuid e n \<notin> insert (env_uuid e (uuid_next d)) ?S" if "Suc (uuid_next d) \<le> n" for n
    using that assms by (auto simp: assignment_supply_def inj_eq)
  then have "\<forall>n\<ge>Suc (uuid_next d). env_uuid e n \<notin> ga_id ` set (gate_assignments ?d) \<union> as_assignment ` set (assignment_status ?d)"
    using subsetD[OF ids] by metis
  with assms show ?thesis unfolding assignment_supply_def nxt by simp
qed

subsection \<open>Assignments and jobs that stay\<close>

definition holds_assignment :: "db \<Rightarrow> uuid \<Rightarrow> uuid \<Rightarrow> gate_role \<Rightarrow> uuid \<Rightarrow> uuid \<Rightarrow> bool" where
  "holds_assignment d a s r g p \<longleftrightarrow>
     (case assignment_of d a of None \<Rightarrow> False
      | Some row \<Rightarrow> ga_session row = s \<and> ga_role row = r \<and> ga_gate row = g \<and> ga_plan row = p \<and> ga_desired row = AD_Applied)
     \<and> assignment_phase_of d a \<in> {Some A_queued, Some A_applied}"

lemma holds_cong:
  "gate_assignments d' = gate_assignments d \<Longrightarrow> assignment_status d' = assignment_status d \<Longrightarrow>
   holds_assignment d' a s r g p = holds_assignment d a s r g p"
  by (simp add: holds_assignment_def assignment_of_def assignment_phase_of_def)

text \<open>A call for one role leaves the assignment of the other role alone.\<close>

lemma created_role:
  assumes "createAssignment e s g r p d = (d', a)" "assignment_of d a = Some old" "wf_assignments d" "fresh_assignment e d"
  shows "ga_role old = r"
proof (cases "find (\<lambda>a. ga_session a = s \<and> ga_role a = r) (gate_assignments d)")
  case None
  then have "a = env_uuid e (uuid_next d)"
    using assms(1) by (auto simp: create_eq upsertGateAssignment_def gen_uuid_def)
  then show ?thesis using assms(2,4) row_of_SomeD[of ga_id a] by (force simp: assignment_of_def fresh_assignment_def)
next
  case (Some b)
  then have "a = ga_id b" using assms(1) by (auto simp: create_eq upsertGateAssignment_def gen_uuid_def)
  moreover have "b \<in> set (gate_assignments d)" "ga_role b = r" using find_SomeD[OF Some] by auto
  moreover have "old \<in> set (gate_assignments d)" "ga_id old = a"
    using assms(2) row_of_SomeD[of ga_id a] by (auto simp: assignment_of_def)
  ultimately show ?thesis
    using row_eqI[of ga_id "gate_assignments d" old b] assms(3) by (simp add: wf_assignments_def)
qed

lemma create_holds:
  assumes "wf_assignments d" "assignment_supply e d" "createAssignment e s g r p d = (d', a)"
  shows "wf_assignments d'" "assignment_supply e d'" "holds_assignment d' a s r g p"
    and "holds_assignment d b s' r' g' p' \<Longrightarrow> r' \<noteq> r \<Longrightarrow> b \<noteq> a \<and> holds_assignment d' b s' r' g' p'"
proof -
  note made = created_assignment[OF assms(1) supply_fresh[OF assms(2)] assms(3)]
  show "wf_assignments d'" using made by blast
  show "assignment_supply e d'" using create_supply[OF assms(2), of s g r p] assms(3) by simp
  show "holds_assignment d' a s r g p" using made by (auto simp: holds_assignment_def)
  assume b: "holds_assignment d b s' r' g' p'" "r' \<noteq> r"
  then obtain old where "assignment_of d b = Some old" "ga_role old = r'"
    by (auto simp: holds_assignment_def split: option.splits)
  with created_role[OF assms(3) _ assms(1) supply_fresh[OF assms(2)]] b(2) have "b \<noteq> a" by auto
  moreover with made b(1) show "b \<noteq> a \<and> holds_assignment d' b s' r' g' p'" by (simp add: holds_assignment_def)
qed

text \<open>
  What the queue has of preparing assignment \<open>a\<close> under a plan: a job that is still unfinished, or one
  that succeeded for this very plan.  Otherwise exactly one job is added: queued for the gate, the
  session, the assignment, the role and the plan given.
\<close>

definition prepare_known :: "job_row list \<Rightarrow> uuid \<Rightarrow> uuid \<Rightarrow> bool" where
  "prepare_known js a planId \<longleftrightarrow> list_ex (\<lambda>j. apply_job_for a Op_prepare j
     \<and> (unfinishedJob (jb_phase j) \<or> jb_phase j = J_succeeded \<and> job_plan j = Some planId)) js"

definition prepare_order :: "job_row \<Rightarrow> uuid \<Rightarrow> uuid \<Rightarrow> uuid \<Rightarrow> gate_role \<Rightarrow> js_record \<Rightarrow> bool" where
  "prepare_order j a gate session role plan \<longleftrightarrow> jb_type j = JT_apply_assignment \<and> jb_phase j = J_queued
     \<and> jb_gate j = Some gate \<and> jb_session j = Some session \<and> jb_assignment j = Some a
     \<and> jb_payload j = apply_payload (prepare_job a gate session role plan)"

lemma order_operation: "prepare_order j a g s r p \<Longrightarrow> apply_job_for a Op_prepare j"
  by (simp add: prepare_order_def apply_job_for_def apply_payload_operation prepare_job_def)

lemma prepare_order_new:
  "prepare_order ((new_job_row e i JT_apply_assignment J_queued (Some g) (apply_payload (prepare_job a g s r plan)) n)
     \<lparr>jb_session := Some s, jb_assignment := Some a\<rparr>) a g s r plan"
  by (simp add: prepare_order_def new_job_row_def)

lemma enqueued_prepare:
  assumes "wf_assignments d" "holds_assignment d a s r g p"
  shows "\<exists>j. jobs (enqueueApplyJob e (prepare_job a g s r plan) d) = jobs d @ (if prepare_known (jobs d) a p then [] else [j])
     \<and> prepare_order j a g s r plan"
proof -
  obtain row where row: "assignment_of d a = Some row" "ga_plan row = p"
    using assms(2) by (auto simp: holds_assignment_def split: option.splits)
  have mem: "row \<in> set (gate_assignments d)" "ga_id row = a"
    using row(1) row_of_SomeD[of ga_id a] by (auto simp: assignment_of_def)
  have "x = row" if "x \<in> set (gate_assignments d)" "ga_id x = a" for x
    using row_eqI[of ga_id "gate_assignments d" x row] that mem assms(1) by (simp add: wf_assignments_def)
  then have plan: "list_ex (\<lambda>x. ga_id x = a \<and> q = Some (ga_plan x)) (gate_assignments d) \<longleftrightarrow> q = Some p" for q
    unfolding list_ex_iff using mem row(2) by blast
  obtain st where st: "row_of as_assignment a (assignment_status d) = Some st" "as_phase st \<in> {A_queued, A_applied}"
    using assms(2) by (auto simp: holds_assignment_def assignment_phase_of_def split: option.splits)
  then have status: "list_ex (\<lambda>st. as_assignment st = a \<and> as_phase st \<in> {A_queued, A_leased, A_applying, A_prepared, A_applied}) (assignment_status d)"
    using row_of_SomeD[OF st(1)] unfolding list_ex_iff by blast
  let ?i = "prepare_job a g s r plan"
  have ids: "aj_assignment ?i = a" "aj_operation ?i = Op_prepare" "aj_gate ?i = g" "aj_session ?i = s"
    by (simp_all add: prepare_job_def)
  have known: "prepare_known (jobs d) a p \<longleftrightarrow>
      list_ex (\<lambda>j. apply_job_for a Op_prepare j \<and> unfinishedJob (jb_phase j)) (jobs d)
      \<or> list_ex (\<lambda>j. apply_job_for a Op_prepare j \<and> jb_phase j = J_succeeded \<and> job_plan j = Some p) (jobs d)"
    by (simp only: prepare_known_def list_ex_iff) blast
  show ?thesis
  proof (cases "prepare_known (jobs d) a p")
    case True
    then have "enqueueApplyJob e ?i d = d"
      unfolding enqueueApplyJob_def insertApplyAssignmentJob_def ids using known by (simp only: plan status simp_thms if_True)
    moreover obtain j where "prepare_order j a g s r plan" using prepare_order_new by blast
    ultimately show ?thesis using True by auto
  next
    case False
    then have "enqueueApplyJob e ?i d = insert_job e JT_apply_assignment J_queued g s a (apply_payload ?i) d"
      unfolding enqueueApplyJob_def insertApplyAssignmentJob_def ids queuedJobTransition_def using known
      by (simp only: plan status simp_thms if_False)
    then show ?thesis using False prepare_order_new by (simp add: insert_job_def gen_uuid_def)
  qed
qed

lemma enqueue_frame [simp]:
  "gate_assignments (enqueueApplyJob e i d) = gate_assignments d"
  "assignment_status (enqueueApplyJob e i d) = assignment_status d"
  "rendered_plans (enqueueApplyJob e i d) = rendered_plans d"
  "address_leases (enqueueApplyJob e i d) = address_leases d"
  by (simp_all add: enqueueApplyJob_def insertApplyAssignmentJob_def insert_job_def gen_uuid_def)

subsection \<open>One session, scheduled\<close>

lemma plan_for_cong: "rendered_plans d' = rendered_plans d \<Longrightarrow> plan_for d' s g = plan_for d s g"
  by (simp add: plan_for_def)

lemma store_plan_tables [simp]:
  "gate_assignments (fst (store_plan e v plan d)) = gate_assignments d"
  "assignment_status (fst (store_plan e v plan d)) = assignment_status d"
  "address_leases (fst (store_plan e v plan d)) = address_leases d"
  "uuid_next (fst (store_plan e v plan d)) = Suc (uuid_next d)"
  "jobs (fst (store_plan e v plan d)) = jobs d"
  by (simp_all add: store_plan_def upsertRenderedPlan_def upsertRenderedPlanRecord_def gen_uuid_def case_prod_beta
      writeRenderedPlanSecret_def insertRenderedPlanSecret_def Let_def split: option.split)

lemma store_plan_plan:
  "\<exists>p. plan_for (fst (store_plan e v plan d)) (ss_id v) (ss_generation v) = Some p
     \<and> pl_id p = snd (store_plan e v plan d) \<and> pl_public p = rpl_publicMaterial plan"
proof -
  obtain d1 i where u: "upsertRenderedPlan e (ss_id v) (ss_generation v) plan d = (d1, i)"
    by (cases "upsertRenderedPlan e (ss_id v) (ss_generation v) plan d")
  from plan_stored[OF u] obtain p where p: "plan_for d1 (ss_id v) (ss_generation v) = Some p" "pl_id p = i"
    "pl_public p = rpl_publicMaterial plan" by blast
  have "rendered_plans (fst (store_plan e v plan d)) = rendered_plans d1" "snd (store_plan e v plan d) = i"
    by (simp_all add: store_plan_def u writeRenderedPlanSecret_def insertRenderedPlanSecret_def split: option.split)
  with p plan_for_cong show ?thesis by metis
qed

lemma create_tables [simp]:
  "rendered_plans (fst (createAssignment e s g r p d)) = rendered_plans d"
  "address_leases (fst (createAssignment e s g r p d)) = address_leases d"
  "jobs (fst (createAssignment e s g r p d)) = jobs d"
  by (simp_all add: create_eq ensureGateAssignmentStatusPhase_def upsertGateAssignment_def gen_uuid_def Let_def
      split: option.split)

lemma closing_frame:
  "gate_assignments (setSessionCondition e s t c m n k (markSessionProvisioning e s tr y d)) = gate_assignments d"
  "assignment_status (setSessionCondition e s t c m n k (markSessionProvisioning e s tr y d)) = assignment_status d"
  "rendered_plans (setSessionCondition e s t c m n k (markSessionProvisioning e s tr y d)) = rendered_plans d"
  "address_leases (setSessionCondition e s t c m n k (markSessionProvisioning e s tr y d)) = address_leases d"
  "jobs (setSessionCondition e s t c m n k (markSessionProvisioning e s tr y d)) = jobs d"
  by (simp_all add: setSessionCondition_def upsertSessionCondition_def markSessionProvisioning_def update_status_def)

definition provisioned :: "db \<Rightarrow> db \<Rightarrow> session_row \<Rightarrow> path_choice \<Rightarrow> rendered_plan \<Rightarrow> uuid \<Rightarrow> bool" where
  "provisioned d d' s path plan planId \<longleftrightarrow> (\<exists>i g j k. i \<noteq> g
     \<and> holds_assignment d' i (ss_id s) Ingress (pth_ingressGateId path) planId
     \<and> holds_assignment d' g (ss_id s) Egress (pth_egressGateId path) planId
     \<and> jobs d' = jobs d @ (if prepare_known (jobs d) i planId then [] else [j])
                        @ (if prepare_known (jobs d) g planId then [] else [k])
     \<and> prepare_order j i (pth_ingressGateId path) (ss_id s) Ingress (toGatePreparePlan planId plan)
     \<and> prepare_order k g (pth_egressGateId path) (ss_id s) Egress (toGatePreparePlan planId plan))"

lemma provision_session_sets_up:
  assumes "wf_assignments d" "assignment_supply e d"
  shows "\<exists>p. plan_for (provision_session e s path plan d) (ss_id s) (ss_generation s) = Some p
      \<and> pl_public p = rpl_publicMaterial plan \<and> provisioned d (provision_session e s path plan d) s path plan (pl_id p)"
    "address_leases (provision_session e s path plan d) = address_leases d"
proof -
  obtain d1 i where s1: "store_plan e s plan d = (d1, i)" by (cases "store_plan e s plan d")
  obtain d2 a where s2: "createAssignment e (ss_id s) (pth_ingressGateId path) Ingress i d1 = (d2, a)"
    by (cases "createAssignment e (ss_id s) (pth_ingressGateId path) Ingress i d1")
  obtain d3 b where s3: "createAssignment e (ss_id s) (pth_egressGateId path) Egress i d2 = (d3, b)"
    by (cases "createAssignment e (ss_id s) (pth_egressGateId path) Egress i d2")
  define j where "j = prepare_job a (pth_ingressGateId path) (ss_id s) Ingress (toGatePreparePlan i plan)"
  define k where "k = prepare_job b (pth_egressGateId path) (ss_id s) Egress (toGatePreparePlan i plan)"
  define d5 where "d5 = enqueueApplyJob e k (enqueueApplyJob e j d3)"
  let ?d = "provision_session e s path plan d"
  have tables: "gate_assignments ?d = gate_assignments d5" "assignment_status ?d = assignment_status d5"
    "rendered_plans ?d = rendered_plans d5" "jobs ?d = jobs d5" "address_leases ?d = address_leases d5"
    by (simp_all add: provision_session_def s1 s2 s3 Let_def closing_frame d5_def j_def k_def)
  have w1: "wf_assignments d1" "assignment_supply e d1"
    using assms store_plan_tables[of e s plan d] assignment_supply_cong[OF assms(2), of d1]
    by (simp_all add: s1 wf_assignments_cong[of d1 d])
  note c2 = create_holds[OF w1 s2]
  note c3 = create_holds[OF c2(1,2) s3]
  have "a \<noteq> b" and held3: "holds_assignment d3 a (ss_id s) Ingress (pth_ingressGateId path) i"
    using c3(4)[OF c2(3)] by simp_all
  then have held: "a \<noteq> b" "holds_assignment ?d a (ss_id s) Ingress (pth_ingressGateId path) i"
    "holds_assignment ?d b (ss_id s) Egress (pth_egressGateId path) i"
    using c3(3) holds_cong[of d5 d3] by (simp_all add: holds_cong[OF tables(1,2)] d5_def)
  have old: "jobs d3 = jobs d"
    using create_tables(3)[of e "ss_id s" "pth_ingressGateId path" Ingress i d1]
      create_tables(3)[of e "ss_id s" "pth_egressGateId path" Egress i d2] store_plan_tables(5)[of e s plan d] by (simp add: s1 s2 s3)
  obtain x where x: "jobs (enqueueApplyJob e j d3) = jobs d @ (if prepare_known (jobs d) a i then [] else [x])"
    "prepare_order x a (pth_ingressGateId path) (ss_id s) Ingress (toGatePreparePlan i plan)"
    using enqueued_prepare[OF c3(1) held3, of e "toGatePreparePlan i plan"]
    by (auto simp: old j_def)
  have "wf_assignments (enqueueApplyJob e j d3)" "holds_assignment (enqueueApplyJob e j d3) b (ss_id s) Egress (pth_egressGateId path) i"
    using c3(1,3) holds_cong[of "enqueueApplyJob e j d3" d3] wf_assignments_cong[of "enqueueApplyJob e j d3" d3] by simp_all
  from enqueued_prepare[OF this, of e "toGatePreparePlan i plan"] obtain y where
    y: "jobs ?d = jobs (enqueueApplyJob e j d3) @ (if prepare_known (jobs (enqueueApplyJob e j d3)) b i then [] else [y])"
      "prepare_order y b (pth_egressGateId path) (ss_id s) Egress (toGatePreparePlan i plan)"
    by (auto simp: tables(4) d5_def k_def)
  have "\<not> apply_job_for b Op_prepare x" using x(2) \<open>a \<noteq> b\<close> by (auto simp: prepare_order_def apply_job_for_def)
  then have "prepare_known (jobs (enqueueApplyJob e j d3)) b i = prepare_known (jobs d) b i"
    by (auto simp: x(1) prepare_known_def)
  with x y have queued: "jobs ?d = jobs d @ (if prepare_known (jobs d) a i then [] else [x])
      @ (if prepare_known (jobs d) b i then [] else [y])" by simp
  obtain p where p: "plan_for d1 (ss_id s) (ss_generation s) = Some p" "pl_id p = i" "pl_public p = rpl_publicMaterial plan"
    using store_plan_plan[of e s plan d] by (auto simp: s1)
  have "rendered_plans ?d = rendered_plans d1" "address_leases ?d = address_leases d1"
    using create_tables[of e "ss_id s" "pth_ingressGateId path" Ingress i d1]
      create_tables[of e "ss_id s" "pth_egressGateId path" Egress i d2] by (simp_all add: tables d5_def s2 s3)
  then have "plan_for ?d (ss_id s) (ss_generation s) = Some p" "address_leases ?d = address_leases d"
    using p(1) plan_for_cong[of ?d d1] store_plan_tables(3)[of e s plan d] by (simp_all add: s1)
  with held queued x(2) y(2) p \<open>a \<noteq> b\<close> show "\<exists>p. plan_for ?d (ss_id s) (ss_generation s) = Some p
      \<and> pl_public p = rpl_publicMaterial plan \<and> provisioned d ?d s path plan (pl_id p)" "address_leases ?d = address_leases d"
    by (auto simp: provisioned_def)
qed

lemma ensured_lease:
  assumes "ensureClientAddressLease e s d = (d', Some a)"
  shows "\<exists>address. a = address @ ''/32'' \<and> (\<exists>l\<in>set (active_leases d'). al_session l = s \<and> al_address l = address)"
proof (cases "has_lease d s")
  case True
  from ensure_existing[OF this] obtain b where b: "findActiveClientAddressLease d s = Some b"
    "ensureClientAddressLease e s d = (d, Some (toClientAddressCidr b))" by blast
  from b(1) obtain l where l: "find (\<lambda>l. al_session l = s \<and> al_released l = None) (address_leases d) = Some l"
    "b = inet_text (al_address l)" by (auto simp: findActiveClientAddressLease_def)
  from find_SomeD[OF l(1)] have "l \<in> set (active_leases d)" "al_session l = s" by (simp_all add: active_leases_def)
  with b(2) assms l(2) show ?thesis by auto
next
  case False
  from ensure_new[OF False assms] obtain address l where l: "a = address @ ''/32''" "al_address l = address"
    "al_session l = s" "al_released l = None" "address_leases d' = address_leases d @ [l]"
    unfolding new_lease_def by blast
  then have "l \<in> set (active_leases d')" by (simp add: active_leases_def)
  with l show ?thesis by blast
qed

lemma plan_address:
  "renderWireGuardPlan e s path x = Inr plan \<Longrightarrow> js_prop (rpl_publicMaterial plan) ''clientAddress'' = Some (JStr x)"
  by (auto simp: renderWireGuardPlan_def js_prop_def case_prod_beta Let_def split: sum.splits)

text \<open>
  C2: Scheduling a session either fails it and touches no plan, assignment or job, or leaves it in
  \<open>provisioning\<close> with everything in place: the path the planner chose, an active lease of the
  address the plan carries, the plan rendered for that path and address, and on each of the two
  gates of the path its own assignment of that plan, in its role.  To the queue it adds exactly one
  queued prepare job per assignment - for the gate, session, assignment, role and plan of that
  assignment - unless a prepare job of the assignment is already there that is unfinished or has
  succeeded for this plan; no other job is added, changed or removed.
\<close>

theorem scheduling_complete:
  assumes "wf_assignments d" "assignment_supply e d" "phase_of d (ss_id s) = Some S_scheduling"
    and "schedule_session e s d = Inr d'"
  shows "if phase_of d' (ss_id s) = Some S_provisioning
    then \<exists>path address plan p. choosePath e d (ss_spec s) = Inr (Some path)
      \<and> list_ex (\<lambda>l. al_session l = ss_id s \<and> al_address l = address) (active_leases d')
      \<and> renderWireGuardPlan e s path (address @ ''/32'') = Inr plan
      \<and> plan_for d' (ss_id s) (ss_generation s) = Some p \<and> pl_public p = rpl_publicMaterial plan
      \<and> js_prop (pl_public p) ''clientAddress'' = Some (JStr (address @ ''/32''))
      \<and> provisioned d d' s path plan (pl_id p)
    else phase_of d' (ss_id s) = Some S_failed \<and> gate_assignments d' = gate_assignments d
      \<and> rendered_plans d' = rendered_plans d \<and> jobs d' = jobs d"
proof -
  obtain d1 a where l: "ensureClientAddressLease e (ss_id s) d = (d1, a)" by (cases "ensureClientAddressLease e (ss_id s) d")
  have frame: "gate_assignments d1 = gate_assignments d" "assignment_status d1 = assignment_status d" "jobs d1 = jobs d"
    "rendered_plans d1 = rendered_plans d" "uuid_next d1 = uuid_next d" "phase_of d1 t = phase_of d t" for t
    using ensure_lease_frame[of e "ss_id s" d] resource_phase_frame(3)[of e "ss_id s" d t] by (simp_all add: l)
  consider (failed) c r k m where "c \<in> {d, d1}" "d' = fail_scheduling e s r k m c"
    | (complete) path x plan where "choosePath e d (ss_spec s) = Inr (Some path)" "a = Some x"
        "renderWireGuardPlan e s path x = Inr plan" "d' = provision_session e s path plan d1"
    using assms(4) by (auto simp: schedule_session_def l split: sum.splits option.splits)
  then show ?thesis
  proof cases
    case failed
    have "phase_of d' (ss_id s) = Some S_failed"
      using failed assms(3) frame(6) by (auto simp: phase_of_fail_scheduling)
    moreover have "gate_assignments d' = gate_assignments c" "rendered_plans d' = rendered_plans c" "jobs d' = jobs c"
      by (simp_all add: failed(2) fail_scheduling_def setSessionCondition_def upsertSessionCondition_def
          markSessionFailed_def update_status_def)
    ultimately show ?thesis using failed(1) frame by auto
  next
    case complete
    have w: "wf_assignments d1" "assignment_supply e d1"
      using assms(1) assignment_supply_cong[OF assms(2)] frame by (simp_all add: wf_assignments_cong[of d1 d])
    obtain address where address: "x = address @ ''/32''"
      "\<exists>l\<in>set (active_leases d1). al_session l = ss_id s \<and> al_address l = address"
      using ensured_lease[of e "ss_id s" d d1 x] l complete(2) by auto
    obtain p where p: "plan_for d' (ss_id s) (ss_generation s) = Some p" "pl_public p = rpl_publicMaterial plan"
      "provisioned d1 d' s path plan (pl_id p)"
      using provision_session_sets_up(1)[OF w] complete(4) by blast
    have "provisioned d d' s path plan (pl_id p)" using p(3) by (simp add: provisioned_def frame(3))
    moreover have "active_leases d' = active_leases d1"
      using provision_session_sets_up(2)[OF w] complete(4) by (simp add: active_leases_def)
    moreover have "js_prop (pl_public p) ''clientAddress'' = Some (JStr x)"
      using plan_address[OF complete(3)] p(2) by simp
    moreover have "phase_of d' (ss_id s) = Some S_provisioning"
      using assms(3) frame(6) by (simp add: complete(4) phase_of_provision)
    moreover have "renderWireGuardPlan e s path (address @ ''/32'') = Inr plan" using complete(3) address(1) by simp
    ultimately show ?thesis using complete(1) address p(1,2) by (auto simp: list_ex_iff)
  qed
qed

subsection \<open>Witness\<close>

definition schedulable_session :: session_row where
  "schedulable_session = byo_session\<lparr>ss_spec := sample_spec\<rparr>"

definition scheduling_db :: db where
  "scheduling_db = (in_phase S_scheduling gates_db)\<lparr>sessions := [schedulable_session]\<rparr>"

lemma schedulable_simps:
  "ss_id schedulable_session = ''s1''" "ss_spec schedulable_session = sample_spec"
  "gate_assignments scheduling_db = []" "assignment_status scheduling_db = []"
  "address_leases scheduling_db = []" "address_pools scheduling_db = [sample_pool]"
  "phase_of scheduling_db ''s1'' = Some S_scheduling"
  by (simp_all add: schedulable_session_def byo_session_def scheduled_session_def scheduling_db_def in_phase_def gates_db_def
      pool_db_def empty_db_def phase_of_def row_of_def)

lemma scheduling_path: "choosePath sample_env scheduling_db sample_spec = Inr (Some sample_path)"
  by code_simp

lemma scheduling_allocation: "\<exists>d1. ensureClientAddressLease sample_env ''s1'' scheduling_db = (d1, Some ''10.64.0.1/32'')"
proof -
  have "listWireGuardAddressPoolsForUpdate scheduling_db = [sample_pool]"
    by (simp add: listWireGuardAddressPoolsForUpdate_def schedulable_simps sample_pool_def)
  then show ?thesis
    by (simp add: allocation_eval schedulable_simps lease_for_def sample_env_def)
qed

lemma schedulable_rendered: "\<exists>p. renderWireGuardPlan sample_env schedulable_session sample_path ''10.64.0.1/32'' = Inr p"
  by (simp add: renderWireGuardPlan_def schedulable_session_def sample_spec_def byo_session_def scheduled_session_def
      client_keys_def plan_tunnel_def Let_def readSessionClientProtocol_def js_prop_def)

theorem scheduling_complete_witness:
  "\<exists>d' p plan. schedule_session sample_env schedulable_session scheduling_db = Inr d'
     \<and> plan_for d' ''s1'' 1 = Some p \<and> js_prop (pl_public p) ''clientAddress'' = Some (JStr ''10.64.0.1/32'')
     \<and> provisioned scheduling_db d' schedulable_session sample_path plan (pl_id p) \<and> length (jobs d') = 2"
proof -
  obtain d1 plan where parts: "ensureClientAddressLease sample_env ''s1'' scheduling_db = (d1, Some ''10.64.0.1/32'')"
    "renderWireGuardPlan sample_env schedulable_session sample_path ''10.64.0.1/32'' = Inr plan"
    using scheduling_allocation schedulable_rendered by blast
  then obtain d' where d': "schedule_session sample_env schedulable_session scheduling_db = Inr d'"
    "d' = provision_session sample_env schedulable_session sample_path plan d1"
    by (simp add: schedule_session_def schedulable_simps scheduling_path)
  have wf: "wf_assignments scheduling_db" by (simp add: wf_assignments_def schedulable_simps)
  have "inj (env_uuid sample_env)"
    by (rule injI) (auto simp: sample_env_def dest: js_nat_inj)
  then have ids_left: "assignment_supply sample_env scheduling_db" by (simp add: assignment_supply_def schedulable_simps)
  have start: "phase_of scheduling_db (ss_id schedulable_session) = Some S_scheduling" by (simp add: schedulable_simps)
  have "phase_of d1 ''s1'' = Some S_scheduling"
    using resource_phase_frame(3)[of sample_env "''s1''" scheduling_db "''s1''"] by (simp add: parts(1) schedulable_simps)
  then have reached: "phase_of d' (ss_id schedulable_session) = Some S_provisioning"
    by (simp add: d'(2) phase_of_provision schedulable_simps)
  have gen: "ss_generation schedulable_session = 1"
    by (simp add: schedulable_session_def byo_session_def scheduled_session_def)
  from scheduling_complete[OF wf ids_left start d'(1)] reached obtain address p rendered where
    p: "plan_for d' ''s1'' 1 = Some p" "js_prop (pl_public p) ''clientAddress'' = Some (JStr (address @ ''/32''))"
      "provisioned scheduling_db d' schedulable_session sample_path rendered (pl_id p)"
    by (auto simp: schedulable_simps scheduling_path gen)
  have "plan_for d' ''s1'' 1 = Some p \<Longrightarrow> js_prop (pl_public p) ''clientAddress'' = Some (JStr ''10.64.0.1/32'')"
  proof -
    have w: "wf_assignments d1" "assignment_supply sample_env d1"
      using ensure_lease_frame[of sample_env "''s1''" scheduling_db] assignment_supply_cong[OF ids_left, of d1]
        wf_assignments_cong[of d1 scheduling_db] wf by (simp_all add: parts(1))
    from provision_session_sets_up(1)[OF w, of schedulable_session sample_path plan] plan_address[OF parts(2)]
    show "plan_for d' ''s1'' 1 = Some p \<Longrightarrow> js_prop (pl_public p) ''clientAddress'' = Some (JStr ''10.64.0.1/32'')"
      by (auto simp: d'(2) schedulable_simps gen)
  qed
  moreover have "jobs scheduling_db = []" by (simp add: scheduling_db_def in_phase_def gates_db_def pool_db_def empty_db_def)
  then have "length (jobs d') = 2" using p(3) by (auto simp: provisioned_def prepare_known_def)
  ultimately show ?thesis using d'(1) p by blast
qed

end
