(* ===== verification/Drift.thy ===== *)
theory Drift
  imports Provisioning
begin

section \<open>Drift between the wanted and the reported state of the gates\<close>

text \<open>
  \<open>reconciler/drift-controller.ts\<close> and the snapshots of \<open>resources/actual-state/repository.ts\<close> it
  reads: each gate agent reports the handles it manages; a wanted handle that is missing is
  repaired with a new commit job, a known handle that should be gone is revoked.  Points of time
  are written as numbers in JSON.
\<close>

subsection \<open>Snapshots\<close>

text \<open>\<open>ORDER BY received_at DESC LIMIT 1\<close>; of two rows received at the same time, the later one.\<close>

definition latest_snapshot :: "db \<Rightarrow> uuid \<Rightarrow> snapshot_row option" where
  "latest_snapshot d gateId =
     (case sort_key sn_receivedAt (filter (\<lambda>s. sn_gate s = gateId) (snapshots d)) of
        [] \<Rightarrow> None | xs \<Rightarrow> Some (last xs))"

record drift_row =
  dr_gateId :: uuid
  dr_gateName :: string
  dr_desiredHandles :: "string list"
  dr_actualHandles :: "string list"
  dr_actualStateHash :: "string option"
  dr_reportedAt :: "time option"

text \<open>The handles the gate must have by the time of its latest snapshot.\<close>

definition desired_handles :: "db \<Rightarrow> uuid \<Rightarrow> string list" where
  "desired_handles d gateId =
     (case latest_snapshot d gateId of
        None \<Rightarrow> []
      | Some sn \<Rightarrow> sort (map ga_handle (filter (\<lambda>a. ga_gate a = gateId \<and> ga_desired a = AD_Applied
          \<and> list_ex (\<lambda>st. as_assignment st = ga_id a \<and> as_phase st \<in> {A_applied, A_drifted}
               \<and> (case as_appliedAt st of None \<Rightarrow> False | Some t \<Rightarrow> t \<le> sn_receivedAt sn)) (assignment_status d))
        (gate_assignments d))))"

definition drift_input :: "db \<Rightarrow> gate_row \<Rightarrow> drift_row" where
  "drift_input d g =
     \<lparr>dr_gateId = gt_id g, dr_gateName = gt_name g, dr_desiredHandles = desired_handles d (gt_id g),
      dr_actualHandles = (case latest_snapshot d (gt_id g) of None \<Rightarrow> [] | Some sn \<Rightarrow> sn_handles sn),
      dr_actualStateHash = map_option sn_hash (latest_snapshot d (gt_id g)),
      dr_reportedAt = Option.bind (latest_snapshot d (gt_id g)) sn_reportedAt\<rparr>"

definition listGateActualStateDriftInputs :: "db \<Rightarrow> drift_row list" where
  "listGateActualStateDriftInputs d = map (drift_input d) (gates d)"

text \<open>\<open>deleteExpiredGateActualStateSnapshots\<close>, with its retention in hours and its batch size.\<close>

definition deleteExpiredGateActualStateSnapshots :: "env \<Rightarrow> int \<Rightarrow> nat \<Rightarrow> db \<Rightarrow> db \<times> nat" where
  "deleteExpiredGateActualStateSnapshots e retentionHours batchSize d =
     (let expired = take batchSize (sort_key sn_receivedAt
            (filter (\<lambda>s. sn_receivedAt s < env_now e - seconds (retentionHours * 3600)) (snapshots d)))
      in (d\<lparr>snapshots := delete_where (\<lambda>s. sn_id s \<in> sn_id ` set expired) (snapshots d)\<rparr>, length expired))"

subsection \<open>The controller\<close>

definition recordGateAuditEvent :: "env \<Rightarrow> string \<Rightarrow> uuid \<Rightarrow> js_record \<Rightarrow> db \<Rightarrow> db" where
  "recordGateAuditEvent e eventType gateId details =
     audit e (audit_blank\<lparr>au_event := eventType, au_actorType := ''system'', au_gate := Some gateId,
       au_details := JObj details\<rparr>)"

definition drift_message :: "handle_drift \<Rightarrow> string" where
  "drift_message drift = (if hd_drifted drift
     then ''Gate actual state differs from desired managed handles ('' @ js_nat (length (hd_missing drift)) @ '' missing, ''
            @ js_nat (length (hd_orphan drift)) @ '' orphan)''
     else ''Gate actual state matches desired managed handles'')"

definition repair_session :: "env \<Rightarrow> session_row \<times> plan_row \<Rightarrow> db \<Rightarrow> db" where
  "repair_session e x d =
     (let s = fst x; assignments = listSessionAssignmentMaterials d (ss_id s) in
      case (find (\<lambda>m. am_role m = Ingress) assignments, find (\<lambda>m. am_role m = Egress) assignments) of
        (Some ingress, Some egress) \<Rightarrow>
          (let networkPlan = network_plan s (snd x) ingress egress
           in enqueueApplyJob e (commit_job (ss_id s) egress Egress networkPlan)
                (enqueueApplyJob e (commit_job (ss_id s) ingress Ingress networkPlan) d))
      | _ \<Rightarrow> d)"

definition enqueueRepairJobsForMissingHandles :: "env \<Rightarrow> uuid \<Rightarrow> string list \<Rightarrow> db \<Rightarrow> db" where
  "enqueueRepairJobsForMissingHandles e gateId missingHandles d =
     fold (repair_session e) (listMissingHandleRepairSessions d gateId missingHandles) d"

definition enqueueCleanupJobsForKnownOrphans :: "env \<Rightarrow> uuid \<Rightarrow> string list \<Rightarrow> db \<Rightarrow> db" where
  "enqueueCleanupJobsForKnownOrphans e gateId orphanHandles d =
     fold (revoke_assignment e) (listKnownOrphanAssignmentsForCleanup d gateId orphanHandles) d"

definition row_drift :: "drift_row \<Rightarrow> handle_drift" where
  "row_drift g = compareManagedHandles (dr_desiredHandles g) (dr_actualHandles g)"

definition drift_details :: "drift_row \<Rightarrow> js_record" where
  "drift_details g = [(''gateName'', JStr (dr_gateName g)), (''actualStateHash'', json_opt (dr_actualStateHash g)),
     (''reportedAt'', case dr_reportedAt g of None \<Rightarrow> JNull | Some t \<Rightarrow> JInt t),
     (''missingHandles'', json_strings (hd_missing (row_drift g))), (''orphanHandles'', json_strings (hd_orphan (row_drift g)))]"

definition drift_condition :: "env \<Rightarrow> drift_row \<Rightarrow> db \<Rightarrow> db" where
  "drift_condition e g d =
     (let (d1, changedToDrift) = setGateDriftCondition e (dr_gateId g)
            (resolveGateDriftCondition (hd_drifted (row_drift g)) (drift_message (row_drift g))) d
      in if changedToDrift then recordGateAuditEvent e ''gate_drift_detected'' (dr_gateId g) (drift_details g) d1 else d1)"

definition drift_gate :: "env \<Rightarrow> drift_row \<Rightarrow> db \<Rightarrow> db" where
  "drift_gate e g d =
     (if dr_reportedAt g = None then d
      else (let d1 = drift_condition e g d in
        if \<not> hd_drifted (row_drift g) then d1
        else enqueueCleanupJobsForKnownOrphans e (dr_gateId g) (hd_orphan (row_drift g))
          (enqueueRepairJobsForMissingHandles e (dr_gateId g) (hd_missing (row_drift g))
            (markMissingHandleAssignmentsDrifted e (dr_gateId g) (hd_missing (row_drift g)) d1))))"

definition reconcileDrift :: "env \<Rightarrow> db \<Rightarrow> string + db" where
  "reconcileDrift e d = for_each (\<lambda>g d. Inr (drift_gate e g d)) (listGateActualStateDriftInputs d) d"

subsection \<open>The condition of every gate\<close>

lemma for_each_fold: "for_each (\<lambda>x d. Inr (f x d)) xs d = Inr (fold f xs d)"
  by (induction xs arbitrary: d) simp_all

lemma fold_keeps: "(\<And>x d. h (f x d) = h d) \<Longrightarrow> h (fold f xs d) = h d"
  by (induction xs arbitrary: d) simp_all

lemma enqueue_conditions [simp]: "gate_conditions (enqueueApplyJob e i d) = gate_conditions d"
  by (simp add: enqueueApplyJob_def insertApplyAssignmentJob_def insert_job_def gen_uuid_def)

lemma repair_conditions: "gate_conditions (repair_session e x d) = gate_conditions d"
  by (simp add: repair_session_def Let_def split: option.split)

lemma revoke_conditions: "gate_conditions (revoke_assignment e a d) = gate_conditions d"
  by (simp add: revoke_assignment_def enqueueRevokeAssignmentJob_def insertRevokeAssignmentJob_def insert_job_def
      gen_uuid_def requestAssignmentRevocation_def desiredRevokedTransition_def markAssignmentRevoking_def
      updateAssignmentDesiredState_def update_assignment_status_def)

lemma drifted_conditions: "gate_conditions (markMissingHandleAssignmentsDrifted e g hs d) = gate_conditions d"
  by (simp add: markMissingHandleAssignmentsDrifted_def markMissingHandleAssignmentRowsDrifted_def update_assignment_status_def)

lemma condition_true_cong: "gate_conditions c = gate_conditions c' \<Longrightarrow> condition_true c h t = condition_true c' h t"
  by (simp add: condition_true_def gate_condition_of_def)

lemma drift_condition_true:
  "condition_true (drift_condition e g d) h t \<longleftrightarrow>
     (if h = dr_gateId g \<and> t = ''Drift'' then hd_drifted (row_drift g) else condition_true d h t)"
proof -
  define c where "c = resolveGateDriftCondition (hd_drifted (row_drift g)) (drift_message (row_drift g))"
  have "gate_conditions (drift_condition e g d) = gate_conditions (upsertGateCondition e (dr_gateId g) None c d)"
    by (simp add: drift_condition_def setGateDriftCondition_def Let_def recordGateAuditEvent_def audit_def c_def)
  from condition_true_cong[OF this] show ?thesis
    by (simp add: condition_true_set) (simp add: c_def resolveGateDriftCondition_def)
qed

lemma drift_gate_true:
  "condition_true (drift_gate e g d) h t \<longleftrightarrow>
     (if h = dr_gateId g \<and> t = ''Drift'' \<and> dr_reportedAt g \<noteq> None then hd_drifted (row_drift g) else condition_true d h t)"
proof (cases "dr_reportedAt g")
  case None
  then show ?thesis by (simp add: drift_gate_def)
next
  case (Some r)
  have "gate_conditions (enqueueCleanupJobsForKnownOrphans e i hs c) = gate_conditions c"
    "gate_conditions (enqueueRepairJobsForMissingHandles e i hs c) = gate_conditions c" for i hs c
    by (simp_all add: enqueueCleanupJobsForKnownOrphans_def enqueueRepairJobsForMissingHandles_def
        fold_keeps repair_conditions revoke_conditions)
  then have "gate_conditions (drift_gate e g d) = gate_conditions (drift_condition e g d)"
    by (simp add: drift_gate_def Let_def drifted_conditions Some)
  from condition_true_cong[OF this] show ?thesis by (simp add: drift_condition_true Some)
qed

lemma drift_fold_true:
  "distinct (map dr_gateId gs) \<Longrightarrow> g \<in> set gs \<Longrightarrow> dr_reportedAt g \<noteq> None \<Longrightarrow>
   condition_true (fold (drift_gate e) gs d) (dr_gateId g) ''Drift'' = hd_drifted (row_drift g)"
proof (induction gs arbitrary: d)
  case (Cons x gs)
  have other: "condition_true (fold (drift_gate e) gs c) h ''Drift'' = condition_true c h ''Drift''"
    if "h \<notin> dr_gateId ` set gs" for h c
    using that by (induction gs arbitrary: c) (auto simp: drift_gate_true)
  show ?case
  proof (cases "g = x")
    case True
    then show ?thesis using Cons.prems other[of "dr_gateId x"] by (simp add: drift_gate_true)
  next
    case False
    then show ?thesis using Cons by simp
  qed
qed simp

text \<open>
  After a drift reconciliation a gate that has reported its state has the condition \<open>Drift\<close>
  exactly when the set of handles it must have by its latest report differs from the set it reported.
\<close>

lemma drift_condition_exact:
  assumes "distinct (map gt_id (gates d))" "g \<in> set (gates d)" "latest_snapshot d (gt_id g) = Some sn" "sn_reportedAt sn \<noteq> None"
    and "reconcileDrift e d = Inr d'"
  shows "condition_true d' (gt_id g) ''Drift'' \<longleftrightarrow> set (desired_handles d (gt_id g)) \<noteq> set (sn_handles sn)"
proof -
  let ?gs = "listGateActualStateDriftInputs d"
  have d': "d' = fold (drift_gate e) ?gs d" using assms(5) by (simp add: reconcileDrift_def for_each_fold)
  have keys: "map dr_gateId ?gs = map gt_id (gates d)" by (simp add: listGateActualStateDriftInputs_def drift_input_def o_def)
  let ?r = "drift_input d g"
  have r: "?r \<in> set ?gs" using assms(2) by (simp add: listGateActualStateDriftInputs_def)
  have row: "dr_gateId ?r = gt_id g" "dr_reportedAt ?r \<noteq> None" "dr_desiredHandles ?r = desired_handles d (gt_id g)"
    "dr_actualHandles ?r = sn_handles sn" using assms(3,4) by (simp_all add: drift_input_def)
  have "condition_true d' (dr_gateId ?r) ''Drift'' = hd_drifted (row_drift ?r)"
    unfolding d' using assms(1) r row(2) by (intro drift_fold_true) (simp_all add: keys)
  then show ?thesis by (simp add: row row_drift_def drift_iff)
qed

subsection \<open>A missing handle is repaired\<close>

definition commit_queued :: "db \<Rightarrow> uuid \<Rightarrow> bool" where
  "commit_queued d a \<longleftrightarrow> list_ex (\<lambda>j. apply_job_for a Op_commit j \<and> unfinishedJob (jb_phase j)) (jobs d)"

lemma commit_queued_mono: "jobs d' = jobs d @ js \<Longrightarrow> commit_queued d a \<Longrightarrow> commit_queued d' a"
  by (simp add: commit_queued_def)

lemma status_mem_phase:
  "wf_assignments d \<Longrightarrow> r \<in> set (assignment_status d) \<Longrightarrow> assignment_phase_of d (as_assignment r) = Some (as_phase r)"
  by (simp add: assignment_phase_of_def wf_assignments_def row_of_unique)

text \<open>A drifted assignment gets a fresh job, whatever jobs have succeeded for it before.\<close>

lemma enqueue_for_drifted:
  assumes "wf_assignments d" "assignment_phase_of d (aj_assignment i) = Some A_drifted" "aj_operation i = Op_commit"
  shows "commit_queued (enqueueApplyJob e i d) (aj_assignment i)"
proof -
  have "\<not> list_ex (\<lambda>st. as_assignment st = aj_assignment i
      \<and> as_phase st \<in> {A_queued, A_leased, A_applying, A_prepared, A_applied}) (assignment_status d)"
    using status_mem_phase[OF assms(1)] assms(2) by (fastforce simp: list_ex_iff)
  then show ?thesis
    using assms(3) apply_payload_operation
    by (auto simp: commit_queued_def enqueueApplyJob_def insertApplyAssignmentJob_def queuedJobTransition_def
        apply_job_for_def unfinishedJob_def list_ex_iff)
qed

text \<open>The two materials of a session belong to its two assignments.\<close>

lemma material_assignment:
  assumes "m \<in> set (assignment_join d s)"
  shows "\<exists>b\<in>set (gate_assignments d). ga_id b = am_id m \<and> ga_session b = s \<and> ga_role b = am_role m"
  using assms by (auto simp: assignment_join_def)

lemma role_material:
  assumes "wf_assignments d" "a \<in> set (gate_assignments d)" "ga_session a = s"
    and "find (\<lambda>m. am_role m = ga_role a) (listSessionAssignmentMaterials d s) = Some m"
  shows "am_id m = ga_id a"
proof -
  have m: "m \<in> set (assignment_join d s)" "am_role m = ga_role a"
    using find_SomeD[OF assms(4)] by (simp_all add: listSessionAssignmentMaterials_def)
  from material_assignment[OF m(1)] obtain b where b: "b \<in> set (gate_assignments d)" "ga_id b = am_id m"
    "ga_session b = s" "ga_role b = am_role m" by blast
  have "b = a"
    using row_eqI[of "\<lambda>a. (ga_session a, ga_role a)" "gate_assignments d" b a] assms(1-3) b m(2)
    by (simp add: wf_assignments_def)
  with b show ?thesis by simp
qed

definition both_materials :: "db \<Rightarrow> uuid \<Rightarrow> bool" where
  "both_materials d s \<longleftrightarrow> list_all (\<lambda>r. list_ex (\<lambda>m. am_role m = r) (assignment_join d s)) [Ingress, Egress]"

lemma both_materials_find:
  "both_materials d s \<Longrightarrow> \<exists>m. find (\<lambda>m. am_role m = r) (listSessionAssignmentMaterials d s) = Some m"
  unfolding find_not_None by (cases r) (auto simp: both_materials_def listSessionAssignmentMaterials_def list_ex_iff)

lemma role_in_join:
  "list_ex (\<lambda>m. am_role m = r) (assignment_join d s) \<longleftrightarrow> (\<exists>b\<in>set (gate_assignments d). ga_session b = s \<and> ga_role b = r
     \<and> ga_gate b \<in> gt_id ` set (gates d) \<and> ga_id b \<in> as_assignment ` set (assignment_status d))"
proof
  show "list_ex (\<lambda>m. am_role m = r) (assignment_join d s) \<Longrightarrow> \<exists>b\<in>set (gate_assignments d). ga_session b = s \<and> ga_role b = r
     \<and> ga_gate b \<in> gt_id ` set (gates d) \<and> ga_id b \<in> as_assignment ` set (assignment_status d)"
    by (auto simp: list_ex_iff assignment_join_def) (metis imageI)
next
  assume "\<exists>b\<in>set (gate_assignments d). ga_session b = s \<and> ga_role b = r
     \<and> ga_gate b \<in> gt_id ` set (gates d) \<and> ga_id b \<in> as_assignment ` set (assignment_status d)"
  then obtain b g st where "b \<in> set (gate_assignments d)" "ga_session b = s" "ga_role b = r" "g \<in> set (gates d)"
    "gt_id g = ga_gate b" "st \<in> set (assignment_status d)" "as_assignment st = ga_id b" by force
  then show "list_ex (\<lambda>m. am_role m = r) (assignment_join d s)"
    by (auto simp: list_ex_iff assignment_join_def intro!: bexI[of _ b] bexI[of _ g] bexI[of _ st])
qed

lemma both_materials_cong:
  assumes "gate_assignments d' = gate_assignments d" "gates d' = gates d"
    and "map as_assignment (assignment_status d') = map as_assignment (assignment_status d)"
  shows "both_materials d' s = both_materials d s"
proof -
  have "as_assignment ` set (assignment_status d') = as_assignment ` set (assignment_status d)"
    using assms(3) by (metis set_map)
  with assms(1,2) show ?thesis unfolding both_materials_def role_in_join by simp
qed

lemma repair_queues_commit:
  assumes "wf_assignments d" "both_materials d (ss_id s)" "a \<in> set (gate_assignments d)" "ga_session a = ss_id s"
    and "assignment_phase_of d (ga_id a) = Some A_drifted"
  shows "commit_queued (repair_session e (s, p) d) (ga_id a)"
proof -
  obtain i g where m: "find (\<lambda>m. am_role m = Ingress) (listSessionAssignmentMaterials d (ss_id s)) = Some i"
    "find (\<lambda>m. am_role m = Egress) (listSessionAssignmentMaterials d (ss_id s)) = Some g"
    using both_materials_find[OF assms(2)] by meson
  let ?n = "network_plan s p i g"
  let ?j = "commit_job (ss_id s) i Ingress ?n" and ?k = "commit_job (ss_id s) g Egress ?n"
  have r: "repair_session e (s, p) d = enqueueApplyJob e ?k (enqueueApplyJob e ?j d)"
    by (simp add: repair_session_def Let_def m)
  have fields: "aj_assignment ?j = am_id i" "aj_assignment ?k = am_id g" "aj_operation ?j = Op_commit" "aj_operation ?k = Op_commit"
    by (simp_all add: commit_job_def)
  show ?thesis
  proof (cases "ga_role a")
    case Ingress
    then have "am_id i = ga_id a" using role_material[OF assms(1,3,4)] m(1) by simp
    then have "commit_queued (enqueueApplyJob e ?j d) (ga_id a)"
      using enqueue_for_drifted[OF assms(1), of ?j e] assms(5) fields by simp
    then show ?thesis unfolding r using enqueue_appends(1)[of e ?k "enqueueApplyJob e ?j d"] commit_queued_mono by metis
  next
    case Egress
    then have "am_id g = ga_id a" using role_material[OF assms(1,3,4)] m(2) by simp
    moreover have "wf_assignments (enqueueApplyJob e ?j d)" "assignment_phase_of (enqueueApplyJob e ?j d) (ga_id a) = Some A_drifted"
      using assms(1,5) by (simp_all add: wf_assignments_def assignment_phase_of_def)
    ultimately show ?thesis
      unfolding r using enqueue_for_drifted[of "enqueueApplyJob e ?j d" ?k e] fields by simp
  qed
qed

lemma repair_frame:
  "gate_assignments (repair_session e x d) = gate_assignments d" "assignment_status (repair_session e x d) = assignment_status d"
  "gates (repair_session e x d) = gates d" "\<exists>js. jobs (repair_session e x d) = jobs d @ js"
proof -
  have g: "gates (enqueueApplyJob e i c) = gates c" for i c
    by (simp add: enqueueApplyJob_def insertApplyAssignmentJob_def insert_job_def gen_uuid_def)
  show "gate_assignments (repair_session e x d) = gate_assignments d" "assignment_status (repair_session e x d) = assignment_status d"
    "gates (repair_session e x d) = gates d" by (simp_all add: repair_session_def Let_def g split: option.split)
  show "\<exists>js. jobs (repair_session e x d) = jobs d @ js"
    using enqueue_appends(1) by (auto simp: repair_session_def Let_def split: option.split) (metis append_assoc)
qed

lemma repairs_frame:
  "gate_assignments (fold (repair_session e) xs d) = gate_assignments d"
  "assignment_status (fold (repair_session e) xs d) = assignment_status d"
  "gates (fold (repair_session e) xs d) = gates d"
  by (simp_all add: fold_keeps repair_frame)

lemma repairs_keep: "commit_queued d a \<Longrightarrow> commit_queued (fold (repair_session e) xs d) a"
  by (induction xs arbitrary: d) (auto, metis repair_frame(4) commit_queued_mono)

lemma repairs_queue:
  assumes "wf_assignments d" "both_materials d (ss_id s)" "a \<in> set (gate_assignments d)" "ga_session a = ss_id s"
    and "assignment_phase_of d (ga_id a) = Some A_drifted" "(s, p) \<in> set xs"
  shows "commit_queued (fold (repair_session e) xs d) (ga_id a)"
proof -
  obtain ys zs where xs: "xs = ys @ (s, p) # zs" using assms(6) by (meson split_list)
  let ?c = "fold (repair_session e) ys d"
  have c: "gate_assignments ?c = gate_assignments d" "assignment_status ?c = assignment_status d" "gates ?c = gates d"
    by (simp_all add: repairs_frame)
  have "commit_queued (repair_session e (s, p) ?c) (ga_id a)"
  proof (rule repair_queues_commit)
    show "wf_assignments ?c" using assms(1) c wf_assignments_cong by blast
    show "both_materials ?c (ss_id s)" using assms(2) both_materials_cong[OF c(1,3)] c(2) by simp
    show "a \<in> set (gate_assignments ?c)" "ga_session a = ss_id s" using assms(3,4) c by simp_all
    show "assignment_phase_of ?c (ga_id a) = Some A_drifted" using assms(5) c by (simp add: assignment_phase_of_def)
  qed
  then show ?thesis by (simp add: xs repairs_keep)
qed

lemma revoke_other:
  assumes "ra_assignmentId x \<noteq> i"
  shows "assignment_phase_of (revoke_assignment e x d) i = assignment_phase_of d i"
    "\<exists>js. jobs (revoke_assignment e x d) = jobs d @ js"
proof -
  let ?r = "requestAssignmentRevocation e (ra_assignmentId x) d"
  have "assignment_phase_of ?r i = assignment_phase_of d i"
    using assms row_of_update_assignment_status[of "\<lambda>r. r\<lparr>as_phase := A_revoking, as_updated := env_now e\<rparr>"]
    by (auto simp: requestAssignmentRevocation_def desiredRevokedTransition_def markAssignmentRevoking_def
        assignment_phase_of_def updateAssignmentDesiredState_def map_option_case dest: row_of_SomeD split: option.splits)
  moreover have "assignment_status (revoke_assignment e x d) = assignment_status ?r"
    by (simp add: revoke_assignment_def enqueueRevokeAssignmentJob_def insertRevokeAssignmentJob_def insert_job_def gen_uuid_def)
  ultimately show "assignment_phase_of (revoke_assignment e x d) i = assignment_phase_of d i"
    by (simp add: assignment_phase_of_def)
  have "jobs ?r = jobs d"
    by (simp add: requestAssignmentRevocation_def desiredRevokedTransition_def markAssignmentRevoking_def
        updateAssignmentDesiredState_def)
  then show "\<exists>js. jobs (revoke_assignment e x d) = jobs d @ js"
    using enqueue_appends(2)[of e x ?r] by (simp add: revoke_assignment_def)
qed

lemma revokes_other:
  assumes "\<And>x. x \<in> set xs \<Longrightarrow> ra_assignmentId x \<noteq> i"
  shows "assignment_phase_of (fold (revoke_assignment e) xs d) i = assignment_phase_of d i"
    "commit_queued d a \<Longrightarrow> commit_queued (fold (revoke_assignment e) xs d) a"
proof -
  show "assignment_phase_of (fold (revoke_assignment e) xs d) i = assignment_phase_of d i"
    using assms by (induction xs arbitrary: d) (simp_all add: revoke_other)
  show "commit_queued d a \<Longrightarrow> commit_queued (fold (revoke_assignment e) xs d) a"
    using assms by (induction xs arbitrary: d) (simp, metis revoke_other(2) commit_queued_mono fold_simps(2) list.set_intros)
qed

lemma marked_drifted:
  assumes "wf_assignments d" "a \<in> set (gate_assignments d)" "ga_gate a = g" "ga_handle a \<in> set hs" "ga_desired a = AD_Applied"
    and "assignment_phase_of d (ga_id a) = Some A_applied"
  shows "assignment_phase_of (markMissingHandleAssignmentsDrifted e g hs d) (ga_id a) = Some A_drifted"
proof -
  obtain r where r: "row_of as_assignment (ga_id a) (assignment_status d) = Some r" "as_phase r = A_applied"
    using assms(6) by (auto simp: assignment_phase_of_def)
  have "as_assignment r = ga_id a" using row_of_SomeD[OF r(1)] by simp
  then have "list_ex (\<lambda>a. ga_id a = as_assignment r \<and> ga_gate a = g \<and> ga_handle a \<in> set hs \<and> ga_desired a = AD_Applied)
      (gate_assignments d)" using assms(2-5) by (auto simp: list_ex_iff)
  moreover have "hs \<noteq> []" using assms(4) by auto
  ultimately show ?thesis
    unfolding markMissingHandleAssignmentsDrifted_def markMissingHandleAssignmentRowsDrifted_def
    by (simp add: assignment_phase_of_update[OF _ _ r(1)] r(2) driftedAssignmentTransition_def)
qed

lemma mark_frame:
  "gate_assignments (markMissingHandleAssignmentsDrifted e g hs d) = gate_assignments d"
  "gates (markMissingHandleAssignmentsDrifted e g hs d) = gates d"
  "map as_assignment (assignment_status (markMissingHandleAssignmentsDrifted e g hs d)) = map as_assignment (assignment_status d)"
  "listMissingHandleRepairSessions (markMissingHandleAssignmentsDrifted e g hs d) h hs = listMissingHandleRepairSessions d h hs"
  by (simp_all add: markMissingHandleAssignmentsDrifted_def markMissingHandleAssignmentRowsDrifted_def
      update_assignment_status_def map_update_where listMissingHandleRepairSessions_def session_join_def)

lemma drift_condition_frame:
  "gate_assignments (drift_condition e g d) = gate_assignments d"
  "assignment_status (drift_condition e g d) = assignment_status d"
  "gates (drift_condition e g d) = gates d"
  "listMissingHandleRepairSessions (drift_condition e g d) h hs = listMissingHandleRepairSessions d h hs"
  by (simp_all add: drift_condition_def setGateDriftCondition_def Let_def recordGateAuditEvent_def audit_def
      upsertGateCondition_def listMissingHandleRepairSessions_def session_join_def)

lemma orphan_rows:
  assumes "x \<in> set (listKnownOrphanAssignmentsForCleanup d g hs)"
  shows "\<exists>b\<in>set (gate_assignments d). ra_assignmentId x = ga_id b \<and> ga_handle b \<in> set hs"
proof -
  from assms have "x \<in> revocable ` {b \<in> set (gate_assignments d). ga_handle b \<in> set hs}"
    by (cases "hs = []") (auto simp: listKnownOrphanAssignmentsForCleanup_def simp del: take_map dest!: in_set_takeD)
  then show ?thesis by (auto simp: revocable_def)
qed

text \<open>
  C20: When a gate no longer reports the handle of an assignment that is applied and still wanted,
  and its session is one of those selected for repair, the drift reconciliation of the gate marks
  the assignment drifted and leaves a commit job for it in the queue, although the commit job that
  applied it has succeeded.
\<close>

theorem missing_handle_repaired:
  assumes "wf_assignments d" "a \<in> set (gate_assignments d)" "ga_gate a = dr_gateId g" "ga_desired a = AD_Applied"
    and "assignment_phase_of d (ga_id a) = Some A_applied" "dr_reportedAt g \<noteq> None"
    and "ga_handle a \<in> set (dr_desiredHandles g)" "ga_handle a \<notin> set (dr_actualHandles g)"
    and "(s, p) \<in> set (listMissingHandleRepairSessions d (dr_gateId g) (hd_missing (row_drift g)))"
    and "ga_session a = ss_id s" "both_materials d (ss_id s)"
  shows "assignment_phase_of (drift_gate e g d) (ga_id a) = Some A_drifted \<and> commit_queued (drift_gate e g d) (ga_id a)"
proof -
  let ?hs = "hd_missing (row_drift g)" and ?os = "hd_orphan (row_drift g)"
  have missing: "ga_handle a \<in> set ?hs" and orphan: "ga_handle a \<notin> set ?os"
    using assms(7,8) by (simp_all add: row_drift_def drift_missing drift_orphan)
  have drifted: "hd_drifted (row_drift g)" using assms(7,8) by (auto simp: row_drift_def drift_iff)
  define d1 where "d1 = drift_condition e g d"
  define d2 where "d2 = markMissingHandleAssignmentsDrifted e (dr_gateId g) ?hs d1"
  define d3 where "d3 = enqueueRepairJobsForMissingHandles e (dr_gateId g) ?hs d2"
  have gate: "drift_gate e g d = enqueueCleanupJobsForKnownOrphans e (dr_gateId g) ?os d3"
    using assms(6) drifted by (auto simp: drift_gate_def Let_def d1_def d2_def d3_def)
  have d1: "gate_assignments d1 = gate_assignments d" "assignment_status d1 = assignment_status d" "gates d1 = gates d"
    by (simp_all add: d1_def drift_condition_frame)
  have wf1: "wf_assignments d1" using assms(1) wf_assignments_cong[OF d1(1,2)] by simp
  have p2: "assignment_phase_of d2 (ga_id a) = Some A_drifted"
    unfolding d2_def using wf1 assms(2-5) missing d1 by (intro marked_drifted) (simp_all add: assignment_phase_of_def)
  have d2: "gate_assignments d2 = gate_assignments d" "gates d2 = gates d"
    "map as_assignment (assignment_status d2) = map as_assignment (assignment_status d)"
    by (simp_all add: d2_def mark_frame d1)
  have wf2: "wf_assignments d2" using assms(1) d2 by (simp add: wf_assignments_def)
  have listed: "(s, p) \<in> set (listMissingHandleRepairSessions d2 (dr_gateId g) ?hs)"
    using assms(9) by (simp add: d2_def mark_frame d1_def drift_condition_frame)
  have q3: "commit_queued d3 (ga_id a)"
    unfolding d3_def enqueueRepairJobsForMissingHandles_def
    using wf2 both_materials_cong[OF d2] assms(2,10,11) d2(1) p2 listed by (intro repairs_queue) simp_all
  have d3: "gate_assignments d3 = gate_assignments d" "assignment_phase_of d3 (ga_id a) = Some A_drifted"
    using p2 by (simp_all add: d3_def enqueueRepairJobsForMissingHandles_def repairs_frame d2 assignment_phase_of_def)
  have "ra_assignmentId x \<noteq> ga_id a" if x: "x \<in> set (listKnownOrphanAssignmentsForCleanup d3 (dr_gateId g) ?os)" for x
  proof -
    obtain b where b: "b \<in> set (gate_assignments d)" "ra_assignmentId x = ga_id b" "ga_handle b \<in> set ?os"
      using orphan_rows[OF x] by (auto simp: d3)
    with orphan assms(1,2) row_eqI[of ga_id "gate_assignments d" b a] show ?thesis by (auto simp: wf_assignments_def)
  qed
  note others = revokes_other[OF this]
  show ?thesis
    unfolding gate enqueueCleanupJobsForKnownOrphans_def using others d3(2) q3 by simp
qed

subsection \<open>Witnesses\<close>

definition drifting_db :: db where
  "drifting_db = (in_phase S_active config_db)\<lparr>snapshots := [\<lparr>sn_id = ''n1'', sn_gate = ''g1'', sn_bootId = None, sn_hash = ''h'',
       sn_handles = [''stray''], sn_reportedAt = Some 5, sn_receivedAt = 6\<rparr>],
     assignment_status := map (\<lambda>r. r\<lparr>as_appliedAt := Some 1\<rparr>) (assignment_status config_db)\<rparr>"

lemma drift_condition_exact_witness:
  "\<exists>d'. reconcileDrift sample_env drifting_db = Inr d' \<and> condition_true d' ''g1'' ''Drift''"
proof -
  have r: "reconcileDrift sample_env drifting_db
      = Inr (fold (drift_gate sample_env) (listGateActualStateDriftInputs drifting_db) drifting_db)"
    by (simp add: reconcileDrift_def for_each_fold)
  have "distinct (map gt_id (gates drifting_db))" by code_simp
  moreover obtain g where g: "g \<in> set (gates drifting_db)" "gt_id g = ''g1''"
  proof -
    have "list_ex (\<lambda>g. gt_id g = ''g1'') (gates drifting_db)" by code_simp
    with that show thesis by (auto simp: list_ex_iff)
  qed
  moreover obtain sn where sn: "latest_snapshot drifting_db ''g1'' = Some sn" "sn_reportedAt sn = Some 5"
    "sn_handles sn = [''stray'']"
    by (simp add: latest_snapshot_def drifting_db_def)
  moreover have "desired_handles drifting_db ''g1'' = [''ha1'']" by code_simp
  ultimately show ?thesis using drift_condition_exact[OF _ g(1) _ _ r] r by simp
qed

theorem missing_handle_repaired_witness:
  "\<exists>d'. d' = drift_gate sample_env (drift_input drifting_db (hd (gates drifting_db))) drifting_db
     \<and> assignment_phase_of d' ''a1'' = Some A_drifted \<and> commit_queued d' ''a1''"
proof -
  let ?g = "drift_input drifting_db (hd (gates drifting_db))" and ?a = "sample_assignment ''a1'' ''g1'' Ingress"
  have wf: "wf_assignments drifting_db" by code_simp
  have a: "?a \<in> set (gate_assignments drifting_db)" by (simp add: drifting_db_def in_phase_def config_db_def)
  have parts: "ga_gate ?a = dr_gateId ?g" "ga_desired ?a = AD_Applied" "dr_reportedAt ?g \<noteq> None"
    "assignment_phase_of drifting_db (ga_id ?a) = Some A_applied" "ga_handle ?a \<in> set (dr_desiredHandles ?g)"
    "ga_handle ?a \<notin> set (dr_actualHandles ?g)" "ga_id ?a = ''a1''"
    by code_simp+
  have listed: "(byo_session, hd (rendered_plans config_db))
      \<in> set (listMissingHandleRepairSessions drifting_db (dr_gateId ?g) (hd_missing (row_drift ?g)))"
    by code_simp
  have rest: "ga_session ?a = ss_id byo_session" "both_materials drifting_db (ss_id byo_session)" by code_simp+
  show ?thesis
    using missing_handle_repaired[OF wf a parts(1,2,4,3,5,6) listed rest, of sample_env] parts(7) by simp
qed

end
