(* ===== verification/Usage.thy ===== *)
theory Usage
  imports Drift
begin

section \<open>Reports of the actual state and the traffic they count\<close>

text \<open>
  \<open>resources/actual-state/repository.ts\<close> and \<open>snapshots.ts\<close>: a gate agent reports the handles it
  manages and, per assignment, counters since its boot.  Each sample is stored once, its increase
  over the previous sample of the same boot is stored as usage, and the payload that leaves through
  the egress gate is charged to the session's traffic entitlement.  Counters are 64-bit integers in
  the database; sums that exceed them are errors there and are not modelled.
\<close>

subsection \<open>Counters\<close>

definition map_counters :: "(int \<Rightarrow> int) \<Rightarrow> counters \<Rightarrow> counters" where
  "map_counters f c =
     \<lparr>wireGuardClientReceiveBytes = f (wireGuardClientReceiveBytes c),
      wireGuardClientTransmitBytes = f (wireGuardClientTransmitBytes c),
      wireGuardTransitReceiveBytes = f (wireGuardTransitReceiveBytes c),
      wireGuardTransitTransmitBytes = f (wireGuardTransitTransmitBytes c),
      forwardedToDestinationPackets = f (forwardedToDestinationPackets c),
      forwardedToDestinationBytes = f (forwardedToDestinationBytes c),
      forwardedFromDestinationPackets = f (forwardedFromDestinationPackets c),
      forwardedFromDestinationBytes = f (forwardedFromDestinationBytes c),
      droppedToDestinationPackets = f (droppedToDestinationPackets c),
      droppedToDestinationBytes = f (droppedToDestinationBytes c),
      droppedFromDestinationPackets = f (droppedFromDestinationPackets c),
      droppedFromDestinationBytes = f (droppedFromDestinationBytes c)\<rparr>"

text \<open>\<open>GREATEST(inserted - COALESCE(previous, inserted), 0)\<close>, column by column.\<close>

definition increase :: "int option \<Rightarrow> int \<Rightarrow> int" where
  "increase previous inserted = max (inserted - (case previous of None \<Rightarrow> inserted | Some p \<Rightarrow> p)) 0"

definition counter_increase :: "counters option \<Rightarrow> counters \<Rightarrow> counters" where
  "counter_increase p c =
     \<lparr>wireGuardClientReceiveBytes = increase (map_option wireGuardClientReceiveBytes p) (wireGuardClientReceiveBytes c),
      wireGuardClientTransmitBytes = increase (map_option wireGuardClientTransmitBytes p) (wireGuardClientTransmitBytes c),
      wireGuardTransitReceiveBytes = increase (map_option wireGuardTransitReceiveBytes p) (wireGuardTransitReceiveBytes c),
      wireGuardTransitTransmitBytes = increase (map_option wireGuardTransitTransmitBytes p) (wireGuardTransitTransmitBytes c),
      forwardedToDestinationPackets = increase (map_option forwardedToDestinationPackets p) (forwardedToDestinationPackets c),
      forwardedToDestinationBytes = increase (map_option forwardedToDestinationBytes p) (forwardedToDestinationBytes c),
      forwardedFromDestinationPackets = increase (map_option forwardedFromDestinationPackets p) (forwardedFromDestinationPackets c),
      forwardedFromDestinationBytes = increase (map_option forwardedFromDestinationBytes p) (forwardedFromDestinationBytes c),
      droppedToDestinationPackets = increase (map_option droppedToDestinationPackets p) (droppedToDestinationPackets c),
      droppedToDestinationBytes = increase (map_option droppedToDestinationBytes p) (droppedToDestinationBytes c),
      droppedFromDestinationPackets = increase (map_option droppedFromDestinationPackets p) (droppedFromDestinationPackets c),
      droppedFromDestinationBytes = increase (map_option droppedFromDestinationBytes p) (droppedFromDestinationBytes c)\<rparr>"

record counter_report =
  cr_assignmentId :: uuid
  cr_role :: gate_role
  cr_generation :: int
  cr_sampledAt :: time
  cr_counters :: counters

definition same_series :: "uuid \<Rightarrow> string \<Rightarrow> counter_report \<Rightarrow> sample_row \<Rightarrow> bool" where
  "same_series gateId bootId c s \<longleftrightarrow> cs_gate s = gateId \<and> cs_assignment s = cr_assignmentId c
     \<and> cs_bootId s = bootId \<and> cs_generation s = cr_generation c"

definition previous_sample :: "db \<Rightarrow> uuid \<Rightarrow> string \<Rightarrow> counter_report \<Rightarrow> sample_row option" where
  "previous_sample d gateId bootId c =
     (let earlier = filter (\<lambda>s. same_series gateId bootId c s \<and> cs_sampledAt s < cr_sampledAt c) (counter_samples d)
      in find (\<lambda>s. list_all (\<lambda>t. cs_sampledAt t \<le> cs_sampledAt s) earlier) earlier)"

definition payload :: "counters \<Rightarrow> int" where
  "payload c = forwardedToDestinationBytes c + forwardedFromDestinationBytes c"

text \<open>One statement with its data-modifying \<open>WITH\<close> parts: all of them read the tables as they were.\<close>

definition record_sample :: "env \<Rightarrow> uuid \<Rightarrow> string \<Rightarrow> counter_report \<Rightarrow> assignment_row \<Rightarrow> db \<Rightarrow> db" where
  "record_sample e gateId bootId c target d =
     (let (newId, d1) = gen_uuid e d;
          values = map_counters (max 0) (cr_counters c);
          previous = previous_sample d gateId bootId c;
          delta = counter_increase (map_option cs_counters previous) values
      in if list_ex (\<lambda>s. same_series gateId bootId c s \<and> cs_sampledAt s = cr_sampledAt c) (counter_samples d) then d1
         else d1\<lparr>counter_samples := counter_samples d1 @
               [\<lparr>cs_id = newId, cs_gate = gateId, cs_assignment = cr_assignmentId c, cs_bootId = bootId,
                 cs_generation = cr_generation c, cs_role = cr_role c, cs_sampledAt = cr_sampledAt c, cs_counters = values\<rparr>],
             usage_deltas := usage_deltas d1 @
               [\<lparr>ud_sample = newId, ud_gate = gateId, ud_assignment = cr_assignmentId c, ud_bootId = bootId,
                 ud_generation = cr_generation c, ud_role = cr_role c,
                 ud_windowStart = (case previous of None \<Rightarrow> cr_sampledAt c | Some p \<Rightarrow> cs_sampledAt p),
                 ud_windowEnd = cr_sampledAt c, ud_counters = delta\<rparr>],
             traffic_entitlements := (if cr_role c = Egress
               then update_where (\<lambda>t. te_session t = ga_session target)
                      (\<lambda>t. t\<lparr>te_consumed := te_consumed t + payload delta, te_updated := env_now e\<rparr>) (traffic_entitlements d1)
               else traffic_entitlements d1)\<rparr>)"

definition recordGateAssignmentCounter :: "env \<Rightarrow> uuid \<Rightarrow> string option \<Rightarrow> counter_report \<Rightarrow> db \<Rightarrow> db" where
  "recordGateAssignmentCounter e gateId bootId c d =
     (case bootId of None \<Rightarrow> d
      | Some b \<Rightarrow> if b = [] then d
          else (case find (\<lambda>a. ga_id a = cr_assignmentId c \<and> ga_gate a = gateId) (gate_assignments d) of
              None \<Rightarrow> d | Some target \<Rightarrow> record_sample e gateId b c target d))"

subsection \<open>Reports\<close>

record state_report =
  sr_stateHash :: string
  sr_bootId :: string
  sr_agentVersion :: string
  sr_agentRevision :: string
  sr_agentBuiltAt :: string
  sr_agentArtifactSha256 :: string
  sr_agentInstalledAt :: "time option"
  sr_managedHandles :: "string list"
  sr_assignmentCounters :: "counter_report list"
  sr_reportedAt :: "time option"

definition coalesce :: "'a option \<Rightarrow> 'a option \<Rightarrow> 'a option" where
  "coalesce x y = (case x of None \<Rightarrow> y | Some v \<Rightarrow> Some v)"

definition updateGateActualState :: "env \<Rightarrow> uuid \<Rightarrow> state_report \<Rightarrow> db \<Rightarrow> db" where
  "updateGateActualState e gateId r d =
     (let (newId, d1) = gen_uuid e d;
          bootId = or_null (sr_bootId r);
          d2 = d1\<lparr>snapshots := snapshots d1 @
            [\<lparr>sn_id = newId, sn_gate = gateId, sn_bootId = bootId, sn_hash = sr_stateHash r,
              sn_handles = sr_managedHandles r, sn_reportedAt = sr_reportedAt r, sn_receivedAt = env_now e\<rparr>]\<rparr>;
          d3 = d2\<lparr>gate_status := update_where (\<lambda>g. gs_gate g = gateId)
            (\<lambda>g. g\<lparr>gs_hash := or_null (sr_stateHash r), gs_bootId := coalesce bootId (gs_bootId g),
               gs_agentVersion := coalesce (or_null (sr_agentVersion r)) (gs_agentVersion g),
               gs_agentRevision := coalesce (or_null (sr_agentRevision r)) (gs_agentRevision g),
               gs_agentBuiltAt := coalesce (or_null (sr_agentBuiltAt r)) (gs_agentBuiltAt g),
               gs_artifactSha256 := coalesce (or_null (sr_agentArtifactSha256 r)) (gs_artifactSha256 g),
               gs_installedAt := coalesce (sr_agentInstalledAt r) (gs_installedAt g), gs_updated := env_now e\<rparr>) (gate_status d2)\<rparr>
      in fold (recordGateAssignmentCounter e gateId bootId) (sr_assignmentCounters r) d3)"

definition recordGateActualState :: "env \<Rightarrow> uuid \<Rightarrow> state_report \<Rightarrow> db \<Rightarrow> db" where
  "recordGateActualState = updateGateActualState"

subsection \<open>What one sample changes\<close>

definition consumed :: "db \<Rightarrow> uuid \<Rightarrow> int option" where
  "consumed d s = map_option te_consumed (row_of te_session s (traffic_entitlements d))"

definition stored_before :: "db \<Rightarrow> uuid \<Rightarrow> string \<Rightarrow> counter_report \<Rightarrow> bool" where
  "stored_before d gateId bootId c \<longleftrightarrow>
     list_ex (\<lambda>s. same_series gateId bootId c s \<and> cs_sampledAt s = cr_sampledAt c) (counter_samples d)"

definition egress_usage :: "db \<Rightarrow> uuid \<Rightarrow> string \<Rightarrow> counter_report \<Rightarrow> int" where
  "egress_usage d gateId bootId c = (if cr_role c = Egress \<and> \<not> stored_before d gateId bootId c
     then payload (counter_increase (map_option cs_counters (previous_sample d gateId bootId c))
            (map_counters (max 0) (cr_counters c))) else 0)"

interpretation consume_update: row_update te_session "\<lambda>t. t\<lparr>te_consumed := te_consumed t + n, te_updated := u\<rparr>" for n u
  by unfold_locales simp

lemma payload_increase_nonneg: "0 \<le> payload (counter_increase p c)"
  by (simp add: payload_def counter_increase_def increase_def)

lemma consumed_record:
  "consumed (record_sample e g b c a d) s =
     map_option (\<lambda>n. n + (if s = ga_session a then egress_usage d g b c else 0)) (consumed d s)"
proof -
  have same: "row_of te_session s (traffic_entitlements d) = None \<or>
      (\<exists>t. row_of te_session s (traffic_entitlements d) = Some t \<and> te_session t = s)"
    by (cases "row_of te_session s (traffic_entitlements d)") (auto dest: row_of_SomeD)
  then show ?thesis
    by (auto simp: record_sample_def consumed_def egress_usage_def stored_before_def gen_uuid_def Let_def
        consume_update.row_of_update)
qed

lemma record_samples:
  "counter_samples (record_sample e g b c a d) =
     (if stored_before d g b c then counter_samples d
      else counter_samples d @ [\<lparr>cs_id = env_uuid e (uuid_next d), cs_gate = g, cs_assignment = cr_assignmentId c,
        cs_bootId = b, cs_generation = cr_generation c, cs_role = cr_role c, cs_sampledAt = cr_sampledAt c,
        cs_counters = map_counters (max 0) (cr_counters c)\<rparr>])"
  by (simp add: record_sample_def stored_before_def gen_uuid_def Let_def)

lemma record_assignments [simp]: "gate_assignments (record_sample e g b c a d) = gate_assignments d"
  by (simp add: record_sample_def gen_uuid_def Let_def)

lemma stored_after: "stored_before (record_sample e g b c a d) g b c"
  by (simp add: stored_before_def record_samples same_series_def)

text \<open>
  Recording a sample again changes neither the samples nor the usage nor the consumed traffic:
  an agent may repeat a report.
\<close>

lemma sample_recorded_once:
  fixes d d' :: db
  assumes "d' = recordGateAssignmentCounter e g b c d"
  shows "counter_samples (recordGateAssignmentCounter e' g b c d') = counter_samples d'
    \<and> usage_deltas (recordGateAssignmentCounter e' g b c d') = usage_deltas d'
    \<and> traffic_entitlements (recordGateAssignmentCounter e' g b c d') = traffic_entitlements d'"
proof (cases "b = None \<or> b = Some [] \<or> find (\<lambda>a. ga_id a = cr_assignmentId c \<and> ga_gate a = g) (gate_assignments d) = None")
  case True
  then show ?thesis using assms by (auto simp: recordGateAssignmentCounter_def split: option.splits)
next
  case False
  then obtain i a where "b = Some i" "i \<noteq> []"
    "find (\<lambda>a. ga_id a = cr_assignmentId c \<and> ga_gate a = g) (gate_assignments d) = Some a" by auto
  then have d': "d' = record_sample e g i c a d"
    "recordGateAssignmentCounter e' g b c d' = record_sample e' g i c a d'"
    using assms by (simp_all add: recordGateAssignmentCounter_def)
  have "stored_before d' g i c" unfolding d'(1) by (rule stored_after)
  then show ?thesis unfolding d'(2) by (simp add: record_sample_def stored_before_def gen_uuid_def Let_def)
qed

subsection \<open>The traffic of one boot\<close>

text \<open>The reference: the increases between consecutive samples of one series.\<close>

fun usage_between :: "counters list \<Rightarrow> int" where
  "usage_between (x # y # cs) = max 0 (forwardedToDestinationBytes y - forwardedToDestinationBytes x)
     + max 0 (forwardedFromDestinationBytes y - forwardedFromDestinationBytes x) + usage_between (y # cs)"
| "usage_between cs = 0"

definition series :: "uuid \<Rightarrow> string \<Rightarrow> uuid \<Rightarrow> int \<Rightarrow> db \<Rightarrow> sample_row list" where
  "series g b i n d = filter (\<lambda>s. cs_gate s = g \<and> cs_assignment s = i \<and> cs_bootId s = b \<and> cs_generation s = n) (counter_samples d)"

lemma find_last_max:
  assumes "\<And>x. x \<in> set xs \<Longrightarrow> f x < (f p :: int)"
  shows "find (\<lambda>s. list_all (\<lambda>t. f t \<le> f s) (xs @ [p])) (xs @ [p]) = Some p"
proof -
  have "find (\<lambda>s. list_all (\<lambda>t. f t \<le> f s) (xs @ [p])) xs = None"
    using assms by (force simp: find_is_None list_ex_iff)
  moreover have "list_all (\<lambda>t. f t \<le> f p) (xs @ [p])" using assms by (auto simp: list_all_iff intro: less_imp_le)
  ultimately show ?thesis by (simp add: find_append)
qed

lemma series_previous:
  assumes "cr_assignmentId c = i" "cr_generation c = n"
    and "\<And>x. x \<in> set (series g b i n d) \<Longrightarrow> cs_sampledAt x < cr_sampledAt c"
  shows "previous_sample d g b c = find (\<lambda>s. list_all (\<lambda>t. cs_sampledAt t \<le> cs_sampledAt s) (series g b i n d)) (series g b i n d)"
    "\<not> stored_before d g b c"
proof -
  have "filter (\<lambda>s. same_series g b c s \<and> cs_sampledAt s < cr_sampledAt c) (counter_samples d) = series g b i n d"
    unfolding series_def using assms by (intro filter_cong) (auto simp: same_series_def series_def)
  then show "previous_sample d g b c = find (\<lambda>s. list_all (\<lambda>t. cs_sampledAt t \<le> cs_sampledAt s) (series g b i n d)) (series g b i n d)"
    by (simp add: previous_sample_def Let_def)
  show "\<not> stored_before d g b c"
    using assms by (force simp: stored_before_def same_series_def series_def list_ex_iff)
qed

definition counts :: "counter_report \<Rightarrow> counters" where
  "counts c = map_counters (max 0) (cr_counters c)"

definition sample_for :: "env \<Rightarrow> db \<Rightarrow> uuid \<Rightarrow> string \<Rightarrow> counter_report \<Rightarrow> sample_row" where
  "sample_for e d g b c = \<lparr>cs_id = env_uuid e (uuid_next d), cs_gate = g, cs_assignment = cr_assignmentId c,
     cs_bootId = b, cs_generation = cr_generation c, cs_role = cr_role c, cs_sampledAt = cr_sampledAt c, cs_counters = counts c\<rparr>"

lemma series_record:
  assumes "cr_assignmentId c = i" "cr_generation c = n" "\<And>x. x \<in> set (series g b i n d) \<Longrightarrow> cs_sampledAt x < cr_sampledAt c"
  shows "series g b i n (record_sample e g b c a d) = series g b i n d @ [sample_for e d g b c]"
  using series_previous(2)[OF assms] assms(1,2) by (simp add: series_def record_samples sample_for_def counts_def)

text \<open>The reports of one egress assignment in the order of their samples.\<close>

definition egress_reports :: "uuid \<Rightarrow> int \<Rightarrow> counter_report list \<Rightarrow> bool" where
  "egress_reports i n cs \<longleftrightarrow> list_all (\<lambda>c. cr_assignmentId c = i \<and> cr_generation c = n \<and> cr_role c = Egress) cs
     \<and> sorted_wrt (<) (map cr_sampledAt cs)"

definition target_of :: "db \<Rightarrow> uuid \<Rightarrow> uuid \<Rightarrow> assignment_row option" where
  "target_of d i g = find (\<lambda>a. ga_id a = i \<and> ga_gate a = g) (gate_assignments d)"

lemma record_target:
  assumes "b \<noteq> []" "target_of d i g = Some a" "cr_assignmentId c = i"
  shows "recordGateAssignmentCounter e g (Some b) c d = record_sample e g b c a d"
    "target_of (record_sample e g b c a d) i g = Some a"
  using assms by (simp_all add: recordGateAssignmentCounter_def target_of_def)

lemma usage_after:
  assumes "b \<noteq> []" "target_of d i g = Some a" "egress_reports i n cs" "series g b i n d = xs @ [p]"
    and "\<And>x. x \<in> set xs \<Longrightarrow> cs_sampledAt x < cs_sampledAt p" "\<And>c. c \<in> set cs \<Longrightarrow> cs_sampledAt p < cr_sampledAt c"
    and "consumed d (ga_session a) = Some u"
  shows "consumed (fold (recordGateAssignmentCounter e g (Some b)) cs d) (ga_session a) =
    Some (u + usage_between (cs_counters p # map counts cs))"
  using assms(2-)
proof (induction cs arbitrary: d xs p u)
  case (Cons c cs)
  have c: "cr_assignmentId c = i" "cr_generation c = n" "cr_role c = Egress" "egress_reports i n cs"
    using Cons.prems(2) by (simp_all add: egress_reports_def)
  have later: "\<And>x. x \<in> set cs \<Longrightarrow> cr_sampledAt c < cr_sampledAt x" using Cons.prems(2) by (simp add: egress_reports_def)
  have earlier: "\<And>x. x \<in> set (series g b i n d) \<Longrightarrow> cs_sampledAt x < cr_sampledAt c"
    using Cons.prems(3,4,5) by (fastforce intro: less_trans)
  have prev: "previous_sample d g b c = Some p" "\<not> stored_before d g b c"
    using series_previous[where g = g and b = b and d = d, OF c(1,2) earlier]
      find_last_max[of xs cs_sampledAt p, OF Cons.prems(4)] unfolding Cons.prems(3) by simp_all
  let ?d = "record_sample e g b c a d" and ?q = "sample_for e d g b c"
  have u: "consumed ?d (ga_session a) = Some (u + payload (counter_increase (Some (cs_counters p)) (counts c)))"
    by (simp add: consumed_record Cons.prems(6) egress_usage_def prev c(3) counts_def)
  have s: "series g b i n ?d = (xs @ [p]) @ [?q]"
    by (subst series_record[OF c(1,2) earlier]) (simp_all add: Cons.prems(3))
  have q: "cs_sampledAt ?q = cr_sampledAt c" "cs_counters ?q = counts c" by (simp_all add: sample_for_def)
  have "\<And>x. x \<in> set (xs @ [p]) \<Longrightarrow> cs_sampledAt x < cs_sampledAt ?q"
    using earlier Cons.prems(3) by (simp add: q)
  from Cons.IH[OF record_target(2)[OF assms(1) Cons.prems(1) c(1)] c(4) s this _ u] later
  have "consumed (fold (recordGateAssignmentCounter e g (Some b)) cs ?d) (ga_session a) =
      Some (u + payload (counter_increase (Some (cs_counters p)) (counts c)) + usage_between (counts c # map counts cs))"
    by (simp add: q)
  then show ?case
    by (simp add: record_target(1)[OF assms(1) Cons.prems(1) c(1)] payload_def counter_increase_def increase_def max.commute)
qed simp

text \<open>
  For the samples of one boot of the egress gate, taken in order and never seen before, the
  consumed traffic of the session grows by exactly the increases between consecutive samples, in
  both directions; the traffic before the first sample of a boot is free.
\<close>

lemma usage_exact:
  assumes "b \<noteq> []" "target_of d i g = Some a" "egress_reports i n cs" "series g b i n d = []"
    and "consumed d (ga_session a) = Some u"
  shows "consumed (fold (recordGateAssignmentCounter e g (Some b)) cs d) (ga_session a) = Some (u + usage_between (map counts cs))"
proof (cases cs)
  case Nil
  then show ?thesis using assms(5) by simp
next
  case (Cons c rest)
  have c: "cr_assignmentId c = i" "cr_generation c = n" "cr_role c = Egress" "egress_reports i n rest"
    "\<And>x. x \<in> set rest \<Longrightarrow> cr_sampledAt c < cr_sampledAt x"
    using assms(3) by (simp_all add: egress_reports_def Cons)
  have prev: "previous_sample d g b c = None" "\<not> stored_before d g b c"
    using series_previous[OF c(1,2), of g b d] assms(4) by simp_all
  let ?d = "record_sample e g b c a d"
  have u: "consumed ?d (ga_session a) = Some u"
    using assms(5) by (simp add: consumed_record egress_usage_def prev c(3) payload_def counter_increase_def increase_def)
  have s: "series g b i n ?d = [] @ [sample_for e d g b c]"
    using series_record[OF c(1,2), of g b d e a] assms(4) by simp
  have "consumed (fold (recordGateAssignmentCounter e g (Some b)) rest ?d) (ga_session a) =
      Some (u + usage_between (cs_counters (sample_for e d g b c) # map counts rest))"
    using usage_after[OF assms(1) record_target(2)[OF assms(1,2) c(1)] c(4) s _ _ u] c(5) by (simp add: sample_for_def)
  then show ?thesis
    by (simp add: Cons record_target(1)[OF assms(1,2) c(1)] sample_for_def)
qed

subsection \<open>A sample that arrives late\<close>

lemma series_earlier:
  assumes "cr_assignmentId c = i" "cr_generation c = n"
  shows "previous_sample d g b c = (let earlier = filter (\<lambda>s. cs_sampledAt s < cr_sampledAt c) (series g b i n d)
      in find (\<lambda>s. list_all (\<lambda>t. cs_sampledAt t \<le> cs_sampledAt s) earlier) earlier)"
    "stored_before d g b c \<longleftrightarrow> list_ex (\<lambda>s. cs_sampledAt s = cr_sampledAt c) (series g b i n d)"
proof -
  have "filter (\<lambda>s. same_series g b c s \<and> cs_sampledAt s < cr_sampledAt c) (counter_samples d)
      = filter (\<lambda>s. cs_sampledAt s < cr_sampledAt c) (series g b i n d)"
    unfolding series_def filter_filter using assms by (intro filter_cong) (auto simp: same_series_def)
  then show "previous_sample d g b c = (let earlier = filter (\<lambda>s. cs_sampledAt s < cr_sampledAt c) (series g b i n d)
      in find (\<lambda>s. list_all (\<lambda>t. cs_sampledAt t \<le> cs_sampledAt s) earlier) earlier)"
    by (simp add: previous_sample_def)
  show "stored_before d g b c \<longleftrightarrow> list_ex (\<lambda>s. cs_sampledAt s = cr_sampledAt c) (series g b i n d)"
    using assms by (auto simp: stored_before_def same_series_def series_def list_ex_iff)
qed

text \<open>
  C27: A sample that arrives after a later sample of its boot is charged again: the traffic between
  the first and the middle sample is consumed twice.
\<close>

theorem late_sample_counted_twice:
  assumes "b \<noteq> []" "target_of d i g = Some a" "egress_reports i n [c1, c2, c3]" "series g b i n d = []"
    and "consumed d (ga_session a) = Some u"
  shows "consumed (fold (recordGateAssignmentCounter e g (Some b)) [c1, c3, c2] d) (ga_session a) =
    Some (u + usage_between [counts c1, counts c3] + usage_between [counts c1, counts c2])"
proof -
  have c: "cr_assignmentId c1 = i" "cr_generation c1 = n" "cr_assignmentId c2 = i" "cr_generation c2 = n"
    "cr_role c2 = Egress" "cr_assignmentId c3 = i" "cr_generation c3 = n"
    using assms(3) by (simp_all add: egress_reports_def)
  have times: "cr_sampledAt c1 < cr_sampledAt c2" "cr_sampledAt c2 < cr_sampledAt c3"
    using assms(3) by (simp_all add: egress_reports_def)
  have cs: "egress_reports i n [c1, c3]" using assms(3) by (simp add: egress_reports_def)
  let ?r = "\<lambda>c d. record_sample e g b c a d"
  note t1 = record_target[OF assms(1,2), of c1 e] and t3 = record_target[OF assms(1), of "?r c1 d" i g a c3 e]
  have s1: "series g b i n (?r c1 d) = [sample_for e d g b c1]"
    using series_record[of c1 i n g b d e a] c(1,2) assms(4) by simp
  have s3: "series g b i n (?r c3 (?r c1 d)) = [sample_for e d g b c1, sample_for e (?r c1 d) g b c3]"
    using series_record[of c3 i n g b "?r c1 d" e a] c(6,7) s1 times by (simp add: sample_for_def)
  have run: "fold (recordGateAssignmentCounter e g (Some b)) [c1, c3] d = ?r c3 (?r c1 d)"
    using t1 t3 c(1,6) by simp
  have u: "consumed (?r c3 (?r c1 d)) (ga_session a) = Some (u + usage_between [counts c1, counts c3])"
    using usage_exact[OF assms(1,2) cs assms(4,5), of e] unfolding run by simp
  have prev: "previous_sample (?r c3 (?r c1 d)) g b c2 = Some (sample_for e d g b c1)"
    "\<not> stored_before (?r c3 (?r c1 d)) g b c2"
    using c(3-5) times by (simp_all add: series_earlier[of c2 i n] s3 Let_def sample_for_def)
  have "target_of (?r c3 (?r c1 d)) i g = Some a" using assms(2) by (simp add: target_of_def)
  then have "fold (recordGateAssignmentCounter e g (Some b)) [c1, c3, c2] d = ?r c2 (?r c3 (?r c1 d))"
    using run record_target(1)[OF assms(1), of "?r c3 (?r c1 d)" i g a c2 e] c(3-5) by simp
  moreover have "egress_usage (?r c3 (?r c1 d)) g b c2 = usage_between [counts c1, counts c2]"
    using c(3-5) unfolding egress_usage_def prev(1)
    by (simp add: prev(2) sample_for_def counts_def payload_def counter_increase_def increase_def max.commute)
  ultimately show ?thesis by (simp only: consumed_record[of e g b c2] u option.map if_True refl)
qed

subsection \<open>Witnesses\<close>

definition zero_counters :: counters where
  "zero_counters = \<lparr>wireGuardClientReceiveBytes = 0, wireGuardClientTransmitBytes = 0, wireGuardTransitReceiveBytes = 0,
     wireGuardTransitTransmitBytes = 0, forwardedToDestinationPackets = 0, forwardedToDestinationBytes = 0,
     forwardedFromDestinationPackets = 0, forwardedFromDestinationBytes = 0, droppedToDestinationPackets = 0,
     droppedToDestinationBytes = 0, droppedFromDestinationPackets = 0, droppedFromDestinationBytes = 0\<rparr>"

definition sample_counter :: "time \<Rightarrow> int \<Rightarrow> counter_report" where
  "sample_counter t n = \<lparr>cr_assignmentId = ''a2'', cr_role = Egress, cr_generation = 1, cr_sampledAt = t,
     cr_counters = zero_counters\<lparr>forwardedToDestinationBytes := n, forwardedFromDestinationBytes := 2 * n\<rparr>\<rparr>"

definition metered_db :: db where
  "metered_db = (in_phase S_active config_db)\<lparr>traffic_entitlements :=
     [\<lparr>te_session = ''s1'', te_included = 20, te_consumed = 5, te_exhausted = None, te_updated = 0\<rparr>]\<rparr>"

lemma metered:
  "target_of metered_db ''a2'' ''g2'' = Some (sample_assignment ''a2'' ''g2'' Egress)"
  "series ''g2'' ''boot'' ''a2'' 1 metered_db = []" "consumed metered_db ''s1'' = Some 5"
  "ga_session (sample_assignment ''a2'' ''g2'' Egress) = ''s1''"
  by code_simp+

lemma sample_recorded_once_witness:
  "counter_samples (recordGateAssignmentCounter sample_env ''g2'' (Some ''boot'') (sample_counter 7 10)
     (recordGateAssignmentCounter sample_env ''g2'' (Some ''boot'') (sample_counter 7 10) metered_db))
   = counter_samples (recordGateAssignmentCounter sample_env ''g2'' (Some ''boot'') (sample_counter 7 10) metered_db)
   \<and> length (counter_samples (recordGateAssignmentCounter sample_env ''g2'' (Some ''boot'') (sample_counter 7 10) metered_db)) = 1"
  using sample_recorded_once[OF refl, of sample_env "''g2''" "Some ''boot''" "sample_counter 7 10" sample_env metered_db]
  by simp code_simp

lemma usage_exact_witness:
  "consumed (fold (recordGateAssignmentCounter sample_env ''g2'' (Some ''boot'')) [sample_counter 7 10, sample_counter 8 13] metered_db) ''s1''
     = Some (5 + 9)"
proof -
  have "egress_reports ''a2'' 1 [sample_counter 7 10, sample_counter 8 13]" by code_simp
  from usage_exact[OF _ metered(1) this metered(2), of 5 sample_env] metered(3,4) show ?thesis
    by (simp add: counts_def map_counters_def sample_counter_def)
qed

theorem late_sample_counted_twice_witness:
  "consumed (fold (recordGateAssignmentCounter sample_env ''g2'' (Some ''boot''))
     [sample_counter 7 10, sample_counter 9 20, sample_counter 8 13] metered_db) ''s1'' = Some (5 + 30 + 9)"
proof -
  have "egress_reports ''a2'' 1 [sample_counter 7 10, sample_counter 8 13, sample_counter 9 20]" by code_simp
  from late_sample_counted_twice[OF _ metered(1) this metered(2), of 5 sample_env] metered(3,4) show ?thesis
    by (simp add: counts_def map_counters_def sample_counter_def)
qed

end
