(* ===== verification/Worker.thy ===== *)
theory Worker
  imports Usage
begin

section \<open>The reconcile loop of the worker\<close>

text \<open>
  \<open>apps/control-plane-worker/src/loops/reconcile-loop.ts\<close>: one pass runs the controllers one after
  the other.  Each is a transaction with its own \<open>now()\<close>; an exception ends the pass and leaves what
  the earlier transactions have committed.  \<open>e k\<close> is what the \<open>k\<close>-th transaction takes from outside.
\<close>

fun run_steps :: "(db \<Rightarrow> string + db) list \<Rightarrow> db \<Rightarrow> db \<times> string option" where
  "run_steps [] d = (d, None)"
| "run_steps (f # fs) d = (case f d of Inl err \<Rightarrow> (d, Some err) | Inr d' \<Rightarrow> run_steps fs d')"

definition reconcile_steps :: "(nat \<Rightarrow> env) \<Rightarrow> int \<Rightarrow> int \<Rightarrow> (db \<Rightarrow> string + db) list" where
  "reconcile_steps e staleSeconds timeoutSeconds =
     [\<lambda>d. Inr (markStaleGates (e 0) staleSeconds d),
      beginSessionRevocation (e 1),
      enqueueRevocationJobsForAssignments (e 2),
      beginRequestedSessionProbing (e 3),
      advanceProbedSessionsToScheduling (e 4),
      scheduleSessionsForProvisioning (e 5),
      enqueueCommitJobsForPreparedAssignments (e 6),
      completeProvisionedSessions (e 7),
      failTimedOutProvisioningSessions (e 8) timeoutSeconds,
      completeRevokedSessions (e 9),
      reconcileExpiry (e 10),
      reconcileDrift (e 11)]"

definition reconcileOnce :: "(nat \<Rightarrow> env) \<Rightarrow> int \<Rightarrow> int \<Rightarrow> db \<Rightarrow> db \<times> string option" where
  "reconcileOnce e staleSeconds timeoutSeconds = run_steps (reconcile_steps e staleSeconds timeoutSeconds)"

subsection \<open>The contract of a transaction\<close>

locale worker_transaction =
  fixes step :: "db \<Rightarrow> string + db"
  assumes keeps_leases: "step d = Inr d' \<Longrightarrow> leases_exclusive d \<Longrightarrow> leases_exclusive d'"
    and refines_phases: "step d = Inr d' \<Longrightarrow> wf_sessions d \<Longrightarrow> phases_refine d d' \<and> wf_sessions d'"

lemma run_steps_contract:
  assumes "list_all worker_transaction fs" "leases_exclusive d" "wf_sessions d"
  shows "leases_exclusive (fst (run_steps fs d)) \<and> wf_sessions (fst (run_steps fs d)) \<and> phases_refine d (fst (run_steps fs d))"
  using assms
proof (induction fs arbitrary: d)
  case (Cons f fs)
  show ?case
  proof (cases "f d")
    case (Inl err)
    with Cons.prems show ?thesis by simp
  next
    case (Inr d')
    from Cons.prems(1) have f: "worker_transaction f" and fs: "list_all worker_transaction fs" by simp_all
    note kept = worker_transaction.keeps_leases[OF f Inr Cons.prems(2)] worker_transaction.refines_phases[OF f Inr Cons.prems(3)]
    with Cons.IH[OF fs, of d'] Inr show ?thesis by (auto intro: phases_refine_trans)
  qed
qed simp

subsection \<open>Statements that leave the leases alone\<close>

lemma leases_cong: "address_leases d' = address_leases d \<Longrightarrow> leases_exclusive d' = leases_exclusive d"
  by (simp add: leases_exclusive_def active_leases_def)

lemma lease_frame [simp]:
  "address_leases (setSessionCondition e s t c r m n d) = address_leases d"
  "address_leases (fst (recordProbeRun e s cs d)) = address_leases d"
  "address_leases (insertSessionAuditEvent e m s y d) = address_leases d"
  "address_leases (markApplyJobsDeadForSession e s d) = address_leases d"
  "address_leases (markPendingAssignmentsDeadForSession e s j d) = address_leases d"
  "address_leases (invalidateSessionArtifacts e s d) = address_leases d"
  "address_leases (revokeEntitlementsForSession e s d) = address_leases d"
  "address_leases (queuePreparedAssignmentsForCommit e s t d) = address_leases d"
  "address_leases (requestAssignmentRevocation e s d) = address_leases d"
  "address_leases (enqueueRevokeAssignmentJob e a d) = address_leases d"
  by (simp_all add: setSessionCondition_def upsertSessionCondition_def insertSessionAuditEvent_def audit_def
      markApplyJobsDeadForSession_def markApplyJobsPhaseForSession_def markPendingAssignmentsDeadForSession_def
      markPendingAssignmentsPhaseForSession_def invalidateSessionArtifacts_def invalidateArtifactsForSession_def
      revokeEntitlementsForSession_def queuePreparedAssignmentsForCommit_def markPreparedAssignmentsQueued_def
      requestAssignmentRevocation_def desiredRevokedTransition_def markAssignmentRevoking_def
      updateAssignmentDesiredState_def enqueueRevokeAssignmentJob_def insertRevokeAssignmentJob_def insert_job_def
      gen_uuid_def update_job_def recordProbeRun_def createProbeRun_def markProbeRunCompleted_def case_prod_beta Let_def)

lemma lease_status_frame [simp]:
  "address_leases (updateSessionStatusPhase e s tr sp d) = address_leases d"
  "address_leases (markSessionFailed e s tr d) = address_leases d"
  "address_leases (markSessionActive e s tr d) = address_leases d"
  "address_leases (markSessionRevoked e s tr d) = address_leases d"
  "address_leases (markSessionRevoking e s tr d) = address_leases d"
  "address_leases (markSessionProvisioning e s tr j d) = address_leases d"
  "address_leases (touchSessionStatus e s d) = address_leases d"
  unfolding status_statements touchSessionStatus_def by (simp_all add: update_status_def)

lemma lease_prepare: "prepareClientConfigArtifact e s g d = Inr d' \<Longrightarrow> address_leases d' = address_leases d"
  by (auto simp: prepareClientConfigArtifact_def Let_def case_prod_beta attachArtifactToSessionStatus_def update_status_def
      insertClientConfigArtifactPayload_def insertClientConfigArtifact_def gen_uuid_def split: option.splits)

subsection \<open>Every transaction of a pass keeps the contract\<close>

lemma for_each_invariant:
  assumes "for_each body xs d = Inr d'" "\<And>x d d'. body x d = Inr d' \<Longrightarrow> I d \<Longrightarrow> I d'" "I d"
  shows "I d'"
  using assms(1,3) by (induction xs arbitrary: d) (auto dest: assms(2))

lemma same_leases_loop:
  assumes "for_each body xs d = Inr d'" "\<And>x d d'. body x d = Inr d' \<Longrightarrow> address_leases d' = address_leases d"
  shows "leases_exclusive d' = leases_exclusive d"
  by (rule leases_cong) (rule for_each_keeps[where f = address_leases, OF assms])

lemma schedule_leases:
  assumes "schedule_session e s d = Inr d'" "leases_exclusive d"
  shows "leases_exclusive d'"
proof -
  obtain d1 a where l: "ensureClientAddressLease e (ss_id s) d = (d1, a)" by (cases "ensureClientAddressLease e (ss_id s) d")
  have d1: "leases_exclusive d1" using ensure_exclusive[OF assms(2), of e "ss_id s"] by (simp add: l)
  have failed: "address_leases (fail_scheduling e s r k m c) = address_leases c" for r k m c
    by (simp add: fail_scheduling_def)
  have provisioned: "address_leases (provision_session e s path plan c) = address_leases c" for path plan c
    by (simp add: provision_session_def case_prod_beta Let_def)
  show ?thesis
    using assms d1 by (auto simp: schedule_session_def l leases_cong[OF failed] leases_cong[OF provisioned]
        split: sum.splits option.splits)
qed

lemma release_leases: "leases_exclusive d \<Longrightarrow> leases_exclusive (releaseClientAddressLease e s r d)"
  by (rule release_exclusive)

lemma timeout_leases: "leases_exclusive d \<Longrightarrow> leases_exclusive (time_out_session e s d)"
proof -
  assume "leases_exclusive d"
  have "address_leases (time_out_session e s d) = address_leases (releaseClientAddressLease e (ss_id s) ''provisioning_failed'' d)"
    by (simp add: time_out_session_def Let_def releaseClientAddressLease_def markClientAddressLeaseReleased_def)
  from leases_cong[OF this] release_leases[OF \<open>leases_exclusive d\<close>] show ?thesis by blast
qed

lemma finish_leases: "leases_exclusive d \<Longrightarrow> leases_exclusive (finish_revocation e s d)"
  using leases_cong[OF finish_tables(2)] release_leases by blast

text \<open>The transactions on sessions.\<close>

lemma controller_contract:
  assumes "\<And>d d'. step d = Inr d' \<Longrightarrow> session_controller d d'"
    and "\<And>d d'. step d = Inr d' \<Longrightarrow> leases_exclusive d \<Longrightarrow> leases_exclusive d'"
  shows "worker_transaction step"
  using assms controller_step by unfold_locales blast+

interpretation begin_revocation: worker_transaction "beginSessionRevocation e" for e
proof (rule controller_contract)
  show "beginSessionRevocation e d = Inr d' \<Longrightarrow> leases_exclusive d \<Longrightarrow> leases_exclusive d'" for d d'
    unfolding beginSessionRevocation_def
    by (drule same_leases_loop) (auto simp: begin_revocation_def split: option.split)
qed (rule session_controller.revoking)

interpretation revoke_assignments: worker_transaction "enqueueRevocationJobsForAssignments e" for e
proof (rule controller_contract)
  show "enqueueRevocationJobsForAssignments e d = Inr d' \<Longrightarrow> leases_exclusive d \<Longrightarrow> leases_exclusive d'" for d d'
    unfolding enqueueRevocationJobsForAssignments_def
    by (drule same_leases_loop) (auto simp: revoke_assignment_def)
qed (rule session_controller.revoking_assignments)

interpretation probe_sessions: worker_transaction "beginRequestedSessionProbing e" for e
proof (rule controller_contract)
  show "beginRequestedSessionProbing e d = Inr d' \<Longrightarrow> leases_exclusive d \<Longrightarrow> leases_exclusive d'" for d d'
    unfolding beginRequestedSessionProbing_def
    by (drule same_leases_loop) (auto simp: begin_probing_def)
qed (rule session_controller.probing)

interpretation advance_sessions: worker_transaction "advanceProbedSessionsToScheduling e" for e
proof (rule controller_contract)
  show "advanceProbedSessionsToScheduling e d = Inr d' \<Longrightarrow> leases_exclusive d \<Longrightarrow> leases_exclusive d'" for d d'
    unfolding advanceProbedSessionsToScheduling_def
    by (drule same_leases_loop) (auto simp: advance_probed_def)
qed (rule session_controller.advancing)

interpretation schedule_sessions: worker_transaction "scheduleSessionsForProvisioning e" for e
proof (rule controller_contract)
  show "scheduleSessionsForProvisioning e d = Inr d' \<Longrightarrow> leases_exclusive d \<Longrightarrow> leases_exclusive d'" for d d'
    unfolding scheduleSessionsForProvisioning_def by (erule for_each_invariant) (rule schedule_leases)
qed (rule session_controller.scheduling)

interpretation commit_sessions: worker_transaction "enqueueCommitJobsForPreparedAssignments e" for e
proof (rule controller_contract)
  show "enqueueCommitJobsForPreparedAssignments e d = Inr d' \<Longrightarrow> leases_exclusive d \<Longrightarrow> leases_exclusive d'" for d d'
    unfolding enqueueCommitJobsForPreparedAssignments_def
    by (drule same_leases_loop) (auto simp: commit_session_def Let_def split: option.split)
qed (rule session_controller.committing)

interpretation activate_sessions: worker_transaction "completeProvisionedSessions e" for e
proof (rule controller_contract)
  show "completeProvisionedSessions e d = Inr d' \<Longrightarrow> leases_exclusive d \<Longrightarrow> leases_exclusive d'" for d d'
    unfolding completeProvisionedSessions_def
    by (drule same_leases_loop) (auto simp: activate_session_def dest: lease_prepare split: if_splits)
qed (rule session_controller.completing)

interpretation time_out_sessions: worker_transaction "failTimedOutProvisioningSessions e n" for e n
proof (rule controller_contract)
  show "failTimedOutProvisioningSessions e n d = Inr d' \<Longrightarrow> leases_exclusive d \<Longrightarrow> leases_exclusive d'" for d d'
    unfolding failTimedOutProvisioningSessions_def by (erule for_each_invariant) (auto intro: timeout_leases)
qed (rule session_controller.timing_out)

interpretation finish_revocations: worker_transaction "completeRevokedSessions e" for e
proof (rule controller_contract)
  show "completeRevokedSessions e d = Inr d' \<Longrightarrow> leases_exclusive d \<Longrightarrow> leases_exclusive d'" for d d'
    unfolding completeRevokedSessions_def by (erule for_each_invariant) (auto intro: finish_leases)
qed (rule session_controller.finishing)

lemma expire_leases: "address_leases (expire_session e s d) = address_leases d"
  by (simp add: expire_session_def requestSystemSessionRevocation_def insertSystemSessionRevokeRequestedAudit_def audit_def
      apply_revocation_def Let_def updateSessionDesiredState_def case_prod_beta split: option.split)

interpretation expire_sessions: worker_transaction "reconcileExpiry e" for e
proof (rule controller_contract)
  show "reconcileExpiry e d = Inr d' \<Longrightarrow> leases_exclusive d \<Longrightarrow> leases_exclusive d'" for d d'
    unfolding reconcileExpiry_def by (drule same_leases_loop) (auto simp: expire_leases)
qed (rule session_controller.expiring)

text \<open>The transactions that leave sessions and leases alone.\<close>

definition session_tables :: "db \<Rightarrow> session_row list \<times> session_status_row list \<times> address_lease_row list" where
  "session_tables d = (sessions d, session_status d, address_leases d)"

lemma same_tables_contract:
  assumes "\<And>d d'. step d = Inr d' \<Longrightarrow> session_tables d' = session_tables d"
  shows "worker_transaction step"
proof (unfold_locales, goal_cases)
  case (1 d d')
  then show ?case using assms[of d d'] by (simp add: session_tables_def leases_exclusive_def active_leases_def)
next
  case (2 d d')
  then have same: "sessions d' = sessions d" "session_status d' = session_status d"
    using assms[of d d'] by (simp_all add: session_tables_def)
  with 2(2) show ?case by (simp add: wf_sessions_def phases_refine_eq phase_of_def)
qed

lemma stale_tables: "session_tables (markStaleGates e n d) = session_tables d"
  unfolding markStaleGates_def markStaleGateConditions_def by (rule fold_keeps) (simp add: session_tables_def)

interpretation mark_stale: worker_transaction "\<lambda>d. Inr (markStaleGates e n d)" for e n
  by (rule same_tables_contract) (auto simp: stale_tables)

lemma session_tables_cong:
  "sessions d' = sessions d \<Longrightarrow> session_status d' = session_status d \<Longrightarrow> address_leases d' = address_leases d \<Longrightarrow>
   session_tables d' = session_tables d"
  by (simp add: session_tables_def)

lemma repair_tables: "session_tables (repair_session e x d) = session_tables d"
proof -
  have "session_tables (enqueueApplyJob e i c) = session_tables c" for i c
    by (simp add: session_tables_def enqueueApplyJob_def insertApplyAssignmentJob_def insert_job_def gen_uuid_def)
  then show ?thesis by (simp add: repair_session_def Let_def split: option.split)
qed

lemma cleanup_tables: "session_tables (revoke_assignment e a d) = session_tables d"
  by (simp add: session_tables_def revoke_assignment_def enqueueRevokeAssignmentJob_def insertRevokeAssignmentJob_def
      insert_job_def gen_uuid_def requestAssignmentRevocation_def desiredRevokedTransition_def markAssignmentRevoking_def
      updateAssignmentDesiredState_def update_assignment_status_def)

lemma drift_tables: "session_tables (drift_gate e g d) = session_tables d"
proof -
  have "session_tables (drift_condition e g c) = session_tables c" for c
    by (simp add: session_tables_def drift_condition_def setGateDriftCondition_def upsertGateCondition_def Let_def
        recordGateAuditEvent_def audit_def)
  moreover have "session_tables (markMissingHandleAssignmentsDrifted e i hs c) = session_tables c" for i hs c
    by (simp add: session_tables_def markMissingHandleAssignmentsDrifted_def markMissingHandleAssignmentRowsDrifted_def
        update_assignment_status_def)
  ultimately show ?thesis
    by (simp add: drift_gate_def Let_def enqueueCleanupJobsForKnownOrphans_def enqueueRepairJobsForMissingHandles_def
        fold_keeps repair_tables cleanup_tables)
qed

interpretation drift_transaction: worker_transaction "reconcileDrift e" for e
  by (rule same_tables_contract) (auto simp: reconcileDrift_def for_each_fold fold_keeps drift_tables)

subsection \<open>A pass\<close>

lemma reconcile_steps_contract: "list_all worker_transaction (reconcile_steps e n m)"
  unfolding reconcile_steps_def list.pred_inject
  by (intro conjI list.pred_inject(1) mark_stale.worker_transaction_axioms begin_revocation.worker_transaction_axioms
      revoke_assignments.worker_transaction_axioms probe_sessions.worker_transaction_axioms
      advance_sessions.worker_transaction_axioms schedule_sessions.worker_transaction_axioms
      commit_sessions.worker_transaction_axioms activate_sessions.worker_transaction_axioms
      time_out_sessions.worker_transaction_axioms finish_revocations.worker_transaction_axioms
      expire_sessions.worker_transaction_axioms drift_transaction.worker_transaction_axioms)

text \<open>
  C5: A whole pass of the worker, however far it gets before one of its transactions throws, never
  gives one client address to two sessions and moves every session along the life cycle only.
\<close>

theorem reconcile_pass_safe:
  assumes "leases_exclusive d" "wf_sessions d" "reconcileOnce e staleSeconds timeoutSeconds d = (d', err)"
  shows "leases_exclusive d' \<and> (\<forall>s. rel_option session_step\<^sup>*\<^sup>* (phase_of d s) (phase_of d' s))"
  using run_steps_contract[OF reconcile_steps_contract assms(1,2), of e staleSeconds timeoutSeconds] assms(3)
  by (simp add: reconcileOnce_def phases_refine_def)

subsection \<open>A session whose file cannot be rendered\<close>

text \<open>The tables a configuration file is rendered from.\<close>

definition artifact_inputs where
  "artifact_inputs d = (rendered_plans d, plan_secrets d, gates d, gate_assignments d, assignment_status d)"

lemma prepare_cong:
  assumes "artifact_inputs d' = artifact_inputs d" "prepareClientConfigArtifact e s g d = Inl err"
  shows "prepareClientConfigArtifact e s g d' = Inl err"
proof -
  have same: "rendered_plans d' = rendered_plans d" "plan_secrets d' = plan_secrets d" "gates d' = gates d"
    "gate_assignments d' = gate_assignments d" "assignment_status d' = assignment_status d"
    using assms(1) by (simp_all add: artifact_inputs_def)
  have plan: "selectRenderedPlanForArtifact d' s g = selectRenderedPlanForArtifact d s g"
    by (simp add: selectRenderedPlanForArtifact_def same)
  have materials: "listAssignmentMaterialsForArtifact d' s = listAssignmentMaterialsForArtifact d s"
    by (simp add: listAssignmentMaterialsForArtifact_def assignment_join_def same)
  have secret: "secret_payload e d' i = secret_payload e d i" for i
    by (simp add: secret_payload_def selectRenderedPlanSecret_def same)
  have rendered: "config_file_for e d' s = config_file_for e d s"
    unfolding config_file_for_def secret ..
  show ?thesis using assms(2)
    by (simp add: prepareClientConfigArtifact_def plan materials rendered Let_def case_prod_beta and_then_def
        split: option.splits sum.splits)
qed

lemma activate_inputs:
  assumes "activate_session e s d = Inr d'"
  shows "artifact_inputs d' = artifact_inputs d"
proof -
  have kept: "artifact_inputs c' = artifact_inputs c" if "prepareClientConfigArtifact e i g c = Inr c'" for c c' i g
    using that by (auto simp: artifact_inputs_def prepareClientConfigArtifact_def Let_def case_prod_beta
        attachArtifactToSessionStatus_def update_status_def insertClientConfigArtifactPayload_def
        insertClientConfigArtifact_def gen_uuid_def split: option.splits)
  have "artifact_inputs (insertSessionAuditEvent e m i y c) = artifact_inputs c"
    "artifact_inputs (setSessionCondition e i t st r msg n c) = artifact_inputs c"
    "artifact_inputs (markSessionActive e i tr c) = artifact_inputs c" for m i y c t st r msg n tr
    by (simp_all add: artifact_inputs_def insertSessionAuditEvent_def audit_def setSessionCondition_def
        upsertSessionCondition_def markSessionActive_def mark_observed_def update_status_def)
  then show ?thesis using assms kept by (auto simp: activate_session_def split: if_splits)
qed

lemma activation_of_others:
  assumes "activate_session e x d = Inr d'" "ss_id x \<noteq> s" "\<not> hasActiveClientConfigArtifact d s"
  shows "\<not> hasActiveClientConfigArtifact d' s"
proof -
  have "artifacts d' = artifacts d \<or> (\<exists>a. artifacts d' = artifacts d @ [a] \<and> ar_session a = ss_id x)"
    using assms(1) by (auto simp: activate_session_def prepareClientConfigArtifact_def Let_def case_prod_beta
        attachArtifactToSessionStatus_def update_status_def insertClientConfigArtifactPayload_def
        insertClientConfigArtifact_def gen_uuid_def split: if_splits option.splits)
  with assms(2,3) show ?thesis by (auto simp: hasActiveClientConfigArtifact_def)
qed

lemma blocked_loop:
  "x \<in> set xs \<Longrightarrow> distinct (map ss_id xs) \<Longrightarrow> \<not> hasActiveClientConfigArtifact d (ss_id x) \<Longrightarrow>
   prepareClientConfigArtifact e (ss_id x) (ss_generation x) d = Inl err \<Longrightarrow>
   \<exists>err'. for_each (activate_session e) xs d = Inl err'"
proof (induction xs arbitrary: d)
  case (Cons y ys)
  show ?case
  proof (cases "activate_session e y d")
    case (Inr d1)
    then have "y \<noteq> x" using Cons.prems(3,4) by (auto simp: activate_session_def)
    then have x: "x \<in> set ys" "ss_id y \<noteq> ss_id x" using Cons.prems(1,2) by auto
    from Cons.prems(2) have ys: "distinct (map ss_id ys)" by simp
    from Cons.IH[OF x(1) ys activation_of_others[OF Inr x(2) Cons.prems(3)]
        prepare_cong[OF activate_inputs[OF Inr] Cons.prems(4)]]
    obtain err' where "for_each (activate_session e) ys d1 = Inl err'" ..
    then show ?thesis by (simp add: Inr and_then_def)
  qed (simp add: and_then_def)
qed simp

text \<open>
  C6: One provisioned session whose configuration file cannot be rendered keeps every session from
  becoming active: the transaction throws, nothing of it is kept, and the rest of the pass does not run.
\<close>

theorem broken_session_blocks_pass:
  assumes "wf_sessions d" "s \<in> set (listProvisionedSessionsForActivation d)" "\<not> hasActiveClientConfigArtifact d (ss_id s)"
    and "prepareClientConfigArtifact e (ss_id s) (ss_generation s) d = Inl err"
  shows "\<exists>err'. run_steps (completeProvisionedSessions e # later) d = (d, Some err')"
  using blocked_loop[OF assms(2) provisioned_listing(1)[OF assms(1)] assms(3,4)]
  by (auto simp: completeProvisionedSessions_def)

subsection \<open>A timed out session\<close>

lemma time_out_tables:
  "sessions (time_out_session e s d) = sessions d"
  "gate_assignments (time_out_session e s d) = gate_assignments d"
  "artifacts (time_out_session e s d) = artifacts (invalidateSessionArtifacts e (ss_id s) d)"
  "address_leases (time_out_session e s d) = address_leases (releaseClientAddressLease e (ss_id s) ''provisioning_failed'' d)"
  "\<exists>err. assignment_status (time_out_session e s d) = assignment_status (markPendingAssignmentsDeadForSession e (ss_id s) err d)"
  by (simp_all add: time_out_session_def Let_def insertSessionAuditEvent_def setSessionCondition_def upsertSessionCondition_def
      releaseClientAddressLease_def markClientAddressLeaseReleased_def markSessionFailed_def mark_observed_def update_status_def
      invalidateSessionArtifacts_def invalidateArtifactsForSession_def markPendingAssignmentsDeadForSession_def
      markPendingAssignmentsPhaseForSession_def update_assignment_status_def markApplyJobsDeadForSession_def
      markApplyJobsPhaseForSession_def update_job_def) blast?

lemma applied_not_dead:
  assumes "assignment_phase_of d a = Some A_applied"
  shows "assignment_phase_of (markPendingAssignmentsDeadForSession e s err d) a = Some A_applied"
proof -
  have update: "row_update as_assignment (\<lambda>r. r\<lparr>as_phase := p, as_lastError := l, as_updated := t\<rparr>)" for p l t by unfold_locales simp
  have "A_applied \<notin> set provisioningFailureDeadCandidatePhases" by (simp add: provisioningFailureDeadCandidatePhases_def)
  with assms show ?thesis
    unfolding assignment_phase_of_def markPendingAssignmentsDeadForSession_def markPendingAssignmentsPhaseForSession_def update_assignment_status_def
    by (cases "row_of as_assignment a (assignment_status d)") (simp_all add: row_update.row_of_update[OF update])
qed

text \<open>
  C19: When provisioning times out the session fails, its address is released and its files are
  invalidated; but an assignment a gate has already applied stays applied, and the revocation
  controller does not select it while the session is still wanted.
\<close>

theorem timeout_leaves_applied:
  assumes "wf_sessions d" "wf_assignments d" "s \<in> set (sessions d)" "ss_desired s \<noteq> SD_Revoked"
    and "phase_of d (ss_id s) = Some S_provisioning"
    and "a \<in> set (gate_assignments d)" "ga_session a = ss_id s" "assignment_phase_of d (ga_id a) = Some A_applied"
    and "d' = time_out_session e s d"
  shows "phase_of d' (ss_id s) = Some S_failed \<and> \<not> has_lease d' (ss_id s)
    \<and> list_all (\<lambda>x. ar_session x = ss_id s \<longrightarrow> ar_invalidatedAt x \<noteq> None) (artifacts d')
    \<and> a \<in> set (gate_assignments d') \<and> assignment_phase_of d' (ga_id a) = Some A_applied
    \<and> ga_id a \<notin> ra_assignmentId ` set (listAssignmentsToRevoke d')"
proof -
  have "phase_of d' (ss_id s) = Some S_failed"
    using timeout_loop.body_own[of e s d d' S_provisioning] assms(5,9)
    by (simp add: time_out_session_def Let_def phase_of_statements failedTransition_def)
  moreover have "\<not> has_lease d' (ss_id s)"
    using release_no_lease has_lease_cong[OF time_out_tables(4)] assms(9) by metis
  moreover have "list_all (\<lambda>x. ar_session x = ss_id s \<longrightarrow> ar_invalidatedAt x \<noteq> None) (artifacts d')"
    by (auto simp: assms(9) time_out_tables(3) invalidateSessionArtifacts_def invalidateArtifactsForSession_def list_all_iff
        set_update_where split: if_splits)
  moreover have "assignment_phase_of d' (ga_id a) = Some A_applied"
    using time_out_tables(5)[of e s d] applied_not_dead[OF assms(8)] unfolding assms(9) assignment_phase_of_def by metis
  moreover have "ga_id a \<notin> ra_assignmentId ` set (listAssignmentsToRevoke d')"
  proof
    assume "ga_id a \<in> ra_assignmentId ` set (listAssignmentsToRevoke d')"
    then obtain b t where b: "b \<in> set (gate_assignments d)" "ga_id b = ga_id a" "t \<in> set (sessions d)" "ss_id t = ga_session b"
      "ss_desired t = SD_Revoked"
      by (auto simp: listAssignmentsToRevoke_def revocable_def assms(9) time_out_tables list_ex_iff dest!: in_set_takeD)
    then have "b = a" using row_eqI[of ga_id "gate_assignments d" b a] assms(2,6) by (simp add: wf_assignments_def)
    with b assms(7) have "t = s" using row_eqI[of ss_id "sessions d" t s] assms(1,3) by (simp add: wf_sessions_def)
    with b(5) assms(4) show False by simp
  qed
  ultimately show ?thesis using assms(6,9) time_out_tables(2)[of e s d] by simp
qed

subsection \<open>Witnesses\<close>

theorem reconcile_pass_safe_witness:
  "has_lease revoked_db ''s1'' \<and> (\<exists>d' err. reconcileOnce (\<lambda>_. sample_env) 60 60 revoked_db = (d', err)
     \<and> leases_exclusive d' \<and> session_step\<^sup>*\<^sup>* S_revoking (the (phase_of d' ''s1'')))"
proof -
  obtain d' err where d': "reconcileOnce (\<lambda>_. sample_env) 60 60 revoked_db = (d', err)" by fastforce
  have wf: "leases_exclusive revoked_db" "wf_sessions revoked_db"
    by (simp_all add: revoked_db_def in_phase_def leases_exclusive_def active_leases_def wf_sessions_def)
  have "phase_of revoked_db ''s1'' = Some S_revoking" by (simp add: revoked_db_def)
  moreover have "leases_exclusive d'" "rel_option session_step\<^sup>*\<^sup>* (phase_of revoked_db ''s1'') (phase_of d' ''s1'')"
    using reconcile_pass_safe[OF wf d'] by simp_all
  moreover have "has_lease revoked_db ''s1''" by code_simp
  ultimately show ?thesis using d' by (cases "phase_of d' ''s1''") auto
qed

definition unrendered_db :: db where
  "unrendered_db = in_phase S_provisioning (config_db\<lparr>rendered_plans := []\<rparr>)"

theorem broken_session_blocks_pass_witness:
  "\<exists>err. run_steps [completeProvisionedSessions sample_env] unrendered_db = (unrendered_db, Some err)"
proof (rule broken_session_blocks_pass)
  show "wf_sessions unrendered_db" by (simp add: unrendered_db_def)
  show "byo_session \<in> set (listProvisionedSessionsForActivation unrendered_db)" by code_simp
  show "\<not> hasActiveClientConfigArtifact unrendered_db (ss_id byo_session)" by code_simp
  show "prepareClientConfigArtifact sample_env (ss_id byo_session) (ss_generation byo_session) unrendered_db
      = Inl ''missing rendered plan for session s1''" by code_simp
qed

theorem timeout_leaves_applied_witness:
  "assignment_phase_of (time_out_session sample_env byo_session (in_phase S_provisioning config_db)) ''a1'' = Some A_applied"
proof -
  let ?d = "in_phase S_provisioning config_db" and ?a = "hd (gate_assignments config_db)"
  have wf: "wf_sessions ?d" by simp
  have "wf_assignments ?d" "byo_session \<in> set (sessions ?d)" "ss_desired byo_session \<noteq> SD_Revoked"
    "phase_of ?d (ss_id byo_session) = Some S_provisioning" "?a \<in> set (gate_assignments ?d)"
    "ga_session ?a = ss_id byo_session" "assignment_phase_of ?d (ga_id ?a) = Some A_applied" "ga_id ?a = ''a1''" by code_simp+
  with timeout_leaves_applied[OF wf this(1-7) refl] show ?thesis by simp
qed

end
