(* ===== verification/Ledger.thy ===== *)
theory Ledger
  imports SessionController
begin

section \<open>The ledger and the balance buckets of prepaid billing\<close>

text \<open>
  \<open>resources/billing/repository.ts\<close>, the bucket statements of \<open>prepaid-repository.ts\<close> and the
  arithmetic of \<open>application/billing/prepaid-billing.scenario.ts\<close>.  An account's money is kept
  twice: as signed entries of a ledger and as four buckets.  The record \<open>bdb\<close> adds the billing
  tables to the control plane's \<open>core\<close>.

  Foreign keys, \<open>CHECK\<close> and unique constraints of \<open>0025_prepaid_retail_billing.sql\<close> that a
  statement can violate end in \<open>Inl\<close>, and so does the cast \<open>::text::int\<close> of a bucket outside 32
  bits.  Amounts are integers: the code keeps them below \<open>2\<^sup>5\<^sup>3\<close>.  The \<open>metadata\<close> columns are
  written only and left out.
\<close>

subsection \<open>Tables\<close>

record buckets =
  cashMinor :: int
  promotionalMinor :: int
  reservedWithdrawalMinor :: int
  debtMinor :: int

record bucket_row =
  bb_account :: uuid
  bb_buckets :: buckets

record billing_account_row =
  ba_account :: uuid
  ba_currency :: string

record plan_version_row =
  pv_id :: uuid
  pv_code :: string
  pv_version :: int
  pv_displayName :: string
  pv_currency :: string
  pv_activeConfigMonthlyMinor :: int
  pv_trafficPerGbMinor :: int
  pv_gracePeriodSeconds :: int
  pv_withdrawalCooldownSeconds :: int
  pv_minimumWithdrawalMinor :: int
  pv_retired :: "time option"

record plan_assignment_row =
  pa_account :: uuid
  pa_plan :: uuid
  pa_starts :: time
  pa_ends :: "time option"
  pa_assignedBy :: string
  pa_reason :: string

record accrual_row =
  ac_account :: uuid
  ac_remainder :: int

datatype billing_state = BS_active | BS_grace | BS_suspended

record account_state_row =
  bs_account :: uuid
  bs_state :: billing_state
  bs_overdrawnAt :: "time option"
  bs_suspensionDueAt :: "time option"
  bs_suspendedAt :: "time option"
  bs_withdrawalEligibleAt :: "time option"
  bs_lastSettledAt :: "time option"
  bs_updated :: time

record ledger_row =
  le_id :: uuid
  le_account :: uuid
  le_entryType :: string
  le_amount :: int
  le_currency :: string
  le_sourceType :: string
  le_sourceId :: string
  le_description :: string
  le_created :: time

record rating_row =
  rr_id :: uuid
  rr_account :: uuid
  rr_session :: uuid
  rr_plan :: uuid
  rr_windowStart :: time
  rr_windowEnd :: time
  rr_activeSeconds :: int
  rr_bytesTo :: int
  rr_bytesFrom :: int
  rr_micro :: int
  rr_posted :: int
  rr_enforced :: bool

datatype outbox_status = OB_pending | OB_sending | OB_sent | OB_failed

record outbox_row =
  ob_id :: uuid
  ob_account :: uuid
  ob_type :: string
  ob_dedupe :: string
  ob_email :: string
  ob_payload :: js_record
  ob_status :: outbox_status
  ob_attempts :: nat
  ob_nextAttempt :: time
  ob_lastError :: "string option"
  ob_created :: time
  ob_updated :: time
  ob_sent :: "time option"

record user_row =
  us_account :: uuid
  us_email :: string
  us_created :: time
  us_disabled :: "time option"

datatype withdrawal_status =
    W_cooldown | W_ready | W_processing | W_submitted | W_confirmed | W_cancelled | W_failed

record withdrawal_row =
  wd_id :: uuid
  wd_account :: uuid
  wd_user :: uuid
  wd_status :: withdrawal_status
  wd_amount :: int
  wd_currency :: string
  wd_tokenSymbol :: string
  wd_tokenMint :: string
  wd_tokenAmount :: int
  wd_destination :: string
  wd_eligible :: time
  wd_signature :: "string option"
  wd_failure :: "string option"
  wd_requested :: time
  wd_updated :: time
  wd_submitted :: "time option"
  wd_confirmed :: "time option"

datatype sweep_status = CW_pending | CW_processing | CW_submitted | CW_confirmed | CW_failed

record sweep_row =
  cw_id :: uuid
  cw_account :: uuid
  cw_sourceType :: string
  cw_sourceId :: string
  cw_amount :: int
  cw_tokenSymbol :: string
  cw_tokenMint :: string
  cw_tokenAmount :: int
  cw_status :: sweep_status
  cw_signature :: "string option"
  cw_attempts :: nat
  cw_nextAttempt :: time
  cw_failure :: "string option"
  cw_created :: time
  cw_updated :: time
  cw_submitted :: "time option"
  cw_confirmed :: "time option"

record receipt_row =
  rc_signature :: string
  rc_account :: uuid
  rc_sourceId :: string
  rc_tokenMint :: string
  rc_amount :: int
  rc_credited :: int
  rc_observed :: time

record remainder_row =
  rm_account :: uuid
  rm_tokenMint :: string
  rm_remainder :: int

record wallet_row =
  cu_id :: uuid
  cu_account :: uuid
  cu_chain :: string
  cu_publicKey :: string
  cu_active :: bool
  cu_key :: encrypted
  cu_created :: time

record rated_event_row =
  re_id :: uuid
  re_account :: uuid
  re_session :: "uuid option"
  re_sourceType :: string
  re_sourceId :: string
  re_cost :: int
  re_markup :: int
  re_charge :: int
  re_currency :: string

record bdb =
  core :: db
  accounts :: "uuid list"
  users :: "user_row list"
  billing_accounts :: "billing_account_row list"
  plan_versions :: "plan_version_row list"
  plan_assignments :: "plan_assignment_row list"
  balance_buckets :: "bucket_row list"
  accruals :: "accrual_row list"
  account_states :: "account_state_row list"
  ledger :: "ledger_row list"
  ratings :: "rating_row list"
  outbox :: "outbox_row list"
  withdrawals :: "withdrawal_row list"
  sweeps :: "sweep_row list"
  receipts :: "receipt_row list"
  remainders :: "remainder_row list"
  wallets :: "wallet_row list"
  rated_events :: "rated_event_row list"

definition new_id :: "env \<Rightarrow> bdb \<Rightarrow> bdb \<times> uuid" where
  "new_id e d = (let (i, c) = gen_uuid e (core d) in (d\<lparr>core := c\<rparr>, i))"

definition fk_error :: string where "fk_error = ''insert or update violates foreign key constraint''"
definition check_error :: string where "check_error = ''new row violates check constraint''"
definition unique_error :: string where "unique_error = ''duplicate key value violates unique constraint''"

text \<open>PostgreSQL's cast \<open>::int\<close>.\<close>

definition int4 :: "int \<Rightarrow> string + int" where
  "int4 x = (if - 2147483648 \<le> x \<and> x \<le> 2147483647 then Inr x else Inl ''integer out of range'')"

definition maxSafeInteger :: int where "maxSafeInteger = 9007199254740991"

subsection \<open>An account's rows\<close>

definition billing_account :: "bdb \<Rightarrow> uuid \<Rightarrow> bool" where
  "billing_account d a \<longleftrightarrow> list_ex (\<lambda>r. ba_account r = a) (billing_accounts d)"

definition ensureBillingAccount :: "uuid \<Rightarrow> string \<Rightarrow> bdb \<Rightarrow> string + bdb" where
  "ensureBillingAccount a currency d =
     (if billing_account d a then Inr d
      else if a \<notin> set (accounts d) then Inl fk_error
      else Inr (d\<lparr>billing_accounts := billing_accounts d @ [\<lparr>ba_account = a, ba_currency = currency\<rparr>]\<rparr>))"

text \<open>An \<open>INSERT ... ON CONFLICT DO NOTHING\<close> into a table that refers to \<open>billing_accounts\<close>.\<close>

definition insert_child :: "bool \<Rightarrow> uuid \<Rightarrow> (bdb \<Rightarrow> bdb) \<Rightarrow> bdb \<Rightarrow> string + bdb" where
  "insert_child present a f d = (if present then Inr d else if billing_account d a then Inr (f d) else Inl fk_error)"

definition open_assignment :: "uuid \<Rightarrow> plan_assignment_row \<Rightarrow> bool" where
  "open_assignment a p \<longleftrightarrow> pa_account p = a \<and> pa_ends p = None"

definition pilot_plan :: "bdb \<Rightarrow> plan_version_row option" where
  "pilot_plan d = find (\<lambda>v. pv_code v = ''pilot'' \<and> pv_version v = 1) (plan_versions d)"

definition zero_buckets :: buckets where
  "zero_buckets = \<lparr>cashMinor = 0, promotionalMinor = 0, reservedWithdrawalMinor = 0, debtMinor = 0\<rparr>"

definition new_account_state :: "env \<Rightarrow> uuid \<Rightarrow> account_state_row" where
  "new_account_state e a = \<lparr>bs_account = a, bs_state = BS_active, bs_overdrawnAt = None, bs_suspensionDueAt = None,
     bs_suspendedAt = None, bs_withdrawalEligibleAt = None, bs_lastSettledAt = None, bs_updated = env_now e\<rparr>"

definition ensurePrepaidBillingState :: "env \<Rightarrow> uuid \<Rightarrow> bdb \<Rightarrow> string + bdb" where
  "ensurePrepaidBillingState e a d =
     and_then (case pilot_plan d of None \<Rightarrow> Inr d
       | Some pilot \<Rightarrow> insert_child (list_ex (open_assignment a) (plan_assignments d)) a
           (\<lambda>d. d\<lparr>plan_assignments := plan_assignments d @ [\<lparr>pa_account = a, pa_plan = pv_id pilot, pa_starts = env_now e,
              pa_ends = None, pa_assignedBy = ''system'', pa_reason = ''Safe default plan''\<rparr>]\<rparr>) d) (\<lambda>d.
     and_then (insert_child (list_ex (\<lambda>r. bb_account r = a) (balance_buckets d)) a
         (\<lambda>d. d\<lparr>balance_buckets := balance_buckets d @ [\<lparr>bb_account = a, bb_buckets = zero_buckets\<rparr>]\<rparr>) d) (\<lambda>d.
     and_then (insert_child (list_ex (\<lambda>r. ac_account r = a) (accruals d)) a
         (\<lambda>d. d\<lparr>accruals := accruals d @ [\<lparr>ac_account = a, ac_remainder = 0\<rparr>]\<rparr>) d) (\<lambda>d.
     insert_child (list_ex (\<lambda>r. bs_account r = a) (account_states d)) a
         (\<lambda>d. d\<lparr>account_states := account_states d @ [new_account_state e a]\<rparr>) d)))"

text \<open>\<open>mustRow\<close>: the first row, or an exception.\<close>

definition must_row :: "'a option \<Rightarrow> string + 'a" where
  "must_row r = (case r of None \<Rightarrow> Inl ''expected database row'' | Some x \<Rightarrow> Inr x)"

definition ensured :: "env \<Rightarrow> uuid \<Rightarrow> bool \<Rightarrow> bdb \<Rightarrow> string + bdb" where
  "ensured e a stateEnsured d = (if stateEnsured then Inr d else ensurePrepaidBillingState e a d)"

definition readBillingBuckets :: "env \<Rightarrow> uuid \<Rightarrow> bool \<Rightarrow> bdb \<Rightarrow> string + (bdb \<times> buckets)" where
  "readBillingBuckets e a stateEnsured d =
     and_then (ensured e a stateEnsured d) (\<lambda>d.
     and_then (must_row (row_of bb_account a (balance_buckets d))) (\<lambda>r. let b = bb_buckets r in
     and_then (int4 (cashMinor b)) (\<lambda>_. and_then (int4 (promotionalMinor b)) (\<lambda>_.
     and_then (int4 (reservedWithdrawalMinor b)) (\<lambda>_. and_then (int4 (debtMinor b)) (\<lambda>_. Inr (d, b)))))))"

definition readBillingAccountState :: "env \<Rightarrow> uuid \<Rightarrow> bool \<Rightarrow> bdb \<Rightarrow> string + (bdb \<times> account_state_row)" where
  "readBillingAccountState e a stateEnsured d =
     and_then (ensured e a stateEnsured d) (\<lambda>d.
     and_then (must_row (row_of bs_account a (account_states d))) (\<lambda>r. Inr (d, r)))"

definition readCurrentBillingPlan :: "env \<Rightarrow> uuid \<Rightarrow> bool \<Rightarrow> bdb \<Rightarrow> string + (bdb \<times> plan_version_row)" where
  "readCurrentBillingPlan e a stateEnsured d =
     and_then (ensured e a stateEnsured d) (\<lambda>d.
     and_then (must_row (case sort_key (\<lambda>x. - pa_starts (fst x)) (concat (map (\<lambda>p. map (\<lambda>v. (p, v))
           (filter (\<lambda>v. pv_id v = pa_plan p) (plan_versions d))) (filter (open_assignment a) (plan_assignments d)))) of
         [] \<Rightarrow> None | x # _ \<Rightarrow> Some (snd x))) (\<lambda>v. Inr (d, v)))"

definition buckets_ok :: "buckets \<Rightarrow> bool" where
  "buckets_ok b \<longleftrightarrow> 0 \<le> cashMinor b \<and> 0 \<le> promotionalMinor b \<and> 0 \<le> reservedWithdrawalMinor b \<and> 0 \<le> debtMinor b
     \<and> reservedWithdrawalMinor b \<le> cashMinor b"

definition writeBillingBuckets :: "uuid \<Rightarrow> buckets \<Rightarrow> bdb \<Rightarrow> string + bdb" where
  "writeBillingBuckets a b d =
     (if list_ex (\<lambda>r. bb_account r = a) (balance_buckets d) \<and> \<not> buckets_ok b then Inl check_error
      else Inr (d\<lparr>balance_buckets := update_where (\<lambda>r. bb_account r = a) (\<lambda>r. r\<lparr>bb_buckets := b\<rparr>) (balance_buckets d)\<rparr>))"

definition creditCashBucket :: "env \<Rightarrow> uuid \<Rightarrow> int \<Rightarrow> bdb \<Rightarrow> string + bdb" where
  "creditCashBucket e a amountMinor d =
     and_then (ensurePrepaidBillingState e a d) (\<lambda>d.
       let credited = (\<lambda>b. b\<lparr>cashMinor := cashMinor b + amountMinor\<rparr>)
       in if list_ex (\<lambda>r. bb_account r = a \<and> \<not> buckets_ok (credited (bb_buckets r))) (balance_buckets d) then Inl check_error
          else Inr (d\<lparr>balance_buckets := update_where (\<lambda>r. bb_account r = a)
                 (\<lambda>r. r\<lparr>bb_buckets := credited (bb_buckets r)\<rparr>) (balance_buckets d)\<rparr>))"

subsection \<open>The ledger\<close>

record ledger_input =
  li_account :: uuid
  li_entryType :: string
  li_amount :: int
  li_currency :: string
  li_sourceType :: string
  li_sourceId :: string
  li_description :: string

definition posted_source :: "bdb \<Rightarrow> string \<Rightarrow> string \<Rightarrow> bool" where
  "posted_source d sourceType sourceId \<longleftrightarrow>
     list_ex (\<lambda>l. le_sourceType l = sourceType \<and> le_sourceId l = sourceId) (ledger d)"

definition insertLedgerEntry :: "env \<Rightarrow> ledger_input \<Rightarrow> bdb \<Rightarrow> string + (bdb \<times> bool)" where
  "insertLedgerEntry e i d =
     (let (d1, newId) = new_id e d
      in if posted_source d (li_sourceType i) (li_sourceId i) then Inr (d1, False)
         else if li_account i \<notin> set (accounts d) then Inl fk_error
         else Inr (d1\<lparr>ledger := ledger d1 @ [\<lparr>le_id = newId, le_account = li_account i, le_entryType = li_entryType i,
             le_amount = li_amount i, le_currency = li_currency i, le_sourceType = li_sourceType i,
             le_sourceId = li_sourceId i, le_description = li_description i, le_created = env_now e\<rparr>]\<rparr>, True))"

text \<open>\<open>ORDER BY created_at DESC LIMIT\<close>.\<close>

definition listLedgerEntries :: "bdb \<Rightarrow> uuid \<Rightarrow> nat \<Rightarrow> ledger_row list" where
  "listLedgerEntries d a limit = take limit (sort_key (\<lambda>l. - le_created l) (filter (\<lambda>l. le_account l = a) (ledger d)))"

definition readBillingBalance :: "uuid \<Rightarrow> bool \<Rightarrow> bdb \<Rightarrow> string + (bdb \<times> int \<times> string)" where
  "readBillingBalance a accountEnsured d =
     and_then (if accountEnsured then Inr d else ensureBillingAccount a ''USD'' d) (\<lambda>d.
     and_then (must_row (row_of ba_account a (billing_accounts d))) (\<lambda>r.
     and_then (int4 (sum_list (map le_amount
         (filter (\<lambda>l. le_account l = a \<and> le_currency l = ba_currency r) (ledger d))))) (\<lambda>balance.
       Inr (d, balance, ba_currency r))))"

subsection \<open>Arithmetic of the buckets\<close>

definition consumeBillingCharge :: "buckets \<Rightarrow> int \<Rightarrow> buckets" where
  "consumeBillingCharge b chargeMinor =
     (let remaining = max 0 chargeMinor;
          promotionalSpend = min (promotionalMinor b) remaining;
          remaining = remaining - promotionalSpend;
          spendableCash = max 0 (cashMinor b - reservedWithdrawalMinor b);
          cashSpend = min spendableCash remaining;
          remaining = remaining - cashSpend
      in b\<lparr>promotionalMinor := promotionalMinor b - promotionalSpend, cashMinor := cashMinor b - cashSpend,
           debtMinor := debtMinor b + remaining\<rparr>)"

datatype credit_kind = Credit_cash | Credit_promotional

definition applyBucketCredit :: "buckets \<Rightarrow> int \<Rightarrow> credit_kind \<Rightarrow> buckets" where
  "applyBucketCredit b amountMinor kind =
     (let remaining = max 0 amountMinor;
          debtPayment = min (debtMinor b) remaining;
          remaining = remaining - debtPayment
      in b\<lparr>debtMinor := debtMinor b - debtPayment,
           cashMinor := cashMinor b + (if kind = Credit_cash then remaining else 0),
           promotionalMinor := promotionalMinor b + (if kind = Credit_promotional then remaining else 0)\<rparr>)"

definition availableBillingBalance :: "buckets \<Rightarrow> int" where
  "availableBillingBalance b = cashMinor b + promotionalMinor b - reservedWithdrawalMinor b - debtMinor b"

record credit_input =
  ci_account :: uuid
  ci_amount :: int
  ci_kind :: credit_kind
  ci_sourceType :: string
  ci_sourceId :: string
  ci_description :: string

definition applyBillingCredit :: "env \<Rightarrow> credit_input \<Rightarrow> bdb \<Rightarrow> string + bdb" where
  "applyBillingCredit e i d =
     (if \<not> (0 < ci_amount i \<and> ci_amount i \<le> maxSafeInteger) then Inl ''billing credit amount must be a positive integer''
      else and_then (readBillingBuckets e (ci_account i) False d) (\<lambda>(d, b).
        and_then (insertLedgerEntry e \<lparr>li_account = ci_account i,
            li_entryType = (if ci_kind i = Credit_cash then ''topup'' else ''manual_credit''), li_amount = ci_amount i,
            li_currency = ''USD'', li_sourceType = ci_sourceType i, li_sourceId = ci_sourceId i,
            li_description = ci_description i\<rparr> d) (\<lambda>(d, inserted).
          if inserted then writeBillingBuckets (ci_account i) (applyBucketCredit b (ci_amount i) (ci_kind i)) d
          else Inr d)))"

text \<open>\<open>accountHasSufficientBalance\<close> of \<open>public-billing.scenario.ts\<close>.\<close>

definition accountHasSufficientBalance :: "env \<Rightarrow> uuid \<Rightarrow> int \<Rightarrow> bdb \<Rightarrow> string + (bdb \<times> bool)" where
  "accountHasSufficientBalance e a minBalanceMinor d =
     (if minBalanceMinor \<le> 0 then Inr (d, True)
      else and_then (readBillingBuckets e a False d) (\<lambda>(d, b).
        and_then (readBillingAccountState e a False d) (\<lambda>(d, st).
          Inr (d, bs_state st = BS_active \<and> minBalanceMinor \<le> availableBillingBalance b))))"

subsection \<open>What the buckets are worth\<close>

definition worth :: "buckets \<Rightarrow> int" where
  "worth b = cashMinor b + promotionalMinor b - debtMinor b"

lemma consume_buckets:
  assumes "buckets_ok b"
  shows "buckets_ok (consumeBillingCharge b x)" "worth (consumeBillingCharge b x) = worth b - max 0 x"
    "reservedWithdrawalMinor (consumeBillingCharge b x) = reservedWithdrawalMinor b"
  using assms by (auto simp: buckets_ok_def worth_def consumeBillingCharge_def Let_def)

lemma credit_buckets:
  assumes "buckets_ok b"
  shows "buckets_ok (applyBucketCredit b x k)" "worth (applyBucketCredit b x k) = worth b + max 0 x"
    "reservedWithdrawalMinor (applyBucketCredit b x k) = reservedWithdrawalMinor b"
  using assms by (cases k; auto simp: buckets_ok_def worth_def applyBucketCredit_def Let_def)+

text \<open>
  A charge spends promotional money first, then cash that no withdrawal has reserved, and only
  what is left becomes debt; no bucket becomes negative and reserved cash is never spent.
\<close>

lemma charge_order:
  assumes "buckets_ok b" "0 \<le> x" "b' = consumeBillingCharge b x"
  shows "worth b' = worth b - x \<and> buckets_ok b' \<and> reservedWithdrawalMinor b' = reservedWithdrawalMinor b
    \<and> (cashMinor b' < cashMinor b \<longrightarrow> promotionalMinor b' = 0)
    \<and> (debtMinor b < debtMinor b' \<longrightarrow> promotionalMinor b' = 0 \<and> cashMinor b' = reservedWithdrawalMinor b')"
  using assms by (auto simp: buckets_ok_def worth_def consumeBillingCharge_def Let_def split: if_splits)

subsection \<open>The books\<close>

definition balance :: "bdb \<Rightarrow> uuid \<Rightarrow> int" where
  "balance d a = sum_list (map le_amount (filter (\<lambda>l. le_account l = a) (ledger d)))"

definition buckets_of :: "bdb \<Rightarrow> uuid \<Rightarrow> buckets" where
  "buckets_of d a = (case row_of bb_account a (balance_buckets d) of None \<Rightarrow> zero_buckets | Some r \<Rightarrow> bb_buckets r)"

definition open_withdrawal :: "withdrawal_status \<Rightarrow> bool" where
  "open_withdrawal s \<longleftrightarrow> s \<noteq> W_confirmed \<and> s \<noteq> W_cancelled"

definition reserved_sum :: "withdrawal_row list \<Rightarrow> uuid \<Rightarrow> int" where
  "reserved_sum ws a = sum_list (map wd_amount (filter (\<lambda>w. wd_account w = a \<and> open_withdrawal (wd_status w)) ws))"

definition rated_source :: string where "rated_source = ''rated_usage_event''"

text \<open>What imported usage has charged to an account, which is on the ledger only.\<close>

definition imported_charges :: "bdb \<Rightarrow> uuid \<Rightarrow> int" where
  "imported_charges d a =
     - sum_list (map le_amount (filter (\<lambda>l. le_account l = a \<and> le_sourceType l = rated_source) (ledger d)))"

text \<open>
  The books of an account: the ledger without the imported charges adds up to what the buckets are
  worth, and exactly the open withdrawals are reserved.
\<close>

definition account_balanced :: "bdb \<Rightarrow> uuid \<Rightarrow> bool" where
  "account_balanced d a \<longleftrightarrow> balance d a + imported_charges d a = worth (buckets_of d a) \<and> 0 \<le> imported_charges d a
     \<and> reservedWithdrawalMinor (buckets_of d a) = reserved_sum (withdrawals d) a \<and> buckets_ok (buckets_of d a)"

definition withdrawal_source :: string where "withdrawal_source = ''withdrawal_request''"

definition withdrawals_ok :: "bdb \<Rightarrow> bool" where
  "withdrawals_ok d \<longleftrightarrow> distinct (map wd_id (withdrawals d)) \<and> (\<forall>w\<in>set (withdrawals d). 0 < wd_amount w)
     \<and> (\<forall>l\<in>set (ledger d). le_sourceType l = withdrawal_source \<longrightarrow>
          (\<exists>w\<in>set (withdrawals d). wd_id w = le_sourceId l \<and> wd_status w = W_confirmed))"

definition books_ok :: "bdb \<Rightarrow> bool" where
  "books_ok d \<longleftrightarrow> (\<forall>a. account_balanced d a) \<and> withdrawals_ok d"

text \<open>Statements that do not touch the books.\<close>

definition same_books :: "bdb \<Rightarrow> bdb \<Rightarrow> bool" where
  "same_books d d' \<longleftrightarrow> ledger d' = ledger d \<and> withdrawals d' = withdrawals d \<and> (\<forall>a. buckets_of d' a = buckets_of d a)"

lemma same_books_refl [simp]: "same_books d d"
  by (simp add: same_books_def)

lemma same_books_trans [trans]: "same_books d d' \<Longrightarrow> same_books d' d'' \<Longrightarrow> same_books d d''"
  by (simp add: same_books_def)

lemma same_booksI: "ledger d' = ledger d \<Longrightarrow> withdrawals d' = withdrawals d \<Longrightarrow> balance_buckets d' = balance_buckets d \<Longrightarrow>
  same_books d d'"
  by (simp add: same_books_def buckets_of_def)

lemma same_books_ok: "same_books d d' \<Longrightarrow> books_ok d' = books_ok d"
  by (simp add: same_books_def books_ok_def account_balanced_def balance_def imported_charges_def withdrawals_ok_def)

lemma insert_child_books:
  "insert_child present a f d = Inr d' \<Longrightarrow> (\<not> present \<Longrightarrow> same_books d (f d)) \<Longrightarrow> same_books d d'"
  by (auto simp: insert_child_def split: if_splits)

lemma new_bucket_books:
  assumes "\<not> list_ex (\<lambda>r. bb_account r = a) (balance_buckets d)"
  shows "same_books d (d\<lparr>balance_buckets := balance_buckets d @ [\<lparr>bb_account = a, bb_buckets = zero_buckets\<rparr>]\<rparr>)"
proof -
  from assms have "row_of bb_account a (balance_buckets d) = None" by (auto simp: row_of_None_iff list_ex_iff)
  then show ?thesis by (auto simp: same_books_def buckets_of_def row_of_append split: option.split)
qed

lemma ensure_account_books: "ensureBillingAccount a c d = Inr d' \<Longrightarrow> same_books d d'"
  by (auto simp: ensureBillingAccount_def intro: same_booksI split: if_splits)

lemma ensure_books:
  assumes "ensurePrepaidBillingState e a d = Inr d'"
  shows "same_books d d'"
proof -
  let ?f = "\<lambda>d. d\<lparr>balance_buckets := balance_buckets d @ [\<lparr>bb_account = a, bb_buckets = zero_buckets\<rparr>]\<rparr>"
  define new_bucket where "new_bucket d = insert_child (list_ex (\<lambda>r. bb_account r = a) (balance_buckets d)) a ?f d" for d
  have bucket: "new_bucket d1 = Inr d2 \<Longrightarrow> same_books d1 d2" for d1 d2
    unfolding new_bucket_def by (erule insert_child_books) (rule new_bucket_books)
  from assms obtain d1 d2 d3 where "same_books d d1" "new_bucket d1 = Inr d2" "same_books d2 d3" "same_books d3 d'"
    unfolding ensurePrepaidBillingState_def new_bucket_def[symmetric]
    by (auto split: option.splits dest!: insert_child_books intro: same_booksI)
  with bucket show ?thesis by (blast intro: same_books_trans)
qed

lemma ensured_books: "ensured e a b d = Inr d' \<Longrightarrow> same_books d d'"
  by (auto simp: ensured_def ensure_books split: if_splits)

lemma read_buckets_books:
  assumes "readBillingBuckets e a k d = Inr (d', b)"
  shows "same_books d d'" "b = buckets_of d' a" "b = buckets_of d a" "list_ex (\<lambda>r. bb_account r = a) (balance_buckets d')"
proof -
  from assms obtain r where r: "ensured e a k d = Inr d'" "row_of bb_account a (balance_buckets d') = Some r" "b = bb_buckets r"
    by (auto simp: readBillingBuckets_def must_row_def Let_def split: option.splits)
  show "same_books d d'" by (rule ensured_books) (rule r(1))
  from r show b: "b = buckets_of d' a" by (simp add: buckets_of_def)
  from \<open>same_books d d'\<close> show "b = buckets_of d a" unfolding b same_books_def by simp
  show "list_ex (\<lambda>r. bb_account r = a) (balance_buckets d')" using row_of_SomeD[OF r(2)] by (auto simp: list_ex_iff)
qed

lemma read_state_books: "readBillingAccountState e a k d = Inr (d', r) \<Longrightarrow> same_books d d'"
  by (auto simp: readBillingAccountState_def ensured_books)

lemma read_plan_books: "readCurrentBillingPlan e a k d = Inr (d', r) \<Longrightarrow> same_books d d'"
  by (auto simp: readCurrentBillingPlan_def ensured_books)

interpretation bucket_write: row_update bb_account "\<lambda>r. r\<lparr>bb_buckets := b\<rparr>" for b
  by unfold_locales simp

lemma write_buckets:
  assumes "writeBillingBuckets a b d = Inr d'" "list_ex (\<lambda>r. bb_account r = a) (balance_buckets d)"
  shows "ledger d' = ledger d" "withdrawals d' = withdrawals d" "buckets_ok b"
    "buckets_of d' t = (if t = a then b else buckets_of d t)"
proof -
  have d': "d' = d\<lparr>balance_buckets := update_where (\<lambda>r. bb_account r = a) (\<lambda>r. r\<lparr>bb_buckets := b\<rparr>) (balance_buckets d)\<rparr>"
    and "buckets_ok b" using assms by (auto simp: writeBillingBuckets_def split: if_splits)
  then show "ledger d' = ledger d" "withdrawals d' = withdrawals d" "buckets_ok b" by simp_all
  from assms(2) obtain r where "row_of bb_account a (balance_buckets d) = Some r"
    by (cases "row_of bb_account a (balance_buckets d)") (auto simp: row_of_None_iff list_ex_iff)
  then show "buckets_of d' t = (if t = a then b else buckets_of d t)"
    by (auto simp: d' buckets_of_def bucket_write.row_of_update split: option.split dest: row_of_SomeD)
qed

lemma new_id_books: "new_id e d = (d', i) \<Longrightarrow> same_books d d'"
  by (auto simp: new_id_def split: prod.splits intro: same_booksI)

lemma new_id_tables [simp]: "balance_buckets (fst (new_id e d)) = balance_buckets d" "ledger (fst (new_id e d)) = ledger d"
  "withdrawals (fst (new_id e d)) = withdrawals d"
  by (simp_all add: new_id_def split: prod.split)

lemma ledger_entry:
  assumes "insertLedgerEntry e i d = Inr (d', inserted)"
  shows "balance_buckets d' = balance_buckets d" "withdrawals d' = withdrawals d"
    "\<not> inserted \<Longrightarrow> same_books d d' \<and> posted_source d (li_sourceType i) (li_sourceId i)"
    "inserted \<Longrightarrow> \<exists>l. ledger d' = ledger d @ [l] \<and> le_account l = li_account i \<and> le_amount l = li_amount i
       \<and> le_sourceType l = li_sourceType i \<and> le_sourceId l = li_sourceId i"
  using assms by (auto simp: insertLedgerEntry_def new_id_def split: prod.splits if_splits intro: same_booksI)

text \<open>
  Posting an entry and writing the buckets it moves keeps the books; so does reserving, as long as
  the withdrawals change with it.
\<close>

lemma post_books:
  assumes "books_ok d" "ledger d' = ledger d @ [l]" "le_account l = a" "withdrawals d' = withdrawals d"
    and "le_sourceType l \<noteq> withdrawal_source" "le_sourceType l \<noteq> rated_source"
    and "\<And>t. buckets_of d' t = (if t = a then b else buckets_of d t)" "buckets_ok b"
    and "worth b = worth (buckets_of d a) + le_amount l" "reservedWithdrawalMinor b = reservedWithdrawalMinor (buckets_of d a)"
  shows "books_ok d'"
proof -
  have "account_balanced d' t" for t
    using assms(1) by (auto simp: books_ok_def account_balanced_def balance_def imported_charges_def assms(2-) split: if_splits)
  moreover have "withdrawals_ok d'" using assms(1) by (auto simp: books_ok_def withdrawals_ok_def assms(2-5))
  ultimately show ?thesis by (simp add: books_ok_def)
qed

lemma balanced_account: "books_ok d \<Longrightarrow> buckets_ok (buckets_of d a)"
  by (simp add: books_ok_def account_balanced_def)

text \<open>The contract of a transaction of the billing scenarios.\<close>

locale billing_transaction =
  fixes run :: "bdb \<Rightarrow> string + (bdb \<times> 'r)"
  assumes keeps_books: "run d = Inr (d', r) \<Longrightarrow> books_ok d \<Longrightarrow> books_ok d'"

text \<open>An entry is posted, and the buckets of the account are written some harmless statements later.\<close>

lemma posted_entry_books:
  assumes "books_ok d" "insertLedgerEntry e i d = Inr (d1, True)" "li_sourceType i \<notin> {withdrawal_source, rated_source}"
    and "same_books d1 d2" "list_ex (\<lambda>r. bb_account r = li_account i) (balance_buckets d2)"
    and "writeBillingBuckets (li_account i) b d2 = Inr d'"
    and "worth b = worth (buckets_of d (li_account i)) + li_amount i"
    and "reservedWithdrawalMinor b = reservedWithdrawalMinor (buckets_of d (li_account i))"
  shows "books_ok d'"
proof -
  from ledger_entry(4)[OF assms(2)] obtain x where x: "ledger d1 = ledger d @ [x]" "le_account x = li_account i"
    "le_amount x = li_amount i" "le_sourceType x = li_sourceType i" by auto
  note written = write_buckets[OF assms(6,5)]
  have same: "buckets_of d2 t = buckets_of d t" for t
    using assms(4) ledger_entry(1)[OF assms(2)] unfolding same_books_def buckets_of_def by simp
  show ?thesis
  proof (rule post_books[OF assms(1), of d' x "li_account i" b])
    show "ledger d' = ledger d @ [x]" using written(1) assms(4) x(1) by (simp add: same_books_def)
    show "withdrawals d' = withdrawals d" using written(2) assms(4) ledger_entry(2)[OF assms(2)] by (simp add: same_books_def)
    show "buckets_of d' t = (if t = li_account i then b else buckets_of d t)" for t by (simp add: written(4) same)
  qed (use x assms(3,7,8) written(3) in simp_all)
qed

lemma credit_books:
  assumes "applyBillingCredit e i d = Inr d'" "books_ok d" "ci_sourceType i \<notin> {withdrawal_source, rated_source}"
  shows "books_ok d'"
proof -
  let ?a = "ci_account i" and ?i = "\<lparr>li_account = ci_account i,
    li_entryType = (if ci_kind i = Credit_cash then ''topup'' else ''manual_credit''), li_amount = ci_amount i,
    li_currency = ''USD'', li_sourceType = ci_sourceType i, li_sourceId = ci_sourceId i, li_description = ci_description i\<rparr>"
  from assms(1) obtain d1 b d2 inserted where r: "readBillingBuckets e ?a False d = Inr (d1, b)" "0 < ci_amount i"
    and l: "insertLedgerEntry e ?i d1 = Inr (d2, inserted)"
    and w: "(if inserted then writeBillingBuckets ?a (applyBucketCredit b (ci_amount i) (ci_kind i)) d2 else Inr d2) = Inr d'"
    unfolding applyBillingCredit_def by (auto split: if_splits)
  note read = read_buckets_books[OF r(1)]
  have ok1: "books_ok d1" using same_books_ok[OF read(1)] assms(2) by simp
  have b: "buckets_ok b" using balanced_account[OF ok1] read(2) by simp
  show ?thesis
  proof (cases inserted)
    case False
    with w ledger_entry(3)[OF l] ok1 show ?thesis by (auto simp: same_books_ok[of d1 d'])
  next
    case True
    with l w have "insertLedgerEntry e ?i d1 = Inr (d2, True)"
      "writeBillingBuckets (li_account ?i) (applyBucketCredit b (ci_amount i) (ci_kind i)) d2 = Inr d'" by simp_all
    from posted_entry_books[OF ok1 this(1) _ same_books_refl _ this(2)] show ?thesis
      using assms(3) r(2) read(2,4) ledger_entry(1)[OF l] credit_buckets[OF b] by simp
  qed
qed

text \<open>A charge of 20 against 5 promotional and 6 free cents leaves a debt.\<close>

lemma charge_order_witness:
  "\<exists>b b'. b' = consumeBillingCharge b 20 \<and> worth b = 15 \<and> worth b' = - 5 \<and> buckets_ok b'"
proof -
  let ?b = "\<lparr>cashMinor = 10, promotionalMinor = 5, reservedWithdrawalMinor = 4, debtMinor = 0\<rparr>"
  have "buckets_ok ?b" "worth ?b = 15" by (simp_all add: buckets_ok_def worth_def)
  with charge_order[of ?b 20, OF _ _ refl] show ?thesis by (intro exI[of _ ?b] exI[of _ "consumeBillingCharge ?b 20"]) simp
qed

end
