(* ===== verification/Retail.thy ===== *)
theory Retail
  imports Ledger
begin

section \<open>Settlement of retail usage\<close>

text \<open>
  \<open>application/billing/prepaid-billing.scenario.ts\<close> with the statements of
  \<open>resources/billing/prepaid-repository.ts\<close> it runs: time and traffic of the sessions are rated in
  windows, charged to the account's buckets in whole cents with the remainder carried over, and an
  account without money goes through a grace period before its sessions are revoked.

  Points of time are milliseconds; where the code writes one into a text it is written as a number.
  The 32-bit casts of plan prices and of the active seconds are not modelled.  \<open>FLOOR\<close> is taken of the
  exact quotient.
\<close>

subsection \<open>Charges\<close>

definition retail_MICROMINOR_PER_MINOR :: int where "retail_MICROMINOR_PER_MINOR = 1000000"
definition retail_BILLING_MONTH_SECONDS :: int where "retail_BILLING_MONTH_SECONDS = 30 * 24 * 60 * 60"
definition retail_BYTES_PER_DECIMAL_GB :: int where "retail_BYTES_PER_DECIMAL_GB = 1000000000"

definition nonNegative :: "int \<Rightarrow> int" where
  "nonNegative value = (if value < 0 then 0 else value)"

definition calculateRetailChargeMicrominor :: "int \<Rightarrow> int \<Rightarrow> int \<Rightarrow> int \<Rightarrow> int \<Rightarrow> int" where
  "calculateRetailChargeMicrominor activeSeconds activeConfigMonthlyMinor bytesToDestination bytesFromDestination trafficPerGbMinor =
     (let activeSeconds = max 0 activeSeconds;
          monthlyMinor = max 0 activeConfigMonthlyMinor;
          trafficPerGbMinor = max 0 trafficPerGbMinor;
          payloadBytes = nonNegative bytesToDestination + nonNegative bytesFromDestination;
          activeCharge = activeSeconds * monthlyMinor * retail_MICROMINOR_PER_MINOR div retail_BILLING_MONTH_SECONDS;
          trafficCharge = payloadBytes * trafficPerGbMinor * retail_MICROMINOR_PER_MINOR div retail_BYTES_PER_DECIMAL_GB
      in activeCharge + trafficCharge)"

subsection \<open>Candidates\<close>

record candidate =
  cd_accountId :: uuid
  cd_sessionId :: uuid
  cd_sessionLabel :: "string option"
  cd_planVersionId :: uuid
  cd_planCode :: string
  cd_planVersion :: int
  cd_activeConfigMonthlyMinor :: int
  cd_trafficPerGbMinor :: int
  cd_windowStart :: time
  cd_windowEnd :: time
  cd_activeSeconds :: int
  cd_bytesToDestination :: int
  cd_bytesFromDestination :: int

record candidate_window =
  cx_account :: uuid
  cx_session :: session_row
  cx_plan :: plan_version_row
  cx_start :: time
  cx_end :: time
  cx_assignment :: uuid

text \<open>\<open>GREATEST(x, COALESCE(MAX(window_end), '-infinity'))\<close> and \<open>LEAST\<close> with optional bounds.\<close>

definition after_all :: "time \<Rightarrow> time list \<Rightarrow> time" where
  "after_all x ts = foldr max ts x"

definition before_opt :: "time \<Rightarrow> time option \<Rightarrow> time" where
  "before_opt x t = (case t of None \<Rightarrow> x | Some y \<Rightarrow> min x y)"

definition rated_ends :: "bdb \<Rightarrow> uuid \<Rightarrow> uuid \<Rightarrow> time list" where
  "rated_ends d s v = map rr_windowEnd (filter (\<lambda>r. rr_session r = s \<and> rr_plan r = v) (ratings d))"

definition window_for ::
    "bdb \<Rightarrow> time \<Rightarrow> session_row \<Rightarrow> uuid \<Rightarrow> assignment_row \<Rightarrow> assignment_status_row \<Rightarrow> time \<Rightarrow> plan_assignment_row
      \<Rightarrow> plan_version_row \<Rightarrow> candidate_window" where
  "window_for d cutoff s account a st appliedAt p v =
     \<lparr>cx_account = account, cx_session = s, cx_plan = v,
      cx_start = after_all (max (pa_starts p) appliedAt) (rated_ends d (ss_id s) (pv_id v)),
      cx_end = before_opt (before_opt cutoff (pa_ends p)) (as_revokedAt st), cx_assignment = ga_id a\<rparr>"

text \<open>The joins of \<open>candidate_windows\<close>; its \<open>GROUP BY\<close> leaves one row per distinct combination.\<close>

definition assigned_during :: "time \<Rightarrow> assignment_status_row \<Rightarrow> time \<Rightarrow> uuid \<Rightarrow> plan_assignment_row \<Rightarrow> bool" where
  "assigned_during cutoff st appliedAt account p \<longleftrightarrow> pa_account p = account
     \<and> pa_starts p < (case as_revokedAt st of None \<Rightarrow> cutoff | Some r \<Rightarrow> r)
     \<and> (case pa_ends p of None \<Rightarrow> True | Some t \<Rightarrow> appliedAt < t)"

definition candidate_windows :: "bdb \<Rightarrow> time \<Rightarrow> candidate_window list" where
  "candidate_windows d cutoff = remdups (concat (map (\<lambda>s. case ss_account s of None \<Rightarrow> [] | Some account \<Rightarrow>
     concat (map (\<lambda>a. concat (map (\<lambda>st. case as_appliedAt st of None \<Rightarrow> [] | Some appliedAt \<Rightarrow>
       concat (map (\<lambda>p. map (window_for d cutoff s account a st appliedAt p)
           (filter (\<lambda>v. pv_id v = pa_plan p) (plan_versions d)))
         (filter (assigned_during cutoff st appliedAt account) (plan_assignments d))))
       (filter (\<lambda>st. as_assignment st = ga_id a) (assignment_status (core d)))))
     (filter (\<lambda>a. ga_session a = ss_id s \<and> ga_role a = Egress) (gate_assignments (core d)))))
     (sessions (core d))))"

text \<open>The part of a traffic window that lies in the rated one.\<close>

definition prorated :: "candidate_window \<Rightarrow> (counters \<Rightarrow> int) \<Rightarrow> delta_row \<Rightarrow> int" where
  "prorated x bytes u =
     (if ud_windowEnd u = ud_windowStart u then 0
      else bytes (ud_counters u) * (min (ud_windowEnd u) (cx_end x) - max (ud_windowStart u) (cx_start x))
             div (ud_windowEnd u - ud_windowStart u))"

definition window_usage :: "bdb \<Rightarrow> candidate_window \<Rightarrow> (counters \<Rightarrow> int) \<Rightarrow> int" where
  "window_usage d x bytes = sum_list (map (prorated x bytes) (filter (\<lambda>u. ud_assignment u = cx_assignment x
     \<and> ud_role u = Egress \<and> cx_start x < ud_windowEnd u \<and> ud_windowStart u < cx_end x) (usage_deltas (core d))))"

text \<open>The outer \<open>GROUP BY\<close> has every column but the assignment: windows that differ in it only are one candidate.\<close>

definition group_of :: "candidate_window \<Rightarrow> candidate_window" where
  "group_of x = x\<lparr>cx_assignment := []\<rparr>"

definition group_usage :: "bdb \<Rightarrow> candidate_window list \<Rightarrow> candidate_window \<Rightarrow> (counters \<Rightarrow> int) \<Rightarrow> int" where
  "group_usage d xs g bytes = sum_list (map (\<lambda>x. window_usage d x bytes) (filter (\<lambda>x. group_of x = g) xs))"

definition candidate_of :: "bdb \<Rightarrow> candidate_window list \<Rightarrow> candidate_window \<Rightarrow> candidate" where
  "candidate_of d xs g =
     \<lparr>cd_accountId = cx_account g, cd_sessionId = ss_id (cx_session g), cd_sessionLabel = ss_label (cx_session g),
      cd_planVersionId = pv_id (cx_plan g), cd_planCode = pv_code (cx_plan g), cd_planVersion = pv_version (cx_plan g),
      cd_activeConfigMonthlyMinor = pv_activeConfigMonthlyMinor (cx_plan g), cd_trafficPerGbMinor = pv_trafficPerGbMinor (cx_plan g),
      cd_windowStart = cx_start g, cd_windowEnd = cx_end g, cd_activeSeconds = (cx_end g - cx_start g) div 1000,
      cd_bytesToDestination = group_usage d xs g forwardedToDestinationBytes,
      cd_bytesFromDestination = group_usage d xs g forwardedFromDestinationBytes\<rparr>"

definition listRetailRatingCandidates :: "bdb \<Rightarrow> time \<Rightarrow> nat \<Rightarrow> candidate list" where
  "listRetailRatingCandidates d cutoff limit =
     (let xs = filter (\<lambda>x. cx_start x < cx_end x) (candidate_windows d cutoff)
      in take limit (sort_key cd_windowEnd (sort_key cd_sessionId (map (candidate_of d xs) (remdups (map group_of xs))))))"

subsection \<open>Ratings, accruals and sweeps\<close>

definition insertRetailUsageRating :: "env \<Rightarrow> candidate \<Rightarrow> int \<Rightarrow> bool \<Rightarrow> bdb \<Rightarrow> string + (bdb \<times> uuid option)" where
  "insertRetailUsageRating e c chargeMicrominor enforce d =
     (let (d1, newId) = new_id e d
      in if \<not> (cd_windowStart c < cd_windowEnd c \<and> 0 \<le> cd_activeSeconds c \<and> 0 \<le> cd_bytesToDestination c
             \<and> 0 \<le> cd_bytesFromDestination c \<and> 0 \<le> chargeMicrominor) then Inl check_error
         else if list_ex (\<lambda>r. rr_session r = cd_sessionId c \<and> rr_windowStart r = cd_windowStart c
             \<and> rr_windowEnd r = cd_windowEnd c) (ratings d) then Inr (d1, None)
         else if list_ex (\<lambda>r. rr_id r = newId) (ratings d) then Inl unique_error
         else if \<not> (billing_account d (cd_accountId c) \<and> cd_sessionId c \<in> ss_id ` set (sessions (core d))
             \<and> cd_planVersionId c \<in> pv_id ` set (plan_versions d)) then Inl fk_error
         else Inr (d1\<lparr>ratings := ratings d1 @ [\<lparr>rr_id = newId, rr_account = cd_accountId c, rr_session = cd_sessionId c,
             rr_plan = cd_planVersionId c, rr_windowStart = cd_windowStart c, rr_windowEnd = cd_windowEnd c,
             rr_activeSeconds = cd_activeSeconds c, rr_bytesTo = cd_bytesToDestination c,
             rr_bytesFrom = cd_bytesFromDestination c, rr_micro = chargeMicrominor, rr_posted = 0, rr_enforced = enforce\<rparr>]\<rparr>,
             Some newId))"

definition lockBillingAccrual :: "env \<Rightarrow> uuid \<Rightarrow> bdb \<Rightarrow> string + (bdb \<times> int)" where
  "lockBillingAccrual e a d = and_then (ensurePrepaidBillingState e a d) (\<lambda>d.
     and_then (must_row (row_of ac_account a (accruals d))) (\<lambda>r. Inr (d, ac_remainder r)))"

definition updateBillingAccrual :: "uuid \<Rightarrow> int \<Rightarrow> bdb \<Rightarrow> string + bdb" where
  "updateBillingAccrual a remainder d =
     (if remainder < 0 \<and> list_ex (\<lambda>r. ac_account r = a) (accruals d) then Inl check_error
      else Inr (d\<lparr>accruals := update_where (\<lambda>r. ac_account r = a) (\<lambda>r. r\<lparr>ac_remainder := remainder\<rparr>) (accruals d)\<rparr>))"

definition markRatingPosted :: "uuid \<Rightarrow> int \<Rightarrow> bdb \<Rightarrow> bdb" where
  "markRatingPosted ratingId chargeMinor d =
     d\<lparr>ratings := update_where (\<lambda>r. rr_id r = ratingId) (\<lambda>r. r\<lparr>rr_posted := chargeMinor\<rparr>) (ratings d)\<rparr>"

record sweep_input =
  sw_account :: uuid
  sw_sourceType :: string
  sw_sourceId :: string
  sw_amount :: int
  sw_tokenSymbol :: string
  sw_tokenMint :: string
  sw_tokenAmount :: int

definition insertCashSweepRequest :: "env \<Rightarrow> sweep_input \<Rightarrow> bdb \<Rightarrow> string + bdb" where
  "insertCashSweepRequest e i d =
     (if sw_amount i \<le> 0 \<or> sw_tokenAmount i \<le> 0 then Inr d
      else let (d1, newId) = new_id e d
        in if list_ex (\<lambda>w. cw_sourceType w = sw_sourceType i \<and> cw_sourceId w = sw_sourceId i) (sweeps d) then Inr d1
           else insert_child False (sw_account i) (\<lambda>d. d\<lparr>sweeps := sweeps d @ [\<lparr>cw_id = newId, cw_account = sw_account i,
             cw_sourceType = sw_sourceType i, cw_sourceId = sw_sourceId i, cw_amount = sw_amount i,
             cw_tokenSymbol = sw_tokenSymbol i, cw_tokenMint = sw_tokenMint i, cw_tokenAmount = sw_tokenAmount i,
             cw_status = CW_pending, cw_signature = None, cw_attempts = 0, cw_nextAttempt = env_now e, cw_failure = None,
             cw_created = env_now e, cw_updated = env_now e, cw_submitted = None, cw_confirmed = None\<rparr>]\<rparr>) d1)"

record retail_config =
  rt_enforce :: bool
  rt_settlementLagSeconds :: int
  rt_batchSize :: nat
  rt_tokenSymbol :: string
  rt_tokenMint :: string
  rt_baseUnitsPerMinor :: int

definition retail_source :: string where "retail_source = ''retail_usage_rating''"

definition usage_label :: "candidate \<Rightarrow> string" where
  "usage_label c = (case cd_sessionLabel c of None \<Rightarrow> cd_sessionId c | Some l \<Rightarrow> or_else l (cd_sessionId c))"

text \<open>What is charged for a rating: whole cents, the remainder stays on the account.\<close>

definition usage_entry :: "candidate \<Rightarrow> uuid \<Rightarrow> int \<Rightarrow> ledger_input" where
  "usage_entry c ratingId postedMinor = \<lparr>li_account = cd_accountId c, li_entryType = ''usage_charge'', li_amount = - postedMinor,
     li_currency = ''USD'', li_sourceType = retail_source, li_sourceId = ratingId, li_description = ''VPN usage: '' @ usage_label c\<rparr>"

definition usage_sweep :: "candidate \<Rightarrow> retail_config \<Rightarrow> uuid \<Rightarrow> int \<Rightarrow> sweep_input" where
  "usage_sweep c config ratingId cashSpentMinor = \<lparr>sw_account = cd_accountId c, sw_sourceType = retail_source,
     sw_sourceId = ratingId, sw_amount = cashSpentMinor, sw_tokenSymbol = rt_tokenSymbol config,
     sw_tokenMint = rt_tokenMint config, sw_tokenAmount = cashSpentMinor * rt_baseUnitsPerMinor config\<rparr>"

definition post_charge :: "env \<Rightarrow> candidate \<Rightarrow> retail_config \<Rightarrow> uuid \<Rightarrow> int \<Rightarrow> bdb \<Rightarrow> string + (bdb \<times> int)" where
  "post_charge e c config ratingId postedMinor d =
     and_then (readBillingBuckets e (cd_accountId c) False d) (\<lambda>(d, b).
     and_then (insertLedgerEntry e (usage_entry c ratingId postedMinor) d) (\<lambda>(d, inserted).
       if \<not> inserted then Inr (d, 0)
       else let nextBuckets = consumeBillingCharge b postedMinor; cashSpentMinor = cashMinor b - cashMinor nextBuckets in
         and_then (writeBillingBuckets (cd_accountId c) nextBuckets d) (\<lambda>d.
         and_then (insertCashSweepRequest e (usage_sweep c config ratingId cashSpentMinor) d) (\<lambda>d.
           Inr (markRatingPosted ratingId postedMinor d, postedMinor)))))"

definition candidate_charge :: "candidate \<Rightarrow> int" where
  "candidate_charge c = calculateRetailChargeMicrominor (cd_activeSeconds c) (cd_activeConfigMonthlyMinor c)
     (cd_bytesToDestination c) (cd_bytesFromDestination c) (cd_trafficPerGbMinor c)"

definition settleRatingCandidate :: "env \<Rightarrow> candidate \<Rightarrow> retail_config \<Rightarrow> bdb \<Rightarrow> string + (bdb \<times> int option)" where
  "settleRatingCandidate e c config d =
     and_then (insertRetailUsageRating e c (candidate_charge c) (rt_enforce config) d) (\<lambda>(d, rating).
       case rating of None \<Rightarrow> Inr (d, None)
       | Some ratingId \<Rightarrow> if \<not> rt_enforce config then Inr (d, Some 0)
         else and_then (lockBillingAccrual e (cd_accountId c) d) (\<lambda>(d, previousRemainder).
           let accumulated = previousRemainder + candidate_charge c; postedMinor = accumulated div retail_MICROMINOR_PER_MINOR in
           and_then (updateBillingAccrual (cd_accountId c) (accumulated mod retail_MICROMINOR_PER_MINOR) d) (\<lambda>d.
             if postedMinor \<le> 0 then Inr (d, Some 0)
             else and_then (post_charge e c config ratingId postedMinor d) (\<lambda>(d, n). Inr (d, Some n)))))"

subsection \<open>The state of an account\<close>

definition enqueueBillingNotification :: "env \<Rightarrow> uuid \<Rightarrow> string \<Rightarrow> string \<Rightarrow> js_record \<Rightarrow> bdb \<Rightarrow> string + bdb" where
  "enqueueBillingNotification e a notificationType dedupeKey data d =
     (case sort_key us_created (filter (\<lambda>u. us_account u = a \<and> us_disabled u = None) (users d)) of
        [] \<Rightarrow> Inr d
      | u # _ \<Rightarrow> (let (d1, newId) = new_id e d
          in insert_child (list_ex (\<lambda>n. ob_dedupe n = dedupeKey) (outbox d)) a
            (\<lambda>d. d\<lparr>outbox := outbox d @ [\<lparr>ob_id = newId, ob_account = a, ob_type = notificationType, ob_dedupe = dedupeKey,
               ob_email = us_email u, ob_payload = data, ob_status = OB_pending, ob_attempts = 0, ob_nextAttempt = env_now e,
               ob_lastError = None, ob_created = env_now e, ob_updated = env_now e, ob_sent = None\<rparr>]\<rparr>) d1))"

definition updateBillingAccountState ::
    "env \<Rightarrow> uuid \<Rightarrow> billing_state \<Rightarrow> time option \<Rightarrow> time option \<Rightarrow> time option \<Rightarrow> time option \<Rightarrow> time \<Rightarrow> bdb \<Rightarrow> bdb" where
  "updateBillingAccountState e a state overdrawnAt suspensionDueAt suspendedAt withdrawalEligibleAt settledAt d =
     d\<lparr>account_states := update_where (\<lambda>r. bs_account r = a)
        (\<lambda>r. r\<lparr>bs_state := state, bs_overdrawnAt := overdrawnAt, bs_suspensionDueAt := suspensionDueAt,
           bs_suspendedAt := suspendedAt, bs_withdrawalEligibleAt := withdrawalEligibleAt, bs_lastSettledAt := Some settledAt,
           bs_updated := env_now e\<rparr>) (account_states d)\<rparr>"

definition is_non_terminal :: "uuid \<Rightarrow> session_row \<times> session_status_row \<Rightarrow> bool" where
  "is_non_terminal a x \<longleftrightarrow> ss_account (fst x) = Some a \<and> ss_desired (fst x) \<noteq> SD_Revoked \<and> st_phase (snd x) \<notin> {S_revoked, S_failed}"

definition listNonTerminalAccountSessions :: "bdb \<Rightarrow> uuid \<Rightarrow> session_row list" where
  "listNonTerminalAccountSessions d a = sort_key ss_created (map fst (filter (is_non_terminal a) (session_join (core d))))"

definition listBillingAccountsNeedingStateCheck :: "bdb \<Rightarrow> nat \<Rightarrow> uuid list" where
  "listBillingAccountsNeedingStateCheck d limit = take limit (map bs_account
     (sort_key (\<lambda>r. case bs_suspensionDueAt r of None \<Rightarrow> bs_updated r | Some t \<Rightarrow> t)
       (filter (\<lambda>r. bs_state r \<noteq> BS_active) (account_states d))))"

datatype account_transition = AT_unchanged | AT_grace_started | AT_suspended | AT_restored

definition configs_json :: "session_row list \<Rightarrow> json" where
  "configs_json ss = JArr (map (\<lambda>s. JObj [(''id'', JStr (ss_id s)),
     (''label'', case ss_label s of None \<Rightarrow> JNull | Some l \<Rightarrow> JStr l)]) ss)"

definition suspension_reason :: "uuid \<Rightarrow> int \<Rightarrow> time \<Rightarrow> js_record" where
  "suspension_reason a balanceMinor due = [(''reason'', JStr ''billing_balance_exhausted''), (''accountId'', JStr a),
     (''balanceMinor'', JInt balanceMinor), (''suspensionDueAt'', JInt due)]"

definition revoke_all :: "env \<Rightarrow> js_record \<Rightarrow> session_row list \<Rightarrow> bdb \<Rightarrow> bdb" where
  "revoke_all e reason ss d =
     d\<lparr>core := fold (\<lambda>s c. fst (requestSystemSessionRevocation e (ss_id s) reason c)) ss (core d)\<rparr>"

definition restore_account :: "env \<Rightarrow> uuid \<Rightarrow> time \<Rightarrow> account_state_row \<Rightarrow> int \<Rightarrow> bdb \<Rightarrow> string + (bdb \<times> account_transition)" where
  "restore_account e a now st balanceMinor d =
     (let changed = bs_state st \<noteq> BS_active;
          d1 = updateBillingAccountState e a BS_active None None None (bs_withdrawalEligibleAt st) now d
      in if changed then and_then (enqueueBillingNotification e a ''billing_balance_restored''
             (''billing-restored:'' @ a @ '':'' @ js_int now) [(''balanceMinor'', JInt balanceMinor)] d1) (\<lambda>d. Inr (d, AT_restored))
         else Inr (d1, AT_unchanged))"

definition start_grace :: "env \<Rightarrow> uuid \<Rightarrow> time \<Rightarrow> int \<Rightarrow> int \<Rightarrow> bdb \<Rightarrow> string + (bdb \<times> account_transition)" where
  "start_grace e a now gracePeriodSeconds balanceMinor d =
     (let dueAt = now + seconds gracePeriodSeconds;
          configs = listNonTerminalAccountSessions d a
      in and_then (enqueueBillingNotification e a ''billing_grace_started'' (''billing-grace:'' @ a @ '':'' @ js_int now)
           [(''balanceMinor'', JInt balanceMinor), (''suspensionDueAt'', JInt dueAt), (''configs'', configs_json configs)]
           (updateBillingAccountState e a BS_grace (Some now) (Some dueAt) None None now d)) (\<lambda>d. Inr (d, AT_grace_started)))"

definition suspend_account ::
    "env \<Rightarrow> uuid \<Rightarrow> time \<Rightarrow> account_state_row \<Rightarrow> time \<Rightarrow> int \<Rightarrow> int \<Rightarrow> bdb \<Rightarrow> string + (bdb \<times> account_transition)" where
  "suspend_account e a now st due cooldownSeconds balanceMinor d =
     (let configs = listNonTerminalAccountSessions d a;
          d1 = revoke_all e (suspension_reason a balanceMinor due) configs d;
          eligible = now + seconds cooldownSeconds
      in and_then (enqueueBillingNotification e a ''billing_configs_suspended'' (''billing-suspended:'' @ a @ '':'' @ js_int now)
           [(''balanceMinor'', JInt balanceMinor), (''withdrawalEligibleAt'', JInt eligible), (''configs'', configs_json configs)]
           (updateBillingAccountState e a BS_suspended (bs_overdrawnAt st) (Some due) (Some now) (Some eligible) now d1))
         (\<lambda>d. Inr (d, AT_suspended)))"

definition reconcileBillingAccountState :: "env \<Rightarrow> uuid \<Rightarrow> time \<Rightarrow> bdb \<Rightarrow> string + (bdb \<times> account_transition)" where
  "reconcileBillingAccountState e a now d =
     and_then (readBillingAccountState e a False d) (\<lambda>(d, st).
     and_then (readBillingBuckets e a False d) (\<lambda>(d, b).
     and_then (readCurrentBillingPlan e a False d) (\<lambda>(d, plan).
       let balanceMinor = availableBillingBalance b;
           keep = Inr (updateBillingAccountState e a (bs_state st) (bs_overdrawnAt st) (bs_suspensionDueAt st)
                    (bs_suspendedAt st) (bs_withdrawalEligibleAt st) now d, AT_unchanged)
       in if 0 \<le> balanceMinor then restore_account e a now st balanceMinor d
          else if bs_state st = BS_active then start_grace e a now (pv_gracePeriodSeconds plan) balanceMinor d
          else case bs_suspensionDueAt st of
            None \<Rightarrow> keep
          | Some due \<Rightarrow> if bs_state st = BS_grace \<and> due \<le> now
              then suspend_account e a now st due (pv_withdrawalCooldownSeconds plan) balanceMinor d else keep)))"

subsection \<open>The settlement run\<close>

text \<open>
  Every candidate and every account has its own transaction, with \<open>now()\<close> of its own; an exception
  ends the run and leaves what is committed.  The second component of the result is \<open>Inl\<close> then.
\<close>

record settlement =
  sl_ratedWindows :: nat
  sl_postedMinor :: int
  sl_graceStarted :: nat
  sl_suspended :: nat
  sl_restored :: nat

fun settle_candidates ::
    "(nat \<Rightarrow> env) \<Rightarrow> nat \<Rightarrow> retail_config \<Rightarrow> candidate list \<Rightarrow> settlement \<Rightarrow> uuid list \<Rightarrow> bdb
      \<Rightarrow> bdb \<times> (string + (settlement \<times> uuid list))" where
  "settle_candidates e k config [] r touched d = (d, Inr (r, touched))"
| "settle_candidates e k config (c # cs) r touched d =
     (case settleRatingCandidate (e k) c config d of
        Inl err \<Rightarrow> (d, Inl err)
      | Inr (d', None) \<Rightarrow> settle_candidates e (Suc k) config cs r touched d'
      | Inr (d', Some posted) \<Rightarrow> settle_candidates e (Suc k) config cs
          (r\<lparr>sl_ratedWindows := sl_ratedWindows r + 1, sl_postedMinor := sl_postedMinor r + posted\<rparr>)
          (touched @ [cd_accountId c]) d')"

definition count_transition :: "account_transition \<Rightarrow> settlement \<Rightarrow> settlement" where
  "count_transition t r = (case t of
     AT_unchanged \<Rightarrow> r
   | AT_grace_started \<Rightarrow> r\<lparr>sl_graceStarted := sl_graceStarted r + 1\<rparr>
   | AT_suspended \<Rightarrow> r\<lparr>sl_suspended := sl_suspended r + 1\<rparr>
   | AT_restored \<Rightarrow> r\<lparr>sl_restored := sl_restored r + 1\<rparr>)"

fun reconcile_accounts ::
    "(nat \<Rightarrow> env) \<Rightarrow> nat \<Rightarrow> time \<Rightarrow> uuid list \<Rightarrow> settlement \<Rightarrow> bdb \<Rightarrow> bdb \<times> (string + settlement)" where
  "reconcile_accounts e k now [] r d = (d, Inr r)"
| "reconcile_accounts e k now (a # as) r d =
     (case reconcileBillingAccountState (e k) a now d of
        Inl err \<Rightarrow> (d, Inl err)
      | Inr (d', t) \<Rightarrow> reconcile_accounts e (Suc k) now as (count_transition t r) d')"

definition settleRetailBilling :: "(nat \<Rightarrow> env) \<Rightarrow> retail_config \<Rightarrow> time \<Rightarrow> bdb \<Rightarrow> bdb \<times> (string + settlement)" where
  "settleRetailBilling e config now d =
     (let lagSeconds = max 60 (rt_settlementLagSeconds config);
          cutoff = now - seconds lagSeconds;
          candidates = listRetailRatingCandidates d cutoff (rt_batchSize config);
          r0 = \<lparr>sl_ratedWindows = 0, sl_postedMinor = 0, sl_graceStarted = 0, sl_suspended = 0, sl_restored = 0\<rparr>
      in case settle_candidates e 0 config candidates r0 [] d of
           (d', Inl err) \<Rightarrow> (d', Inl err)
         | (d', Inr (r, touched)) \<Rightarrow>
             if rt_enforce config
             then reconcile_accounts e (length candidates) now
                    (js_set_list (touched @ listBillingAccountsNeedingStateCheck d' (rt_batchSize config))) r d'
             else (d', Inr r))"

subsection \<open>The books are kept\<close>

lemma rating_books: "insertRetailUsageRating e c x m d = Inr (d', i) \<Longrightarrow> same_books d d'"
  by (auto simp: insertRetailUsageRating_def new_id_def Let_def intro: same_booksI split: if_splits prod.splits)

lemma accrual_books: "updateBillingAccrual a x d = Inr d' \<Longrightarrow> same_books d d'"
  by (auto simp: updateBillingAccrual_def intro: same_booksI split: if_splits)

lemma lock_accrual_books: "lockBillingAccrual e a d = Inr (d', x) \<Longrightarrow> same_books d d'"
  by (auto simp: lockBillingAccrual_def ensure_books)

lemma sweep_books: "insertCashSweepRequest e i d = Inr d' \<Longrightarrow> same_books d d'"
  by (auto simp: insertCashSweepRequest_def new_id_def insert_child_def intro: same_booksI split: if_splits prod.splits)

lemma posted_books: "same_books d (markRatingPosted i n d)"
  by (simp add: markRatingPosted_def same_booksI)

lemma notify_books: "enqueueBillingNotification e a t k x d = Inr d' \<Longrightarrow> same_books d d'"
  by (auto simp: enqueueBillingNotification_def new_id_def insert_child_def intro: same_booksI split: list.splits if_splits prod.splits)

lemma account_state_books: "same_books d (updateBillingAccountState e a s ov du su el t d)"
  by (simp add: updateBillingAccountState_def same_booksI)

lemma revoke_all_books: "same_books d (revoke_all e r ss d)"
  by (simp add: revoke_all_def same_booksI)

lemma post_charge_cases:
  assumes "post_charge e c config i n d = Inr (d', m)"
  obtains d1 b d2 where "readBillingBuckets e (cd_accountId c) False d = Inr (d1, b)"
      "insertLedgerEntry e (usage_entry c i n) d1 = Inr (d2, False)" "d' = d2" "m = 0"
  | d1 b d2 d3 d4 x where "readBillingBuckets e (cd_accountId c) False d = Inr (d1, b)"
      "insertLedgerEntry e (usage_entry c i n) d1 = Inr (d2, True)"
      "writeBillingBuckets (cd_accountId c) (consumeBillingCharge b n) d2 = Inr d3"
      "insertCashSweepRequest e (usage_sweep c config i x) d3 = Inr d4" "d' = markRatingPosted i n d4" "m = n"
  using assms unfolding post_charge_def Let_def by (auto split: if_splits)

lemma usage_entry_fields [simp]: "li_account (usage_entry c i n) = cd_accountId c" "li_amount (usage_entry c i n) = - n"
  "li_sourceType (usage_entry c i n) = retail_source" "li_sourceId (usage_entry c i n) = i"
  by (simp_all add: usage_entry_def)

lemma post_charge_books:
  assumes "post_charge e c config i n d = Inr (d', m)" "books_ok d" "0 \<le> n"
  shows "books_ok d'"
  using assms(1)
proof (cases rule: post_charge_cases)
  case (1 d1 b d2)
  have "books_ok d1" using same_books_ok[OF read_buckets_books(1)[OF 1(1)]] assms(2) by simp
  with 1(3) ledger_entry(3)[OF 1(2)] show ?thesis by (auto simp: same_books_ok[of d1 d2])
next
  case (2 d1 b d2 d3 d4 x)
  note read = read_buckets_books[OF 2(1)]
  have ok1: "books_ok d1" using same_books_ok[OF read(1)] assms(2) by simp
  have b: "buckets_ok b" using balanced_account[OF ok1] read(2) by simp
  have "books_ok d3"
    using posted_entry_books[OF ok1 2(2) _ same_books_refl, of "consumeBillingCharge b n" d3] 2(3) assms(3) read(2,4)
      ledger_entry(1)[OF 2(2)] consume_buckets[OF b] by (simp add: retail_source_def withdrawal_source_def rated_source_def)
  moreover have "same_books d3 d'" unfolding 2(5) by (rule same_books_trans[OF sweep_books[OF 2(4)] posted_books])
  ultimately show ?thesis by (simp add: same_books_ok[of d3 d'])
qed

lemma settle_cases:
  assumes "settleRatingCandidate e c config d = Inr (d', r)"
  obtains (rated) "insertRetailUsageRating e c (candidate_charge c) (rt_enforce config) d = Inr (d', None)" "r = None"
  | (shadow) i where "insertRetailUsageRating e c (candidate_charge c) False d = Inr (d', Some i)" "\<not> rt_enforce config" "r = Some 0"
  | (carried) i d1 d2 m where "insertRetailUsageRating e c (candidate_charge c) True d = Inr (d1, Some i)" "rt_enforce config"
      "lockBillingAccrual e (cd_accountId c) d1 = Inr (d2, m)" "(m + candidate_charge c) div retail_MICROMINOR_PER_MINOR \<le> 0"
      "updateBillingAccrual (cd_accountId c) ((m + candidate_charge c) mod retail_MICROMINOR_PER_MINOR) d2 = Inr d'" "r = Some 0"
  | (charged) i d1 d2 m d3 n where "insertRetailUsageRating e c (candidate_charge c) True d = Inr (d1, Some i)" "rt_enforce config"
      "lockBillingAccrual e (cd_accountId c) d1 = Inr (d2, m)" "0 < (m + candidate_charge c) div retail_MICROMINOR_PER_MINOR"
      "updateBillingAccrual (cd_accountId c) ((m + candidate_charge c) mod retail_MICROMINOR_PER_MINOR) d2 = Inr d3"
      "post_charge e c config i ((m + candidate_charge c) div retail_MICROMINOR_PER_MINOR) d3 = Inr (d', n)" "r = Some n"
proof -
  from assms obtain d1 y where y: "insertRetailUsageRating e c (candidate_charge c) (rt_enforce config) d = Inr (d1, y)"
    unfolding settleRatingCandidate_def by auto
  show thesis
  proof (cases y)
    case None
    with assms y rated show thesis unfolding settleRatingCandidate_def by (simp add: and_then_def)
  next
    case (Some i)
    note opened = assms[unfolded settleRatingCandidate_def y Some and_then_def[of "Inr (d1, Some i)"], simplified]
    show thesis
    proof (cases "rt_enforce config")
      case False
      with opened y Some shadow show thesis by simp
    next
      case True
      from opened True obtain d2 m d3 where m: "lockBillingAccrual e (cd_accountId c) d1 = Inr (d2, m)"
        "updateBillingAccrual (cd_accountId c) ((m + candidate_charge c) mod retail_MICROMINOR_PER_MINOR) d2 = Inr d3"
        by (auto simp: Let_def split: if_splits)
      show thesis
      proof (cases "(m + candidate_charge c) div retail_MICROMINOR_PER_MINOR \<le> 0")
        case le: True
        with opened m True y Some show thesis by (intro carried[of d1 i d2 m]) (simp_all add: Let_def)
      next
        case gt: False
        with opened m True y Some show thesis by (auto simp: Let_def intro!: charged[of d1 i d2 m d3])
      qed
    qed
  qed
qed

interpretation settlement: billing_transaction "settleRatingCandidate e c config" for e c config
proof (unfold_locales, goal_cases)
  case (1 d d' r)
  have same: "books_ok d2" if "same_books d d2" for d2 using same_books_ok[OF that] 1(2) by simp
  from 1(1) show ?case
  proof (cases rule: settle_cases)
    case rated
    then show ?thesis by (blast intro: same rating_books)
  next
    case (shadow i)
    then show ?thesis by (blast intro: same rating_books)
  next
    case (carried i d1 d2 m)
    then show ?thesis by (blast intro: same rating_books lock_accrual_books accrual_books same_books_trans)
  next
    case (charged i d1 d2 m d3 n)
    have "books_ok d3" using charged by (blast intro: same rating_books lock_accrual_books accrual_books same_books_trans)
    with post_charge_books[OF charged(6)] charged(4) show ?thesis by simp
  qed
qed

lemma state_branch_books:
  "restore_account e a now st x d = Inr (d', t) \<Longrightarrow> same_books d d'"
  "start_grace e a now g x d = Inr (d', t) \<Longrightarrow> same_books d d'"
  "suspend_account e a now st due g x d = Inr (d', t) \<Longrightarrow> same_books d d'"
proof -
  show "restore_account e a now st x d = Inr (d', t) \<Longrightarrow> same_books d d'"
    unfolding restore_account_def Let_def
    by (auto split: if_splits intro: account_state_books dest!: notify_books same_books_trans[OF account_state_books])
  show "start_grace e a now g x d = Inr (d', t) \<Longrightarrow> same_books d d'"
    unfolding start_grace_def Let_def by (auto dest!: notify_books same_books_trans[OF account_state_books])
  show "suspend_account e a now st due g x d = Inr (d', t) \<Longrightarrow> same_books d d'"
    unfolding suspend_account_def Let_def
    by (auto dest!: notify_books same_books_trans[OF same_books_trans[OF revoke_all_books account_state_books]])
qed

text \<open>The reads of the reconciliation, and the branch it takes.\<close>

definition account_branch ::
    "env \<Rightarrow> uuid \<Rightarrow> time \<Rightarrow> account_state_row \<Rightarrow> buckets \<Rightarrow> plan_version_row \<Rightarrow> bdb \<Rightarrow> bdb \<times> account_transition \<Rightarrow> bool" where
  "account_branch e a now st b plan d r \<longleftrightarrow>
     (if 0 \<le> availableBillingBalance b then restore_account e a now st (availableBillingBalance b) d = Inr r
      else if bs_state st = BS_active then start_grace e a now (pv_gracePeriodSeconds plan) (availableBillingBalance b) d = Inr r
      else if bs_state st = BS_grace \<and> (\<exists>due. bs_suspensionDueAt st = Some due \<and> due \<le> now)
        then suspend_account e a now st (the (bs_suspensionDueAt st)) (pv_withdrawalCooldownSeconds plan)
               (availableBillingBalance b) d = Inr r
      else r = (updateBillingAccountState e a (bs_state st) (bs_overdrawnAt st) (bs_suspensionDueAt st) (bs_suspendedAt st)
                  (bs_withdrawalEligibleAt st) now d, AT_unchanged))"

lemma reconcile_account_reads:
  assumes "reconcileBillingAccountState e a now d = Inr r"
  obtains d1 st d2 b d3 plan where "readBillingAccountState e a False d = Inr (d1, st)"
    "readBillingBuckets e a False d1 = Inr (d2, b)" "readCurrentBillingPlan e a False d2 = Inr (d3, plan)"
    "account_branch e a now st b plan d3 r"
proof -
  from assms obtain d1 st d2 b d3 plan where reads: "readBillingAccountState e a False d = Inr (d1, st)"
    "readBillingBuckets e a False d1 = Inr (d2, b)" "readCurrentBillingPlan e a False d2 = Inr (d3, plan)"
    unfolding reconcileBillingAccountState_def Let_def by auto
  with assms have "account_branch e a now st b plan d3 r"
    unfolding reconcileBillingAccountState_def account_branch_def
    by (auto simp: and_then_def Let_def split: if_splits option.splits)
  with reads show thesis by (rule that)
qed

interpretation account_check: billing_transaction "reconcileBillingAccountState e a now" for e a now
proof (unfold_locales, goal_cases)
  case (1 d d' r)
  from 1(1) obtain d1 st d2 b d3 plan where reads: "readBillingAccountState e a False d = Inr (d1, st)"
    "readBillingBuckets e a False d1 = Inr (d2, b)" "readCurrentBillingPlan e a False d2 = Inr (d3, plan)"
    and branch: "account_branch e a now st b plan d3 (d', r)" by (rule reconcile_account_reads)
  have "same_books d d3"
    by (rule same_books_trans[OF read_state_books[OF reads(1)]
        same_books_trans[OF read_buckets_books(1)[OF reads(2)] read_plan_books[OF reads(3)]]])
  moreover have "same_books d3 d'" using branch unfolding account_branch_def
    by (auto split: if_splits intro: account_state_books dest: state_branch_books)
  ultimately have "same_books d d'" by (rule same_books_trans)
  with 1(2) show ?case by (simp add: same_books_ok[of d d'])
qed

subsection \<open>Nothing is lost to rounding\<close>

definition remainder_of :: "bdb \<Rightarrow> uuid \<Rightarrow> int" where
  "remainder_of d a = (case row_of ac_account a (accruals d) of None \<Rightarrow> 0 | Some r \<Rightarrow> ac_remainder r)"

definition rated_micro :: "rating_row list \<Rightarrow> uuid \<Rightarrow> int" where
  "rated_micro rs a = sum_list (map rr_micro (filter (\<lambda>r. rr_account r = a \<and> rr_enforced r) rs))"

definition charged_minor :: "ledger_row list \<Rightarrow> uuid \<Rightarrow> int" where
  "charged_minor ls a = - sum_list (map le_amount (filter (\<lambda>l. le_account l = a \<and> le_sourceType l = retail_source) ls))"

definition conserved :: "bdb \<Rightarrow> uuid \<Rightarrow> bool" where
  "conserved d a \<longleftrightarrow> rated_micro (ratings d) a = 1000000 * charged_minor (ledger d) a + remainder_of d a
     \<and> 0 \<le> remainder_of d a \<and> remainder_of d a < 1000000"

definition sources_rated :: "bdb \<Rightarrow> bool" where
  "sources_rated d \<longleftrightarrow> (\<forall>l\<in>set (ledger d). le_sourceType l = retail_source \<longrightarrow> le_sourceId l \<in> rr_id ` set (ratings d))"

definition same_retail :: "bdb \<Rightarrow> bdb \<Rightarrow> bool" where
  "same_retail d d' \<longleftrightarrow> ratings d' = ratings d \<and> ledger d' = ledger d \<and> (\<forall>a. remainder_of d' a = remainder_of d a)"

lemma same_retailI: "ratings d' = ratings d \<Longrightarrow> ledger d' = ledger d \<Longrightarrow> accruals d' = accruals d \<Longrightarrow> same_retail d d'"
  by (simp add: same_retail_def remainder_of_def)

lemma same_retail_trans: "same_retail d d' \<Longrightarrow> same_retail d' d'' \<Longrightarrow> same_retail d d''"
  by (simp add: same_retail_def)

lemma child_retail:
  "insert_child present a f d = Inr d' \<Longrightarrow> same_retail d d \<Longrightarrow> (\<not> present \<Longrightarrow> same_retail d (f d)) \<Longrightarrow> same_retail d d'"
  by (auto simp: insert_child_def split: if_splits)

lemma new_accrual_retail:
  assumes "\<not> list_ex (\<lambda>r. ac_account r = a) (accruals d)"
  shows "same_retail d (d\<lparr>accruals := accruals d @ [\<lparr>ac_account = a, ac_remainder = 0\<rparr>]\<rparr>)"
proof -
  from assms have "row_of ac_account a (accruals d) = None" by (auto simp: row_of_None_iff list_ex_iff)
  then show ?thesis by (auto simp: same_retail_def remainder_of_def row_of_append split: option.split)
qed

lemma ensure_retail:
  assumes "ensurePrepaidBillingState e a d = Inr d'"
  shows "same_retail d d'"
proof -
  let ?f = "\<lambda>d. d\<lparr>accruals := accruals d @ [\<lparr>ac_account = a, ac_remainder = 0\<rparr>]\<rparr>"
  define new_accrual where "new_accrual d = insert_child (list_ex (\<lambda>r. ac_account r = a) (accruals d)) a ?f d" for d
  have accrual: "new_accrual d1 = Inr d2 \<Longrightarrow> same_retail d1 d2" for d1 d2
    unfolding new_accrual_def by (erule child_retail) (auto intro: same_retailI new_accrual_retail)
  from assms obtain d1 d2 d3 where "same_retail d d1" "same_retail d1 d2" "new_accrual d2 = Inr d3" "same_retail d3 d'"
    unfolding ensurePrepaidBillingState_def new_accrual_def[symmetric]
    by (auto split: option.splits dest!: child_retail intro: same_retailI)
  with accrual show ?thesis by (blast intro: same_retail_trans)
qed

lemma read_buckets_retail: "readBillingBuckets e a False d = Inr (d', b) \<Longrightarrow> same_retail d d'"
  by (auto simp: readBillingBuckets_def ensured_def ensure_retail Let_def)

lemma sweep_retail: "insertCashSweepRequest e i d = Inr d' \<Longrightarrow> same_retail d d'"
  by (auto simp: insertCashSweepRequest_def new_id_def insert_child_def intro: same_retailI split: if_splits prod.splits)

lemma write_buckets_retail: "writeBillingBuckets a b d = Inr d' \<Longrightarrow> same_retail d d'"
  by (auto simp: writeBillingBuckets_def intro: same_retailI split: if_splits)

lemma rating_inserted:
  assumes "insertRetailUsageRating e c x m d = Inr (d', Some i)"
  shows "\<exists>r. ratings d' = ratings d @ [r] \<and> rr_id r = i \<and> rr_account r = cd_accountId c \<and> rr_micro r = x \<and> rr_enforced r = m
      \<and> rr_session r = cd_sessionId c \<and> rr_windowStart r = cd_windowStart c \<and> rr_windowEnd r = cd_windowEnd c"
    "ledger d' = ledger d" "remainder_of d' a = remainder_of d a" "i \<notin> rr_id ` set (ratings d)" "0 \<le> x"
  using assms by (auto simp: insertRetailUsageRating_def new_id_def Let_def remainder_of_def list_ex_iff split: if_splits prod.splits)

lemma rating_present:
  "insertRetailUsageRating e c x m d = Inr (d', None) \<Longrightarrow> same_retail d d'"
  by (auto simp: insertRetailUsageRating_def new_id_def Let_def intro: same_retailI split: if_splits prod.splits)

lemma accrual_locked:
  assumes "lockBillingAccrual e a d = Inr (d', m)"
  shows "same_retail d d'" "m = remainder_of d a" "list_ex (\<lambda>r. ac_account r = a) (accruals d')"
proof -
  from assms obtain r where r: "ensurePrepaidBillingState e a d = Inr d'" "row_of ac_account a (accruals d') = Some r" "m = ac_remainder r"
    by (auto simp: lockBillingAccrual_def must_row_def split: option.splits)
  show same: "same_retail d d'" by (rule ensure_retail) (rule r(1))
  have "m = remainder_of d' a" by (simp add: remainder_of_def r)
  with same show "m = remainder_of d a" by (simp add: same_retail_def)
  show "list_ex (\<lambda>r. ac_account r = a) (accruals d')" using row_of_SomeD[OF r(2)] by (auto simp: list_ex_iff)
qed

interpretation accrual_write: row_update ac_account "\<lambda>r. r\<lparr>ac_remainder := m\<rparr>" for m
  by unfold_locales simp

lemma accrual_updated:
  assumes "updateBillingAccrual a m d = Inr d'" "list_ex (\<lambda>r. ac_account r = a) (accruals d)"
  shows "ratings d' = ratings d" "ledger d' = ledger d" "remainder_of d' t = (if t = a then m else remainder_of d t)"
proof -
  have d': "d' = d\<lparr>accruals := update_where (\<lambda>r. ac_account r = a) (\<lambda>r. r\<lparr>ac_remainder := m\<rparr>) (accruals d)\<rparr>"
    using assms(1) by (auto simp: updateBillingAccrual_def split: if_splits)
  then show "ratings d' = ratings d" "ledger d' = ledger d" by simp_all
  from assms(2) obtain r where "row_of ac_account a (accruals d) = Some r"
    by (cases "row_of ac_account a (accruals d)") (auto simp: row_of_None_iff list_ex_iff)
  then show "remainder_of d' t = (if t = a then m else remainder_of d t)"
    by (auto simp: d' remainder_of_def accrual_write.row_of_update split: option.split dest: row_of_SomeD)
qed

lemma rated_micro_update: "rated_micro (update_where P (\<lambda>r. r\<lparr>rr_posted := n\<rparr>) rs) a = rated_micro rs a"
  unfolding rated_micro_def by (induction rs) auto

lemma posted_micro: "rated_micro (ratings (markRatingPosted i n d)) a = rated_micro (ratings d) a"
  "rr_id ` set (ratings (markRatingPosted i n d)) = rr_id ` set (ratings d)"
proof -
  show "rated_micro (ratings (markRatingPosted i n d)) a = rated_micro (ratings d) a"
    by (simp add: markRatingPosted_def rated_micro_update)
  show "rr_id ` set (ratings (markRatingPosted i n d)) = rr_id ` set (ratings d)"
  proof -
    have "map rr_id (ratings (markRatingPosted i n d)) = map rr_id (ratings d)"
      by (simp add: markRatingPosted_def map_update_where)
    then show ?thesis by (metis set_map)
  qed
qed

lemma charge_posted:
  assumes "post_charge e c config i n d = Inr (d', m)" "\<not> posted_source d retail_source i"
  shows "m = n" "rated_micro (ratings d') a = rated_micro (ratings d) a" "rr_id ` set (ratings d') = rr_id ` set (ratings d)"
    "remainder_of d' a = remainder_of d a"
    "\<exists>l. ledger d' = ledger d @ [l] \<and> le_account l = cd_accountId c \<and> le_amount l = - n \<and> le_sourceType l = retail_source
       \<and> le_sourceId l = i"
proof -
  have "m = n \<and> rated_micro (ratings d') a = rated_micro (ratings d) a \<and> rr_id ` set (ratings d') = rr_id ` set (ratings d)
    \<and> remainder_of d' a = remainder_of d a
    \<and> (\<exists>l. ledger d' = ledger d @ [l] \<and> le_account l = cd_accountId c \<and> le_amount l = - n \<and> le_sourceType l = retail_source
       \<and> le_sourceId l = i)"
    using assms(1)
  proof (cases rule: post_charge_cases)
    case (1 d1 b d2)
    with ledger_entry(3)[OF 1(2)] read_buckets_books(1)[OF 1(1)] assms(2) show ?thesis
      by (simp add: same_books_def posted_source_def)
  next
    case (2 d1 b d2 d3 d4 x)
    have entry: "ratings d2 = ratings d1" "remainder_of d2 a = remainder_of d1 a"
      using 2(2) by (auto simp: insertLedgerEntry_def new_id_def remainder_of_def split: prod.splits if_splits)
    have remainder: "remainder_of d' a = remainder_of d4 a" by (simp add: 2(5) markRatingPosted_def remainder_of_def)
    note frames = read_buckets_retail[OF 2(1)] write_buckets_retail[OF 2(3)] sweep_retail[OF 2(4)]
    from ledger_entry(4)[OF 2(2)] frames obtain l where "ledger d4 = ledger d @ [l]" "le_account l = cd_accountId c" "le_amount l = - n"
      "le_sourceType l = retail_source" "le_sourceId l = i" by (auto simp: same_retail_def)
    moreover have "ledger d' = ledger d4" by (simp add: 2(5) markRatingPosted_def)
    ultimately have "\<exists>l. ledger d' = ledger d @ [l] \<and> le_account l = cd_accountId c \<and> le_amount l = - n
       \<and> le_sourceType l = retail_source \<and> le_sourceId l = i" by auto
    moreover have "rated_micro (ratings d') a = rated_micro (ratings d) a" "rr_id ` set (ratings d') = rr_id ` set (ratings d)"
      using posted_micro[of i n d4] frames entry unfolding 2(5) by (simp_all add: same_retail_def)
    moreover have "remainder_of d' a = remainder_of d a" using remainder frames entry by (simp add: same_retail_def)
    ultimately show ?thesis using 2(6) by blast
  qed
  then show "m = n" "rated_micro (ratings d') a = rated_micro (ratings d) a" "rr_id ` set (ratings d') = rr_id ` set (ratings d)"
    "remainder_of d' a = remainder_of d a"
    "\<exists>l. ledger d' = ledger d @ [l] \<and> le_account l = cd_accountId c \<and> le_amount l = - n \<and> le_sourceType l = retail_source
       \<and> le_sourceId l = i" by blast+
qed

lemma rated_micro_snoc: "rated_micro (rs @ [r]) a = rated_micro rs a + (if rr_account r = a \<and> rr_enforced r then rr_micro r else 0)"
  by (simp add: rated_micro_def)

lemma charged_minor_snoc: "charged_minor (ls @ [l]) a =
    charged_minor ls a - (if le_account l = a \<and> le_sourceType l = retail_source then le_amount l else 0)"
  by (simp add: charged_minor_def)

lemma carried_remainder: "0 \<le> (x::int) \<Longrightarrow> x div retail_MICROMINOR_PER_MINOR \<le> 0 \<Longrightarrow> x mod retail_MICROMINOR_PER_MINOR = x \<and> x < 1000000"
  by (simp add: retail_MICROMINOR_PER_MINOR_def)

lemma split_remainder: "x = 1000000 * (x div retail_MICROMINOR_PER_MINOR) + x mod retail_MICROMINOR_PER_MINOR
    \<and> 0 \<le> x mod retail_MICROMINOR_PER_MINOR \<and> x mod retail_MICROMINOR_PER_MINOR < 1000000"
  unfolding retail_MICROMINOR_PER_MINOR_def by simp

text \<open>
  C11: Whatever is settled, the micro-cents of an account's enforced ratings are the cents its ledger
  was charged for usage plus the remainder kept on the account, which stays below one cent.
\<close>

theorem charges_conserved:
  assumes "settleRatingCandidate e c config d = Inr (d', r)" "\<forall>a. conserved d a" "sources_rated d"
  shows "(\<forall>a. conserved d' a) \<and> sources_rated d'"
  using assms(1)
proof (cases rule: settle_cases)
  case rated
  from rating_present[OF rated(1)] assms(2,3) show ?thesis by (simp add: same_retail_def conserved_def sources_rated_def)
next
  case (shadow i)
  from rating_inserted[OF shadow(1)] assms(2,3) show ?thesis
    by (auto simp: conserved_def sources_rated_def rated_micro_snoc)
next
  case (carried i d1 d2 m)
  note ins = rating_inserted[OF carried(1)] and lock = accrual_locked[OF carried(3)]
  note upd = accrual_updated[OF carried(5) lock(3)]
  have m: "m = remainder_of d (cd_accountId c)" "0 \<le> m" using lock(2) ins(3) assms(2) by (simp_all add: conserved_def)
  with carried_remainder[of "m + candidate_charge c"] carried(4) ins(5)
  have keep: "(m + candidate_charge c) mod retail_MICROMINOR_PER_MINOR = m + candidate_charge c" "m + candidate_charge c < 1000000"
    by simp_all
  show ?thesis using ins lock(1) upd assms(2,3) m keep
    by (auto simp: conserved_def sources_rated_def rated_micro_snoc same_retail_def)
next
  case (charged i d1 d2 m d3 n)
  note ins = rating_inserted[OF charged(1)] and lock = accrual_locked[OF charged(3)]
  note upd = accrual_updated[OF charged(5) lock(3)]
  have "ledger d3 = ledger d" using ins(2) lock(1) upd(2) by (simp add: same_retail_def)
  with ins(4) assms(3) have fresh: "\<not> posted_source d3 retail_source i" by (auto simp: posted_source_def sources_rated_def list_ex_iff)
  note post = charge_posted[OF charged(6) fresh]
  have m: "m = remainder_of d (cd_accountId c)" using lock(2) ins(3) by simp
  have "conserved d' a" for a
  proof -
    from post(5) obtain l where l: "ledger d' = ledger d3 @ [l]" "le_account l = cd_accountId c"
      "le_amount l = - ((m + candidate_charge c) div retail_MICROMINOR_PER_MINOR)" "le_sourceType l = retail_source" by blast
    from ins(1) obtain x where x: "ratings d1 = ratings d @ [x]" "rr_account x = cd_accountId c" "rr_micro x = candidate_charge c"
      "rr_enforced x" by blast
    have micro: "rated_micro (ratings d') a = rated_micro (ratings d) a + (if cd_accountId c = a then candidate_charge c else 0)"
      using post(2)[of a] upd(1) lock(1) x by (simp add: same_retail_def rated_micro_snoc)
    have minor: "charged_minor (ledger d') a = charged_minor (ledger d) a
        + (if cd_accountId c = a then (m + candidate_charge c) div retail_MICROMINOR_PER_MINOR else 0)"
      using l \<open>ledger d3 = ledger d\<close> by (simp add: charged_minor_snoc)
    have rem: "remainder_of d' a = (if a = cd_accountId c then (m + candidate_charge c) mod retail_MICROMINOR_PER_MINOR else remainder_of d a)"
      using post(4)[of a] upd(3)[of a] lock(1) ins(3)[of a] by (simp add: same_retail_def)
    have "conserved d a" using assms(2) by blast
    with micro minor rem m split_remainder[of "m + candidate_charge c"] show ?thesis
      unfolding conserved_def by (cases "a = cd_accountId c") auto
  qed
  moreover have "sources_rated d'"
    using post(3,5) ins(1) upd(1,2) lock(1) \<open>ledger d3 = ledger d\<close> assms(3) by (auto simp: sources_rated_def same_retail_def)
  ultimately show ?thesis by blast
qed

subsection \<open>No time is rated twice\<close>

lemma after_all_ge: "x \<le> after_all x ts" "t \<in> set ts \<Longrightarrow> t \<le> after_all x ts"
  by (induction ts) (auto simp: after_all_def)

lemma after_all_in: "after_all x ts = x \<or> after_all x ts \<in> set ts"
  by (induction ts) (auto simp: after_all_def max_def)

lemma before_opt_le: "before_opt x t \<le> x" "t = Some y \<Longrightarrow> before_opt x t \<le> y"
  by (auto simp: before_opt_def split: option.split)

lemma in_candidate_windows:
  assumes "x \<in> set (candidate_windows d cutoff)"
  obtains s account a st t p v where "s \<in> set (sessions (core d))" "ss_account s = Some account"
    "a \<in> set (gate_assignments (core d))" "ga_session a = ss_id s" "ga_role a = Egress"
    "st \<in> set (assignment_status (core d))" "as_assignment st = ga_id a" "as_appliedAt st = Some t"
    "p \<in> set (plan_assignments d)" "pa_account p = account" "pv_id v = pa_plan p"
    "x = window_for d cutoff s account a st t p v"
  using assms unfolding candidate_windows_def assigned_during_def by (auto split: option.splits dest!: sym[of "Some _"])

text \<open>
  C12: What a settlement rates is one stretch of time of a session, for the account's own plan: it
  begins with the latest of the start of the plan, the time the egress gate applied the session and
  the ends of everything rated before for the session and the plan, and it ends with the earliest of
  the cutoff, the end of the plan and the revocation on the gate.
\<close>

theorem no_time_rated_twice:
  assumes "c \<in> set (listRetailRatingCandidates d cutoff n)"
  shows "cd_windowStart c < cd_windowEnd c
    \<and> (\<forall>r\<in>set (ratings d). rr_session r = cd_sessionId c \<and> rr_plan r = cd_planVersionId c \<longrightarrow> rr_windowEnd r \<le> cd_windowStart c)
    \<and> (\<exists>s\<in>set (sessions (core d)). \<exists>p\<in>set (plan_assignments d). \<exists>a\<in>set (gate_assignments (core d)).
        \<exists>st\<in>set (assignment_status (core d)). \<exists>t.
         ss_id s = cd_sessionId c \<and> ss_account s = Some (cd_accountId c) \<and> pa_account p = cd_accountId c \<and> pa_plan p = cd_planVersionId c
         \<and> ga_session a = cd_sessionId c \<and> ga_role a = Egress \<and> as_assignment st = ga_id a \<and> as_appliedAt st = Some t
         \<and> pa_starts p \<le> cd_windowStart c \<and> t \<le> cd_windowStart c
         \<and> (cd_windowStart c \<in> {pa_starts p, t} \<or> (\<exists>r\<in>set (ratings d). rr_session r = cd_sessionId c
               \<and> rr_plan r = cd_planVersionId c \<and> rr_windowEnd r = cd_windowStart c))
         \<and> cd_windowEnd c \<le> cutoff \<and> (\<forall>x\<in>set_option (pa_ends p) \<union> set_option (as_revokedAt st). cd_windowEnd c \<le> x)
         \<and> cd_windowEnd c \<in> {cutoff} \<union> set_option (pa_ends p) \<union> set_option (as_revokedAt st))"
proof -
  from assms obtain x xs where x: "x \<in> set (candidate_windows d cutoff)" "cx_start x < cx_end x" "c = candidate_of d xs (group_of x)"
    by (auto simp: listRetailRatingCandidates_def Let_def dest!: in_set_takeD)
  from x(1) obtain s account a st t p v where w: "s \<in> set (sessions (core d))" "ss_account s = Some account"
    "a \<in> set (gate_assignments (core d))" "ga_session a = ss_id s" "ga_role a = Egress"
    "st \<in> set (assignment_status (core d))" "as_assignment st = ga_id a" "as_appliedAt st = Some t"
    "p \<in> set (plan_assignments d)" "pa_account p = account" "pv_id v = pa_plan p"
    "x = window_for d cutoff s account a st t p v" by (rule in_candidate_windows)
  have fields: "cd_sessionId c = ss_id s" "cd_planVersionId c = pv_id v" "cd_accountId c = account"
    "cd_windowStart c = after_all (max (pa_starts p) t) (rated_ends d (ss_id s) (pv_id v))"
    "cd_windowEnd c = before_opt (before_opt cutoff (pa_ends p)) (as_revokedAt st)"
    by (simp_all add: x(3) candidate_of_def group_of_def w(12) window_for_def)
  have "cd_windowStart c < cd_windowEnd c" using x(2,3) by (simp add: candidate_of_def group_of_def)
  moreover have "rr_windowEnd r \<le> cd_windowStart c"
    if "r \<in> set (ratings d)" "rr_session r = cd_sessionId c" "rr_plan r = cd_planVersionId c" for r
    using that unfolding fields by (intro after_all_ge(2)) (auto simp: rated_ends_def)
  moreover have "pa_starts p \<le> cd_windowStart c" "t \<le> cd_windowStart c"
    using after_all_ge(1)[of "max (pa_starts p) t"] unfolding fields by auto
  moreover have "cd_windowStart c \<in> {pa_starts p, t} \<or> (\<exists>r\<in>set (ratings d). rr_session r = cd_sessionId c
      \<and> rr_plan r = cd_planVersionId c \<and> rr_windowEnd r = cd_windowStart c)"
    using after_all_in[of "max (pa_starts p) t" "rated_ends d (ss_id s) (pv_id v)"] unfolding fields
    by (auto simp: rated_ends_def max_def split: if_splits)
  moreover have "cd_windowEnd c \<le> cutoff" "\<forall>x\<in>set_option (pa_ends p) \<union> set_option (as_revokedAt st). cd_windowEnd c \<le> x"
    "cd_windowEnd c \<in> {cutoff} \<union> set_option (pa_ends p) \<union> set_option (as_revokedAt st)"
    unfolding fields by (auto simp: before_opt_def min_def split: option.splits)
  ultimately show ?thesis using w(1-11) fields(1-3)
    by (intro conjI bexI[of _ s] bexI[of _ p] bexI[of _ a] bexI[of _ st] exI[of _ t]) auto
qed

definition rating_key :: "rating_row \<Rightarrow> uuid \<times> time \<times> time" where
  "rating_key r = (rr_session r, rr_windowStart r, rr_windowEnd r)"

lemma post_charge_keys:
  assumes "post_charge e c config i n d = Inr (d', m)"
  shows "map rating_key (ratings d') = map rating_key (ratings d)"
  using assms
proof (cases rule: post_charge_cases)
  case (1 d1 b d2)
  have "ratings d2 = ratings d1" using 1(2) by (auto simp: insertLedgerEntry_def new_id_def split: prod.splits if_splits)
  with 1 read_buckets_retail[OF 1(1)] show ?thesis by (simp add: same_retail_def)
next
  case (2 d1 b d2 d3 d4 x)
  have "ratings d2 = ratings d1" using 2(2) by (auto simp: insertLedgerEntry_def new_id_def split: prod.splits if_splits)
  with read_buckets_retail[OF 2(1)] write_buckets_retail[OF 2(3)] sweep_retail[OF 2(4)] show ?thesis
    by (simp add: 2(5) same_retail_def markRatingPosted_def map_update_where rating_key_def)
qed

lemma settle_inserts:
  assumes "settleRatingCandidate e c config d = Inr (d', Some n)"
  shows "\<exists>d1 i m. insertRetailUsageRating e c (candidate_charge c) m d = Inr (d1, Some i)
    \<and> map rating_key (ratings d') = map rating_key (ratings d1)"
  using assms
proof (cases rule: settle_cases)
  case (carried i d1 d2 m)
  with accrual_locked[OF carried(3)] accrual_updated(1)[OF carried(5)] show ?thesis by (auto simp: same_retail_def)
next
  case (charged i d1 d2 m d3 k)
  with accrual_locked[OF charged(3)] accrual_updated(1)[OF charged(5)] post_charge_keys[OF charged(6)]
  show ?thesis by (auto simp: same_retail_def)
qed auto

text \<open>
  A window is settled once: settling the same candidate again posts nothing and leaves the
  ledger, the buckets, the ratings and the remainder as they are.
\<close>

lemma settled_once:
  assumes "settleRatingCandidate e c config d = Inr (d', Some n)"
  shows "\<exists>d''. settleRatingCandidate e' c config' d' = Inr (d'', None) \<and> same_books d' d'' \<and> same_retail d' d''"
proof -
  from settle_inserts[OF assms] obtain d1 i m where ins: "insertRetailUsageRating e c (candidate_charge c) m d = Inr (d1, Some i)"
    "map rating_key (ratings d') = map rating_key (ratings d1)" by blast
  from rating_inserted(1)[OF ins(1)] have "(cd_sessionId c, cd_windowStart c, cd_windowEnd c) \<in> rating_key ` set (ratings d1)"
    by (force simp: rating_key_def)
  then have "(cd_sessionId c, cd_windowStart c, cd_windowEnd c) \<in> rating_key ` set (ratings d')"
    using ins(2) by (metis set_map)
  then have key: "list_ex (\<lambda>r. rr_session r = cd_sessionId c \<and> rr_windowStart r = cd_windowStart c
      \<and> rr_windowEnd r = cd_windowEnd c) (ratings d')" by (auto simp: list_ex_iff rating_key_def)
  have valid: "cd_windowStart c < cd_windowEnd c \<and> 0 \<le> cd_activeSeconds c \<and> 0 \<le> cd_bytesToDestination c
      \<and> 0 \<le> cd_bytesFromDestination c \<and> 0 \<le> candidate_charge c"
    using ins(1) by (auto simp: insertRetailUsageRating_def split: if_splits prod.splits)
  obtain d'' where d'': "insertRetailUsageRating e' c (candidate_charge c) (rt_enforce config') d' = Inr (d'', None)"
    using key valid by (cases "new_id e' d'") (auto simp: insertRetailUsageRating_def)
  then have "settleRatingCandidate e' c config' d' = Inr (d'', None)" by (simp add: settleRatingCandidate_def)
  with rating_books[OF d''] rating_present[OF d''] show ?thesis by blast
qed

subsection \<open>Sessions revoked by the system\<close>

definition visible_session :: "db \<Rightarrow> uuid \<Rightarrow> bool" where
  "visible_session c s \<longleftrightarrow> list_ex (\<lambda>x. ss_id x = s \<and> ss_hidden x = None) (sessions c)
     \<and> list_ex (\<lambda>st. st_session st = s) (session_status c)"

definition desired_revoked :: "db \<Rightarrow> uuid \<Rightarrow> bool" where
  "desired_revoked c s \<longleftrightarrow> list_all (\<lambda>x. ss_id x = s \<longrightarrow> ss_desired x = SD_Revoked) (sessions c)"

lemma visible_found: "visible_session c s \<longleftrightarrow> findSessionPhaseForUpdate c s \<noteq> None"
proof -
  have "findSessionPhaseForUpdate c s \<noteq> None \<longleftrightarrow> (\<exists>x st. (x, st) \<in> set (session_join c) \<and> ss_id x = s \<and> ss_hidden x = None)"
    unfolding findSessionPhaseForUpdate_def by (auto simp: find_is_None list_ex_iff)
  also have "\<dots> \<longleftrightarrow> visible_session c s"
    unfolding in_session_join visible_session_def list_ex_iff by blast
  finally show ?thesis by simp
qed

lemma apply_revocation_sessions:
  "sessions (apply_revocation e s p c) = sessions (updateSessionDesiredState e s SD_Revoked True c)"
  "map st_session (session_status (apply_revocation e s p c)) = map st_session (session_status c)"
  by (simp_all add: apply_revocation_def Let_def requestRevocationTransition_def updateSessionStatusPhase_def
      update_status_def map_update_where)

lemma revocation_sessions:
  assumes "c' = fst (requestSystemSessionRevocation e s reason c)"
  shows "map (\<lambda>x. (ss_id x, ss_hidden x)) (sessions c') = map (\<lambda>x. (ss_id x, ss_hidden x)) (sessions c)"
    "map st_session (session_status c') = map st_session (session_status c)"
    "sessions c' = sessions c \<or> sessions c' = sessions (updateSessionDesiredState e s SD_Revoked True c)"
    "visible_session c s \<Longrightarrow> sessions c' = sessions (updateSessionDesiredState e s SD_Revoked True c)"
proof -
  have desired: "map (\<lambda>x. (ss_id x, ss_hidden x)) (sessions (updateSessionDesiredState e s SD_Revoked True c))
      = map (\<lambda>x. (ss_id x, ss_hidden x)) (sessions c)" by (simp add: updateSessionDesiredState_def map_update_where)
  have "\<not> visible_session c s \<and> c' = c \<or> (\<exists>p. sessions c' = sessions (apply_revocation e s p c)
      \<and> session_status c' = session_status (apply_revocation e s p c))"
  proof (cases "findSessionPhaseForUpdate c s")
    case None
    then show ?thesis unfolding visible_found assms by (simp add: requestSystemSessionRevocation_def)
  next
    case (Some p)
    then show ?thesis unfolding assms
      by (simp add: requestSystemSessionRevocation_def insertSystemSessionRevokeRequestedAudit_def) blast
  qed
  with desired apply_revocation_sessions
  show "map (\<lambda>x. (ss_id x, ss_hidden x)) (sessions c') = map (\<lambda>x. (ss_id x, ss_hidden x)) (sessions c)"
    "map st_session (session_status c') = map st_session (session_status c)"
    "sessions c' = sessions c \<or> sessions c' = sessions (updateSessionDesiredState e s SD_Revoked True c)"
    "visible_session c s \<Longrightarrow> sessions c' = sessions (updateSessionDesiredState e s SD_Revoked True c)"
    by metis+
qed

lemma list_ex_map_cong:
  assumes "map f xs = map f ys"
  shows "list_ex (\<lambda>x. P (f x)) xs = list_ex (\<lambda>x. P (f x)) ys"
proof -
  have "list_ex (\<lambda>x. P (f x)) zs = list_ex P (map f zs)" for zs by (induction zs) simp_all
  with assms show ?thesis by simp
qed

lemma visible_after: "visible_session (fst (requestSystemSessionRevocation e s reason c)) t = visible_session c t"
proof -
  note kept = revocation_sessions(1,2)[OF refl, of e s reason c]
  from list_ex_map_cong[OF kept(1), of "\<lambda>x. fst x = t \<and> snd x = None"] list_ex_map_cong[OF kept(2), of "\<lambda>x. x = t"]
  show ?thesis by (simp add: visible_session_def)
qed

lemma revoked_now:
  assumes "visible_session c s"
  shows "desired_revoked (fst (requestSystemSessionRevocation e s reason c)) s"
proof -
  have "list_all (\<lambda>x. ss_id x = s \<longrightarrow> ss_desired x = SD_Revoked)
      (update_where (\<lambda>x. ss_id x = s) (\<lambda>x. x\<lparr>ss_desired := SD_Revoked, ss_generation := g x, ss_updated := t\<rparr>) xs)" for g t xs
    by (induction xs) simp_all
  then show ?thesis unfolding desired_revoked_def revocation_sessions(4)[OF refl assms] updateSessionDesiredState_def by simp
qed

lemma revoked_still:
  assumes "desired_revoked c t"
  shows "desired_revoked (fst (requestSystemSessionRevocation e s reason c)) t"
  using assms revocation_sessions(3)[OF refl, of e s reason c]
  by (auto simp: desired_revoked_def updateSessionDesiredState_def list_all_iff set_update_where split: if_splits)

lemma revoke_fold:
  "visible_session c t \<Longrightarrow> t \<in> ss_id ` set ss \<or> desired_revoked c t \<Longrightarrow>
   desired_revoked (fold (\<lambda>s c. fst (requestSystemSessionRevocation e (ss_id s) reason c)) ss c) t"
proof (induction ss arbitrary: c)
  case (Cons s ss)
  have "t \<in> ss_id ` set ss \<or> desired_revoked (fst (requestSystemSessionRevocation e (ss_id s) reason c)) t"
    using Cons.prems revoked_now revoked_still by auto
  with Cons.IH[of "fst (requestSystemSessionRevocation e (ss_id s) reason c)"] Cons.prems(1) show ?case by (simp add: visible_after)
qed simp

lemma core_sessions [simp]:
  "sessions (core (updateBillingAccountState e a s ov du su el t d)) = sessions (core d)"
  "sessions (core (fst (new_id e d))) = sessions (core d)"
  by (simp_all add: updateBillingAccountState_def new_id_def gen_uuid_def)

lemma notify_sessions: "enqueueBillingNotification e a t k x d = Inr d' \<Longrightarrow> sessions (core d') = sessions (core d)"
  by (auto simp: enqueueBillingNotification_def new_id_def gen_uuid_def insert_child_def split: list.splits if_splits prod.splits)

lemma ensure_core: "ensurePrepaidBillingState e a d = Inr d' \<Longrightarrow> core d' = core d"
  by (auto simp: ensurePrepaidBillingState_def insert_child_def split: option.splits if_splits)

lemma read_core:
  "readBillingAccountState e a False d = Inr (d', st) \<Longrightarrow> core d' = core d"
  "readBillingBuckets e a False d = Inr (d', b) \<Longrightarrow> core d' = core d"
  "readCurrentBillingPlan e a False d = Inr (d', p) \<Longrightarrow> core d' = core d"
  by (auto simp: readBillingAccountState_def readBillingBuckets_def readCurrentBillingPlan_def ensured_def ensure_core Let_def)

lemma ensure_state_row:
  assumes "ensurePrepaidBillingState e a d = Inr d'"
  shows "row_of bs_account a (account_states d') =
    Some (case row_of bs_account a (account_states d) of None \<Rightarrow> new_account_state e a | Some r \<Rightarrow> r)"
proof -
  have "account_states d' = account_states d \<and> list_ex (\<lambda>r. bs_account r = a) (account_states d)
    \<or> account_states d' = account_states d @ [new_account_state e a] \<and> \<not> list_ex (\<lambda>r. bs_account r = a) (account_states d)"
    using assms unfolding ensurePrepaidBillingState_def by (auto simp: insert_child_def split: option.splits if_splits)
  moreover have "list_ex (\<lambda>r. bs_account r = a) (account_states d) \<longleftrightarrow> row_of bs_account a (account_states d) \<noteq> None"
    by (auto simp: row_of_def find_is_None)
  ultimately show ?thesis by (auto simp: row_of_append new_account_state_def split: option.splits)
qed

text \<open>
  C13: An account is suspended only when its grace period is over and it still owes money; by then
  every session of the account that a user can see and that had not ended is to be revoked.
\<close>

theorem suspension_after_grace:
  assumes "reconcileBillingAccountState e a now d = Inr (d', AT_suspended)"
  shows "(\<exists>st due. row_of bs_account a (account_states d) = Some st \<and> bs_state st = BS_grace
      \<and> bs_suspensionDueAt st = Some due \<and> due \<le> now)
    \<and> availableBillingBalance (buckets_of d a) < 0
    \<and> (\<forall>s\<in>set (listNonTerminalAccountSessions d a). visible_session (core d) (ss_id s) \<longrightarrow> desired_revoked (core d') (ss_id s))"
proof -
  from assms obtain d1 st d2 b d3 plan where reads: "readBillingAccountState e a False d = Inr (d1, st)"
    "readBillingBuckets e a False d1 = Inr (d2, b)" "readCurrentBillingPlan e a False d2 = Inr (d3, plan)"
    and branch: "account_branch e a now st b plan d3 (d', AT_suspended)" by (rule reconcile_account_reads)
  from branch obtain due where due: "bs_state st = BS_grace" "bs_suspensionDueAt st = Some due" "due \<le> now"
    "\<not> 0 \<le> availableBillingBalance b"
    "suspend_account e a now st due (pv_withdrawalCooldownSeconds plan) (availableBillingBalance b) d3 = Inr (d', AT_suspended)"
    by (auto simp: account_branch_def restore_account_def start_grace_def Let_def split: if_splits)
  have core: "core d3 = core d" using read_core reads by metis
  have b: "b = buckets_of d a"
    using read_buckets_books(3)[OF reads(2)] read_state_books[OF reads(1)] by (simp add: same_books_def)
  from reads(1) have st: "ensurePrepaidBillingState e a d = Inr d1" "row_of bs_account a (account_states d1) = Some st"
    by (auto simp: readBillingAccountState_def ensured_def must_row_def split: option.splits)
  have "row_of bs_account a (account_states d) = Some st"
    using ensure_state_row[OF st(1)] st(2) due(1)
    by (cases "row_of bs_account a (account_states d)") (auto simp: new_account_state_def)
  moreover have "desired_revoked (core d') (ss_id s)"
    if "s \<in> set (listNonTerminalAccountSessions d a)" "visible_session (core d) (ss_id s)" for s
  proof -
    define r where "r = suspension_reason a (availableBillingBalance b) due"
    define c where "c = fold (\<lambda>s c. fst (requestSystemSessionRevocation e (ss_id s) r c)) (listNonTerminalAccountSessions d a) (core d)"
    have "listNonTerminalAccountSessions d3 a = listNonTerminalAccountSessions d a" by (simp add: listNonTerminalAccountSessions_def core)
    with due(5) have "sessions (core d') = sessions c" unfolding suspend_account_def Let_def
      by (auto dest!: notify_sessions simp: revoke_all_def core c_def r_def)
    moreover have "desired_revoked c (ss_id s)" unfolding c_def using that by (intro revoke_fold) auto
    ultimately show ?thesis by (simp add: desired_revoked_def)
  qed
  ultimately show ?thesis using due(1-4) b by auto
qed

subsection \<open>Witnesses\<close>

definition demo_plan :: plan_version_row where
  "demo_plan = \<lparr>pv_id = ''pv'', pv_code = ''pilot'', pv_version = 1, pv_displayName = ''Pilot'', pv_currency = ''USD'',
     pv_activeConfigMonthlyMinor = 1000, pv_trafficPerGbMinor = 10, pv_gracePeriodSeconds = 86400,
     pv_withdrawalCooldownSeconds = 3600, pv_minimumWithdrawalMinor = 100, pv_retired = None\<rparr>"

definition demo_core :: db where
  "demo_core = (in_phase S_active config_db)\<lparr>sessions := [byo_session\<lparr>ss_account := Some ''acct''\<rparr>],
     assignment_status := [(new_assignment_status sample_env ''a2'' A_applied)\<lparr>as_appliedAt := Some 0\<rparr>]\<rparr>"

definition demo_bdb :: bdb where
  "demo_bdb = \<lparr>core = demo_core, accounts = [''acct''], users = [],
     billing_accounts = [\<lparr>ba_account = ''acct'', ba_currency = ''USD''\<rparr>], plan_versions = [demo_plan],
     plan_assignments = [\<lparr>pa_account = ''acct'', pa_plan = ''pv'', pa_starts = 0, pa_ends = None, pa_assignedBy = ''system'',
       pa_reason = ''Safe default plan''\<rparr>],
     balance_buckets = [], accruals = [], account_states = [], ledger = [], ratings = [], outbox = [], withdrawals = [],
     sweeps = [], receipts = [], remainders = [], wallets = [], rated_events = []\<rparr>"

definition demo_window :: candidate where
  "demo_window = \<lparr>cd_accountId = ''acct'', cd_sessionId = ''s1'', cd_sessionLabel = ss_label byo_session, cd_planVersionId = ''pv'',
     cd_planCode = ''pilot'', cd_planVersion = 1, cd_activeConfigMonthlyMinor = 1000, cd_trafficPerGbMinor = 10,
     cd_windowStart = 0, cd_windowEnd = 2592000000, cd_activeSeconds = 2592000, cd_bytesToDestination = 0,
     cd_bytesFromDestination = 0\<rparr>"

lemma demo_candidates: "listRetailRatingCandidates demo_bdb 2592000000 10 = [demo_window]"
  by (simp add: listRetailRatingCandidates_def candidate_windows_def demo_bdb_def demo_core_def in_phase_def config_db_def gates_db_def
      pool_db_def empty_db_def byo_session_def scheduled_session_def sample_assignment_def new_assignment_status_def demo_plan_def
      assigned_during_def window_for_def rated_ends_def after_all_def before_opt_def candidate_of_def demo_window_def window_usage_def
      group_usage_def group_of_def Let_def)
definition demo_config :: retail_config where
  "demo_config = \<lparr>rt_enforce = True, rt_settlementLagSeconds = 60, rt_batchSize = 10, rt_tokenSymbol = ''USDC'',
     rt_tokenMint = ''mint'', rt_baseUnitsPerMinor = 10000\<rparr>"

lemma demo_charge: "candidate_charge demo_window = 1000000000"
  by (simp add: candidate_charge_def calculateRetailChargeMicrominor_def demo_window_def nonNegative_def Let_def
      retail_MICROMINOR_PER_MINOR_def retail_BILLING_MONTH_SECONDS_def retail_BYTES_PER_DECIMAL_GB_def)

lemma demo_settled: "\<exists>d'. settleRatingCandidate sample_env demo_window demo_config demo_bdb = Inr (d', Some 1000)"
proof -
  have "case settleRatingCandidate sample_env demo_window demo_config demo_bdb of Inl _ \<Rightarrow> False | Inr x \<Rightarrow> snd x = Some 1000"
    by code_simp
  then show ?thesis by (auto split: sum.splits)
qed
theorem charges_conserved_witness:
  "\<exists>d'. settleRatingCandidate sample_env demo_window demo_config demo_bdb = Inr (d', Some 1000) \<and> conserved d' ''acct''"
proof -
  obtain d' where d': "settleRatingCandidate sample_env demo_window demo_config demo_bdb = Inr (d', Some 1000)"
    using demo_settled by blast
  have "\<forall>a. conserved demo_bdb a" "sources_rated demo_bdb"
    by (simp_all add: conserved_def sources_rated_def demo_bdb_def rated_micro_def charged_minor_def remainder_of_def)
  with charges_conserved[OF d'] d' show ?thesis by blast
qed

theorem no_time_rated_twice_witness:
  "demo_window \<in> set (listRetailRatingCandidates demo_bdb 2592000000 10) \<and> cd_windowEnd demo_window = 2592000000
     \<and> (\<exists>p\<in>set (plan_assignments demo_bdb). pa_account p = cd_accountId demo_window \<and> pa_starts p \<le> cd_windowStart demo_window)"
proof -
  have c: "demo_window \<in> set (listRetailRatingCandidates demo_bdb 2592000000 10)" by (simp add: demo_candidates)
  from no_time_rated_twice[OF c] c show ?thesis by (auto simp: demo_window_def)
qed

lemma settled_once_witness:
  "\<exists>d' d''. settleRatingCandidate sample_env demo_window demo_config demo_bdb = Inr (d', Some 1000)
     \<and> settleRatingCandidate sample_env demo_window demo_config d' = Inr (d'', None)"
  using demo_settled settled_once by blast

definition overdrawn_bdb :: bdb where
  "overdrawn_bdb = demo_bdb\<lparr>balance_buckets := [\<lparr>bb_account = ''acct'', bb_buckets = zero_buckets\<lparr>debtMinor := 5\<rparr>\<rparr>],
     account_states := [(new_account_state sample_env ''acct'')\<lparr>bs_state := BS_grace, bs_suspensionDueAt := Some 1000\<rparr>]\<rparr>"

theorem suspension_after_grace_witness:
  "\<exists>d'. reconcileBillingAccountState sample_env ''acct'' 2000 overdrawn_bdb = Inr (d', AT_suspended)
     \<and> availableBillingBalance (buckets_of overdrawn_bdb ''acct'') < 0 \<and> desired_revoked (core d') ''s1''"
proof -
  have "case reconcileBillingAccountState sample_env ''acct'' 2000 overdrawn_bdb of Inl _ \<Rightarrow> False | Inr x \<Rightarrow> snd x = AT_suspended"
    by code_simp
  then obtain d' where d': "reconcileBillingAccountState sample_env ''acct'' 2000 overdrawn_bdb = Inr (d', AT_suspended)"
    by (auto split: sum.splits)
  have "map ss_id (listNonTerminalAccountSessions overdrawn_bdb ''acct'') = [''s1'']" by code_simp
  moreover have "visible_session (core overdrawn_bdb) ''s1''" by code_simp
  ultimately show ?thesis using suspension_after_grace[OF d'] d' by auto
qed

end
