(* ===== verification/Base58.thy ===== *)
theory Base58
  imports JsValues
begin

section \<open>Base 58\<close>

text \<open>
  \<open>application/billing/solana-address.ts\<close> reads an address, and \<open>encodeBase58\<close> of the worker's
  withdrawal loop writes a signature.  Both keep the number as a list of digits, the least
  significant first, and multiply and add with a carry.  Bytes are numbers below 256.
\<close>

subsection \<open>Digits\<close>

text \<open>
  One pass \<open>for (index ...) { next = digits[index] * m + carry; digits[index] = next mod b; carry = next div b }\<close>
  and the loop that appends what is left of the carry.
\<close>

fun push_carry :: "nat \<Rightarrow> nat \<Rightarrow> nat list" where
  "push_carry b carry = (if carry = 0 \<or> b < 2 then [] else carry mod b # push_carry b (carry div b))"

declare push_carry.simps [simp del]

fun mult_add :: "nat \<Rightarrow> nat \<Rightarrow> nat list \<Rightarrow> nat \<Rightarrow> nat list" where
  "mult_add b m [] carry = push_carry b carry"
| "mult_add b m (x # xs) carry = (x * m + carry) mod b # mult_add b m xs ((x * m + carry) div b)"

definition base58_alphabet :: string where
  "base58_alphabet = ''123456789ABCDEFGHJKLMNPQRSTUVWXYZabcdefghijkmnopqrstuvwxyz''"

text \<open>\<open>indexOf\<close>.\<close>

fun index_of :: "char \<Rightarrow> string \<Rightarrow> nat option" where
  "index_of c [] = None"
| "index_of c (x # xs) = (if x = c then Some 0 else map_option Suc (index_of c xs))"

fun decode_digits :: "nat list \<Rightarrow> string \<Rightarrow> nat list option" where
  "decode_digits bytes [] = Some bytes"
| "decode_digits bytes (c # cs) = (case index_of c base58_alphabet of
     None \<Rightarrow> None | Some v \<Rightarrow> decode_digits (mult_add 256 58 bytes v) cs)"

definition decodeBase58 :: "string \<Rightarrow> nat list option" where
  "decodeBase58 value = map_option
     (\<lambda>bytes. rev (bytes @ replicate (length (takeWhile (\<lambda>c. c = CHR ''1'') (butlast value))) 0))
     (decode_digits [0] value)"

definition normalizeSolanaPublicKey :: "string \<Rightarrow> string" where
  "normalizeSolanaPublicKey value =
     (let publicKey = js_trim value in
      case decodeBase58 publicKey of
        None \<Rightarrow> ''''
      | Some bytes \<Rightarrow> if length bytes \<noteq> 32 \<or> list_all (\<lambda>b. b = 0) bytes then '''' else publicKey)"

definition encodeBase58 :: "nat list \<Rightarrow> string" where
  "encodeBase58 value =
     (let digits = foldl (mult_add 58 256) [0] value
      in replicate (length (takeWhile (\<lambda>b. b = 0) value)) (CHR ''1'') @ map (\<lambda>x. base58_alphabet ! x) (rev digits))"

subsection \<open>The number a list of digits stands for\<close>

fun digits_number :: "nat \<Rightarrow> nat list \<Rightarrow> nat" where
  "digits_number b [] = 0"
| "digits_number b (x # xs) = x + b * digits_number b xs"

lemma number_push: "2 \<le> b \<Longrightarrow> digits_number b (push_carry b carry) = carry"
  by (induction b carry rule: push_carry.induct) (subst push_carry.simps, simp)

lemma number_mult_add: "2 \<le> b \<Longrightarrow> digits_number b (mult_add b m xs carry) = digits_number b xs * m + carry"
proof (induction xs arbitrary: carry)
  case (Cons x xs)
  have "(x * m + carry) mod b + b * ((x * m + carry) div b) = x * m + carry" by simp
  with Cons show ?case by (simp add: algebra_simps)
qed (simp add: number_push)

text \<open>The digits are proper, and the most significant one is not zero unless it is the only one.\<close>

definition proper_digits :: "nat \<Rightarrow> nat list \<Rightarrow> bool" where
  "proper_digits b xs \<longleftrightarrow> xs \<noteq> [] \<and> list_all (\<lambda>x. x < b) xs \<and> (last xs = 0 \<longrightarrow> xs = [0])"

lemma push_digits: "2 \<le> b \<Longrightarrow> list_all (\<lambda>x. x < b) (push_carry b c) \<and> (push_carry b c \<noteq> [] \<longrightarrow> last (push_carry b c) \<noteq> 0)
    \<and> (push_carry b c = [] \<longleftrightarrow> c = 0)"
proof (induction b c rule: push_carry.induct)
  case (1 b carry)
  show ?case
  proof (cases "carry = 0")
    case False
    then have unfold: "push_carry b carry = carry mod b # push_carry b (carry div b)" using 1(2) by (simp add: push_carry.simps)
    have IH: "list_all (\<lambda>x. x < b) (push_carry b (carry div b)) \<and>
        (push_carry b (carry div b) \<noteq> [] \<longrightarrow> last (push_carry b (carry div b)) \<noteq> 0) \<and>
        (push_carry b (carry div b) = [] \<longleftrightarrow> carry div b = 0)" using 1 False by simp
    have "carry mod b \<noteq> 0" if "carry div b = 0" using that False 1(2) by (metis add.left_neutral mult_0_right mult_div_mod_eq)
    with IH 1(2) False show ?thesis by (auto simp: unfold)
  qed (simp add: push_carry.simps)
qed

lemma mult_add_proper:
  assumes "2 \<le> b" "0 < m" "proper_digits b xs"
  shows "proper_digits b (mult_add b m xs c)"
proof -
  have nonempty: "mult_add b m ys c \<noteq> []" if "ys \<noteq> []" for ys c using that by (cases ys) simp_all
  have digits: "list_all (\<lambda>x. x < b) (mult_add b m ys c)" for ys c
    by (induction ys arbitrary: c) (use assms(1) push_digits in simp_all)
  have top: "last (mult_add b m ys c) \<noteq> 0" if "ys \<noteq> []" "last ys \<noteq> 0" for ys c
    using that
  proof (induction ys arbitrary: c)
    case (Cons y ys)
    show ?case
    proof (cases ys)
      case Nil
      with Cons.prems have "0 < y * m + c" using assms(2) by simp
      moreover have "push_carry b n \<noteq> [] \<Longrightarrow> last (push_carry b n) \<noteq> 0" "push_carry b n = [] \<longleftrightarrow> n = 0" for n
        using push_digits[OF assms(1)] by blast+
      ultimately show ?thesis using Nil by (metis div_mult_mod_eq add_0 last.simps less_not_refl mult_0 mult_add.simps)
    next
      case (Cons z zs)
      with Cons.IH Cons.prems nonempty[of ys] show ?thesis by simp
    qed
  qed simp
  show ?thesis
  proof (cases "xs = [0]")
    case True
    then show ?thesis using digits[of xs c] push_digits[OF assms(1), of "c div b"] by (auto simp: proper_digits_def)
  next
    case False
    with assms(3) top[of xs c] nonempty[of xs c] digits show ?thesis by (auto simp: proper_digits_def)
  qed
qed

lemma proper_nonzero: "proper_digits b xs \<Longrightarrow> 0 < b \<Longrightarrow> digits_number b xs = 0 \<longleftrightarrow> xs = [0]"
proof
  have "digits_number b ys = 0 \<Longrightarrow> 0 < b \<Longrightarrow> ys \<noteq> [] \<Longrightarrow> last ys = 0" for ys
    by (induction ys) (auto split: if_splits)
  from this[of xs] show "proper_digits b xs \<Longrightarrow> 0 < b \<Longrightarrow> digits_number b xs = 0 \<Longrightarrow> xs = [0]"
    by (simp add: proper_digits_def)
qed simp

lemma proper_tail: "2 \<le> b \<Longrightarrow> proper_digits b (u # us) \<Longrightarrow> digits_number b us = 0 \<Longrightarrow> us = []"
proof (rule ccontr)
  assume "2 \<le> b" "proper_digits b (u # us)" "digits_number b us = 0" "us \<noteq> []"
  then have "proper_digits b us" "last us \<noteq> 0" by (auto simp: proper_digits_def)
  with proper_nonzero[of b us] \<open>digits_number b us = 0\<close> \<open>2 \<le> b\<close> show False by simp
qed

lemma proper_tail_digits: "proper_digits b (u # us) \<Longrightarrow> us \<noteq> [] \<Longrightarrow> proper_digits b us"
  by (auto simp: proper_digits_def)

lemma proper_unique:
  assumes "2 \<le> b" "proper_digits b xs" "proper_digits b ys" "digits_number b xs = digits_number b ys"
  shows "xs = ys"
  using assms(2-)
proof (induction xs arbitrary: ys)
  case (Cons x xs)
  from Cons.prems(2) have "ys \<noteq> []" by (simp add: proper_digits_def)
  then obtain y zs where ys: "ys = y # zs" by (cases ys) simp_all
  have small: "x < b" "y < b" using Cons.prems(1,2) by (auto simp: proper_digits_def ys)
  from Cons.prems(3) have eq: "x + b * digits_number b xs = y + b * digits_number b zs" by (simp add: ys)
  have xy: "x = y" using arg_cong[OF eq, of "\<lambda>n. n mod b"] small by simp
  with eq assms(1) have rest: "digits_number b xs = digits_number b zs" by simp
  show ?case
  proof (cases "xs = [] \<or> zs = []")
    case True
    then have "xs = []" "zs = []"
      using rest proper_tail[OF assms(1)] Cons.prems(1,2)[unfolded ys] by (metis digits_number.simps(1))+
    then show ?thesis by (simp add: ys xy)
  next
    case False
    then have "xs = zs" using Cons.IH rest proper_tail_digits Cons.prems(1,2)[unfolded ys] by blast
    then show ?thesis by (simp add: ys xy)
  qed
qed (simp add: proper_digits_def)

subsection \<open>Reading and writing back\<close>

definition big_endian :: "nat \<Rightarrow> nat list \<Rightarrow> nat" where
  "big_endian b ds = foldl (\<lambda>n d. n * b + d) 0 ds"

lemma number_rev: "digits_number b ds = big_endian b (rev ds)"
  by (induction ds) (simp_all add: big_endian_def mult.commute)

lemma number_foldl: "2 \<le> b \<Longrightarrow> digits_number b (foldl (mult_add b m) xs ds) = foldl (\<lambda>n d. n * m + d) (digits_number b xs) ds"
  by (induction ds arbitrary: xs) (simp_all add: number_mult_add)

lemma foldl_proper: "2 \<le> b \<Longrightarrow> 0 < m \<Longrightarrow> proper_digits b xs \<Longrightarrow> proper_digits b (foldl (mult_add b m) xs ds)"
  by (induction ds arbitrary: xs) (simp_all add: mult_add_proper)

lemma zero_proper: "2 \<le> b \<Longrightarrow> proper_digits b [0]"
  by (simp add: proper_digits_def)

lemma big_endian_zeros: "big_endian b (replicate z 0 @ ds) = big_endian b ds"
  by (induction z) (simp_all add: big_endian_def)

lemma alphabet_index: "x < 58 \<Longrightarrow> index_of (base58_alphabet ! x) base58_alphabet = Some x"
proof -
  have "list_all (\<lambda>x. index_of (base58_alphabet ! x) base58_alphabet = Some x) [0..<58]" by code_simp
  then show "x < 58 \<Longrightarrow> index_of (base58_alphabet ! x) base58_alphabet = Some x" by (simp add: list_all_iff)
qed

lemma decode_mapped: "list_all (\<lambda>x. x < 58) ds \<Longrightarrow>
  decode_digits bytes (map (\<lambda>x. base58_alphabet ! x) ds) = Some (foldl (mult_add 256 58) bytes ds)"
  by (induction ds arbitrary: bytes) (simp_all add: alphabet_index)

lemma leading_zeros:
  obtains z ds where "value = replicate z 0 @ ds" "z = length (takeWhile (\<lambda>b. b = (0::nat)) value)" "ds = [] \<or> hd ds \<noteq> 0"
proof -
  have "takeWhile (\<lambda>b. b = 0) value = replicate (length (takeWhile (\<lambda>b. b = 0) value)) 0"
    by (induction "value") auto
  then have "value = replicate (length (takeWhile (\<lambda>b. b = 0) value)) 0 @ dropWhile (\<lambda>b. b = 0) value"
    by (metis takeWhile_dropWhile_id)
  then show thesis using hd_dropWhile[of "\<lambda>b. b = 0" "value"] by (blast intro: that)
qed

lemma takeWhile_butlast: "ys \<noteq> [] \<Longrightarrow> \<not> P (hd ys) \<Longrightarrow> P c \<Longrightarrow> length (takeWhile P (butlast (replicate z c @ ys))) = z"
  by (induction z) (cases ys, auto simp: butlast_append)

lemma leading_ones:
  assumes "xs \<noteq> []" "last xs \<noteq> 0" "list_all (\<lambda>x. x < 58) xs"
  shows "length (takeWhile (\<lambda>c. c = CHR ''1'')
    (butlast (replicate z (CHR ''1'') @ map (\<lambda>x. base58_alphabet ! x) (rev xs)))) = z"
proof (rule takeWhile_butlast)
  have "last xs < 58" using assms(1,3) by (auto simp: list_all_iff)
  with alphabet_index[of "last xs"] assms(2) have "base58_alphabet ! last xs \<noteq> CHR ''1''"
    by (auto simp: base58_alphabet_def)
  then show "hd (map (\<lambda>x. base58_alphabet ! x) (rev xs)) \<noteq> CHR ''1''" using assms(1) by (simp add: hd_map hd_rev)
qed (use assms(1) in simp_all)

text \<open>
  C18: Decoding reads back what the worker encodes, leading zero bytes included, for every byte string
  that is not all zeros.
\<close>

theorem base58_roundtrip:
  assumes "list_all (\<lambda>b. b < 256) value" "list_ex (\<lambda>b. b \<noteq> 0) value"
  shows "decodeBase58 (encodeBase58 value) = Some value"
proof -
  obtain z ds where v: "value = replicate z 0 @ ds" "z = length (takeWhile (\<lambda>b. b = 0) value)" "ds = [] \<or> hd ds \<noteq> 0"
    by (rule leading_zeros)
  have ds: "ds \<noteq> []" "hd ds \<noteq> 0" using assms(2) v(1,3) by (auto simp: list_ex_iff)
  define xs where "xs = foldl (mult_add 58 256) [0] value"
  have xs: "proper_digits 58 xs" "digits_number 58 xs = big_endian 256 ds"
    using foldl_proper[of 58 256 "[0]" "value"] zero_proper[of 58] number_foldl[of 58 256 "[0]" "value"] big_endian_zeros[of 256 z ds]
    by (simp_all add: xs_def v(1)[symmetric] big_endian_def)
  have bytes: "proper_digits 256 (rev ds)" using assms(1) v(1) ds by (auto simp: proper_digits_def last_rev list_all_iff)
  have pos: "big_endian 256 ds \<noteq> 0"
    using proper_nonzero[OF bytes] ds number_rev[of 256 "rev ds"] by (cases ds) auto
  have "xs \<noteq> [0]" using xs(2) pos by auto
  then have top: "xs \<noteq> []" "last xs \<noteq> 0" "list_all (\<lambda>x. x < 58) xs" using xs(1) by (auto simp: proper_digits_def)
  have written: "encodeBase58 value = map (\<lambda>x. base58_alphabet ! x) (replicate z 0 @ rev xs)"
    by (simp add: encodeBase58_def Let_def xs_def[symmetric] v(2)[symmetric] base58_alphabet_def)
  have "decode_digits [0] (encodeBase58 value) = Some (foldl (mult_add 256 58) [0] (replicate z 0 @ rev xs))"
    unfolding written by (rule decode_mapped) (use top(3) in \<open>auto simp: list_all_iff\<close>)
  moreover have "foldl (mult_add 256 58) [0] (replicate z 0 @ rev xs) = rev ds"
  proof (rule proper_unique)
    show "proper_digits 256 (foldl (mult_add 256 58) [0] (replicate z 0 @ rev xs))" by (intro foldl_proper zero_proper) simp_all
    show "digits_number 256 (foldl (mult_add 256 58) [0] (replicate z 0 @ rev xs)) = digits_number 256 (rev ds)"
      using number_foldl[of 256 58 "[0]" "replicate z 0 @ rev xs"] big_endian_zeros[of 58 z "rev xs"] xs(2)
        number_rev[of 58 xs] number_rev[of 256 "rev ds"] by (simp add: big_endian_def)
  qed (use bytes in simp_all)
  moreover have "length (takeWhile (\<lambda>c. c = CHR ''1'') (butlast (encodeBase58 value))) = z"
    using leading_ones[OF top] by (simp add: written base58_alphabet_def)
  ultimately show ?thesis by (simp add: decodeBase58_def v(1))
qed

theorem base58_roundtrip_witness: "decodeBase58 (encodeBase58 [0, 1, 255]) = Some [0, 1, 255] \<and> encodeBase58 [0, 1, 255] = ''19p''"
proof
  show "decodeBase58 (encodeBase58 [0, 1, 255]) = Some [0, 1, 255]" by (rule base58_roundtrip) simp_all
  show "encodeBase58 [0, 1, 255] = ''19p''" by code_simp
qed

end
