(* ===== verification/Withdrawals.thy ===== *)
theory Withdrawals
  imports Retail Base58
begin

section \<open>Withdrawals, cash sweeps and deposits\<close>

text \<open>
  \<open>application/billing/withdrawal.scenario.ts\<close>, \<open>cash-sweep.scenario.ts\<close> and the crediting of
  \<open>direct-solana-deposit.scenario.ts\<close>, with their statements of \<open>prepaid-repository.ts\<close> and
  \<open>solana-deposit-repository.ts\<close>.  The blockchain is outside: what a worker learns of it is an
  argument (a signature, an error text, a verified amount).  The \<open>metadata\<close> columns and the check
  of the requesting user's foreign key are left out.
\<close>

subsection \<open>Statements on withdrawals\<close>

definition update_withdrawal :: "(withdrawal_row \<Rightarrow> bool) \<Rightarrow> (withdrawal_row \<Rightarrow> withdrawal_row) \<Rightarrow> bdb \<Rightarrow> bdb" where
  "update_withdrawal P f d = d\<lparr>withdrawals := update_where P f (withdrawals d)\<rparr>"

record withdrawal_input =
  wi_account :: uuid
  wi_user :: uuid
  wi_amount :: int
  wi_tokenSymbol :: string
  wi_tokenMint :: string
  wi_tokenAmount :: int
  wi_destination :: string
  wi_eligible :: time

definition insertWithdrawalRequest :: "env \<Rightarrow> withdrawal_input \<Rightarrow> bdb \<Rightarrow> string + (bdb \<times> withdrawal_row)" where
  "insertWithdrawalRequest e i d =
     (let (d1, newId) = new_id e d;
          w = \<lparr>wd_id = newId, wd_account = wi_account i, wd_user = wi_user i, wd_status = W_cooldown, wd_amount = wi_amount i,
               wd_currency = ''USD'', wd_tokenSymbol = wi_tokenSymbol i, wd_tokenMint = wi_tokenMint i,
               wd_tokenAmount = wi_tokenAmount i, wd_destination = wi_destination i, wd_eligible = wi_eligible i,
               wd_signature = None, wd_failure = None, wd_requested = env_now e, wd_updated = env_now e,
               wd_submitted = None, wd_confirmed = None\<rparr>
      in if wi_amount i \<le> 0 \<or> wi_tokenAmount i \<le> 0 then Inl check_error
         else if list_ex (\<lambda>w. wd_id w = newId) (withdrawals d) then Inl unique_error
         else and_then (insert_child False (wi_account i) (\<lambda>d. d\<lparr>withdrawals := withdrawals d @ [w]\<rparr>) d1) (\<lambda>d.
           and_then (int4 (wi_amount i)) (\<lambda>_. Inr (d, w))))"

text \<open>A row as the selecting statements return it, with its 32-bit cast.\<close>

definition withdrawal_result :: "withdrawal_row option \<Rightarrow> string + withdrawal_row option" where
  "withdrawal_result r = (case r of None \<Rightarrow> Inr None | Some w \<Rightarrow> and_then (int4 (wd_amount w)) (\<lambda>_. Inr (Some w)))"

definition findWithdrawalForUpdate :: "bdb \<Rightarrow> uuid \<Rightarrow> uuid \<Rightarrow> string + withdrawal_row option" where
  "findWithdrawalForUpdate d a withdrawalId =
     withdrawal_result (find (\<lambda>w. wd_account w = a \<and> wd_id w = withdrawalId) (withdrawals d))"

definition cancelWithdrawalRequest :: "env \<Rightarrow> uuid \<Rightarrow> bdb \<Rightarrow> bdb" where
  "cancelWithdrawalRequest e withdrawalId =
     update_withdrawal (\<lambda>w. wd_id w = withdrawalId) (\<lambda>w. w\<lparr>wd_status := W_cancelled, wd_updated := env_now e\<rparr>)"

definition has_running_session :: "bdb \<Rightarrow> uuid \<Rightarrow> bool" where
  "has_running_session d a \<longleftrightarrow> list_ex (is_non_terminal a) (session_join (core d))"

definition current_plans :: "bdb \<Rightarrow> uuid \<Rightarrow> plan_version_row list" where
  "current_plans d a = filter (\<lambda>v. list_ex (\<lambda>p. open_assignment a p \<and> pa_plan p = pv_id v) (plan_assignments d)) (plan_versions d)"

text \<open>Two statements: the first restarts the cooldown while a session runs, the second ends it.\<close>

definition restart_cooldowns :: "env \<Rightarrow> bdb \<Rightarrow> bdb" where
  "restart_cooldowns e d = update_withdrawal
     (\<lambda>w. wd_status w \<in> {W_cooldown, W_ready} \<and> current_plans d (wd_account w) \<noteq> [] \<and> has_running_session d (wd_account w))
     (\<lambda>w. w\<lparr>wd_eligible := env_now e + seconds (pv_withdrawalCooldownSeconds (hd (current_plans d (wd_account w)))),
        wd_updated := env_now e\<rparr>) d"

definition end_cooldowns :: "env \<Rightarrow> bdb \<Rightarrow> bdb" where
  "end_cooldowns e d = update_withdrawal
     (\<lambda>w. wd_status w \<in> {W_cooldown, W_failed} \<and> wd_eligible w \<le> env_now e \<and> wd_updated w < env_now e - seconds 60
        \<and> \<not> has_running_session d (wd_account w))
     (\<lambda>w. w\<lparr>wd_status := W_ready, wd_updated := env_now e\<rparr>) d"

definition advanceWithdrawalCooldowns :: "env \<Rightarrow> bdb \<Rightarrow> bdb" where
  "advanceWithdrawalCooldowns e d = end_cooldowns e (restart_cooldowns e d)"

definition claimReadyWithdrawal :: "env \<Rightarrow> bdb \<Rightarrow> string + (bdb \<times> withdrawal_row option)" where
  "claimReadyWithdrawal e d =
     (case sort_key wd_eligible (sort_key wd_requested (filter (\<lambda>w. wd_status w = W_ready) (withdrawals d))) of
        [] \<Rightarrow> Inr (d, None)
      | w # _ \<Rightarrow> (let claim = (\<lambda>w. w\<lparr>wd_status := W_processing, wd_failure := None, wd_updated := env_now e\<rparr>)
          in and_then (withdrawal_result (Some (claim w))) (\<lambda>r.
            Inr (update_withdrawal (\<lambda>x. wd_id x = wd_id w) claim d, r))))"

definition markWithdrawalSubmitted :: "env \<Rightarrow> uuid \<Rightarrow> string \<Rightarrow> bdb \<Rightarrow> string + bdb" where
  "markWithdrawalSubmitted e withdrawalId signature d =
     (if list_ex (\<lambda>w. wd_id w = withdrawalId \<and> wd_status w = W_processing) (withdrawals d)
         \<and> list_ex (\<lambda>w. wd_id w \<noteq> withdrawalId \<and> wd_signature w = Some signature) (withdrawals d) then Inl unique_error
      else Inr (update_withdrawal (\<lambda>w. wd_id w = withdrawalId \<and> wd_status w = W_processing)
        (\<lambda>w. w\<lparr>wd_status := W_submitted, wd_signature := Some signature, wd_submitted := Some (env_now e),
           wd_updated := env_now e\<rparr>) d))"

definition markWithdrawalFailed :: "env \<Rightarrow> uuid \<Rightarrow> string \<Rightarrow> bdb \<Rightarrow> bdb" where
  "markWithdrawalFailed e withdrawalId err =
     update_withdrawal (\<lambda>w. wd_id w = withdrawalId \<and> wd_status w \<in> {W_processing, W_submitted})
       (\<lambda>w. w\<lparr>wd_status := W_failed, wd_failure := Some (take 2000 err), wd_updated := env_now e\<rparr>)"

text \<open>\<open>ORDER BY\<close> a nullable time: \<open>NULL\<close>s last.\<close>

definition sort_by_time :: "('r \<Rightarrow> time option) \<Rightarrow> 'r list \<Rightarrow> 'r list" where
  "sort_by_time f rows = sort_key (\<lambda>r. f r = None) (sort_key (\<lambda>r. case f r of None \<Rightarrow> 0 | Some t \<Rightarrow> t) rows)"

definition listSubmittedWithdrawals :: "bdb \<Rightarrow> nat \<Rightarrow> withdrawal_row list" where
  "listSubmittedWithdrawals d limit = take limit (sort_by_time wd_submitted
     (filter (\<lambda>w. wd_status w = W_submitted \<and> wd_signature w \<noteq> None) (withdrawals d)))"

definition markWithdrawalConfirmed :: "env \<Rightarrow> uuid \<Rightarrow> bdb \<Rightarrow> bdb" where
  "markWithdrawalConfirmed e withdrawalId = update_withdrawal (\<lambda>w. wd_id w = withdrawalId)
     (\<lambda>w. w\<lparr>wd_status := W_confirmed, wd_confirmed := Some (env_now e), wd_updated := env_now e\<rparr>)"

subsection \<open>The withdrawal scenarios\<close>

datatype create_withdrawal_result =
    CWR_created withdrawal_row
  | CWR_invalid_withdrawal_amount
  | CWR_invalid_withdrawal_destination
  | CWR_active_configs_present
  | CWR_insufficient_withdrawable_balance

record token_config =
  tc_symbol :: string
  tc_mint :: string
  tc_baseUnitsPerMinor :: int

definition createWithdrawalRequest ::
    "env \<Rightarrow> session_owner \<Rightarrow> int \<Rightarrow> string \<Rightarrow> token_config \<Rightarrow> time \<Rightarrow> bdb \<Rightarrow> string + (bdb \<times> create_withdrawal_result)" where
  "createWithdrawalRequest e actor amountMinor destination config now d =
     (let destinationAddress = normalizeSolanaPublicKey destination; a = ow_accountId actor in
      if \<not> (0 < amountMinor \<and> amountMinor \<le> maxSafeInteger) then Inr (d, CWR_invalid_withdrawal_amount)
      else if destinationAddress = [] then Inr (d, CWR_invalid_withdrawal_destination)
      else if listNonTerminalAccountSessions d a \<noteq> [] then Inr (d, CWR_active_configs_present)
      else and_then (readBillingBuckets e a False d) (\<lambda>(d, b).
        and_then (readCurrentBillingPlan e a False d) (\<lambda>(d, plan).
          if 0 < debtMinor b \<or> amountMinor < pv_minimumWithdrawalMinor plan
             \<or> cashMinor b - reservedWithdrawalMinor b < amountMinor
          then Inr (d, CWR_insufficient_withdrawable_balance)
          else let eligibleAt = now + seconds (pv_withdrawalCooldownSeconds plan) in
            and_then (insertWithdrawalRequest e \<lparr>wi_account = a, wi_user = ow_id actor, wi_amount = amountMinor,
                wi_tokenSymbol = tc_symbol config, wi_tokenMint = tc_mint config,
                wi_tokenAmount = amountMinor * tc_baseUnitsPerMinor config, wi_destination = destinationAddress,
                wi_eligible = eligibleAt\<rparr> d) (\<lambda>(d, w).
            and_then (writeBillingBuckets a (b\<lparr>reservedWithdrawalMinor := reservedWithdrawalMinor b + amountMinor\<rparr>) d) (\<lambda>d.
            and_then (enqueueBillingNotification e a ''billing_withdrawal_requested''
                (''billing-withdrawal-requested:'' @ wd_id w)
                [(''withdrawalId'', JStr (wd_id w)), (''amountMinor'', JInt amountMinor),
                 (''destinationAddress'', JStr destinationAddress), (''eligibleAt'', JInt eligibleAt)] d) (\<lambda>d.
              Inr (d, CWR_created w)))))))"

datatype cancel_result = CR_cancelled | CR_not_found | CR_not_cancellable

definition cancelOwnedWithdrawal :: "env \<Rightarrow> session_owner \<Rightarrow> uuid \<Rightarrow> bdb \<Rightarrow> string + (bdb \<times> cancel_result)" where
  "cancelOwnedWithdrawal e actor withdrawalId d =
     (let a = ow_accountId actor in
      and_then (findWithdrawalForUpdate d a withdrawalId) (\<lambda>r. case r of
        None \<Rightarrow> Inr (d, CR_not_found)
      | Some w \<Rightarrow> if wd_status w \<notin> {W_cooldown, W_ready, W_failed} then Inr (d, CR_not_cancellable)
          else and_then (readBillingBuckets e a False d) (\<lambda>(d, b).
            and_then (writeBillingBuckets a
                (b\<lparr>reservedWithdrawalMinor := max 0 (reservedWithdrawalMinor b - wd_amount w)\<rparr>)
                (cancelWithdrawalRequest e (wd_id w) d)) (\<lambda>d. Inr (d, CR_cancelled)))))"

record signing_job =
  sj_withdrawal :: withdrawal_row
  sj_sourceWalletAddress :: string
  sj_sourceWalletSeed :: string

definition readCustodialWalletEncryptedKey :: "bdb \<Rightarrow> uuid \<Rightarrow> string \<Rightarrow> (wallet_row \<times> encrypted) option" where
  "readCustodialWalletEncryptedKey d a chain = map_option (\<lambda>w. (w, cu_key w))
     (find (\<lambda>w. cu_account w = a \<and> cu_chain w = chain \<and> cu_active w) (wallets d))"

text \<open>The wallet key, or the reason why it cannot be used.  \<open>Buffer.from(seed, "base64url")\<close> is the text of the seed here.\<close>

definition wallet_seed :: "env \<Rightarrow> bdb \<Rightarrow> uuid \<Rightarrow> string + (string \<times> string)" where
  "wallet_seed e d a = (case readCustodialWalletEncryptedKey d a ''solana'' of
     None \<Rightarrow> Inl ''custodial wallet key not found''
   | Some (w, key) \<Rightarrow> (let decrypted = env_decrypt e key in
       if js_prop decrypted ''format'' \<noteq> Some (JStr ''ed25519-jwk-seed-v1'') then Inl ''unsupported custodial wallet key format''
       else Inr (cu_publicKey w, case js_prop decrypted ''seed'' of Some (JStr seed) \<Rightarrow> seed | _ \<Rightarrow> '''')))"

definition claimWithdrawalSigningJob :: "env \<Rightarrow> bdb \<Rightarrow> string + (bdb \<times> signing_job option)" where
  "claimWithdrawalSigningJob e d =
     and_then (claimReadyWithdrawal e (advanceWithdrawalCooldowns e d)) (\<lambda>(d, r). case r of
       None \<Rightarrow> Inr (d, None)
     | Some w \<Rightarrow> (case wallet_seed e d (wd_account w) of
         Inl reason \<Rightarrow> Inr (markWithdrawalFailed e (wd_id w) reason d, None)
       | Inr (address, seed) \<Rightarrow>
           Inr (d, Some \<lparr>sj_withdrawal = w, sj_sourceWalletAddress = address, sj_sourceWalletSeed = seed\<rparr>)))"

definition recordWithdrawalSubmission :: "env \<Rightarrow> uuid \<Rightarrow> string \<Rightarrow> bdb \<Rightarrow> string + bdb" where
  "recordWithdrawalSubmission = markWithdrawalSubmitted"

definition failWithdrawalSubmission :: "env \<Rightarrow> uuid \<Rightarrow> string \<Rightarrow> bdb \<Rightarrow> bdb" where
  "failWithdrawalSubmission = markWithdrawalFailed"

definition listWithdrawalConfirmations :: "bdb \<Rightarrow> withdrawal_row list" where
  "listWithdrawalConfirmations d = listSubmittedWithdrawals d 100"

definition withdrawal_entry :: "withdrawal_row \<Rightarrow> uuid \<Rightarrow> ledger_input" where
  "withdrawal_entry locked a = \<lparr>li_account = a, li_entryType = ''withdrawal'', li_amount = - wd_amount locked,
     li_currency = wd_currency locked, li_sourceType = withdrawal_source, li_sourceId = wd_id locked,
     li_description = ''Solana '' @ wd_tokenSymbol locked @ '' withdrawal''\<rparr>"

definition confirmWithdrawal :: "env \<Rightarrow> uuid \<Rightarrow> uuid \<Rightarrow> bdb \<Rightarrow> string + bdb" where
  "confirmWithdrawal e a withdrawalId d =
     and_then (findWithdrawalForUpdate d a withdrawalId) (\<lambda>r. case r of
       None \<Rightarrow> Inr d
     | Some locked \<Rightarrow>
         if wd_status locked = W_confirmed then Inr d
         else if wd_status locked \<noteq> W_submitted then Inl ''withdrawal is not submitted''
         else and_then (readBillingBuckets e a False d) (\<lambda>(d, b).
           if cashMinor b < wd_amount locked \<or> reservedWithdrawalMinor b < wd_amount locked
           then Inl ''withdrawal reservation invariant failed''
           else and_then (insertLedgerEntry e (withdrawal_entry locked a) d) (\<lambda>(d, inserted).
             and_then (if inserted then writeBillingBuckets a (b\<lparr>cashMinor := cashMinor b - wd_amount locked,
                   reservedWithdrawalMinor := reservedWithdrawalMinor b - wd_amount locked\<rparr>) d else Inr d) (\<lambda>d.
             enqueueBillingNotification e a ''billing_withdrawal_confirmed'' (''billing-withdrawal-confirmed:'' @ wd_id locked)
               [(''withdrawalId'', JStr (wd_id locked)), (''amountMinor'', JInt (wd_amount locked)),
                (''destinationAddress'', JStr (wd_destination locked)),
                (''transactionSignature'', case wd_signature locked of None \<Rightarrow> JNull | Some t \<Rightarrow> JStr t)]
               (markWithdrawalConfirmed e (wd_id locked) d)))))"

subsection \<open>Cash sweeps\<close>

text \<open>Cash that was spent is moved from the custodial wallet to the treasury.\<close>

definition update_sweep :: "(sweep_row \<Rightarrow> bool) \<Rightarrow> (sweep_row \<Rightarrow> sweep_row) \<Rightarrow> bdb \<Rightarrow> bdb" where
  "update_sweep P f d = d\<lparr>sweeps := update_where P f (sweeps d)\<rparr>"

definition claimCashSweepRequest :: "env \<Rightarrow> bdb \<Rightarrow> bdb \<times> sweep_row option" where
  "claimCashSweepRequest e d =
     (case sort_key cw_nextAttempt (sort_key cw_created
         (filter (\<lambda>w. cw_status w \<in> {CW_pending, CW_failed} \<and> cw_nextAttempt w \<le> env_now e) (sweeps d))) of
        [] \<Rightarrow> (d, None)
      | w # _ \<Rightarrow> (let claim = (\<lambda>w. w\<lparr>cw_status := CW_processing, cw_failure := None, cw_updated := env_now e\<rparr>)
          in (update_sweep (\<lambda>x. cw_id x = cw_id w) claim d, Some (claim w))))"

definition markCashSweepSubmitted :: "env \<Rightarrow> uuid \<Rightarrow> string \<Rightarrow> bdb \<Rightarrow> string + bdb" where
  "markCashSweepSubmitted e sweepId signature d =
     (if list_ex (\<lambda>w. cw_id w = sweepId \<and> cw_status w = CW_processing) (sweeps d)
         \<and> list_ex (\<lambda>w. cw_id w \<noteq> sweepId \<and> cw_signature w = Some signature) (sweeps d) then Inl unique_error
      else Inr (update_sweep (\<lambda>w. cw_id w = sweepId \<and> cw_status w = CW_processing)
        (\<lambda>w. w\<lparr>cw_status := CW_submitted, cw_signature := Some signature, cw_submitted := Some (env_now e),
           cw_updated := env_now e\<rparr>) d))"

definition sweep_backoff :: "nat \<Rightarrow> int" where
  "sweep_backoff attempts = min 3600 (15 * 2 ^ min attempts 8)"

definition markCashSweepFailed :: "env \<Rightarrow> uuid \<Rightarrow> string \<Rightarrow> bdb \<Rightarrow> bdb" where
  "markCashSweepFailed e sweepId reason =
     update_sweep (\<lambda>w. cw_id w = sweepId \<and> cw_status w \<in> {CW_processing, CW_submitted})
       (\<lambda>w. w\<lparr>cw_status := CW_failed, cw_attempts := Suc (cw_attempts w),
          cw_nextAttempt := env_now e + seconds (sweep_backoff (cw_attempts w)), cw_failure := Some (take 1000 reason),
          cw_updated := env_now e\<rparr>)"

definition markCashSweepConfirmed :: "env \<Rightarrow> uuid \<Rightarrow> bdb \<Rightarrow> bdb" where
  "markCashSweepConfirmed e sweepId = update_sweep (\<lambda>w. cw_id w = sweepId \<and> cw_status w = CW_submitted)
     (\<lambda>w. w\<lparr>cw_status := CW_confirmed, cw_confirmed := Some (env_now e), cw_failure := None, cw_updated := env_now e\<rparr>)"

definition listSubmittedCashSweeps :: "bdb \<Rightarrow> nat \<Rightarrow> sweep_row list" where
  "listSubmittedCashSweeps d limit = take limit (sort_by_time cw_submitted (filter (\<lambda>w. cw_status w = CW_submitted) (sweeps d)))"

record sweep_job =
  sg_sweep :: sweep_row
  sg_sourceWalletAddress :: string
  sg_sourceWalletSeed :: string

definition claimCashSweepSigningJob :: "env \<Rightarrow> bdb \<Rightarrow> bdb \<times> sweep_job option" where
  "claimCashSweepSigningJob e d =
     (case claimCashSweepRequest e d of
        (d, None) \<Rightarrow> (d, None)
      | (d, Some w) \<Rightarrow> (case wallet_seed e d (cw_account w) of
          Inl reason \<Rightarrow> (markCashSweepFailed e (cw_id w) reason d, None)
        | Inr (address, seed) \<Rightarrow> (d, Some \<lparr>sg_sweep = w, sg_sourceWalletAddress = address, sg_sourceWalletSeed = seed\<rparr>)))"

definition recordCashSweepSubmission :: "env \<Rightarrow> uuid \<Rightarrow> string \<Rightarrow> bdb \<Rightarrow> string + bdb" where
  "recordCashSweepSubmission = markCashSweepSubmitted"

definition failCashSweep :: "env \<Rightarrow> uuid \<Rightarrow> string \<Rightarrow> bdb \<Rightarrow> bdb" where
  "failCashSweep = markCashSweepFailed"

definition listCashSweepConfirmations :: "bdb \<Rightarrow> sweep_row list" where
  "listCashSweepConfirmations d = listSubmittedCashSweeps d 100"

definition confirmCashSweep :: "env \<Rightarrow> uuid \<Rightarrow> bdb \<Rightarrow> bdb" where
  "confirmCashSweep = markCashSweepConfirmed"

subsection \<open>Deposits\<close>

definition convertDepositToBillingMinor :: "int \<Rightarrow> int \<Rightarrow> int \<Rightarrow> string + (int \<times> int)" where
  "convertDepositToBillingMinor previousRemainder deposit perMinor =
     (if previousRemainder < 0 \<or> deposit \<le> 0 \<or> perMinor \<le> 0 then Inl ''invalid direct deposit conversion input''
      else let total = previousRemainder + deposit in
        if maxSafeInteger < total div perMinor then Inl ''direct deposit amount exceeds the billing ledger range''
        else Inr (total div perMinor, total mod perMinor))"

definition readSolanaDepositRemainderForUpdate :: "uuid \<Rightarrow> string \<Rightarrow> bdb \<Rightarrow> string + (bdb \<times> int)" where
  "readSolanaDepositRemainderForUpdate a tokenMint d =
     and_then (insert_child (list_ex (\<lambda>r. rm_account r = a \<and> rm_tokenMint r = tokenMint) (remainders d)) a
       (\<lambda>d. d\<lparr>remainders := remainders d @ [\<lparr>rm_account = a, rm_tokenMint = tokenMint, rm_remainder = 0\<rparr>]\<rparr>) d) (\<lambda>d.
     and_then (must_row (find (\<lambda>r. rm_account r = a \<and> rm_tokenMint r = tokenMint) (remainders d))) (\<lambda>r.
       Inr (d, rm_remainder r)))"

definition writeSolanaDepositRemainder :: "uuid \<Rightarrow> string \<Rightarrow> int \<Rightarrow> bdb \<Rightarrow> bdb" where
  "writeSolanaDepositRemainder a tokenMint remainder d =
     d\<lparr>remainders := update_where (\<lambda>r. rm_account r = a \<and> rm_tokenMint r = tokenMint)
        (\<lambda>r. r\<lparr>rm_remainder := remainder\<rparr>) (remainders d)\<rparr>"

text \<open>
  The primary key is the signature, and \<open>(source_type, source_id)\<close> is unique too; the deposit uses
  the signature for both.  The credited amount is returned through a 32-bit cast.
\<close>

definition claimSolanaPaymentReceipt :: "env \<Rightarrow> string \<Rightarrow> uuid \<Rightarrow> string \<Rightarrow> int \<Rightarrow> int \<Rightarrow> bdb \<Rightarrow> string + (bdb \<times> bool)" where
  "claimSolanaPaymentReceipt e signature a tokenMint amountBaseUnits creditedAmountMinor d =
     (if amountBaseUnits \<le> 0 \<or> creditedAmountMinor < 0 then Inl check_error
      else case find (\<lambda>r. rc_signature r = signature) (receipts d) of
        Some r \<Rightarrow> and_then (int4 (rc_credited r)) (\<lambda>_. Inr (d, False))
      | None \<Rightarrow> if list_ex (\<lambda>r. rc_sourceId r = signature) (receipts d) then Inl unique_error
          else and_then (insert_child False a (\<lambda>d. d\<lparr>receipts := receipts d @ [\<lparr>rc_signature = signature, rc_account = a,
              rc_sourceId = signature, rc_tokenMint = tokenMint, rc_amount = amountBaseUnits,
              rc_credited = creditedAmountMinor, rc_observed = env_now e\<rparr>]\<rparr>) d) (\<lambda>d.
            and_then (int4 creditedAmountMinor) (\<lambda>_. Inr (d, True))))"

record deposit_config =
  dc_currency :: string
  dc_token :: token_config
  dc_native :: bool

definition deposit_entry :: "uuid \<Rightarrow> string \<Rightarrow> int \<Rightarrow> string \<Rightarrow> ledger_input" where
  "deposit_entry a signature amountMinor currency = \<lparr>li_account = a, li_entryType = ''topup'', li_amount = amountMinor,
     li_currency = currency, li_sourceType = ''solana_direct_deposit'', li_sourceId = signature,
     li_description = ''Direct Solana balance top-up''\<rparr>"

text \<open>\<open>amountBaseUnits\<close> is what the verifier read from the finalized transaction.\<close>

definition creditDirectDeposit ::
    "env \<Rightarrow> uuid \<Rightarrow> string \<Rightarrow> int \<Rightarrow> deposit_config \<Rightarrow> bdb \<Rightarrow> string + (bdb \<times> (bool \<times> int))" where
  "creditDirectDeposit e a signature amountBaseUnits config d =
     (let tokenMint = tc_mint (dc_token config); perMinor = tc_baseUnitsPerMinor (dc_token config) in
      and_then (ensureBillingAccount a (dc_currency config) d) (\<lambda>d.
      and_then (readSolanaDepositRemainderForUpdate a tokenMint d) (\<lambda>(d, previousRemainder).
      and_then (convertDepositToBillingMinor previousRemainder amountBaseUnits perMinor) (\<lambda>(amountMinor, remainderBaseUnits).
      and_then (claimSolanaPaymentReceipt e signature a tokenMint amountBaseUnits amountMinor d) (\<lambda>(d, claimed).
        if \<not> claimed then Inr (d, True, 0)
        else let d = writeSolanaDepositRemainder a tokenMint remainderBaseUnits d in
          if amountMinor \<le> 0 then Inr (d, False, 0)
          else and_then (insertLedgerEntry e (deposit_entry a signature amountMinor (dc_currency config)) d) (\<lambda>(d, inserted).
            if \<not> inserted then Inl (''direct deposit '' @ signature @ '' has a ledger entry without a payment receipt'')
            else and_then (readBillingBuckets e a False d) (\<lambda>(d, b).
              let nextBuckets = applyBucketCredit b amountMinor Credit_cash; debtRepaidMinor = debtMinor b - debtMinor nextBuckets in
              and_then (writeBillingBuckets a nextBuckets d) (\<lambda>d.
              and_then (if dc_native config then Inr d else insertCashSweepRequest e
                  \<lparr>sw_account = a, sw_sourceType = ''direct_deposit_debt_repayment'', sw_sourceId = signature,
                   sw_amount = debtRepaidMinor, sw_tokenSymbol = tc_symbol (dc_token config), sw_tokenMint = tokenMint,
                   sw_tokenAmount = debtRepaidMinor * perMinor\<rparr> d) (\<lambda>d.
                Inr (d, False, amountMinor))))))))))"

end
