(* ===== verification/UsageImport.thy ===== *)
theory UsageImport
  imports Ledger
begin

section \<open>Imported usage\<close>

text \<open>
  \<open>application/billing/doublezero-usage-import.scenario.ts\<close>: charges from a provider's usage
  records, with the statements of \<open>resources/billing/repository.ts\<close> it runs.  A charge goes to the
  ledger only.

  The row of an import and the gates, bytes and windows of its records are written only and left
  out.  \<open>Math.ceil\<close> is taken of the exact quotient, which the double gives for costs below
  \<open>2\<^sup>3\<^sup>6\<close> cents.
\<close>

subsection \<open>Usage imported from the provider\<close>

record usage_record =
  ur_recordId :: string
  ur_accountId :: "string option"
  ur_sessionId :: "string option"
  ur_cost :: json
  ur_currency :: "string option"

record import_result =
  im_imported :: nat
  im_duplicates :: nat
  im_rejected :: "(string \<times> string) list"
  im_total :: int

definition normalizeMarkupBps :: "int \<Rightarrow> int" where
  "normalizeMarkupBps markupBps = (if markupBps < 0 \<or> 100000 < markupBps then 0 else markupBps)"

definition calculateMarkedUpChargeMinor :: "int \<Rightarrow> int \<Rightarrow> string + int" where
  "calculateMarkedUpChargeMinor costMinor markupBps =
     (if costMinor < 0 then Inl ''costMinor must be a non-negative integer''
      else Inr (- (- (costMinor * (10000 + normalizeMarkupBps markupBps)) div 10000)))"

definition findAccountId :: "bdb \<Rightarrow> uuid \<Rightarrow> uuid option" where
  "findAccountId d a = find (\<lambda>x. x = a) (accounts d)"

definition findAccountIdForSession :: "bdb \<Rightarrow> uuid \<Rightarrow> uuid option" where
  "findAccountIdForSession d sessionId =
     (case row_of ss_id sessionId (sessions (core d)) of None \<Rightarrow> None | Some s \<Rightarrow> ss_account s)"

definition insertRatedUsageEvent :: "env \<Rightarrow> uuid \<Rightarrow> uuid option \<Rightarrow> string \<Rightarrow> int \<Rightarrow> int \<Rightarrow> int \<Rightarrow> string \<Rightarrow> bdb \<Rightarrow> string + (bdb \<times> uuid option)" where
  "insertRatedUsageEvent e a s sourceId costMinor markupBps chargeMinor currency d =
     (let (d1, newId) = new_id e d; sourceType = ''doublezero_usage_record''
      in if list_ex (\<lambda>r. re_sourceType r = sourceType \<and> re_sourceId r = sourceId) (rated_events d) then Inr (d1, None)
         else if list_ex (\<lambda>r. re_id r = newId) (rated_events d) then Inl unique_error
         else if a \<notin> set (accounts d) \<or> (case s of None \<Rightarrow> False | Some i \<Rightarrow> i \<notin> ss_id ` set (sessions (core d))) then Inl fk_error
         else Inr (d1\<lparr>rated_events := rated_events d1 @ [\<lparr>re_id = newId, re_account = a, re_session = s, re_sourceType = sourceType,
             re_sourceId = sourceId, re_cost = costMinor, re_markup = markupBps, re_charge = chargeMinor, re_currency = currency\<rparr>]\<rparr>,
             Some newId))"

definition rated_entry :: "uuid \<Rightarrow> int \<Rightarrow> string \<Rightarrow> uuid \<Rightarrow> ledger_input" where
  "rated_entry a chargeMinor currency ratedId = \<lparr>li_account = a, li_entryType = ''usage'', li_amount = - chargeMinor,
     li_currency = currency, li_sourceType = rated_source, li_sourceId = ratedId, li_description = ''DoubleZero usage charge''\<rparr>"

text \<open>An optional text that is present and not empty.\<close>

definition given :: "string option \<Rightarrow> string option" where
  "given x = (case x of Some (c # cs) \<Rightarrow> x | _ \<Rightarrow> None)"

definition record_account :: "bdb \<Rightarrow> usage_record \<Rightarrow> uuid option" where
  "record_account d r = (case given (ur_accountId r) of Some a \<Rightarrow> findAccountId d a
     | None \<Rightarrow> (case given (ur_sessionId r) of Some s \<Rightarrow> findAccountIdForSession d s | None \<Rightarrow> None))"

definition reject :: "string \<Rightarrow> string \<Rightarrow> import_result \<Rightarrow> import_result" where
  "reject recordId reason x = x\<lparr>im_rejected := im_rejected x @ [(recordId, reason)]\<rparr>"

definition charge_record ::
    "env \<Rightarrow> uuid \<Rightarrow> uuid option \<Rightarrow> string \<Rightarrow> int \<Rightarrow> int \<Rightarrow> string \<Rightarrow> bdb \<Rightarrow> import_result \<Rightarrow> string + (bdb \<times> import_result)" where
  "charge_record e a s recordId costMinor markupBps currency d x =
     and_then (ensureBillingAccount a currency d) (\<lambda>d.
     and_then (calculateMarkedUpChargeMinor costMinor markupBps) (\<lambda>chargeMinor.
     and_then (insertRatedUsageEvent e a s recordId costMinor markupBps chargeMinor currency d) (\<lambda>(d, rated). case rated of
       None \<Rightarrow> Inr (d, x\<lparr>im_duplicates := im_duplicates x + 1\<rparr>)
     | Some i \<Rightarrow> and_then (insertLedgerEntry e (rated_entry a chargeMinor currency i) d) (\<lambda>(d, _).
         Inr (d, x\<lparr>im_imported := im_imported x + 1, im_total := im_total x + chargeMinor\<rparr>)))))"

definition import_record :: "env \<Rightarrow> int \<Rightarrow> string \<Rightarrow> usage_record \<Rightarrow> bdb \<times> import_result \<Rightarrow> string + (bdb \<times> import_result)" where
  "import_record e markupBps currency r = (\<lambda>(d, x).
     let recordId = js_trim (ur_recordId r) in
     if recordId = [] then Inr (d, reject [] ''missing_record_id'' x)
     else case ur_cost r of
       JInt costMinor \<Rightarrow> if costMinor < 0 then Inr (d, reject recordId ''invalid_doublezero_cost_minor'' x)
         else (case record_account d r of
           None \<Rightarrow> Inr (d, reject recordId ''account_not_found'' x)
         | Some a \<Rightarrow> if (case ur_currency r of None \<Rightarrow> currency | Some y \<Rightarrow> y) \<noteq> currency
             then Inr (d, reject recordId ''currency_mismatch'' x)
             else charge_record e a (given (ur_sessionId r)) recordId costMinor markupBps currency d x)
     | _ \<Rightarrow> Inr (d, reject recordId ''invalid_doublezero_cost_minor'' x))"

fun import_records :: "env \<Rightarrow> int \<Rightarrow> string \<Rightarrow> usage_record list \<Rightarrow> bdb \<times> import_result \<Rightarrow> string + (bdb \<times> import_result)" where
  "import_records e markupBps currency [] x = Inr x"
| "import_records e markupBps currency (r # rs) x =
     and_then (import_record e markupBps currency r x) (import_records e markupBps currency rs)"

definition importDoubleZeroUsage :: "env \<Rightarrow> int \<Rightarrow> string \<Rightarrow> usage_record list \<Rightarrow> bdb \<Rightarrow> string + (bdb \<times> import_result)" where
  "importDoubleZeroUsage e usageMarkupBps currency records d =
     (let (d, importId) = new_id e d
      in import_records e (normalizeMarkupBps usageMarkupBps) currency records
           (d, \<lparr>im_imported = 0, im_duplicates = 0, im_rejected = [], im_total = 0\<rparr>))"

subsection \<open>What an import does to the books\<close>

definition rated_ok :: "bdb \<Rightarrow> bool" where
  "rated_ok d \<longleftrightarrow> (\<forall>l\<in>set (ledger d). le_sourceType l = rated_source \<longrightarrow> le_sourceId l \<in> re_id ` set (rated_events d))"

definition ledger_total :: "bdb \<Rightarrow> int" where
  "ledger_total d = sum_list (map le_amount (ledger d))"

lemma markup_bounds: "0 \<le> normalizeMarkupBps m"
  by (simp add: normalizeMarkupBps_def)

lemma marked_up: "calculateMarkedUpChargeMinor c m = Inr x \<Longrightarrow> c \<le> x"
proof -
  assume x: "calculateMarkedUpChargeMinor c m = Inr x"
  then have c: "0 \<le> c" "x = - (- (c * (10000 + normalizeMarkupBps m)) div 10000)"
    by (simp_all add: calculateMarkedUpChargeMinor_def split: if_splits)
  have "c * 10000 \<le> c * (10000 + normalizeMarkupBps m)" using c(1) markup_bounds[of m] by (intro mult_left_mono) simp_all
  then show "c \<le> x" unfolding c(2) by linarith
qed

lemma rated_event:
  assumes "insertRatedUsageEvent e a s i c m x y d = Inr (d', r)"
  shows "ledger d' = ledger d" "withdrawals d' = withdrawals d" "balance_buckets d' = balance_buckets d"
    "accounts d' = accounts d" "sessions (core d') = sessions (core d)"
    "r = None \<Longrightarrow> rated_events d' = rated_events d \<and> list_ex (\<lambda>r. re_sourceType r = ''doublezero_usage_record'' \<and> re_sourceId r = i) (rated_events d)"
    "r = Some n \<Longrightarrow> n \<notin> re_id ` set (rated_events d) \<and> (\<exists>v. rated_events d' = rated_events d @ [v] \<and> re_id v = n
       \<and> re_sourceType v = ''doublezero_usage_record'' \<and> re_sourceId v = i)
       \<and> \<not> list_ex (\<lambda>r. re_sourceType r = ''doublezero_usage_record'' \<and> re_sourceId r = i) (rated_events d)"
  using assms unfolding insertRatedUsageEvent_def
  by (auto simp: Let_def new_id_def gen_uuid_def list_ex_iff split: if_splits prod.splits)

lemma posted_keeps:
  assumes "insertLedgerEntry e i d = Inr (d', b)"
  shows "rated_events d' = rated_events d" "accounts d' = accounts d" "sessions (core d') = sessions (core d)"
  using assms by (auto simp: insertLedgerEntry_def new_id_def gen_uuid_def split: if_splits prod.splits)

lemma account_keeps:
  assumes "ensureBillingAccount a y d = Inr d'"
  shows "rated_events d' = rated_events d" "accounts d' = accounts d" "core d' = core d" "ledger d' = ledger d"
    "withdrawals d' = withdrawals d" "balance_buckets d' = balance_buckets d"
  using assms by (auto simp: ensureBillingAccount_def split: if_splits)

definition rated_record :: "bdb \<Rightarrow> string \<Rightarrow> bool" where
  "rated_record d i \<longleftrightarrow> list_ex (\<lambda>r. re_sourceType r = ''doublezero_usage_record'' \<and> re_sourceId r = i) (rated_events d)"

text \<open>A record is charged once, on the ledger only.\<close>

lemma charge_effect:
  assumes "charge_record e a s i c m y d x = Inr (d', x')" "rated_ok d"
  shows "rated_ok d'" "balance_buckets d' = balance_buckets d" "withdrawals d' = withdrawals d"
    "accounts d' = accounts d" "sessions (core d') = sessions (core d)" "set (rated_events d) \<subseteq> set (rated_events d')"
    "rated_record d' i"
    "rated_record d i \<Longrightarrow> ledger d' = ledger d \<and> im_total x' = im_total x \<and> im_imported x' = im_imported x"
    "\<not> rated_record d i \<Longrightarrow> \<exists>l. ledger d' = ledger d @ [l] \<and> le_account l = a \<and> le_amount l = im_total x - im_total x' \<and> c \<le> im_total x' - im_total x
       \<and> im_imported x' = im_imported x + 1"
proof -
  from assms(1) obtain d1 z d2 r where c: "ensureBillingAccount a y d = Inr d1" "calculateMarkedUpChargeMinor c m = Inr z"
    "insertRatedUsageEvent e a s i c m z y d1 = Inr (d2, r)"
    and rest: "(case r of None \<Rightarrow> Inr (d2, x\<lparr>im_duplicates := Suc (im_duplicates x)\<rparr>)
      | Some n \<Rightarrow> and_then (insertLedgerEntry e (rated_entry a z y n) d2) (\<lambda>(d, _).
         Inr (d, x\<lparr>im_imported := Suc (im_imported x), im_total := im_total x + z\<rparr>))) = Inr (d', x')"
    unfolding charge_record_def by auto
  have last: "r = None \<Longrightarrow> d' = d2 \<and> x' = x\<lparr>im_duplicates := Suc (im_duplicates x)\<rparr>"
    "\<And>n. r = Some n \<Longrightarrow> \<exists>b. insertLedgerEntry e (rated_entry a z y n) d2 = Inr (d', b)
       \<and> x' = x\<lparr>im_imported := Suc (im_imported x), im_total := im_total x + z\<rparr>"
    using rest by auto
  note a = account_keeps[OF c(1)] and v = rated_event[OF c(3)]
  have rated: "rated_record d1 i = rated_record d i" by (simp add: rated_record_def a(1))
  have all: "rated_ok d' \<and> balance_buckets d' = balance_buckets d \<and> withdrawals d' = withdrawals d
    \<and> accounts d' = accounts d \<and> sessions (core d') = sessions (core d) \<and> set (rated_events d) \<subseteq> set (rated_events d')
    \<and> rated_record d' i
    \<and> (rated_record d i \<longrightarrow> ledger d' = ledger d \<and> im_total x' = im_total x \<and> im_imported x' = im_imported x)
    \<and> (\<not> rated_record d i \<longrightarrow> (\<exists>l. ledger d' = ledger d @ [l] \<and> le_account l = a \<and> le_amount l = im_total x - im_total x'
       \<and> c \<le> im_total x' - im_total x \<and> im_imported x' = im_imported x + 1))"
  proof (cases r)
    case None
    with last(1) v(6) a assms(2) v(1-5) rated show ?thesis by (simp add: rated_ok_def rated_record_def)
  next
    case (Some n)
    from last(2)[OF Some] obtain b where l: "insertLedgerEntry e (rated_entry a z y n) d2 = Inr (d', b)"
      "x' = x\<lparr>im_imported := Suc (im_imported x), im_total := im_total x + z\<rparr>" by blast
    note p = posted_keeps[OF l(1)] and entry = ledger_entry[OF l(1)]
    from v(7)[OF Some] obtain w where w: "n \<notin> re_id ` set (rated_events d1)" "rated_events d2 = rated_events d1 @ [w]"
      "re_id w = n" "re_sourceType w = ''doublezero_usage_record''" "re_sourceId w = i" "\<not> rated_record d1 i"
      by (auto simp: rated_record_def)
    have "\<not> posted_source d2 rated_source n"
      using w(1) assms(2) v(1) a(1,4) by (auto simp: posted_source_def list_ex_iff rated_ok_def)
    then have b using entry(3) by (auto simp: rated_entry_def)
    with entry(4) obtain le where le: "ledger d' = ledger d @ [le]" "le_account le = a" "le_amount le = - z"
      "le_sourceType le = rated_source" "le_sourceId le = n" using v(1) a(4) by (auto simp: rated_entry_def)
    with l(2) p entry(1,2) v(1-5) a w assms(2) rated marked_up[OF c(2)] show ?thesis
      by (auto simp: rated_ok_def rated_record_def)
  qed
  show "rated_ok d'" "balance_buckets d' = balance_buckets d" "withdrawals d' = withdrawals d"
    "accounts d' = accounts d" "sessions (core d') = sessions (core d)" "set (rated_events d) \<subseteq> set (rated_events d')"
    "rated_record d' i"
    "rated_record d i \<Longrightarrow> ledger d' = ledger d \<and> im_total x' = im_total x \<and> im_imported x' = im_imported x"
    "\<not> rated_record d i \<Longrightarrow> \<exists>l. ledger d' = ledger d @ [l] \<and> le_account l = a \<and> le_amount l = im_total x - im_total x' \<and> c \<le> im_total x' - im_total x
       \<and> im_imported x' = im_imported x + 1"
    using all by blast+
qed

definition rejectable :: "bdb \<Rightarrow> string \<Rightarrow> usage_record \<Rightarrow> bool" where
  "rejectable d currency r \<longleftrightarrow> js_trim (ur_recordId r) = []
     \<or> (case ur_cost r of JInt c \<Rightarrow> c < 0 | _ \<Rightarrow> True) \<or> record_account d r = None
     \<or> (case ur_currency r of None \<Rightarrow> currency | Some y \<Rightarrow> y) \<noteq> currency"

text \<open>The tables an import leaves alone, and the charges it appends to the ledger.\<close>

definition imported :: "bdb \<times> import_result \<Rightarrow> bdb \<times> import_result \<Rightarrow> bool" where
  "imported = (\<lambda>(d, x) (d', x'). balance_buckets d' = balance_buckets d \<and> withdrawals d' = withdrawals d
     \<and> accounts d' = accounts d \<and> sessions (core d') = sessions (core d) \<and> set (rated_events d) \<subseteq> set (rated_events d')
     \<and> (\<exists>ls. ledger d' = ledger d @ ls \<and> (\<forall>l\<in>set ls. le_amount l \<le> 0)
         \<and> sum_list (map le_amount ls) = im_total x - im_total x'))"

lemma imported_refl: "im_total x' = im_total x \<Longrightarrow> imported (d, x) (d, x')"
  by (simp add: imported_def)

lemma imported_trans:
  assumes "imported y y'" "imported y' y''"
  shows "imported y y''"
proof -
  obtain d x d' x' d'' x'' where y: "y = (d, x)" "y' = (d', x')" "y'' = (d'', x'')" by (cases y, cases y', cases y'') blast
  from assms y obtain ls ls' where "ledger d' = ledger d @ ls" "\<forall>l\<in>set ls. le_amount l \<le> 0" "sum_list (map le_amount ls) = im_total x - im_total x'"
    "ledger d'' = ledger d' @ ls'" "\<forall>l\<in>set ls'. le_amount l \<le> 0" "sum_list (map le_amount ls') = im_total x' - im_total x''"
    by (auto simp: imported_def)
  then have "\<exists>ls. ledger d'' = ledger d @ ls \<and> (\<forall>l\<in>set ls. le_amount l \<le> 0) \<and> sum_list (map le_amount ls) = im_total x - im_total x''"
    by (intro exI[of _ "ls @ ls'"]) auto
  with assms y show ?thesis by (auto simp: imported_def)
qed

lemma same_account: "accounts d' = accounts d \<Longrightarrow> sessions (core d') = sessions (core d) \<Longrightarrow> record_account d' r = record_account d r"
  by (simp add: record_account_def findAccountId_def findAccountIdForSession_def split: option.split)

lemma record_effect:
  assumes "import_record e m currency r (d, x) = Inr (d', x')" "rated_ok d"
  shows "imported (d, x) (d', x') \<and> rated_ok d' \<and> (rejectable d' currency r \<or> rated_record d' (js_trim (ur_recordId r)))
    \<and> (rejectable d currency r \<or> rated_record d (js_trim (ur_recordId r)) \<longrightarrow>
         ledger d' = ledger d \<and> im_total x' = im_total x \<and> im_imported x' = im_imported x)"
proof (cases "rejectable d currency r")
  case True
  with assms(1) have "\<exists>i why. d' = d \<and> x' = reject i why x"
    by (auto simp: import_record_def rejectable_def Let_def split: json.splits option.splits if_splits)
  then have "d' = d" "im_total x' = im_total x" "im_imported x' = im_imported x" by (auto simp: reject_def)
  with assms(2) True imported_refl show ?thesis by simp
next
  case False
  from False obtain c where c: "ur_cost r = JInt c" by (cases "ur_cost r") (simp_all add: rejectable_def)
  from False obtain a where a: "record_account d r = Some a" by (cases "record_account d r") (simp_all add: rejectable_def)
  let ?i = "js_trim (ur_recordId r)"
  from False c a assms(1) have ch: "charge_record e a (given (ur_sessionId r)) ?i c m currency d x = Inr (d', x')" "0 \<le> c"
    by (auto simp: import_record_def rejectable_def Let_def split: if_splits)
  note ch1 = charge_effect[OF ch(1) assms(2)]
  have "imported (d, x) (d', x')"
  proof (cases "rated_record d ?i")
    case True
    with ch1(8) ch1(2-6) show ?thesis by (simp add: imported_def)
  next
    case False
    from ch1(9)[OF this] obtain l where "ledger d' = ledger d @ [l]" "le_amount l = im_total x - im_total x'" "c \<le> im_total x' - im_total x"
      by blast
    with ch1(2-6) ch(2) show ?thesis by (simp add: imported_def)
  qed
  with ch1(1,7,8) False show ?thesis by blast
qed

lemma rejectable_kept: "imported (d, x) (d', x') \<Longrightarrow> rejectable d' currency r = rejectable d currency r"
  using same_account[of d' d r] by (simp add: imported_def rejectable_def)

lemma rated_kept: "imported (d, x) (d', x') \<Longrightarrow> rated_record d i \<Longrightarrow> rated_record d' i"
  by (auto simp: imported_def rated_record_def list_ex_iff)

definition import_done :: "bdb \<Rightarrow> string \<Rightarrow> usage_record \<Rightarrow> bool" where
  "import_done d currency r \<longleftrightarrow> rejectable d currency r \<or> rated_record d (js_trim (ur_recordId r))"

lemma done_kept: "imported (d, x) (d', x') \<Longrightarrow> import_done d currency r \<Longrightarrow> import_done d' currency r"
  using rejectable_kept rated_kept by (fastforce simp: import_done_def)

lemma records_effect:
  assumes "import_records e m currency rs (d, x) = Inr (d', x')" "rated_ok d"
  shows "imported (d, x) (d', x') \<and> rated_ok d' \<and> (\<forall>r\<in>set rs. import_done d' currency r)
    \<and> ((\<forall>r\<in>set rs. import_done d currency r) \<longrightarrow> ledger d' = ledger d \<and> im_total x' = im_total x \<and> im_imported x' = im_imported x)"
  using assms
proof (induction rs arbitrary: d x)
  case Nil
  then show ?case by (simp add: imported_refl)
next
  case (Cons r rs)
  from Cons.prems(1) obtain d1 x1 where r: "import_record e m currency r (d, x) = Inr (d1, x1)"
    "import_records e m currency rs (d1, x1) = Inr (d', x')" by auto
  note first = record_effect[OF r(1) Cons.prems(2), folded import_done_def]
  from first have ok: "rated_ok d1" by blast
  note rest = Cons.IH[OF r(2) ok]
  have moved: "imported (d, x) (d', x')" using first rest imported_trans by blast
  have "import_done d' currency u" if "u \<in> set (r # rs)" for u
    using that first rest done_kept[of d1 x1 d' x' currency r] by auto
  moreover have "ledger d' = ledger d \<and> im_total x' = im_total x \<and> im_imported x' = im_imported x"
    if "\<forall>u\<in>set (r # rs). import_done d currency u"
  proof -
    have "\<forall>u\<in>set rs. import_done d1 currency u" using that first done_kept[of d x d1 x1 currency] by auto
    with rest first that show ?thesis by simp
  qed
  ultimately show ?case using moved rest by blast
qed

lemma import_effect:
  assumes "importDoubleZeroUsage e m currency rs d = Inr (d', x)" "rated_ok d"
  obtains ls where "balance_buckets d' = balance_buckets d" "ledger d' = ledger d @ ls" "\<forall>l\<in>set ls. le_amount l \<le> 0"
    "sum_list (map le_amount ls) = - im_total x" "rated_ok d'" "\<forall>r\<in>set rs. import_done d' currency r"
    "(\<forall>r\<in>set rs. import_done d currency r) \<Longrightarrow> ledger d' = ledger d \<and> im_total x = 0 \<and> im_imported x = 0"
proof -
  let ?x = "\<lparr>im_imported = 0, im_duplicates = 0, im_rejected = [], im_total = 0\<rparr>"
  define d1 where "d1 = fst (new_id e d)"
  have d1: "ledger d1 = ledger d" "balance_buckets d1 = balance_buckets d" "rated_events d1 = rated_events d" "accounts d1 = accounts d"
    "sessions (core d1) = sessions (core d)" by (simp_all add: d1_def new_id_def gen_uuid_def)
  from assms(1) have run: "import_records e (normalizeMarkupBps m) currency rs (d1, ?x) = Inr (d', x)"
    by (simp add: importDoubleZeroUsage_def d1_def split: prod.splits)
  have "rated_ok d1" using assms(2) d1 by (simp add: rated_ok_def)
  note r = records_effect[OF run this]
  have "import_done d1 currency u = import_done d currency u" for u
    using same_account[OF d1(4,5)] by (simp add: import_done_def rejectable_def rated_record_def d1(3))
  with r d1 that show thesis by (auto simp: imported_def)
qed

subsection \<open>An import keeps the books\<close>

text \<open>Whatever was rated before, an import only appends charges of imported usage to the ledger.\<close>

definition charged_only :: "bdb \<Rightarrow> bdb \<Rightarrow> bool" where
  "charged_only d d' \<longleftrightarrow> balance_buckets d' = balance_buckets d \<and> withdrawals d' = withdrawals d
     \<and> (\<exists>ls. ledger d' = ledger d @ ls \<and> (\<forall>l\<in>set ls. le_sourceType l = rated_source \<and> le_amount l \<le> 0))"

lemma charged_only_refl [simp]: "charged_only d d"
  by (simp add: charged_only_def)

lemma charged_only_trans: "charged_only d d1 \<Longrightarrow> charged_only d1 d2 \<Longrightarrow> charged_only d d2"
  by (force simp: charged_only_def)

lemma charge_only:
  assumes "charge_record e a s i c m y d x = Inr (d', x')"
  shows "charged_only d d'"
proof -
  from assms obtain d1 z d2 r where c: "ensureBillingAccount a y d = Inr d1" "calculateMarkedUpChargeMinor c m = Inr z"
    "insertRatedUsageEvent e a s i c m z y d1 = Inr (d2, r)"
    and rest: "(case r of None \<Rightarrow> Inr (d2, x\<lparr>im_duplicates := Suc (im_duplicates x)\<rparr>)
      | Some n \<Rightarrow> and_then (insertLedgerEntry e (rated_entry a z y n) d2) (\<lambda>(d, _).
         Inr (d, x\<lparr>im_imported := Suc (im_imported x), im_total := im_total x + z\<rparr>))) = Inr (d', x')"
    unfolding charge_record_def by auto
  have z: "0 \<le> z" using marked_up[OF c(2)] c(2) by (simp add: calculateMarkedUpChargeMinor_def split: if_splits)
  have d2: "charged_only d d2" using account_keeps[OF c(1)] rated_event[OF c(3)] by (simp add: charged_only_def)
  have "charged_only d2 d'"
  proof (cases r)
    case None
    with rest show ?thesis by simp
  next
    case (Some n)
    with rest obtain b where l: "insertLedgerEntry e (rated_entry a z y n) d2 = Inr (d', b)" by auto
    note entry = ledger_entry[OF l]
    show ?thesis
    proof (cases b)
      case True
      from entry(4)[OF this] obtain le where "ledger d' = ledger d2 @ [le]" "le_amount le = - z" "le_sourceType le = rated_source"
        by (auto simp: rated_entry_def)
      with entry(1,2) z show ?thesis by (simp add: charged_only_def)
    next
      case False
      with entry show ?thesis by (simp add: charged_only_def same_books_def)
    qed
  qed
  with d2 show ?thesis by (rule charged_only_trans)
qed

lemma record_only: "import_record e m currency r (d, x) = Inr (d', x') \<Longrightarrow> charged_only d d'"
  by (auto simp: import_record_def Let_def split: json.splits option.splits if_splits dest: charge_only)

lemma records_only: "import_records e m currency rs (d, x) = Inr (d', x') \<Longrightarrow> charged_only d d'"
proof (induction rs arbitrary: d x)
  case (Cons r rs)
  from Cons.prems obtain d1 x1 where "import_record e m currency r (d, x) = Inr (d1, x1)"
    "import_records e m currency rs (d1, x1) = Inr (d', x')" by auto
  with Cons.IH record_only charged_only_trans show ?case by blast
qed simp

lemma import_only:
  assumes "importDoubleZeroUsage e m currency rs d = Inr (d', x)"
  shows "charged_only d d'"
proof -
  have "charged_only d (fst (new_id e d))" by (simp add: new_id_def gen_uuid_def charged_only_def)
  with assms show ?thesis
    by (auto simp: importDoubleZeroUsage_def split: prod.splits dest: records_only intro: charged_only_trans)
qed

lemma charges_of:
  assumes "\<forall>l\<in>set ls. le_sourceType l = rated_source \<and> le_amount l \<le> 0"
  shows "filter (\<lambda>l. le_account l = a \<and> le_sourceType l = rated_source) ls = filter (\<lambda>l. le_account l = a) ls"
    "sum_list (map le_amount (filter (\<lambda>l. le_account l = a) ls)) \<le> 0"
  using assms by (induction ls) auto

lemma import_books:
  assumes "importDoubleZeroUsage e m currency rs d = Inr (d', x)" "books_ok d"
  shows "books_ok d'" "withdrawals d' = withdrawals d"
proof -
  from import_only[OF assms(1)] obtain ls where ls: "balance_buckets d' = balance_buckets d" "withdrawals d' = withdrawals d"
    "ledger d' = ledger d @ ls" "\<forall>l\<in>set ls. le_sourceType l = rated_source \<and> le_amount l \<le> 0" by (auto simp: charged_only_def)
  note sums = charges_of[OF ls(4)]
  have moved: "balance d' a = balance d a + sum_list (map le_amount (filter (\<lambda>l. le_account l = a) ls))"
    "imported_charges d' a = imported_charges d a - sum_list (map le_amount (filter (\<lambda>l. le_account l = a) ls))"
    "buckets_of d' a = buckets_of d a" for a
    by (simp_all add: balance_def imported_charges_def buckets_of_def ls(1,3) sums(1))
  have "account_balanced d' a" for a
    using assms(2) sums(2)[of a] by (auto simp: books_ok_def account_balanced_def moved ls(2) intro: order_trans)
  moreover have "withdrawals_ok d'"
    using assms(2) ls(4) by (auto simp: books_ok_def withdrawals_ok_def ls(2,3) withdrawal_source_def rated_source_def)
  ultimately show "books_ok d'" "withdrawals d' = withdrawals d" using ls(2) by (simp_all add: books_ok_def)
qed

end
