(* ===== verification/Books.thy ===== *)
theory Books
  imports Withdrawals UsageImport
begin

section \<open>The books of prepaid billing\<close>

text \<open>
  Every transaction of the billing scenarios keeps an account's books: the ledger, apart from the
  charges of imported usage, adds up to what the buckets are worth, and exactly the money of the open
  withdrawals is reserved.  The steps of a
  withdrawal follow its lifecycle, and deposits lose nothing to rounding.
\<close>

subsection \<open>The reserved money\<close>

lemma reserved_sum_Nil [simp]: "reserved_sum [] a = 0"
  by (simp add: reserved_sum_def)

lemma reserved_sum_nonneg: "\<forall>w\<in>set ws. 0 < wd_amount w \<Longrightarrow> 0 \<le> reserved_sum ws a"
  unfolding reserved_sum_def by (intro sum_list_nonneg) auto

lemma reserved_sum_Cons: "reserved_sum (w # ws) a =
    (if wd_account w = a \<and> open_withdrawal (wd_status w) then wd_amount w else 0) + reserved_sum ws a"
  by (simp add: reserved_sum_def)

lemma reserved_sum_snoc: "reserved_sum (ws @ [w]) a =
    reserved_sum ws a + (if wd_account w = a \<and> open_withdrawal (wd_status w) then wd_amount w else 0)"
  by (simp add: reserved_sum_def)

lemma reserved_sum_same:
  "(\<And>w. w \<in> set ws \<Longrightarrow> P w \<Longrightarrow> wd_account (f w) = wd_account w \<and> wd_amount (f w) = wd_amount w
      \<and> open_withdrawal (wd_status (f w)) = open_withdrawal (wd_status w)) \<Longrightarrow>
   reserved_sum (update_where P f ws) a = reserved_sum ws a"
proof (induction ws)
  case (Cons w ws)
  from Cons.prems[of w] Cons.IH[OF Cons.prems] show ?case by (cases "P w") (simp_all add: reserved_sum_Cons)
qed simp

lemma reserved_sum_closed:
  assumes "distinct (map wd_id ws)" "w \<in> set ws" "\<And>w. wd_account (f w) = wd_account w" "\<And>w. \<not> open_withdrawal (wd_status (f w))"
    and "open_withdrawal (wd_status w)"
  shows "reserved_sum (update_where (\<lambda>x. wd_id x = wd_id w) f ws) a = reserved_sum ws a - (if wd_account w = a then wd_amount w else 0)"
  using assms(1,2)
proof (induction ws)
  case (Cons x xs)
  show ?case
  proof (cases "x = w")
    case True
    have "wd_id r \<noteq> wd_id w" if "r \<in> set xs" for r
      using Cons.prems(1) True imageI[OF that, of wd_id] by auto
    then have "update_where (\<lambda>x. wd_id x = wd_id w) f xs = xs" by (intro update_where_id)
    with True assms(3-5) show ?thesis by (simp add: reserved_sum_Cons)
  next
    case False
    with Cons.prems have w: "w \<in> set xs" "distinct (map wd_id xs)" by simp_all
    then have "wd_id x \<noteq> wd_id w" using Cons.prems(1) imageI[OF w(1), of wd_id] by auto
    with Cons.IH[OF w(2,1)] show ?thesis by (simp add: reserved_sum_Cons)
  qed
qed simp

lemma ids_kept:
  "(\<And>w. w \<in> set ws \<Longrightarrow> P w \<Longrightarrow> wd_id (f w) = wd_id w) \<Longrightarrow> map wd_id (update_where P f ws) = map wd_id ws"
  by (induction ws) auto

lemma reserved_member:
  "w \<in> set ws \<Longrightarrow> \<forall>w\<in>set ws. 0 < wd_amount w \<Longrightarrow> open_withdrawal (wd_status w) \<Longrightarrow> wd_amount w \<le> reserved_sum ws (wd_account w)"
proof (induction ws)
  case (Cons x xs)
  then show ?case using reserved_sum_nonneg[of xs "wd_account w"] by (auto simp: reserved_sum_Cons intro: order_trans)
qed simp

text \<open>Steps between open states leave the books alone.\<close>

lemma update_open_books:
  assumes "books_ok d" "\<And>w. w \<in> set (withdrawals d) \<Longrightarrow> P w \<Longrightarrow> wd_id (f w) = wd_id w \<and> wd_account (f w) = wd_account w
      \<and> wd_amount (f w) = wd_amount w \<and> open_withdrawal (wd_status w) \<and> open_withdrawal (wd_status (f w))"
  shows "books_ok (update_withdrawal P f d)"
proof -
  let ?d = "update_withdrawal P f d"
  have "reserved_sum (withdrawals ?d) a = reserved_sum (withdrawals d) a" for a
    unfolding update_withdrawal_def by (simp, rule reserved_sum_same) (use assms(2) in blast)
  then have "account_balanced ?d a" for a
    using assms(1) by (simp add: books_ok_def account_balanced_def balance_def imported_charges_def buckets_of_def update_withdrawal_def)
  moreover have "withdrawals_ok ?d"
  proof -
    have ids: "map wd_id (update_where P f (withdrawals d)) = map wd_id (withdrawals d)"
      by (rule ids_kept) (use assms(2) in blast)
    have "\<exists>x\<in>set (update_where P f (withdrawals d)). wd_id x = i \<and> wd_status x = W_confirmed"
      if "w \<in> set (withdrawals d)" "wd_id w = i" "wd_status w = W_confirmed" for w i
    proof -
      have "\<not> P w" using assms(2)[OF that(1)] that(3) by (auto simp: open_withdrawal_def)
      with that show ?thesis by (auto simp: set_update_where)
    qed
    then show ?thesis using assms(1) assms(2) ids
      by (fastforce simp: books_ok_def withdrawals_ok_def update_withdrawal_def set_update_where split: if_splits)
  qed
  ultimately show ?thesis by (simp add: books_ok_def)
qed

lemma open_states [simp]: "open_withdrawal W_cooldown" "open_withdrawal W_ready" "open_withdrawal W_processing"
  "open_withdrawal W_submitted" "open_withdrawal W_failed" "\<not> open_withdrawal W_confirmed" "\<not> open_withdrawal W_cancelled"
  by (simp_all add: open_withdrawal_def)

lemma open_step_books:
  "books_ok d \<Longrightarrow> books_ok (advanceWithdrawalCooldowns e d)"
  "books_ok d \<Longrightarrow> books_ok (markWithdrawalFailed e i err d)"
  "books_ok d \<Longrightarrow> markWithdrawalSubmitted e i sig d = Inr d' \<Longrightarrow> books_ok d'"
proof -
  show "books_ok d \<Longrightarrow> books_ok (advanceWithdrawalCooldowns e d)"
    unfolding advanceWithdrawalCooldowns_def end_cooldowns_def restart_cooldowns_def
    by (intro update_open_books) auto
  show "books_ok d \<Longrightarrow> books_ok (markWithdrawalFailed e i err d)"
    unfolding markWithdrawalFailed_def by (intro update_open_books) auto
  show "books_ok d \<Longrightarrow> markWithdrawalSubmitted e i sig d = Inr d' \<Longrightarrow> books_ok d'"
    unfolding markWithdrawalSubmitted_def by (auto split: if_splits intro!: update_open_books)
qed

subsection \<open>The transactions keep the books\<close>

lemma and_then_return [simp]: "and_then (Inr v) f = f v" "and_then (Inl err) f = Inl err"
  by (simp_all add: and_then_def)

lemma moved_books:
  assumes "books_ok d" "\<And>t. balance d' t = balance d t + (if t = a then x else 0)"
    and "\<And>t. buckets_of d' t = (if t = a then b else buckets_of d t)" "buckets_ok b" "worth b = worth (buckets_of d a) + x"
    and "\<And>t. reserved_sum (withdrawals d') t = reserved_sum (withdrawals d) t + (if t = a then y else 0)"
    and "reservedWithdrawalMinor b = reservedWithdrawalMinor (buckets_of d a) + y" "withdrawals_ok d'"
    and "\<And>t. imported_charges d' t = imported_charges d t"
  shows "books_ok d'"
proof -
  have "account_balanced d' t" for t
    using assms(1) by (auto simp: books_ok_def account_balanced_def assms(2-7,9))
  with assms(8) show ?thesis by (simp add: books_ok_def)
qed

lemma closed_ok:
  assumes "withdrawals_ok d" "w \<in> set (withdrawals d)" "open_withdrawal (wd_status w)"
    and "\<And>w. wd_id (f w) = wd_id w" "\<And>w. wd_amount (f w) = wd_amount w"
    and "withdrawals d' = update_where (\<lambda>x. wd_id x = wd_id w) f (withdrawals d)"
    and "ledger d' = ledger d @ ls" "\<And>l. l \<in> set ls \<Longrightarrow> le_sourceId l = wd_id w \<and> wd_status (f w) = W_confirmed"
  shows "withdrawals_ok d'"
proof -
  have ids: "map wd_id (withdrawals d') = map wd_id (withdrawals d)" unfolding assms(6) by (rule ids_kept) (rule assms(4))
  have same: "x = w" if "x \<in> set (withdrawals d)" "wd_id x = wd_id w" for x
    using assms(1,2) that by (auto simp: withdrawals_ok_def intro: row_eqI)
  have "\<exists>x\<in>set (withdrawals d'). wd_id x = le_sourceId l \<and> wd_status x = W_confirmed"
    if "l \<in> set (ledger d')" "le_sourceType l = withdrawal_source" for l
  proof (cases "l \<in> set (ledger d)")
    case True
    with assms(1) that(2) obtain x where x: "x \<in> set (withdrawals d)" "wd_id x = le_sourceId l" "wd_status x = W_confirmed"
      by (auto simp: withdrawals_ok_def)
    with same[OF x(1)] assms(3) have "wd_id x \<noteq> wd_id w" by (metis open_withdrawal_def)
    with x show ?thesis by (auto simp: assms(6) set_update_where image_iff intro!: bexI[of _ x])
  next
    case False
    with that(1) assms(7,8) have "le_sourceId l = wd_id w" "wd_status (f w) = W_confirmed" by auto
    moreover have "f w \<in> set (withdrawals d')" using assms(2) by (force simp: assms(6) set_update_where)
    ultimately show ?thesis using assms(4) by metis
  qed
  moreover have "\<forall>x\<in>set (withdrawals d'). 0 < wd_amount x"
    using assms(1) by (auto simp: assms(6) set_update_where assms(5) withdrawals_ok_def)
  ultimately show ?thesis using assms(1) ids by (simp add: withdrawals_ok_def)
qed

lemma closed_sum:
  assumes "withdrawals_ok d" "w \<in> set (withdrawals d)" "open_withdrawal (wd_status w)"
    and "\<And>w. wd_account (f w) = wd_account w" "\<And>w. \<not> open_withdrawal (wd_status (f w))"
  shows "reserved_sum (update_where (\<lambda>x. wd_id x = wd_id w) f (withdrawals d)) t
    = reserved_sum (withdrawals d) t + (if t = wd_account w then - wd_amount w else 0)"
  using reserved_sum_closed[OF _ assms(2,4,5,3), of t] assms(1) by (simp add: withdrawals_ok_def)

lemma enough_reserved:
  assumes "books_ok d" "w \<in> set (withdrawals d)" "open_withdrawal (wd_status w)"
  shows "wd_amount w \<le> reservedWithdrawalMinor (buckets_of d (wd_account w))" "wd_amount w \<le> cashMinor (buckets_of d (wd_account w))"
    "0 < wd_amount w"
proof -
  from assms show "0 < wd_amount w" by (simp add: books_ok_def withdrawals_ok_def)
  have "reservedWithdrawalMinor (buckets_of d (wd_account w)) = reserved_sum (withdrawals d) (wd_account w)"
    "reservedWithdrawalMinor (buckets_of d (wd_account w)) \<le> cashMinor (buckets_of d (wd_account w))"
    using assms(1) unfolding books_ok_def account_balanced_def buckets_ok_def by blast+
  moreover have "wd_amount w \<le> reserved_sum (withdrawals d) (wd_account w)"
    using reserved_member[OF assms(2) _ assms(3)] assms(1) by (simp add: books_ok_def withdrawals_ok_def)
  ultimately show "wd_amount w \<le> reservedWithdrawalMinor (buckets_of d (wd_account w))"
    "wd_amount w \<le> cashMinor (buckets_of d (wd_account w))" by simp_all
qed

lemma found_withdrawal:
  assumes "findWithdrawalForUpdate d a i = Inr (Some w)"
  shows "w \<in> set (withdrawals d)" "wd_account w = a" "wd_id w = i"
  using assms by (auto simp: findWithdrawalForUpdate_def withdrawal_result_def split: option.splits dest!: find_SomeD)

lemma inserted_withdrawal:
  assumes "insertWithdrawalRequest e i d = Inr (d', w)"
  shows "withdrawals d' = withdrawals d @ [w]" "ledger d' = ledger d" "balance_buckets d' = balance_buckets d"
    "wd_account w = wi_account i" "wd_amount w = wi_amount i" "wd_status w = W_cooldown" "wd_id w \<notin> wd_id ` set (withdrawals d)"
    "0 < wi_amount i"
  using assms by (auto simp: insertWithdrawalRequest_def new_id_def insert_child_def Let_def list_ex_iff split: if_splits prod.splits)

lemma inserted_ok: "withdrawals_ok d \<Longrightarrow> insertWithdrawalRequest e i d = Inr (d', w) \<Longrightarrow> withdrawals_ok d'"
  using inserted_withdrawal[of e i d d' w] by (auto simp: withdrawals_ok_def)

lemma ensure_bucket_present:
  "ensurePrepaidBillingState e a d = Inr d' \<Longrightarrow> list_ex P (balance_buckets d) \<Longrightarrow> list_ex P (balance_buckets d')"
  by (auto simp: ensurePrepaidBillingState_def insert_child_def split: option.splits if_splits)

lemma read_plan_bucket_present:
  "readCurrentBillingPlan e a k d = Inr (d', r) \<Longrightarrow> list_ex P (balance_buckets d) \<Longrightarrow> list_ex P (balance_buckets d')"
  by (auto simp: readCurrentBillingPlan_def ensured_def ensure_bucket_present split: if_splits)

lemma create_cases:
  assumes "createWithdrawalRequest e actor amount dest config now d = Inr (d', r)"
  obtains (rejected) "same_books d d'" "\<And>w. r \<noteq> CWR_created w"
  | (created) d1 b d2 w d3 d4 i where "readBillingBuckets e (ow_accountId actor) False d = Inr (d1, b)" "same_books d1 d2"
      "list_ex (\<lambda>r. bb_account r = ow_accountId actor) (balance_buckets d2)"
      "debtMinor b \<le> 0" "amount \<le> cashMinor b - reservedWithdrawalMinor b" "insertWithdrawalRequest e i d2 = Inr (d3, w)"
      "wi_account i = ow_accountId actor" "wi_amount i = amount"
      "writeBillingBuckets (ow_accountId actor) (b\<lparr>reservedWithdrawalMinor := reservedWithdrawalMinor b + amount\<rparr>) d3 = Inr d4"
      "same_books d4 d'" "r = CWR_created w" "listNonTerminalAccountSessions d (ow_accountId actor) = []"
proof (cases "\<exists>w. r = CWR_created w")
  case True
  then obtain w where w: "r = CWR_created w" by blast
  from assms[unfolded this] obtain d1 b d2 plan d3 d4 i where
    r: "readBillingBuckets e (ow_accountId actor) False d = Inr (d1, b)"
      "readCurrentBillingPlan e (ow_accountId actor) False d1 = Inr (d2, plan)"
      "debtMinor b \<le> 0" "amount \<le> cashMinor b - reservedWithdrawalMinor b" "insertWithdrawalRequest e i d2 = Inr (d3, w)"
      "wi_account i = ow_accountId actor" "wi_amount i = amount"
      "writeBillingBuckets (ow_accountId actor) (b\<lparr>reservedWithdrawalMinor := reservedWithdrawalMinor b + amount\<rparr>) d3 = Inr d4"
      "same_books d4 d'" "listNonTerminalAccountSessions d (ow_accountId actor) = []"
    unfolding createWithdrawalRequest_def by (auto simp: Let_def split: if_splits dest!: notify_books)
  show thesis
    by (rule created[OF r(1) read_plan_books[OF r(2)] read_plan_bucket_present[OF r(2)] r(3-9) w r(10)])
      (rule read_buckets_books(4)[OF r(1)])
next
  case False
  have "same_books d d'"
    using assms False unfolding createWithdrawalRequest_def
    by (auto simp: Let_def split: if_splits dest!: read_buckets_books(1) read_plan_books intro: same_books_trans)
  then show thesis using rejected False by blast
qed

lemma create_books:
  assumes "createWithdrawalRequest e actor amount dest config now d = Inr (d', r)" "books_ok d"
  shows "books_ok d'"
  using assms(1)
proof (cases rule: create_cases)
  case rejected
  with assms(2) show ?thesis by (simp add: same_books_ok[of d d'])
next
  case (created d1 b d2 w d3 d4 i)
  note read = read_buckets_books[OF created(1)] and ins = inserted_withdrawal[OF created(6)]
  have ok2: "books_ok d2" using assms(2) same_books_ok[OF read(1)] same_books_ok[OF created(2)] by simp
  have b: "b = buckets_of d2 (ow_accountId actor)" using read(2) created(2) by (simp add: same_books_def)
  note written = write_buckets[OF created(9)]
  have present: "list_ex (\<lambda>r. bb_account r = ow_accountId actor) (balance_buckets d3)" using created(3) ins(3) by simp
  have "books_ok d4"
  proof (rule moved_books[OF ok2, of d4 "ow_accountId actor" 0 "b\<lparr>reservedWithdrawalMinor := reservedWithdrawalMinor b + amount\<rparr>" amount])
    show "balance d4 t = balance d2 t + (if t = ow_accountId actor then 0 else 0)" for t
      by (simp add: balance_def written(1)[OF present] ins(2))
    show "buckets_of d4 t = (if t = ow_accountId actor then b\<lparr>reservedWithdrawalMinor := reservedWithdrawalMinor b + amount\<rparr>
        else buckets_of d2 t)" for t
      using written(4)[OF present] ins(3) by (simp add: buckets_of_def)
    show "reserved_sum (withdrawals d4) t = reserved_sum (withdrawals d2) t + (if t = ow_accountId actor then amount else 0)" for t
      by (simp add: written(2)[OF present] ins reserved_sum_snoc created(7,8))
    have "withdrawals_ok d3" using inserted_ok[OF _ created(6)] ok2 by (simp add: books_ok_def)
    then show "withdrawals_ok d4" by (simp add: withdrawals_ok_def written(1,2)[OF present])
    show "imported_charges d4 t = imported_charges d2 t" for t
      by (simp add: imported_charges_def written(1)[OF present] ins(2))
  qed (use b written(3)[OF present] in \<open>simp_all add: worth_def\<close>)
  then show ?thesis using same_books_ok[OF created(10)] by simp
qed

lemma cancel_cases:
  assumes "cancelOwnedWithdrawal e actor i d = Inr (d', r)"
  obtains (kept) "d' = d" "r \<noteq> CR_cancelled"
  | (closed) w d1 b where "findWithdrawalForUpdate d (ow_accountId actor) i = Inr (Some w)"
      "wd_status w \<in> {W_cooldown, W_ready, W_failed}" "readBillingBuckets e (ow_accountId actor) False d = Inr (d1, b)"
      "writeBillingBuckets (ow_accountId actor) (b\<lparr>reservedWithdrawalMinor := max 0 (reservedWithdrawalMinor b - wd_amount w)\<rparr>)
         (cancelWithdrawalRequest e (wd_id w) d1) = Inr d'" "r = CR_cancelled"
  using assms unfolding cancelOwnedWithdrawal_def by (auto simp: Let_def split: option.splits if_splits)

lemma cancel_books:
  assumes "cancelOwnedWithdrawal e actor i d = Inr (d', r)" "books_ok d"
  shows "books_ok d'"
  using assms(1)
proof (cases rule: cancel_cases)
  case (closed w d1 b)
  let ?a = "ow_accountId actor" and ?b = "b\<lparr>reservedWithdrawalMinor := reservedWithdrawalMinor b - wd_amount w\<rparr>"
  let ?d = "cancelWithdrawalRequest e (wd_id w) d1"
  note read = read_buckets_books[OF closed(3)] and w = found_withdrawal[OF closed(1)]
  have ok1: "books_ok d1" using assms(2) same_books_ok[OF read(1)] by simp
  have w1: "w \<in> set (withdrawals d1)" "open_withdrawal (wd_status w)" using w(1) read(1) closed(2) by (auto simp: same_books_def)
  note enough = enough_reserved[OF ok1 w1]
  have wok: "withdrawals_ok d1" using ok1 by (simp add: books_ok_def)
  have present: "list_ex (\<lambda>r. bb_account r = ?a) (balance_buckets ?d)"
    using read(4) by (simp add: cancelWithdrawalRequest_def update_withdrawal_def)
  have "max 0 (reservedWithdrawalMinor b - wd_amount w) = reservedWithdrawalMinor b - wd_amount w"
    using enough read(2) w(2) by simp
  with closed(4) have "writeBillingBuckets ?a ?b ?d = Inr d'" by simp
  note written = write_buckets[OF this present]
  show ?thesis
  proof (rule moved_books[OF ok1, of d' ?a 0 ?b "- wd_amount w"])
    show "balance d' t = balance d1 t + (if t = ?a then 0 else 0)" for t
      by (simp add: balance_def written(1) cancelWithdrawalRequest_def update_withdrawal_def)
    show "buckets_of d' t = (if t = ?a then ?b else buckets_of d1 t)" for t
      using written(4)[of t] by (simp add: buckets_of_def cancelWithdrawalRequest_def update_withdrawal_def)
    show "reserved_sum (withdrawals d') t = reserved_sum (withdrawals d1) t + (if t = ?a then - wd_amount w else 0)" for t
      using closed_sum[OF wok w1, of "\<lambda>w. w\<lparr>wd_status := W_cancelled, wd_updated := env_now e\<rparr>" t] w(2)
      by (simp add: written(2) cancelWithdrawalRequest_def update_withdrawal_def)
    show "withdrawals_ok d'"
      by (rule closed_ok[OF wok w1, of "\<lambda>w. w\<lparr>wd_status := W_cancelled, wd_updated := env_now e\<rparr>" _ "[]"])
        (simp_all add: written(1,2) cancelWithdrawalRequest_def update_withdrawal_def)
    show "imported_charges d' t = imported_charges d1 t" for t
      by (simp add: imported_charges_def written(1) cancelWithdrawalRequest_def update_withdrawal_def)
  qed (use read(2) written(3) in \<open>simp_all add: worth_def\<close>)
qed (use assms(2) in simp)

lemma submitted_not_posted:
  assumes "books_ok d" "w \<in> set (withdrawals d)" "wd_status w \<noteq> W_confirmed"
  shows "\<not> posted_source d withdrawal_source (wd_id w)"
proof
  assume "posted_source d withdrawal_source (wd_id w)"
  then obtain x where "x \<in> set (withdrawals d)" "wd_id x = wd_id w" "wd_status x = W_confirmed"
    using assms(1) by (auto simp: posted_source_def list_ex_iff books_ok_def withdrawals_ok_def)
  moreover from this assms(1,2) have "x = w" by (auto simp: books_ok_def withdrawals_ok_def intro: row_eqI)
  ultimately show False using assms(3) by simp
qed

definition paid_out :: "buckets \<Rightarrow> int \<Rightarrow> buckets" where
  "paid_out b x = b\<lparr>cashMinor := cashMinor b - x, reservedWithdrawalMinor := reservedWithdrawalMinor b - x\<rparr>"

lemma confirm_cases:
  assumes "confirmWithdrawal e a i d = Inr d'"
  obtains (kept) "d' = d" "\<And>w. findWithdrawalForUpdate d a i = Inr (Some w) \<Longrightarrow> wd_status w = W_confirmed"
  | (confirmed) w d1 b d2 inserted d3 where "findWithdrawalForUpdate d a i = Inr (Some w)" "wd_status w = W_submitted"
      "readBillingBuckets e a False d = Inr (d1, b)" "insertLedgerEntry e (withdrawal_entry w a) d1 = Inr (d2, inserted)"
      "(if inserted then writeBillingBuckets a (paid_out b (wd_amount w)) d2 else Inr d2) = Inr d3"
      "same_books (markWithdrawalConfirmed e (wd_id w) d3) d'"
proof (cases "findWithdrawalForUpdate d a i")
  case (Inr r)
  show thesis
  proof (cases "\<exists>w. r = Some w \<and> wd_status w \<noteq> W_confirmed")
    case True
    then obtain w where w: "r = Some w" "wd_status w \<noteq> W_confirmed" by blast
    with assms Inr have status: "wd_status w = W_submitted" by (simp add: confirmWithdrawal_def split: if_splits)
    define tail where "tail = (\<lambda>d. enqueueBillingNotification e a ''billing_withdrawal_confirmed''
      (''billing-withdrawal-confirmed:'' @ wd_id w) [(''withdrawalId'', JStr (wd_id w)), (''amountMinor'', JInt (wd_amount w)),
        (''destinationAddress'', JStr (wd_destination w)),
        (''transactionSignature'', case wd_signature w of None \<Rightarrow> JNull | Some t \<Rightarrow> JStr t)] (markWithdrawalConfirmed e (wd_id w) d))"
    from assms Inr w status obtain d1 b where read: "readBillingBuckets e a False d = Inr (d1, b)"
      and entry: "and_then (insertLedgerEntry e (withdrawal_entry w a) d1) (\<lambda>(d, inserted). and_then
        (if inserted then writeBillingBuckets a (paid_out b (wd_amount w)) d else Inr d) tail) = Inr d'"
      unfolding confirmWithdrawal_def paid_out_def tail_def
      by (cases "readBillingBuckets e a False d") (auto simp del: and_then_Inr split: if_splits)
    from entry obtain d2 inserted where entry: "insertLedgerEntry e (withdrawal_entry w a) d1 = Inr (d2, inserted)"
      and rest: "and_then (if inserted then writeBillingBuckets a (paid_out b (wd_amount w)) d2 else Inr d2) tail = Inr d'"
      by auto
    from rest obtain d3 where d3: "(if inserted then writeBillingBuckets a (paid_out b (wd_amount w)) d2 else Inr d2) = Inr d3"
      "tail d3 = Inr d'" by auto
    from d3(2) have last: "same_books (markWithdrawalConfirmed e (wd_id w) d3) d'" unfolding tail_def by (rule notify_books)
    from confirmed[OF Inr[unfolded w(1)] status read entry d3(1) last] show thesis .
  next
    case False
    with assms Inr have "d' = d" by (cases r) (simp_all add: confirmWithdrawal_def)
    with Inr False show thesis by (intro kept) auto
  qed
qed (use assms in \<open>simp add: confirmWithdrawal_def\<close>)

definition confirmed_row :: "env \<Rightarrow> withdrawal_row \<Rightarrow> withdrawal_row" where
  "confirmed_row e w = w\<lparr>wd_status := W_confirmed, wd_confirmed := Some (env_now e), wd_updated := env_now e\<rparr>"

lemma confirmed_row_simps [simp]: "wd_id (confirmed_row e w) = wd_id w" "wd_account (confirmed_row e w) = wd_account w"
  "wd_amount (confirmed_row e w) = wd_amount w" "wd_status (confirmed_row e w) = W_confirmed"
  by (simp_all add: confirmed_row_def)

lemma confirm_effect:
  assumes "confirmWithdrawal e a i d = Inr d'" "books_ok d" "findWithdrawalForUpdate d a i = Inr (Some w)"
    and "wd_status w \<noteq> W_confirmed"
  shows "wd_status w = W_submitted" "buckets_ok (paid_out (buckets_of d a) (wd_amount w))"
    "\<exists>l. ledger d' = ledger d @ [l] \<and> le_account l = a \<and> le_amount l = - wd_amount w \<and> le_sourceId l = wd_id w
       \<and> le_sourceType l = withdrawal_source"
    "withdrawals d' = update_where (\<lambda>x. wd_id x = wd_id w) (confirmed_row e) (withdrawals d)"
    "buckets_of d' t = (if t = a then paid_out (buckets_of d a) (wd_amount w) else buckets_of d t)"
proof -
  from assms(1,3,4) obtain d1 b d2 inserted d3 where c: "wd_status w = W_submitted"
    "readBillingBuckets e a False d = Inr (d1, b)" "insertLedgerEntry e (withdrawal_entry w a) d1 = Inr (d2, inserted)"
    "(if inserted then writeBillingBuckets a (paid_out b (wd_amount w)) d2 else Inr d2) = Inr d3"
    "same_books (markWithdrawalConfirmed e (wd_id w) d3) d'" by (cases rule: confirm_cases) auto
  note read = read_buckets_books[OF c(2)] and entry = ledger_entry[OF c(3)]
  have d1: "books_ok d1" "ledger d1 = ledger d" "withdrawals d1 = withdrawals d"
    using assms(2) same_books_ok[OF read(1)] read(1) by (simp_all add: same_books_def)
  have w1: "w \<in> set (withdrawals d1)" using found_withdrawal(1)[OF assms(3)] by (simp add: d1)
  have ins: "inserted" using entry(3) submitted_not_posted[OF d1(1) w1 assms(4)] by (auto simp: withdrawal_entry_def)
  from entry(4)[OF ins] show "\<exists>l. ledger d' = ledger d @ [l] \<and> le_account l = a \<and> le_amount l = - wd_amount w \<and> le_sourceId l = wd_id w
       \<and> le_sourceType l = withdrawal_source"
    using c(4,5) ins by (auto simp: withdrawal_entry_def same_books_def markWithdrawalConfirmed_def update_withdrawal_def d1(2)
        writeBillingBuckets_def split: if_splits)
  have present: "list_ex (\<lambda>r. bb_account r = a) (balance_buckets d2)" using read(4) entry(1) by simp
  have "writeBillingBuckets a (paid_out b (wd_amount w)) d2 = Inr d3" using c(4) ins by simp
  note written = write_buckets[OF this present]
  have "withdrawals (markWithdrawalConfirmed e (wd_id w) d3) = update_where (\<lambda>x. wd_id x = wd_id w) (confirmed_row e) (withdrawals d)"
    by (simp add: markWithdrawalConfirmed_def update_withdrawal_def written(2) entry(2) d1(3) confirmed_row_def[abs_def])
  then show "withdrawals d' = update_where (\<lambda>x. wd_id x = wd_id w) (confirmed_row e) (withdrawals d)"
    using c(5) by (simp add: same_books_def)
  have "buckets_of (markWithdrawalConfirmed e (wd_id w) d3) t = (if t = a then paid_out b (wd_amount w) else buckets_of d1 t)"
    using written(4)[of t] entry(1) by (simp add: buckets_of_def markWithdrawalConfirmed_def update_withdrawal_def)
  then show "buckets_of d' t = (if t = a then paid_out (buckets_of d a) (wd_amount w) else buckets_of d t)"
    using c(5) read(1,3) by (simp add: same_books_def)
  show "wd_status w = W_submitted" "buckets_ok (paid_out (buckets_of d a) (wd_amount w))" using c(1) written(3) read(3) by simp_all
qed

lemma confirm_kept:
  assumes "confirmWithdrawal e a i d = Inr d'" "\<And>w. findWithdrawalForUpdate d a i = Inr (Some w) \<Longrightarrow> wd_status w = W_confirmed"
  shows "d' = d"
  using assms(1) by (cases rule: confirm_cases) (use assms(2) in auto)

lemma confirm_books:
  assumes "confirmWithdrawal e a i d = Inr d'" "books_ok d"
  shows "books_ok d'"
proof (cases "\<exists>w. findWithdrawalForUpdate d a i = Inr (Some w) \<and> wd_status w \<noteq> W_confirmed")
  case False
  with confirm_kept[OF assms(1)] assms(2) show ?thesis by blast
next
  case True
  then obtain w where w: "findWithdrawalForUpdate d a i = Inr (Some w)" "wd_status w \<noteq> W_confirmed" by blast
  note effect = confirm_effect[OF assms w] and found = found_withdrawal[OF w(1)]
  from effect(3) obtain l where l: "ledger d' = ledger d @ [l]" "le_account l = a" "le_amount l = - wd_amount w"
    "le_sourceId l = wd_id w" "le_sourceType l = withdrawal_source" by blast
  have open_w: "open_withdrawal (wd_status w)" using effect(1) by simp
  have wok: "withdrawals_ok d" using assms(2) by (simp add: books_ok_def)
  show ?thesis
  proof (rule moved_books[OF assms(2), of d' a "- wd_amount w" "paid_out (buckets_of d a) (wd_amount w)" "- wd_amount w"])
    show "balance d' t = balance d t + (if t = a then - wd_amount w else 0)" for t
      by (simp add: balance_def l)
    show "imported_charges d' t = imported_charges d t" for t
      by (simp add: imported_charges_def l withdrawal_source_def rated_source_def)
    show "reserved_sum (withdrawals d') t = reserved_sum (withdrawals d) t + (if t = a then - wd_amount w else 0)" for t
      using closed_sum[OF wok found(1) open_w, of "confirmed_row e" t] found(2) by (simp add: effect(4))
    show "withdrawals_ok d'"
      by (rule closed_ok[OF wok found(1) open_w, of "confirmed_row e" _ "[l]"]) (simp_all add: effect(4) l)
  qed (use effect in \<open>simp_all add: worth_def paid_out_def\<close>)
qed

lemma claim_ready_cases:
  assumes "claimReadyWithdrawal e d = Inr (d', r)"
  obtains (none) "d' = d" "r = None"
  | (ready) x where "x \<in> set (withdrawals d)" "wd_status x = W_ready" "d' = update_withdrawal (\<lambda>y. wd_id y = wd_id x)
      (\<lambda>w. w\<lparr>wd_status := W_processing, wd_failure := None, wd_updated := env_now e\<rparr>) d"
proof (cases "sort_key wd_eligible (sort_key wd_requested (filter (\<lambda>w. wd_status w = W_ready) (withdrawals d)))")
  case Nil
  with assms none show thesis by (simp add: claimReadyWithdrawal_def)
next
  case (Cons x xs)
  then have "x \<in> set (sort_key wd_eligible (sort_key wd_requested (filter (\<lambda>w. wd_status w = W_ready) (withdrawals d))))" by simp
  then have x: "x \<in> set (withdrawals d)" "wd_status x = W_ready" by simp_all
  from assms Cons have "d' = update_withdrawal (\<lambda>y. wd_id y = wd_id x)
      (\<lambda>w. w\<lparr>wd_status := W_processing, wd_failure := None, wd_updated := env_now e\<rparr>) d"
    by (auto simp: claimReadyWithdrawal_def Let_def)
  with ready x show thesis by blast
qed

lemma signing_cases:
  assumes "claimWithdrawalSigningJob e d = Inr (d', r)"
  obtains d1 w where "claimReadyWithdrawal e (advanceWithdrawalCooldowns e d) = Inr (d1, w)"
    "d' = d1 \<or> (\<exists>i err. d' = markWithdrawalFailed e i err d1)"
proof -
  from assms obtain d1 w where claimed: "claimReadyWithdrawal e (advanceWithdrawalCooldowns e d) = Inr (d1, w)"
    and rest: "(case w of None \<Rightarrow> Inr (d1, None) | Some w \<Rightarrow> (case wallet_seed e d1 (wd_account w) of
         Inl reason \<Rightarrow> Inr (markWithdrawalFailed e (wd_id w) reason d1, None)
       | Inr (address, seed) \<Rightarrow>
           Inr (d1, Some \<lparr>sj_withdrawal = w, sj_sourceWalletAddress = address, sj_sourceWalletSeed = seed\<rparr>))) = (Inr (d', r) :: string + _)"
    unfolding claimWithdrawalSigningJob_def by (cases "claimReadyWithdrawal e (advanceWithdrawalCooldowns e d)") (auto simp del: and_then_Inr)
  from rest have d': "d' = d1 \<or> (\<exists>i err. d' = markWithdrawalFailed e i err d1)"
    by (cases w) (auto split: sum.splits)
  with claimed show thesis by (rule that)
qed

lemma claim_books:
  assumes "claimWithdrawalSigningJob e d = Inr (d', r)" "books_ok d"
  shows "books_ok d'"
proof -
  let ?d = "advanceWithdrawalCooldowns e d"
  have ok: "books_ok ?d" using assms(2) by (rule open_step_books(1))
  obtain d1 w where claimed: "claimReadyWithdrawal e ?d = Inr (d1, w)" and d': "d' = d1 \<or> (\<exists>i err. d' = markWithdrawalFailed e i err d1)"
    using assms(1) by (rule signing_cases)
  from claimed have "books_ok d1"
  proof (cases rule: claim_ready_cases)
    case (ready x)
    have "open_withdrawal (wd_status y)" if "y \<in> set (withdrawals ?d)" "wd_id y = wd_id x" for y
    proof -
      have "y = x" using ok that ready(1) by (auto simp: books_ok_def withdrawals_ok_def intro: row_eqI)
      with ready(2) show ?thesis by simp
    qed
    then show ?thesis unfolding ready(3) by (intro update_open_books[OF ok]) auto
  qed (use ok in simp)
  then show ?thesis using d' by (auto intro: open_step_books(2))
qed

lemma deposit_child_books:
  "readSolanaDepositRemainderForUpdate a m d = Inr (d', x) \<Longrightarrow> same_books d d'"
  "claimSolanaPaymentReceipt e sig a m n c d = Inr (d', claimed) \<Longrightarrow> same_books d d'"
  "same_books d (writeSolanaDepositRemainder a m n d)"
  by (auto simp: readSolanaDepositRemainderForUpdate_def claimSolanaPaymentReceipt_def writeSolanaDepositRemainder_def
      insert_child_def intro: same_booksI split: if_splits option.splits)

lemma deposit_cases:
  assumes "creditDirectDeposit e a sig x config d = Inr (d', r)"
  obtains (nothing) "same_books d d'" "snd r = 0"
  | (credited) d1 n d2 d3 b d4 where "same_books d d1" "0 < n" "r = (False, n)"
      "insertLedgerEntry e (deposit_entry a sig n (dc_currency config)) d1 = Inr (d2, True)"
      "readBillingBuckets e a False d2 = Inr (d3, b)" "writeBillingBuckets a (applyBucketCredit b n Credit_cash) d3 = Inr d4"
      "same_books d4 d'"
proof -
  define tail where "tail n y = (\<lambda>d. and_then (insertLedgerEntry e (deposit_entry a sig n (dc_currency config)) d) (\<lambda>(d, inserted).
            if \<not> inserted then Inl (''direct deposit '' @ sig @ '' has a ledger entry without a payment receipt'')
            else and_then (readBillingBuckets e a False d) (\<lambda>(d, b).
              let nextBuckets = applyBucketCredit b n Credit_cash; debtRepaidMinor = debtMinor b - debtMinor nextBuckets in
              and_then (writeBillingBuckets a nextBuckets d) (\<lambda>d.
              and_then (if dc_native config then Inr d else insertCashSweepRequest e
                  \<lparr>sw_account = a, sw_sourceType = ''direct_deposit_debt_repayment'', sw_sourceId = sig,
                   sw_amount = debtRepaidMinor, sw_tokenSymbol = tc_symbol (dc_token config), sw_tokenMint = tc_mint (dc_token config),
                   sw_tokenAmount = debtRepaidMinor * tc_baseUnitsPerMinor (dc_token config)\<rparr> d) (\<lambda>d.
                Inr (d, False, n))))))" for n :: int and y :: int
  from assms obtain d1 p d2 n y d3 claimed where
    "ensureBillingAccount a (dc_currency config) d = Inr d1" "readSolanaDepositRemainderForUpdate a (tc_mint (dc_token config)) d1 = Inr (d2, p)"
    and "claimSolanaPaymentReceipt e sig a (tc_mint (dc_token config)) x n d2 = Inr (d3, claimed)"
    and rest: "(if \<not> claimed then Inr (d3, True, 0) else let d = writeSolanaDepositRemainder a (tc_mint (dc_token config)) y d3 in
          if n \<le> 0 then Inr (d, False, 0) else tail n y d) = Inr (d', r)"
    unfolding creditDirectDeposit_def tail_def Let_def by (auto simp del: if_split)
  then have d3: "same_books d d3" by (metis ensure_account_books deposit_child_books(1,2) same_books_trans)
  define d4 where "d4 = writeSolanaDepositRemainder a (tc_mint (dc_token config)) y d3"
  have d4: "same_books d d4" unfolding d4_def using d3 deposit_child_books(3) by (rule same_books_trans)
  show thesis
  proof (cases "claimed \<and> 0 < n")
    case False
    with rest d3 d4 have "same_books d d' \<and> snd r = 0" by (auto simp: d4_def[symmetric] Let_def split: if_splits)
    then show thesis by (elim conjE) (rule nothing)
  next
    case True
    with rest have "tail n y d4 = Inr (d', r)" by (simp add: d4_def)
    then obtain d5 d6 b d7 where "insertLedgerEntry e (deposit_entry a sig n (dc_currency config)) d4 = Inr (d5, True)"
      "readBillingBuckets e a False d5 = Inr (d6, b)" "writeBillingBuckets a (applyBucketCredit b n Credit_cash) d6 = Inr d7"
      "same_books d7 d'" "r = (False, n)"
      unfolding tail_def Let_def by (auto split: if_splits dest!: sweep_books)
    with d4 True credited show thesis by blast
  qed
qed

lemma deposit_books:
  assumes "creditDirectDeposit e a sig x config d = Inr (d', r)" "books_ok d"
  shows "books_ok d'"
  using assms(1)
proof (cases rule: deposit_cases)
  case nothing
  with assms(2) show ?thesis by (simp add: same_books_ok[of d d'])
next
  case (credited d1 n d2 d3 b d4)
  note read = read_buckets_books[OF credited(5)] and entry = ledger_entry[OF credited(4)]
  have ok1: "books_ok d1" using assms(2) same_books_ok[OF credited(1)] by simp
  have b: "b = buckets_of d1 a" using read(3) entry(1) by (simp add: buckets_of_def)
  have fields: "li_account (deposit_entry a sig n (dc_currency config)) = a" "li_amount (deposit_entry a sig n (dc_currency config)) = n"
    "li_sourceType (deposit_entry a sig n (dc_currency config)) \<notin> {withdrawal_source, rated_source}"
    by (simp_all add: deposit_entry_def withdrawal_source_def rated_source_def)
  note credit = credit_buckets[OF balanced_account[OF ok1], of a n Credit_cash, folded b]
  have "books_ok d4"
    by (rule posted_entry_books[OF ok1 credited(4) fields(3) read(1), unfolded fields, OF read(4) credited(6)])
      (use credited(2) credit in \<open>simp_all add: b[symmetric]\<close>)
  then show ?thesis using same_books_ok[OF credited(7)] by simp
qed

subsection \<open>The billing service\<close>

text \<open>
  One transaction of the service that reads or moves money.  The callers of \<open>applyBillingCredit\<close> pass
  a source type of their own (\<open>admin_manual_credit\<close>), never that of a withdrawal or of imported usage.
\<close>

inductive billing_step :: "bdb \<Rightarrow> bdb \<Rightarrow> bool" where
  credit: "applyBillingCredit e i d = Inr d' \<Longrightarrow> ci_sourceType i \<notin> {withdrawal_source, rated_source} \<Longrightarrow> billing_step d d'"
| settle: "settleRatingCandidate e c config d = Inr (d', r) \<Longrightarrow> billing_step d d'"
| check_account: "reconcileBillingAccountState e a now d = Inr (d', t) \<Longrightarrow> billing_step d d'"
| deposit: "creditDirectDeposit e a sig x dconfig d = Inr (d', dr) \<Longrightarrow> billing_step d d'"
| import_usage: "importDoubleZeroUsage e markupBps currency records d = Inr (d', ir) \<Longrightarrow> billing_step d d'"
| create: "createWithdrawalRequest e actor amount dest token now d = Inr (d', cr) \<Longrightarrow> billing_step d d'"
| cancel: "cancelOwnedWithdrawal e actor i d = Inr (d', xr) \<Longrightarrow> billing_step d d'"
| claim: "claimWithdrawalSigningJob e d = Inr (d', job) \<Longrightarrow> billing_step d d'"
| submit: "recordWithdrawalSubmission e i sig d = Inr d' \<Longrightarrow> billing_step d d'"
| fail_submission: "billing_step d (failWithdrawalSubmission e i err d)"
| confirm: "confirmWithdrawal e a i d = Inr d' \<Longrightarrow> billing_step d d'"
| claim_sweep: "claimCashSweepSigningJob e d = (d', sj) \<Longrightarrow> billing_step d d'"
| submit_sweep: "recordCashSweepSubmission e i sig d = Inr d' \<Longrightarrow> billing_step d d'"
| fail_sweep: "billing_step d (failCashSweep e i err d)"
| confirm_sweep: "billing_step d (confirmCashSweep e i d)"

interpretation creation: billing_transaction "createWithdrawalRequest e actor amount dest token now" for e actor amount dest token now
  by unfold_locales (rule create_books)

interpretation importing: billing_transaction "importDoubleZeroUsage e m currency rs" for e m currency rs
  by unfold_locales (rule import_books(1))

interpretation cancellation: billing_transaction "cancelOwnedWithdrawal e actor i" for e actor i
  by unfold_locales (rule cancel_books)

interpretation claiming: billing_transaction "claimWithdrawalSigningJob e" for e
  by unfold_locales (rule claim_books)

interpretation depositing: billing_transaction "creditDirectDeposit e a sig x config" for e a sig x config
  by unfold_locales (rule deposit_books)

lemma update_sweep_books: "same_books d (update_sweep P f d)"
  by (rule same_booksI) (simp_all add: update_sweep_def)

lemma failed_sweep_books: "same_books d (markCashSweepFailed e i err d)"
  by (simp add: markCashSweepFailed_def update_sweep_books)

lemma sweep_step_books:
  "claimCashSweepSigningJob e d = (d', sj) \<Longrightarrow> same_books d d'"
  "recordCashSweepSubmission e i sig d = Inr d' \<Longrightarrow> same_books d d'"
  "same_books d (failCashSweep e i err d)" "same_books d (confirmCashSweep e i d)"
proof -
  have "claimCashSweepRequest e d = (d1, w) \<Longrightarrow> same_books d d1" for d1 w
    by (auto simp: claimCashSweepRequest_def Let_def update_sweep_books split: list.splits)
  with failed_sweep_books show "claimCashSweepSigningJob e d = (d', sj) \<Longrightarrow> same_books d d'"
    by (auto simp: claimCashSweepSigningJob_def split: prod.splits option.splits sum.splits intro: same_books_trans)
  show "recordCashSweepSubmission e i sig d = Inr d' \<Longrightarrow> same_books d d'"
    by (auto simp: recordCashSweepSubmission_def markCashSweepSubmitted_def update_sweep_books split: if_splits)
  show "same_books d (failCashSweep e i err d)" by (simp add: failCashSweep_def failed_sweep_books)
  show "same_books d (confirmCashSweep e i d)"
    by (simp add: confirmCashSweep_def markCashSweepConfirmed_def update_sweep_books)
qed

lemma step_books: "billing_step d d' \<Longrightarrow> books_ok d \<Longrightarrow> books_ok d'"
proof (induction rule: billing_step.induct)
  case (submit e i sig d d')
  then show ?case unfolding recordWithdrawalSubmission_def by (blast intro: open_step_books(3))
next
  case (fail_submission d e i err)
  then show ?case unfolding failWithdrawalSubmission_def by (rule open_step_books(2))
next
  case (claim_sweep e d d' sj)
  then show ?case using same_books_ok[OF sweep_step_books(1)] by blast
next
  case (submit_sweep e i sig d d')
  then show ?case using same_books_ok[OF sweep_step_books(2)] by blast
next
  case (fail_sweep d e i err)
  then show ?case using same_books_ok[OF sweep_step_books(3)] by blast
next
  case (confirm_sweep d e i)
  then show ?case using same_books_ok[OF sweep_step_books(4)] by blast
qed (blast intro: credit_books settlement.keeps_books account_check.keeps_books depositing.keeps_books importing.keeps_books creation.keeps_books
      cancellation.keeps_books claiming.keeps_books confirm_books)+

lemma reachable_books: "billing_step\<^sup>*\<^sup>* d d' \<Longrightarrow> books_ok d \<Longrightarrow> books_ok d'"
  by (induction rule: rtranclp_induct) (auto dest: step_books)

definition no_money_yet :: "bdb \<Rightarrow> bool" where
  "no_money_yet d \<longleftrightarrow> ledger d = [] \<and> balance_buckets d = [] \<and> withdrawals d = []"

lemma initial_books: "no_money_yet d \<Longrightarrow> books_ok d"
  by (simp add: no_money_yet_def books_ok_def account_balanced_def withdrawals_ok_def balance_def imported_charges_def worth_def buckets_of_def
      zero_buckets_def reserved_sum_def buckets_ok_def)

lemma balance_split:
  "balance d a + imported_charges d a
    = sum_list (map le_amount (filter (\<lambda>l. le_account l = a \<and> le_sourceType l \<noteq> rated_source) (ledger d)))"
proof -
  have "sum_list (map le_amount (filter (\<lambda>l. le_account l = a) ls))
      = sum_list (map le_amount (filter (\<lambda>l. le_account l = a \<and> le_sourceType l = rated_source) ls))
        + sum_list (map le_amount (filter (\<lambda>l. le_account l = a \<and> le_sourceType l \<noteq> rated_source) ls))" for ls
    by (induction ls) auto
  from this[of "ledger d"] show ?thesis by (simp add: balance_def imported_charges_def)
qed

text \<open>
  C7: Whatever transactions of the billing service have run - credits, charges of settled usage,
  deposits, imports of usage, checks of an account, every step of a withdrawal or a sweep - the ledger
  entries of every account other than the charges of imported usage add up to its cash and
  promotional money less its debt.  The imported charges are on the ledger only and are never
  positive.  The reserved money is that of the account's open withdrawals, and no bucket is negative.
\<close>

theorem books_balance:
  assumes "no_money_yet d" "billing_step\<^sup>*\<^sup>* d d'"
  shows "sum_list (map le_amount (filter (\<lambda>l. le_account l = a \<and> le_sourceType l \<noteq> rated_source) (ledger d')))
        = cashMinor (buckets_of d' a) + promotionalMinor (buckets_of d' a) - debtMinor (buckets_of d' a)
    \<and> balance d' a = cashMinor (buckets_of d' a) + promotionalMinor (buckets_of d' a) - debtMinor (buckets_of d' a)
        - imported_charges d' a
    \<and> 0 \<le> imported_charges d' a
    \<and> reservedWithdrawalMinor (buckets_of d' a) = reserved_sum (withdrawals d') a \<and> buckets_ok (buckets_of d' a)"
proof -
  have "account_balanced d' a" using reachable_books[OF assms(2) initial_books[OF assms(1)]] by (simp add: books_ok_def)
  with balance_split[of d' a] show ?thesis by (simp add: account_balanced_def worth_def)
qed

lemma find_update:
  "(\<And>r. P (f r) = P r) \<Longrightarrow> find P (update_where Q f t) = map_option (\<lambda>r. if Q r then f r else r) (find P t)"
  by (induction t) auto

lemma billing_errors:
  "readBillingBuckets e a False d = Inl err \<Longrightarrow> err \<in> {fk_error, ''expected database row'', ''integer out of range''}"
  "insertLedgerEntry e i d = Inl err \<Longrightarrow> err = fk_error"
  "writeBillingBuckets a b d = Inl err \<Longrightarrow> err = check_error"
  "enqueueBillingNotification e a t k x d = Inl err \<Longrightarrow> err = fk_error"
proof -
  have ensure: "ensurePrepaidBillingState e a d = Inl err \<Longrightarrow> err = fk_error" for err
    by (auto simp: ensurePrepaidBillingState_def insert_child_def and_then_def split: sum.splits option.splits if_splits)
  have int4: "int4 x = Inl err \<Longrightarrow> err = ''integer out of range''" for x err by (auto simp: int4_def split: if_splits)
  show "readBillingBuckets e a False d = Inl err \<Longrightarrow> err \<in> {fk_error, ''expected database row'', ''integer out of range''}"
    unfolding readBillingBuckets_def ensured_def must_row_def
    by (auto simp: and_then_def Let_def split: sum.splits option.splits dest!: ensure int4)
  show "insertLedgerEntry e i d = Inl err \<Longrightarrow> err = fk_error" "writeBillingBuckets a b d = Inl err \<Longrightarrow> err = check_error"
    by (auto simp: insertLedgerEntry_def writeBillingBuckets_def split: if_splits prod.splits)
  show "enqueueBillingNotification e a t k x d = Inl err \<Longrightarrow> err = fk_error"
    by (auto simp: enqueueBillingNotification_def insert_child_def split: list.splits if_splits prod.splits)
qed

text \<open>
  C9: Confirming a submitted withdrawal pays out exactly its amount, from the buckets and in the
  ledger, and the check that the reservation covers it never fails; confirming it again changes
  nothing.
\<close>

theorem confirmation_exact:
  assumes "books_ok d" "findWithdrawalForUpdate d a i = Inr (Some w)" "wd_status w = W_submitted"
  shows "confirmWithdrawal e a i d \<noteq> Inl ''withdrawal reservation invariant failed''
    \<and> (\<forall>d'. confirmWithdrawal e a i d = Inr d' \<longrightarrow> buckets_of d' a = paid_out (buckets_of d a) (wd_amount w)
         \<and> balance d' a = balance d a - wd_amount w \<and> confirmWithdrawal e' a i d' = Inr d')"
proof (intro conjI allI impI)
  note w = found_withdrawal[OF assms(2)]
  have open_w: "open_withdrawal (wd_status w)" using assms(3) by simp
  note enough = enough_reserved[OF assms(1) w(1) open_w, unfolded w(2)]
  show "confirmWithdrawal e a i d \<noteq> Inl ''withdrawal reservation invariant failed''"
  proof
    assume "confirmWithdrawal e a i d = Inl ''withdrawal reservation invariant failed''"
    then show False
      using enough(1,2)
      by (auto simp: confirmWithdrawal_def assms(2,3) and_then_def fk_error_def check_error_def
          split: sum.splits if_splits dest!: billing_errors read_buckets_books(3))
  qed
next
  fix d'
  assume c: "confirmWithdrawal e a i d = Inr d'"
  note effect = confirm_effect[OF c assms(1,2)]
  show "buckets_of d' a = paid_out (buckets_of d a) (wd_amount w)" "balance d' a = balance d a - wd_amount w"
    using effect(3,5) assms(3) by (auto simp: balance_def)
  have "findWithdrawalForUpdate d' a i = Inr (Some (confirmed_row e w))"
    using assms(2,3) found_withdrawal(3)[OF assms(2)] effect(4)
    by (auto simp: findWithdrawalForUpdate_def withdrawal_result_def find_update split: option.splits)
  then show "confirmWithdrawal e' a i d' = Inr d'" by (simp add: confirmWithdrawal_def)
qed

subsection \<open>The lifecycle of a withdrawal\<close>

inductive wd_step :: "withdrawal_status \<Rightarrow> withdrawal_status \<Rightarrow> bool" where
  cooled_down: "wd_step W_cooldown W_ready"
| retried: "wd_step W_failed W_ready"
| claimed: "wd_step W_ready W_processing"
| submitted: "wd_step W_processing W_submitted"
| failed: "s \<in> {W_processing, W_submitted} \<Longrightarrow> wd_step s W_failed"
| confirmed: "wd_step W_submitted W_confirmed"
| cancelled: "s \<in> {W_cooldown, W_ready, W_failed} \<Longrightarrow> wd_step s W_cancelled"

inductive_cases wd_step_finalE: "wd_step W_confirmed s" "wd_step W_cancelled s"

interpretation withdrawal_machine: phase_machine wd_step "\<lambda>s. \<not> open_withdrawal s"
proof unfold_locales
  show "\<not> open_withdrawal p \<Longrightarrow> wd_step p q \<Longrightarrow> q = p" for p q
    by (cases p) (auto elim: wd_step_finalE)
qed

lemma wd_steps [simp]:
  "wd_step\<^sup>*\<^sup>* W_cooldown W_ready" "wd_step\<^sup>*\<^sup>* W_failed W_ready" "wd_step\<^sup>*\<^sup>* W_processing W_submitted"
  "wd_step\<^sup>*\<^sup>* W_processing W_failed" "wd_step\<^sup>*\<^sup>* W_submitted W_failed"
  by (blast intro: wd_step.intros)+

text \<open>Every withdrawal is still there, unchanged but for steps of its lifecycle.\<close>

definition follows :: "withdrawal_row list \<Rightarrow> withdrawal_row list \<Rightarrow> bool" where
  "follows ws ws' \<longleftrightarrow> (\<forall>w\<in>set ws. \<exists>w'\<in>set ws'. wd_id w' = wd_id w \<and> wd_account w' = wd_account w
     \<and> wd_amount w' = wd_amount w \<and> wd_destination w' = wd_destination w \<and> wd_step\<^sup>*\<^sup>* (wd_status w) (wd_status w'))"

lemma follows_same: "same_books d d' \<Longrightarrow> follows (withdrawals d) (withdrawals d')"
  by (auto simp: follows_def same_books_def)

lemma follows_refl [simp]: "follows ws ws"
  by (auto simp: follows_def)

lemma follows_trans: "follows a b \<Longrightarrow> follows b c \<Longrightarrow> follows a c"
  unfolding follows_def by (metis rtranclp_trans)

lemma follows_update:
  assumes "\<And>w. w \<in> set ws \<Longrightarrow> P w \<Longrightarrow> wd_id (f w) = wd_id w \<and> wd_account (f w) = wd_account w
    \<and> wd_amount (f w) = wd_amount w \<and> wd_destination (f w) = wd_destination w \<and> wd_step\<^sup>*\<^sup>* (wd_status w) (wd_status (f w))"
  shows "follows ws (update_where P f ws)"
  unfolding follows_def
proof
  fix w assume w: "w \<in> set ws"
  then have "(if P w then f w else w) \<in> set (update_where P f ws)" by (simp add: set_update_where)
  with assms[OF w] show "\<exists>w'\<in>set (update_where P f ws). wd_id w' = wd_id w \<and> wd_account w' = wd_account w
     \<and> wd_amount w' = wd_amount w \<and> wd_destination w' = wd_destination w \<and> wd_step\<^sup>*\<^sup>* (wd_status w) (wd_status w')"
    by (cases "P w") auto
qed

lemma follows_row:
  assumes "distinct (map wd_id ws)" "w \<in> set ws" "wd_id (f w) = wd_id w \<and> wd_account (f w) = wd_account w
    \<and> wd_amount (f w) = wd_amount w \<and> wd_destination (f w) = wd_destination w \<and> wd_step (wd_status w) (wd_status (f w))"
  shows "follows ws (update_where (\<lambda>x. wd_id x = wd_id w) f ws)"
proof (rule follows_update)
  fix x assume "x \<in> set ws" "wd_id x = wd_id w"
  then have "x = w" by (intro row_eqI[OF assms(1) _ assms(2)])
  show "wd_id (f x) = wd_id x \<and> wd_account (f x) = wd_account x
    \<and> wd_amount (f x) = wd_amount x \<and> wd_destination (f x) = wd_destination x \<and> wd_step\<^sup>*\<^sup>* (wd_status x) (wd_status (f x))"
    unfolding \<open>x = w\<close> using assms(3) by blast
qed

lemma open_step_follows:
  "follows (withdrawals d) (withdrawals (advanceWithdrawalCooldowns e d))"
  "follows (withdrawals d) (withdrawals (markWithdrawalFailed e i err d))"
  "markWithdrawalSubmitted e i sig d = Inr d' \<Longrightarrow> follows (withdrawals d) (withdrawals d')"
proof -
  have "follows (withdrawals d) (withdrawals (restart_cooldowns e d))"
    "follows (withdrawals (restart_cooldowns e d)) (withdrawals (end_cooldowns e (restart_cooldowns e d)))"
    unfolding restart_cooldowns_def end_cooldowns_def update_withdrawal_def
    by (auto intro!: follows_update)
  then show "follows (withdrawals d) (withdrawals (advanceWithdrawalCooldowns e d))"
    unfolding advanceWithdrawalCooldowns_def by (rule follows_trans)
  show "follows (withdrawals d) (withdrawals (markWithdrawalFailed e i err d))"
    unfolding markWithdrawalFailed_def update_withdrawal_def by (auto intro!: follows_update)
  show "markWithdrawalSubmitted e i sig d = Inr d' \<Longrightarrow> follows (withdrawals d) (withdrawals d')"
    unfolding markWithdrawalSubmitted_def update_withdrawal_def
    by (auto intro!: follows_update split: if_splits)
qed
subsubsection \<open>Transactions that leave the withdrawals alone\<close>

locale withdrawal_neutral = billing_transaction +
  assumes keeps_withdrawals: "run d = Inr (d', r) \<Longrightarrow> withdrawals d' = withdrawals d"
begin

lemma follows_withdrawals: "run d = Inr (d', r) \<Longrightarrow> follows (withdrawals d) (withdrawals d')"
  by (simp add: keeps_withdrawals)

end

lemma same_withdrawals: "same_books d d' \<Longrightarrow> withdrawals d' = withdrawals d"
  by (simp add: same_books_def)

lemma write_withdrawals: "writeBillingBuckets a b d = Inr d' \<Longrightarrow> withdrawals d' = withdrawals d"
  by (auto simp: writeBillingBuckets_def split: if_splits)

lemma credit_withdrawals: "applyBillingCredit e i d = Inr d' \<Longrightarrow> withdrawals d' = withdrawals d"
  unfolding applyBillingCredit_def
  by (auto split: if_splits dest!: read_buckets_books(1) ledger_entry(2) write_withdrawals simp: same_withdrawals)

lemma post_charge_withdrawals:
  assumes "post_charge e c config i n d = Inr (d', m)"
  shows "withdrawals d' = withdrawals d"
  using assms
proof (cases rule: post_charge_cases)
  case (1 d1 b d2)
  then show ?thesis using ledger_entry(2)[OF 1(2)] same_withdrawals[OF read_buckets_books(1)[OF 1(1)]] by simp
next
  case (2 d1 b d2 d3 d4 x)
  then show ?thesis using ledger_entry(2)[OF 2(2)] same_withdrawals[OF read_buckets_books(1)[OF 2(1)]]
      write_withdrawals[OF 2(3)] same_withdrawals[OF sweep_books[OF 2(4)]] same_withdrawals[OF posted_books[of d4]] by simp
qed

interpretation settlement: withdrawal_neutral "settleRatingCandidate e c config" for e c config
proof (unfold_locales, goal_cases)
  case (1 d d' r)
  then show ?case
  proof (cases rule: settle_cases)
    case (charged i d1 d2 m d3 n)
    show ?thesis using post_charge_withdrawals[OF charged(6)] same_withdrawals[OF rating_books[OF charged(1)]]
        same_withdrawals[OF lock_accrual_books[OF charged(3)]] same_withdrawals[OF accrual_books[OF charged(5)]] by simp
  next
    case (carried i d1 d2 m)
    show ?thesis using same_withdrawals[OF rating_books[OF carried(1)]]
        same_withdrawals[OF lock_accrual_books[OF carried(3)]] same_withdrawals[OF accrual_books[OF carried(5)]] by simp
  qed (auto dest: rating_books same_withdrawals)
qed

interpretation account_check: withdrawal_neutral "reconcileBillingAccountState e a now" for e a now
proof (unfold_locales, goal_cases)
  case (1 d d' r)
  then obtain d1 st d2 b d3 plan where reads: "readBillingAccountState e a False d = Inr (d1, st)"
    "readBillingBuckets e a False d1 = Inr (d2, b)" "readCurrentBillingPlan e a False d2 = Inr (d3, plan)"
    and branch: "account_branch e a now st b plan d3 (d', r)" by (rule reconcile_account_reads)
  have "same_books d3 d'" using branch unfolding account_branch_def
    by (auto split: if_splits intro: account_state_books dest: state_branch_books)
  then show ?case
    using same_withdrawals[OF read_state_books[OF reads(1)]] same_withdrawals[OF read_buckets_books(1)[OF reads(2)]]
      same_withdrawals[OF read_plan_books[OF reads(3)]] by (simp add: same_withdrawals)
qed

interpretation depositing: withdrawal_neutral "creditDirectDeposit e a sig x config" for e a sig x config
proof (unfold_locales, goal_cases)
  case (1 d d' r)
  then show ?case
  proof (cases rule: deposit_cases)
    case (credited d1 n d2 d3 b d4)
    show ?thesis using same_withdrawals[OF credited(1)] ledger_entry(2)[OF credited(4)]
        same_withdrawals[OF read_buckets_books(1)[OF credited(5)]] write_withdrawals[OF credited(6)] same_withdrawals[OF credited(7)]
      by simp
  qed (rule same_withdrawals)
qed

subsubsection \<open>Transactions that move withdrawals\<close>

lemma create_follows:
  assumes "createWithdrawalRequest e actor amount dest token now d = Inr (d', r)"
  shows "follows (withdrawals d) (withdrawals d')"
  using assms
proof (cases rule: create_cases)
  case rejected
  then show ?thesis by (simp add: same_withdrawals)
next
  case (created d1 b d2 w d3 d4 i)
  have "withdrawals d' = withdrawals d @ [w]"
    using same_withdrawals[OF read_buckets_books(1)[OF created(1)]] same_withdrawals[OF created(2)]
      inserted_withdrawal(1)[OF created(6)] write_withdrawals[OF created(9)] same_withdrawals[OF created(10)] by simp
  then show ?thesis by (auto simp: follows_def)
qed

lemma cancel_follows:
  assumes "cancelOwnedWithdrawal e actor i d = Inr (d', r)" "withdrawals_ok d"
  shows "follows (withdrawals d) (withdrawals d')"
  using assms(1)
proof (cases rule: cancel_cases)
  case (closed w d1 b)
  have "withdrawals d' = update_where (\<lambda>x. wd_id x = wd_id w) (\<lambda>w. w\<lparr>wd_status := W_cancelled, wd_updated := env_now e\<rparr>) (withdrawals d)"
    using write_withdrawals[OF closed(4)] same_withdrawals[OF read_buckets_books(1)[OF closed(3)]]
    by (simp add: cancelWithdrawalRequest_def update_withdrawal_def)
  moreover have "wd_step (wd_status w) W_cancelled" using closed(2) by (rule wd_step.cancelled)
  ultimately show ?thesis using follows_row[OF _ found_withdrawal(1)[OF closed(1)]] assms(2) by (simp add: withdrawals_ok_def)
qed simp

lemma confirm_follows:
  assumes "confirmWithdrawal e a i d = Inr d'" "books_ok d"
  shows "follows (withdrawals d) (withdrawals d')"
proof (cases "\<exists>w. findWithdrawalForUpdate d a i = Inr (Some w) \<and> wd_status w \<noteq> W_confirmed")
  case False
  with confirm_kept[OF assms(1)] show ?thesis by (metis follows_refl)
next
  case True
  then obtain w where w: "findWithdrawalForUpdate d a i = Inr (Some w)" "wd_status w \<noteq> W_confirmed" by blast
  note effect = confirm_effect[OF assms w]
  show ?thesis unfolding effect(4)
    by (rule follows_row[OF _ found_withdrawal(1)[OF w(1)]])
      (use assms(2) effect(1) in \<open>simp_all add: books_ok_def withdrawals_ok_def wd_step.confirmed confirmed_row_def\<close>)
qed

lemma claim_follows:
  assumes "claimWithdrawalSigningJob e d = Inr (d', r)" "books_ok d"
  shows "follows (withdrawals d) (withdrawals d')"
proof -
  let ?d = "advanceWithdrawalCooldowns e d"
  obtain d1 w where claimed: "claimReadyWithdrawal e ?d = Inr (d1, w)" and d': "d' = d1 \<or> (\<exists>i err. d' = markWithdrawalFailed e i err d1)"
    using assms(1) by (rule signing_cases)
  from claimed have "follows (withdrawals ?d) (withdrawals d1)"
  proof (cases rule: claim_ready_cases)
    case (ready x)
    have "distinct (map wd_id (withdrawals ?d))" using open_step_books(1)[OF assms(2), of e] by (simp add: books_ok_def withdrawals_ok_def)
    from follows_row[OF this ready(1)] show ?thesis unfolding ready(3) update_withdrawal_def
      by (simp add: ready(2) wd_step.claimed)
  qed simp
  moreover have "follows (withdrawals d1) (withdrawals d')" using d' open_step_follows(2) by auto
  ultimately show ?thesis using open_step_follows(1) follows_trans by blast
qed

lemma step_follows: "billing_step d d' \<Longrightarrow> books_ok d \<Longrightarrow> follows (withdrawals d) (withdrawals d')"
proof (induction rule: billing_step.induct)
  case (submit e i sig d d')
  then show ?case unfolding recordWithdrawalSubmission_def by (blast intro: open_step_follows(3))
next
  case (fail_submission d e i err)
  then show ?case unfolding failWithdrawalSubmission_def by (blast intro: open_step_follows(2))
next
  case (credit e i d d')
  then show ?case by (simp add: credit_withdrawals)
next
  case (import_usage e m currency rs d d' x)
  then show ?case by (simp add: import_books(2))
next
  case (cancel e actor i d d' r)
  then show ?case by (intro cancel_follows) (auto simp: books_ok_def)
qed (blast intro: settlement.follows_withdrawals account_check.follows_withdrawals depositing.follows_withdrawals
      create_follows confirm_follows claim_follows follows_same[OF sweep_step_books(1)] follows_same[OF sweep_step_books(2)]
      follows_same[OF sweep_step_books(3)] follows_same[OF sweep_step_books(4)])+

text \<open>
  C8: The withdrawals follow their lifecycle: whatever the service does, a withdrawal stays on record
  with its account, amount and destination, its status moves only along the steps of the lifecycle,
  and a confirmed or cancelled one never moves again.
\<close>

theorem withdrawals_follow_lifecycle:
  assumes "books_ok d" "billing_step\<^sup>*\<^sup>* d d'" "w \<in> set (withdrawals d)"
  shows "\<exists>w'\<in>set (withdrawals d'). wd_id w' = wd_id w \<and> wd_account w' = wd_account w \<and> wd_amount w' = wd_amount w
    \<and> wd_destination w' = wd_destination w \<and> wd_step\<^sup>*\<^sup>* (wd_status w) (wd_status w')
    \<and> (\<not> open_withdrawal (wd_status w) \<longrightarrow> wd_status w' = wd_status w)"
proof -
  from assms(2,1) have "follows (withdrawals d) (withdrawals d')"
    by (induction rule: rtranclp_induct) (blast intro: follows_refl follows_trans step_follows reachable_books)+
  with assms(3) obtain w' where "w' \<in> set (withdrawals d')" "wd_id w' = wd_id w" "wd_account w' = wd_account w"
    "wd_amount w' = wd_amount w" "wd_destination w' = wd_destination w" "wd_step\<^sup>*\<^sup>* (wd_status w) (wd_status w')"
    by (auto simp: follows_def)
  with withdrawal_machine.final_forever show ?thesis by blast
qed

subsection \<open>Deposits are credited without loss\<close>

definition of_deposit :: "uuid \<Rightarrow> string \<Rightarrow> receipt_row \<Rightarrow> bool" where
  "of_deposit a m r \<longleftrightarrow> rc_account r = a \<and> rc_tokenMint r = m"

definition received :: "bdb \<Rightarrow> uuid \<Rightarrow> string \<Rightarrow> int" where
  "received d a m = sum_list (map rc_amount (filter (of_deposit a m) (receipts d)))"

definition credited :: "bdb \<Rightarrow> uuid \<Rightarrow> string \<Rightarrow> int" where
  "credited d a m = sum_list (map rc_credited (filter (of_deposit a m) (receipts d)))"

definition kept_remainder :: "bdb \<Rightarrow> uuid \<Rightarrow> string \<Rightarrow> int" where
  "kept_remainder d a m = (case find (\<lambda>r. rm_account r = a \<and> rm_tokenMint r = m) (remainders d) of
     None \<Rightarrow> 0 | Some r \<Rightarrow> rm_remainder r)"

definition deposits_ok :: "bdb \<Rightarrow> uuid \<Rightarrow> string \<Rightarrow> int \<Rightarrow> bool" where
  "deposits_ok d a m perMinor \<longleftrightarrow> received d a m = perMinor * credited d a m + kept_remainder d a m
     \<and> 0 \<le> kept_remainder d a m \<and> kept_remainder d a m < perMinor"

definition same_deposits :: "bdb \<Rightarrow> bdb \<Rightarrow> bool" where
  "same_deposits d d' \<longleftrightarrow> receipts d' = receipts d \<and> remainders d' = remainders d"

lemma ensure_deposits: "ensurePrepaidBillingState e a d = Inr d' \<Longrightarrow> same_deposits d d'"
  by (auto simp: ensurePrepaidBillingState_def insert_child_def same_deposits_def split: option.splits if_splits)

lemma credit_deposits:
  "ensureBillingAccount a c d = Inr d' \<Longrightarrow> same_deposits d d'"
  "insertLedgerEntry e i d = Inr (d', ins) \<Longrightarrow> same_deposits d d'"
  "readBillingBuckets e a False d = Inr (d', b) \<Longrightarrow> same_deposits d d'"
  "writeBillingBuckets a b d = Inr d' \<Longrightarrow> same_deposits d d'"
  "insertCashSweepRequest e w d = Inr d' \<Longrightarrow> same_deposits d d'"
  by (auto simp: ensureBillingAccount_def insertLedgerEntry_def new_id_def readBillingBuckets_def ensured_def Let_def
      writeBillingBuckets_def insertCashSweepRequest_def insert_child_def same_deposits_def
      split: if_splits prod.splits dest!: ensure_deposits)

lemma remainder_read:
  assumes "readSolanaDepositRemainderForUpdate a m d = Inr (d', x)"
  shows "receipts d' = receipts d" "kept_remainder d' b n = kept_remainder d b n" "x = kept_remainder d a m"
    "list_ex (\<lambda>r. rm_account r = a \<and> rm_tokenMint r = m) (remainders d')"
proof -
  let ?P = "\<lambda>r. rm_account r = a \<and> rm_tokenMint r = m"
  have inserted: "remainders d' = remainders d \<or> \<not> list_ex ?P (remainders d)
      \<and> remainders d' = remainders d @ [\<lparr>rm_account = a, rm_tokenMint = m, rm_remainder = 0\<rparr>]"
    and found: "find ?P (remainders d') \<noteq> None" "x = rm_remainder (the (find ?P (remainders d')))" "receipts d' = receipts d"
    using assms by (auto simp: readSolanaDepositRemainderForUpdate_def insert_child_def must_row_def split: if_splits option.splits)
  show kept: "kept_remainder d' b n = kept_remainder d b n" for b n
    using inserted by (auto simp: kept_remainder_def find_append find_is_None[symmetric] split: option.splits if_splits)
  show "x = kept_remainder d a m" using found(1,2) kept[of a m, unfolded kept_remainder_def[of d']] by auto
  show "receipts d' = receipts d" by (rule found)
  show "list_ex ?P (remainders d')" using found(1) by (simp add: find_is_None)
qed

lemma remainder_written:
  assumes "list_ex (\<lambda>r. rm_account r = a \<and> rm_tokenMint r = m) (remainders d)"
  shows "kept_remainder (writeSolanaDepositRemainder a m x d) a m = x"
    "receipts (writeSolanaDepositRemainder a m x d) = receipts d"
proof -
  from assms obtain r where "find (\<lambda>r. rm_account r = a \<and> rm_tokenMint r = m) (remainders d) = Some r"
    by (metis find_not_None)
  then show "kept_remainder (writeSolanaDepositRemainder a m x d) a m = x"
    by (auto simp: kept_remainder_def writeSolanaDepositRemainder_def find_update dest: find_SomeD)
qed (simp add: writeSolanaDepositRemainder_def)

lemma receipt_claimed:
  assumes "claimSolanaPaymentReceipt e sig a m x n d = Inr (d', claimed)"
  shows "remainders d' = remainders d" "\<not> claimed \<Longrightarrow> d' = d \<and> list_ex (\<lambda>r. rc_signature r = sig) (receipts d)"
    "claimed \<Longrightarrow> \<not> list_ex (\<lambda>r. rc_signature r = sig) (receipts d)
      \<and> (\<exists>r. receipts d' = receipts d @ [r] \<and> of_deposit a m r \<and> rc_amount r = x \<and> rc_credited r = n \<and> rc_signature r = sig)"
proof -
  have "claimed \<and> \<not> list_ex (\<lambda>r. rc_signature r = sig) (receipts d) \<and> d' = d\<lparr>receipts := receipts d @ [\<lparr>rc_signature = sig,
      rc_account = a, rc_sourceId = sig, rc_tokenMint = m, rc_amount = x, rc_credited = n, rc_observed = env_now e\<rparr>]\<rparr>
    \<or> \<not> claimed \<and> list_ex (\<lambda>r. rc_signature r = sig) (receipts d) \<and> d' = d"
  proof (cases "find (\<lambda>r. rc_signature r = sig) (receipts d)")
    case None
    then have "\<not> list_ex (\<lambda>r. rc_signature r = sig) (receipts d)" by (simp add: find_is_None)
    with None assms show ?thesis
      by (simp add: claimSolanaPaymentReceipt_def insert_child_def split: if_splits)
  next
    case (Some r)
    then have "list_ex (\<lambda>r. rc_signature r = sig) (receipts d)"
      using find_not_None[of "\<lambda>r. rc_signature r = sig" "receipts d"] by simp
    with Some assms show ?thesis by (simp add: claimSolanaPaymentReceipt_def split: if_splits)
  qed
  then show "remainders d' = remainders d" "\<not> claimed \<Longrightarrow> d' = d \<and> list_ex (\<lambda>r. rc_signature r = sig) (receipts d)"
    "claimed \<Longrightarrow> \<not> list_ex (\<lambda>r. rc_signature r = sig) (receipts d)
      \<and> (\<exists>r. receipts d' = receipts d @ [r] \<and> of_deposit a m r \<and> rc_amount r = x \<and> rc_credited r = n \<and> rc_signature r = sig)"
    by (auto simp: of_deposit_def)
qed

lemma converted:
  assumes "convertDepositToBillingMinor p x per = Inr (n, y)"
  shows "p + x = per * n + y" "0 \<le> y" "y < per" "0 \<le> n" "0 < x"
  using assms by (auto simp: convertDepositToBillingMinor_def Let_def pos_imp_zdiv_nonneg_iff split: if_splits)

lemma claimed_deposit:
  assumes "creditDirectDeposit e a sig x config d = Inr (d', r)"
  obtains p d1 n y d2 d3 claimed where "ensureBillingAccount a (dc_currency config) d = Inr d1"
    "readSolanaDepositRemainderForUpdate a (tc_mint (dc_token config)) d1 = Inr (d2, p)"
    "convertDepositToBillingMinor p x (tc_baseUnitsPerMinor (dc_token config)) = Inr (n, y)"
    "claimSolanaPaymentReceipt e sig a (tc_mint (dc_token config)) x n d2 = Inr (d3, claimed)"
    "\<not> claimed \<Longrightarrow> d' = d3 \<and> r = (True, 0)"
    "claimed \<Longrightarrow> same_deposits (writeSolanaDepositRemainder a (tc_mint (dc_token config)) y d3) d' \<and> r = (False, n)"
proof -
  let ?m = "tc_mint (dc_token config)"
  define tail where "tail n y = (\<lambda>d. and_then (insertLedgerEntry e (deposit_entry a sig n (dc_currency config)) d) (\<lambda>(d, inserted).
            if \<not> inserted then Inl (''direct deposit '' @ sig @ '' has a ledger entry without a payment receipt'')
            else and_then (readBillingBuckets e a False d) (\<lambda>(d, b).
              let nextBuckets = applyBucketCredit b n Credit_cash; debtRepaidMinor = debtMinor b - debtMinor nextBuckets in
              and_then (writeBillingBuckets a nextBuckets d) (\<lambda>d.
              and_then (if dc_native config then Inr d else insertCashSweepRequest e
                  \<lparr>sw_account = a, sw_sourceType = ''direct_deposit_debt_repayment'', sw_sourceId = sig,
                   sw_amount = debtRepaidMinor, sw_tokenSymbol = tc_symbol (dc_token config), sw_tokenMint = ?m,
                   sw_tokenAmount = debtRepaidMinor * tc_baseUnitsPerMinor (dc_token config)\<rparr> d) (\<lambda>d.
                Inr (d, False, n))))))" for n :: int and y :: int
  from assms obtain d1 p d2 n y d3 claimed where c: "ensureBillingAccount a (dc_currency config) d = Inr d1"
    "readSolanaDepositRemainderForUpdate a ?m d1 = Inr (d2, p)"
    "convertDepositToBillingMinor p x (tc_baseUnitsPerMinor (dc_token config)) = Inr (n, y)"
    "claimSolanaPaymentReceipt e sig a ?m x n d2 = Inr (d3, claimed)"
    and rest: "(if \<not> claimed then Inr (d3, True, 0) else let d = writeSolanaDepositRemainder a ?m y d3 in
          if n \<le> 0 then Inr (d, False, 0) else tail n y d) = Inr (d', r)"
    unfolding creditDirectDeposit_def tail_def Let_def by (auto simp del: if_split)
  have "same_deposits (writeSolanaDepositRemainder a ?m y d3) d' \<and> r = (False, n)" if claimed
  proof (cases "n \<le> 0")
    case True
    moreover have "0 \<le> n" by (rule converted(4)[OF c(3)])
    ultimately show ?thesis using rest that by (simp add: Let_def same_deposits_def)
  next
    case False
    with rest that have "tail n y (writeSolanaDepositRemainder a ?m y d3) = Inr (d', r)" by (simp add: Let_def)
    then show ?thesis unfolding tail_def Let_def
      by (auto split: if_splits dest!: credit_deposits simp: same_deposits_def)
  qed
  with that[OF c] rest show thesis by (simp split: if_splits)
qed

text \<open>What a deposit does to the money: a credit of whole cents is one ledger entry and one bucket credit.\<close>

lemma deposit_money:
  assumes "creditDirectDeposit e a sig x config d = Inr (d', known, n)"
  shows "b \<noteq> a \<or> n = 0 \<Longrightarrow> buckets_of d' b = buckets_of d b" "n = 0 \<Longrightarrow> ledger d' = ledger d"
    "n \<noteq> 0 \<Longrightarrow> buckets_of d' a = applyBucketCredit (buckets_of d a) n Credit_cash
       \<and> (\<exists>l. ledger d' = ledger d @ [l] \<and> le_account l = a \<and> le_amount l = n
            \<and> le_sourceType l = ''solana_direct_deposit'' \<and> le_sourceId l = sig)"
proof -
  from assms have "(b \<noteq> a \<or> n = 0 \<longrightarrow> buckets_of d' b = buckets_of d b) \<and> (n = 0 \<longrightarrow> ledger d' = ledger d)
    \<and> (n \<noteq> 0 \<longrightarrow> buckets_of d' a = applyBucketCredit (buckets_of d a) n Credit_cash
       \<and> (\<exists>l. ledger d' = ledger d @ [l] \<and> le_account l = a \<and> le_amount l = n
            \<and> le_sourceType l = ''solana_direct_deposit'' \<and> le_sourceId l = sig))"
  proof (cases rule: deposit_cases)
    case nothing
    then show ?thesis by (simp add: same_books_def)
  next
    case (credited d1 k d2 d3 c d4)
    note entry = ledger_entry[OF credited(4)] and read = read_buckets_books[OF credited(5)]
    have k: "k = n" "ledger d1 = ledger d" "\<And>t. buckets_of d1 t = buckets_of d t" using credited(1,3) by (simp_all add: same_books_def)
    have c: "c = buckets_of d a" using read(3) entry(1) k(3)[of a] by (simp add: buckets_of_def)
    have present: "list_ex (\<lambda>r. bb_account r = a) (balance_buckets d3)" using read(4) .
    note written = write_buckets[OF credited(6) present]
    have "buckets_of d' t = (if t = a then applyBucketCredit (buckets_of d a) n Credit_cash else buckets_of d t)" for t
      using written(4)[of t] credited(7) read(1) entry(1) k(3)[of t] by (auto simp: same_books_def c k(1) buckets_of_def)
    moreover have "\<exists>l. ledger d' = ledger d @ [l] \<and> le_account l = a \<and> le_amount l = n
        \<and> le_sourceType l = ''solana_direct_deposit'' \<and> le_sourceId l = sig"
      using entry(4) written(1) credited(7) read(1) k by (auto simp: same_books_def deposit_entry_def)
    ultimately show ?thesis using credited(2) k(1) by simp
  qed
  then show "b \<noteq> a \<or> n = 0 \<Longrightarrow> buckets_of d' b = buckets_of d b" "n = 0 \<Longrightarrow> ledger d' = ledger d"
    "n \<noteq> 0 \<Longrightarrow> buckets_of d' a = applyBucketCredit (buckets_of d a) n Credit_cash
       \<and> (\<exists>l. ledger d' = ledger d @ [l] \<and> le_account l = a \<and> le_amount l = n
            \<and> le_sourceType l = ''solana_direct_deposit'' \<and> le_sourceId l = sig)" by blast+
qed

text \<open>
  C10: A deposit is credited exactly once and nothing of it is lost.  The base units of an account's
  receipts are what was credited for them, in cents, plus the remainder kept for the next deposit,
  which is below one cent.  A new transaction is credited with the whole cents of the remainder and
  the amount, and that very number of cents goes to the account's buckets as cash and to the ledger as
  one entry under the transaction's signature (less than one cent moves no money); a transaction
  known before is credited with nothing.  No other account's money moves.
\<close>

theorem deposits_conserved:
  assumes "creditDirectDeposit e a sig x config d = Inr (d', known, n)"
    and "deposits_ok d a (tc_mint (dc_token config)) (tc_baseUnitsPerMinor (dc_token config))"
  shows "deposits_ok d' a (tc_mint (dc_token config)) (tc_baseUnitsPerMinor (dc_token config))
    \<and> (known \<longleftrightarrow> list_ex (\<lambda>r. rc_signature r = sig) (receipts d)) \<and> list_ex (\<lambda>r. rc_signature r = sig) (receipts d')
    \<and> (if known then receipts d' = receipts d \<and> n = 0
       else received d' a (tc_mint (dc_token config)) = received d a (tc_mint (dc_token config)) + x
         \<and> credited d' a (tc_mint (dc_token config)) = credited d a (tc_mint (dc_token config)) + n
         \<and> n = (kept_remainder d a (tc_mint (dc_token config)) + x) div tc_baseUnitsPerMinor (dc_token config))
    \<and> (if n = 0 then ledger d' = ledger d \<and> buckets_of d' a = buckets_of d a
       else 0 < n \<and> buckets_of d' a = applyBucketCredit (buckets_of d a) n Credit_cash
         \<and> (\<exists>l. ledger d' = ledger d @ [l] \<and> le_account l = a \<and> le_amount l = n
              \<and> le_sourceType l = ''solana_direct_deposit'' \<and> le_sourceId l = sig))
    \<and> (\<forall>b. b \<noteq> a \<longrightarrow> buckets_of d' b = buckets_of d b)"
  using assms(1)
proof (rule claimed_deposit)
  let ?m = "tc_mint (dc_token config)"
  fix d1 p n' y d2 d3 claimed
  assume c: "ensureBillingAccount a (dc_currency config) d = Inr d1" "readSolanaDepositRemainderForUpdate a ?m d1 = Inr (d2, p)"
    "convertDepositToBillingMinor p x (tc_baseUnitsPerMinor (dc_token config)) = Inr (n', y)"
    "claimSolanaPaymentReceipt e sig a ?m x n' d2 = Inr (d3, claimed)" "\<not> claimed \<Longrightarrow> d' = d3 \<and> (known, n) = (True, 0)"
    "claimed \<Longrightarrow> same_deposits (writeSolanaDepositRemainder a ?m y d3) d' \<and> (known, n) = (False, n')"
  note read = remainder_read[OF c(2)] and receipt = receipt_claimed[OF c(4)]
  have d1: "receipts d1 = receipts d" "kept_remainder d1 a ?m = kept_remainder d a ?m"
    using credit_deposits(1)[OF c(1)] by (simp_all add: same_deposits_def kept_remainder_def)
  show ?thesis
  proof (cases claimed)
    case False
    then have "d' = d2" "known" "receipts d2 = receipts d" "list_ex (\<lambda>r. rc_signature r = sig) (receipts d)"
      using receipt(2) c(5) read(1) d1(1) by auto
    moreover have "n = 0" using c(5) False by auto
    ultimately show ?thesis using assms(2) read(2) d1(2) deposit_money[OF assms(1)] by (simp add: deposits_ok_def received_def credited_def)
  next
    case True
    from receipt(3)[OF True] obtain r where r: "\<not> list_ex (\<lambda>r. rc_signature r = sig) (receipts d2)"
      "receipts d3 = receipts d2 @ [r]" "of_deposit a ?m r" "rc_amount r = x" "rc_credited r = n'" "rc_signature r = sig" by blast
    have "list_ex (\<lambda>r. rm_account r = a \<and> rm_tokenMint r = ?m) (remainders d3)" using read(4) receipt(1) by simp
    note written = remainder_written[OF this, of y]
    from c(6)[OF True] have d': "same_deposits (writeSolanaDepositRemainder a ?m y d3) d'" "\<not> known" "n = n'" by auto
    then have rows: "receipts d' = receipts d @ [r]" "kept_remainder d' a ?m = y"
      using written r(2) read(1) d1(1) by (auto simp: same_deposits_def kept_remainder_def)
    have cents: "n = (kept_remainder d a ?m + x) div tc_baseUnitsPerMinor (dc_token config)" "0 \<le> n"
      using int_div_pos_eq[OF converted(1-3)[OF c(3)]] converted(4)[OF c(3)] read(3) d1(2) d'(3) by simp_all
    have money: "(if n = 0 then ledger d' = ledger d \<and> buckets_of d' a = buckets_of d a
       else 0 < n \<and> buckets_of d' a = applyBucketCredit (buckets_of d a) n Credit_cash
         \<and> (\<exists>l. ledger d' = ledger d @ [l] \<and> le_account l = a \<and> le_amount l = n
              \<and> le_sourceType l = ''solana_direct_deposit'' \<and> le_sourceId l = sig))
      \<and> (\<forall>b. b \<noteq> a \<longrightarrow> buckets_of d' b = buckets_of d b)"
      using deposit_money[OF assms(1)] cents(2) by simp
    have "deposits_ok d' a ?m (tc_baseUnitsPerMinor (dc_token config)) \<and> (known \<longleftrightarrow> list_ex (\<lambda>r. rc_signature r = sig) (receipts d))
      \<and> list_ex (\<lambda>r. rc_signature r = sig) (receipts d') \<and> received d' a ?m = received d a ?m + x \<and> credited d' a ?m = credited d a ?m + n"
      using rows converted[OF c(3)] assms(2) r(1,3-6) d'(2,3) read(1,3) d1
      by (simp add: deposits_ok_def received_def credited_def algebra_simps)
    with cents(1) money show ?thesis unfolding if_not_P[OF d'(2)] by blast
  qed
qed

subsection \<open>The 32-bit casts\<close>

lemma read_buckets_int4: "readBillingBuckets e a k d = Inr (d', b) \<Longrightarrow> cashMinor b \<le> 2147483647"
  by (auto simp: readBillingBuckets_def Let_def int4_def split: if_splits)

lemma credit_effect:
  assumes "applyBillingCredit e i d = Inr d'" "\<not> posted_source d (ci_sourceType i) (ci_sourceId i)"
  shows "buckets_of d' (ci_account i) = applyBucketCredit (buckets_of d (ci_account i)) (ci_amount i) (ci_kind i)"
proof -
  let ?i = "\<lparr>li_account = ci_account i,
    li_entryType = (if ci_kind i = Credit_cash then ''topup'' else ''manual_credit''), li_amount = ci_amount i,
    li_currency = ''USD'', li_sourceType = ci_sourceType i, li_sourceId = ci_sourceId i, li_description = ci_description i\<rparr>"
  from assms(1) obtain d1 b d2 inserted where r: "readBillingBuckets e (ci_account i) False d = Inr (d1, b)"
    and l: "insertLedgerEntry e ?i d1 = Inr (d2, inserted)"
    and w: "(if inserted then writeBillingBuckets (ci_account i) (applyBucketCredit b (ci_amount i) (ci_kind i)) d2 else Inr d2) = Inr d'"
    unfolding applyBillingCredit_def by (auto split: if_splits)
  note read = read_buckets_books[OF r]
  have inserted: "inserted" using ledger_entry(3)[OF l] assms(2) read(1) by (auto simp: posted_source_def same_books_def)
  have "list_ex (\<lambda>r. bb_account r = ci_account i) (balance_buckets d2)" using read(4) ledger_entry(1)[OF l] by simp
  with write_buckets(4)[of "ci_account i" _ d2 d' "ci_account i"] w inserted read(3) show ?thesis by simp
qed

text \<open>
  C17: A credit the service accepts can lock the account: once its cash exceeds 32 bits, the buckets
  can no longer be read, so every later credit and every check of the account fails.
\<close>

theorem large_credit_locks:
  assumes "applyBillingCredit e i d = Inr d'" "\<not> posted_source d (ci_sourceType i) (ci_sourceId i)" "ci_kind i = Credit_cash"
    and "buckets_ok (buckets_of d (ci_account i))"
    and "2147483647 + debtMinor (buckets_of d (ci_account i)) < cashMinor (buckets_of d (ci_account i)) + ci_amount i"
  shows "(\<exists>err. readBillingBuckets e' (ci_account i) k d' = Inl err)
    \<and> (\<exists>err. reconcileBillingAccountState e' (ci_account i) now d' = Inl err)
    \<and> (ci_account i' = ci_account i \<longrightarrow> (\<exists>err. applyBillingCredit e' i' d' = Inl err))"
proof -
  let ?a = "ci_account i"
  have cash: "2147483647 < cashMinor (buckets_of d' ?a)"
    unfolding credit_effect[OF assms(1,2)] using assms(3,4,5) by (auto simp: applyBucketCredit_def Let_def buckets_ok_def)
  have unreadable: False if "buckets_of d2 ?a = buckets_of d' ?a" "readBillingBuckets e' ?a k d2 = Inr (d3, b)" for k d2 d3 b
    using cash that(1) read_buckets_int4[OF that(2)] read_buckets_books(3)[OF that(2)] by simp
  have "\<exists>err. readBillingBuckets e' ?a k d' = Inl err"
    using unreadable[OF refl] by (cases "readBillingBuckets e' ?a k d'") auto
  moreover have "\<exists>err. reconcileBillingAccountState e' ?a now d' = Inl err"
  proof (cases "reconcileBillingAccountState e' ?a now d'")
    case (Inr r)
    then obtain d1 st d2 b where "readBillingAccountState e' ?a False d' = Inr (d1, st)" "readBillingBuckets e' ?a False d1 = Inr (d2, b)"
      by (rule reconcile_account_reads)
    with unreadable[of d1] read_state_books[of e' ?a False d' d1 st] show ?thesis by (auto simp: same_books_def)
  qed simp
  moreover have "\<exists>err. applyBillingCredit e' i' d' = Inl err" if "ci_account i' = ?a"
    using unreadable[of d' False, OF refl] that by (cases "applyBillingCredit e' i' d'") (auto simp: applyBillingCredit_def split: if_splits)
  ultimately show ?thesis by blast
qed

subsection \<open>Witnesses\<close>

definition demo_credit :: "int \<Rightarrow> credit_input" where
  "demo_credit n = \<lparr>ci_account = ''acct'', ci_amount = n, ci_kind = Credit_cash, ci_sourceType = ''admin_credit'',
     ci_sourceId = ''c1'', ci_description = ''credit''\<rparr>"

definition funded_bdb :: "int \<Rightarrow> bdb" where
  "funded_bdb n = (case applyBillingCredit sample_env (demo_credit n) demo_bdb of Inl _ \<Rightarrow> demo_bdb | Inr d \<Rightarrow> d)"

definition idle_bdb :: bdb where
  "idle_bdb = (case applyBillingCredit sample_env (demo_credit 1000) (demo_bdb\<lparr>core := empty_db\<rparr>) of Inl _ \<Rightarrow> demo_bdb | Inr d \<Rightarrow> d)"

definition demo_owner :: session_owner where
  "demo_owner = \<lparr>ow_id = ''user'', ow_accountId = ''acct''\<rparr>"

lemma funded:
  "applyBillingCredit sample_env (demo_credit 1000) demo_bdb = Inr (funded_bdb 1000)"
  "applyBillingCredit sample_env (demo_credit 3000000000) demo_bdb = Inr (funded_bdb 3000000000)"
proof -
  have "case applyBillingCredit sample_env (demo_credit 1000) demo_bdb of Inl _ \<Rightarrow> False | Inr _ \<Rightarrow> True" by code_simp
  then show "applyBillingCredit sample_env (demo_credit 1000) demo_bdb = Inr (funded_bdb 1000)"
    by (auto simp: funded_bdb_def split: sum.splits)
  have "case applyBillingCredit sample_env (demo_credit 3000000000) demo_bdb of Inl _ \<Rightarrow> False | Inr _ \<Rightarrow> True" by code_simp
  then show "applyBillingCredit sample_env (demo_credit 3000000000) demo_bdb = Inr (funded_bdb 3000000000)"
    by (auto simp: funded_bdb_def split: sum.splits)
qed

lemma demo_no_money: "no_money_yet demo_bdb"
  by (simp add: no_money_yet_def demo_bdb_def)

definition demo_record :: usage_record where
  "demo_record = \<lparr>ur_recordId = '' r1'', ur_accountId = Some ''acct'', ur_sessionId = None, ur_cost = JInt 100, ur_currency = None\<rparr>"

lemma funded_step: "billing_step demo_bdb (funded_bdb 1000)"
  using funded(1) by (rule billing_step.credit) (simp add: demo_credit_def withdrawal_source_def rated_source_def)

definition charged_bdb :: bdb where
  "charged_bdb = (case importDoubleZeroUsage sample_env 2000 ''USD'' [demo_record] (funded_bdb 1000) of Inl _ \<Rightarrow> demo_bdb | Inr (d, _) \<Rightarrow> d)"

lemma charged_step: "billing_step (funded_bdb 1000) charged_bdb"
proof -
  have "case importDoubleZeroUsage sample_env 2000 ''USD'' [demo_record] (funded_bdb 1000) of Inl _ \<Rightarrow> False | Inr _ \<Rightarrow> True" by code_simp
  then show ?thesis unfolding charged_bdb_def by (auto split: sum.splits prod.splits intro: billing_step.import_usage)
qed

theorem books_balance_witness:
  "billing_step\<^sup>*\<^sup>* demo_bdb charged_bdb \<and> balance charged_bdb ''acct'' = 880 \<and> imported_charges charged_bdb ''acct'' = 120
     \<and> cashMinor (buckets_of charged_bdb ''acct'') + promotionalMinor (buckets_of charged_bdb ''acct'')
       - debtMinor (buckets_of charged_bdb ''acct'') = 1000"
proof -
  have run: "billing_step\<^sup>*\<^sup>* demo_bdb charged_bdb" using funded_step charged_step by (meson rtranclp.rtrancl_into_rtrancl r_into_rtranclp)
  moreover have "balance charged_bdb ''acct'' = 880" "imported_charges charged_bdb ''acct'' = 120" by code_simp+
  ultimately show ?thesis using books_balance[OF demo_no_money run, of "''acct''"] by simp
qed

theorem large_credit_locks_witness:
  "applyBillingCredit sample_env (demo_credit 3000000000) demo_bdb = Inr (funded_bdb 3000000000)
     \<and> (\<exists>err. readBillingBuckets sample_env ''acct'' False (funded_bdb 3000000000) = Inl err)"
proof -
  have "\<not> posted_source demo_bdb (ci_sourceType (demo_credit 3000000000)) (ci_sourceId (demo_credit 3000000000))"
    by (simp add: posted_source_def demo_bdb_def)
  moreover have "buckets_of demo_bdb ''acct'' = zero_buckets" by (simp add: buckets_of_def demo_bdb_def)
  ultimately show ?thesis
    using large_credit_locks[OF funded(2), of sample_env False undefined undefined] funded(2)
    by (simp add: demo_credit_def zero_buckets_def buckets_ok_def)
qed

definition demo_token :: token_config where
  "demo_token = \<lparr>tc_symbol = ''USDC'', tc_mint = ''mint'', tc_baseUnitsPerMinor = 10000\<rparr>"

definition demo_withdrawal :: "string + (bdb \<times> create_withdrawal_result)" where
  "demo_withdrawal = createWithdrawalRequest sample_env demo_owner 500 ''11111111111111111111111111111112'' demo_token 0 idle_bdb"

definition withdrawing_bdb :: bdb where
  "withdrawing_bdb = (case demo_withdrawal of Inl _ \<Rightarrow> idle_bdb | Inr (d, _) \<Rightarrow> d)"

definition submitted_bdb :: bdb where
  "submitted_bdb = update_withdrawal (\<lambda>w. True) (\<lambda>w. w\<lparr>wd_status := W_submitted\<rparr>) withdrawing_bdb"

lemma idle_books: "books_ok idle_bdb"
proof -
  have "case applyBillingCredit sample_env (demo_credit 1000) (demo_bdb\<lparr>core := empty_db\<rparr>) of Inl _ \<Rightarrow> False | Inr _ \<Rightarrow> True"
    by code_simp
  then have "applyBillingCredit sample_env (demo_credit 1000) (demo_bdb\<lparr>core := empty_db\<rparr>) = Inr idle_bdb"
    by (auto simp: idle_bdb_def split: sum.splits)
  moreover have "books_ok (demo_bdb\<lparr>core := empty_db\<rparr>)" by (rule initial_books) (simp add: no_money_yet_def demo_bdb_def)
  ultimately show ?thesis by (rule credit_books) (simp add: demo_credit_def withdrawal_source_def rated_source_def)
qed

lemma demo_created:
  "\<exists>w. createWithdrawalRequest sample_env demo_owner 500 ''11111111111111111111111111111112'' demo_token 0 idle_bdb
     = Inr (withdrawing_bdb, CWR_created w)"
proof -
  have "case demo_withdrawal of Inl _ \<Rightarrow> False | Inr x \<Rightarrow> (case snd x of CWR_created _ \<Rightarrow> True | _ \<Rightarrow> False)" by code_simp
  then obtain d r where r: "demo_withdrawal = Inr (d, r)" "case r of CWR_created _ \<Rightarrow> True | _ \<Rightarrow> False"
    by (auto split: sum.splits)
  then obtain w where w: "demo_withdrawal = Inr (d, CWR_created w)" by (cases r) auto
  have "withdrawing_bdb = d" unfolding withdrawing_bdb_def w by simp
  with w show ?thesis unfolding demo_withdrawal_def by blast
qed

lemma withdrawing_books: "books_ok withdrawing_bdb"
  using demo_created idle_books create_books by blast

lemma demo_rows: "map wd_status (withdrawals withdrawing_bdb) = [W_cooldown]" "map wd_id (withdrawals withdrawing_bdb) = [''u1'']"
  by code_simp+

lemma submitted_books: "books_ok submitted_bdb"
proof -
  have "wd_status w = W_cooldown" if "w \<in> set (withdrawals withdrawing_bdb)" for w
    using imageI[OF that, of wd_status] demo_rows(1) by (metis list.set_map list.simps(15) empty_set singletonD)
  then show ?thesis unfolding submitted_bdb_def by (intro update_open_books[OF withdrawing_books]) auto
qed

theorem confirmation_exact_witness:
  "\<exists>d'. confirmWithdrawal sample_env ''acct'' ''u1'' submitted_bdb = Inr d' \<and> balance d' ''acct'' = 500
     \<and> cashMinor (buckets_of d' ''acct'') = 500 \<and> confirmWithdrawal sample_env ''acct'' ''u1'' d' = Inr d'"
proof -
  have "case confirmWithdrawal sample_env ''acct'' ''u1'' submitted_bdb of Inl _ \<Rightarrow> False | Inr _ \<Rightarrow> True" by code_simp
  then obtain d' where d': "confirmWithdrawal sample_env ''acct'' ''u1'' submitted_bdb = Inr d'" by (auto split: sum.splits)
  have "case findWithdrawalForUpdate submitted_bdb ''acct'' ''u1'' of
      Inr (Some w) \<Rightarrow> wd_status w = W_submitted \<and> wd_amount w = 500 | _ \<Rightarrow> False" by code_simp
  then obtain w where w: "findWithdrawalForUpdate submitted_bdb ''acct'' ''u1'' = Inr (Some w)" "wd_status w = W_submitted" "wd_amount w = 500"
    by (auto split: sum.splits option.splits)
  have "balance submitted_bdb ''acct'' = 1000" "cashMinor (buckets_of submitted_bdb ''acct'') = 1000" by code_simp+
  with confirmation_exact[OF submitted_books w(1,2)] d' w(3) show ?thesis by (auto simp: paid_out_def)
qed

theorem withdrawals_follow_lifecycle_witness:
  "\<exists>d'. billing_step\<^sup>*\<^sup>* withdrawing_bdb d' \<and> (\<exists>w\<in>set (withdrawals d'). wd_id w = ''u1'' \<and> wd_step\<^sup>*\<^sup>* W_cooldown (wd_status w))"
proof -
  have "case cancelOwnedWithdrawal sample_env demo_owner ''u1'' withdrawing_bdb of Inl _ \<Rightarrow> False | Inr x \<Rightarrow> snd x = CR_cancelled"
    by code_simp
  then obtain d' where "cancelOwnedWithdrawal sample_env demo_owner ''u1'' withdrawing_bdb = Inr (d', CR_cancelled)"
    by (auto split: sum.splits)
  then have step: "billing_step\<^sup>*\<^sup>* withdrawing_bdb d'" by (blast intro: billing_step.cancel)
  obtain w where w: "w \<in> set (withdrawals withdrawing_bdb)" "wd_id w = ''u1''" "wd_status w = W_cooldown"
    using demo_rows by (cases "withdrawals withdrawing_bdb") auto
  from withdrawals_follow_lifecycle[OF withdrawing_books step w(1)] step w(2,3) show ?thesis by auto
qed

definition demo_deposit_config :: deposit_config where
  "demo_deposit_config = \<lparr>dc_currency = ''USD'', dc_token = demo_token, dc_native = False\<rparr>"

theorem deposits_conserved_witness:
  "\<exists>d' n. creditDirectDeposit sample_env ''acct'' ''sig'' 25000 demo_deposit_config demo_bdb = Inr (d', False, n)
     \<and> n = 2 \<and> deposits_ok d' ''acct'' ''mint'' 10000 \<and> received d' ''acct'' ''mint'' = 25000
     \<and> cashMinor (buckets_of d' ''acct'') = 2"
proof -
  have "case creditDirectDeposit sample_env ''acct'' ''sig'' 25000 demo_deposit_config demo_bdb of Inl _ \<Rightarrow> False
      | Inr x \<Rightarrow> \<not> fst (snd x)" by code_simp
  then obtain d' n where d': "creditDirectDeposit sample_env ''acct'' ''sig'' 25000 demo_deposit_config demo_bdb = Inr (d', False, n)"
    by (auto split: sum.splits)
  have config: "tc_mint (dc_token demo_deposit_config) = ''mint''" "tc_baseUnitsPerMinor (dc_token demo_deposit_config) = 10000"
    by (simp_all add: demo_deposit_config_def demo_token_def)
  have empty: "received demo_bdb ''acct'' ''mint'' = 0" "credited demo_bdb ''acct'' ''mint'' = 0" "kept_remainder demo_bdb ''acct'' ''mint'' = 0"
    by (simp_all add: received_def credited_def kept_remainder_def demo_bdb_def)
  then have "deposits_ok demo_bdb ''acct'' ''mint'' 10000" by (simp add: deposits_ok_def)
  moreover have "buckets_of demo_bdb ''acct'' = zero_buckets" by (simp add: buckets_of_def demo_bdb_def)
  ultimately show ?thesis using deposits_conserved[OF d', unfolded config] d' empty
    by (auto simp: applyBucketCredit_def zero_buckets_def)
qed

end
