(* ===== verification/Quota.thy ===== *)
theory Quota
  imports Books
begin

section \<open>Traffic quotas and imported usage\<close>

text \<open>
  \<open>application/billing/traffic-quota.scenario.ts\<close> (sessions that used up their traffic are revoked) and
  \<open>admin-traffic-quota.scenario.ts\<close> (an administrator raises a quota), with
  \<open>resources/billing/traffic-quota-repository.ts\<close>, and what an import of usage (\<open>UsageImport\<close>) does to
  the books.  \<open>SKIP LOCKED\<close> skips nothing: transactions are serial.
\<close>

subsection \<open>Enforcement\<close>

definition quota_join :: "db \<Rightarrow> (traffic_row \<times> session_row \<times> session_status_row) list" where
  "quota_join c = concat (map (\<lambda>t. map (\<lambda>x. (t, x)) (filter (\<lambda>x. ss_id (fst x) = te_session t) (session_join c)))
     (traffic_entitlements c))"

definition exhausted :: "traffic_row \<times> session_row \<times> session_status_row \<Rightarrow> bool" where
  "exhausted x \<longleftrightarrow> (case x of (t, s, st) \<Rightarrow> te_exhausted t = None \<and> te_included t \<le> te_consumed t \<and> ss_account s \<noteq> None
     \<and> ss_desired s = SD_Active \<and> st_phase st \<notin> {S_revoking, S_revoked, S_failed})"

definition findExhaustedSessionTrafficEntitlementForUpdate ::
    "db \<Rightarrow> (traffic_row \<times> session_row \<times> session_status_row) option" where
  "findExhaustedSessionTrafficEntitlementForUpdate c =
     (case sort_key (\<lambda>x. te_updated (fst x)) (sort_key (\<lambda>x. te_session (fst x)) (filter exhausted (quota_join c))) of
        [] \<Rightarrow> None | x # _ \<Rightarrow> Some x)"

definition markSessionTrafficEntitlementExhausted :: "env \<Rightarrow> uuid \<Rightarrow> db \<Rightarrow> db" where
  "markSessionTrafficEntitlementExhausted e sessionId c =
     c\<lparr>traffic_entitlements := update_where (\<lambda>t. te_session t = sessionId)
        (\<lambda>t. t\<lparr>te_exhausted := Some (case te_exhausted t of None \<Rightarrow> env_now e | Some x \<Rightarrow> x), te_updated := env_now e\<rparr>)
        (traffic_entitlements c)\<rparr>"

definition quota_reason :: "traffic_row \<Rightarrow> js_record" where
  "quota_reason t = [(''code'', JStr ''traffic_quota_exhausted''), (''includedBytes'', JStr (js_int (te_included t))),
     (''consumedBytes'', JStr (js_int (te_consumed t)))]"

definition quota_payload :: "traffic_row \<Rightarrow> session_row \<Rightarrow> js_record" where
  "quota_payload t s = [(''configs'', JArr [JObj [(''id'', JStr (te_session t)),
        (''label'', JStr (case ss_label s of None \<Rightarrow> [] | Some l \<Rightarrow> l))]]),
     (''includedBytes'', JStr (js_int (te_included t))), (''consumedBytes'', JStr (js_int (te_consumed t)))]"

text \<open>One transaction: whether an entitlement was found, and whether its session's revocation was requested.\<close>

definition enforce_next :: "env \<Rightarrow> bdb \<Rightarrow> string + (bdb \<times> bool option)" where
  "enforce_next e d =
     (case findExhaustedSessionTrafficEntitlementForUpdate (core d) of
        None \<Rightarrow> Inr (d, None)
      | Some (t, s, st) \<Rightarrow>
          let (c, revoked) = requestSystemSessionRevocation e (te_session t) (quota_reason t) (core d);
              d = d\<lparr>core := markSessionTrafficEntitlementExhausted e (te_session t) c\<rparr>; a = the (ss_account s)
          in if revoked then and_then (ensureBillingAccount a ''USD'' d) (\<lambda>d.
               and_then (enqueueBillingNotification e a ''traffic_quota_exhausted''
                 (''traffic-quota-exhausted:'' @ te_session t) (quota_payload t s) d) (\<lambda>d. Inr (d, Some True)))
             else Inr (d, Some False))"

record quota_result =
  qr_exhausted :: nat
  qr_revocationsRequested :: nat

fun enforce_loop :: "(nat \<Rightarrow> env) \<Rightarrow> nat \<Rightarrow> nat \<Rightarrow> quota_result \<Rightarrow> bdb \<Rightarrow> bdb \<times> (string + quota_result)" where
  "enforce_loop e k 0 r d = (d, Inr r)"
| "enforce_loop e k (Suc n) r d =
     (case enforce_next (e k) d of
        Inl err \<Rightarrow> (d, Inl err)
      | Inr (d', None) \<Rightarrow> (d', Inr r)
      | Inr (d', Some revoked) \<Rightarrow> enforce_loop e (Suc k) n (r\<lparr>qr_exhausted := qr_exhausted r + 1,
          qr_revocationsRequested := qr_revocationsRequested r + (if revoked then 1 else 0)\<rparr>) d')"

definition quota_limit :: "int \<Rightarrow> nat" where
  "quota_limit batchSize = nat (max 1 (min 1000 batchSize))"

definition enforceSessionTrafficQuotas :: "(nat \<Rightarrow> env) \<Rightarrow> int \<Rightarrow> bdb \<Rightarrow> bdb \<times> (string + quota_result)" where
  "enforceSessionTrafficQuotas e batchSize =
     enforce_loop e 0 (quota_limit batchSize) \<lparr>qr_exhausted = 0, qr_revocationsRequested = 0\<rparr>"

subsection \<open>Raising a quota\<close>

record locked_quota =
  lq_account :: uuid
  lq_included :: int
  lq_consumed :: int
  lq_desired :: session_desired
  lq_phase :: session_phase
  lq_generation :: int
  lq_quotaRevoked :: bool

text \<open>
  The last request to revoke the session.  The code orders by time and then by the random identifier of
  the event; of several at the same time the last recorded is taken here.
\<close>

definition last_revoke :: "db \<Rightarrow> uuid \<Rightarrow> audit_row option" where
  "last_revoke c sessionId = (case rev (sort_key au_created
       (filter (\<lambda>a. au_session a = Some sessionId \<and> au_event a = ''session_revoke_requested'') (audit_events c))) of
     [] \<Rightarrow> None | a # _ \<Rightarrow> Some a)"

definition revoked_by_quota :: "db \<Rightarrow> uuid \<Rightarrow> bool" where
  "revoked_by_quota c sessionId = (case last_revoke c sessionId of None \<Rightarrow> False
     | Some a \<Rightarrow> au_actorType a = ''system'' \<and> sql_text (js_prop (asRecord (Some (au_details a))) ''code'') = Some ''traffic_quota_exhausted'')"

definition readTrafficQuotaForUpdate :: "db \<Rightarrow> uuid \<Rightarrow> locked_quota option" where
  "readTrafficQuotaForUpdate c sessionId =
     (case find (\<lambda>(t, s, st). ss_id s = sessionId \<and> ss_account s \<noteq> None \<and> ss_hidden s = None) (quota_join c) of
        None \<Rightarrow> None
      | Some (t, s, st) \<Rightarrow> Some \<lparr>lq_account = the (ss_account s), lq_included = te_included t, lq_consumed = te_consumed t,
          lq_desired = ss_desired s, lq_phase = st_phase st, lq_generation = ss_generation s,
          lq_quotaRevoked = revoked_by_quota c sessionId\<rparr>)"

definition sessionExists :: "db \<Rightarrow> uuid \<Rightarrow> bool" where
  "sessionExists c sessionId \<longleftrightarrow> list_ex (\<lambda>s. ss_id s = sessionId \<and> ss_hidden s = None) (sessions c)"

datatype reactivation = RA_not_needed | RA_requested | RA_waiting_for_revocation

datatype quota_adjustment = QA_not_found | QA_not_metered | QA_below_consumed int | QA_updated int int int reactivation

definition reactivate :: "env \<Rightarrow> uuid \<Rightarrow> int \<Rightarrow> db \<Rightarrow> db" where
  "reactivate e sessionId generation c =
     setSessionCondition e sessionId ''Ready'' C_False ''QuotaIncreased''
       ''Traffic quota increased by an administrator; config reprovisioning is in progress'' (generation + 1)
       (updateSessionStatusPhase e sessionId \<lparr>tr_phase = S_scheduling, tr_observedGeneration = None, tr_lastError = Some None\<rparr> None
         (updateSessionDesiredState e sessionId SD_Active True c))"

definition reactivation_text :: "reactivation \<Rightarrow> string" where
  "reactivation_text r = (case r of RA_not_needed \<Rightarrow> ''not_needed'' | RA_requested \<Rightarrow> ''requested''
     | RA_waiting_for_revocation \<Rightarrow> ''waiting_for_revocation'')"

definition quota_reactivation :: "locked_quota \<Rightarrow> reactivation" where
  "quota_reactivation q =
     (if lq_quotaRevoked q \<and> lq_desired q = SD_Revoked \<and> lq_phase q = S_revoked then RA_requested
      else if lq_quotaRevoked q \<and> lq_desired q = SD_Revoked \<and> lq_phase q = S_revoking then RA_waiting_for_revocation
      else RA_not_needed)"

definition set_quota :: "env \<Rightarrow> uuid \<Rightarrow> int \<Rightarrow> bool \<Rightarrow> db \<Rightarrow> db" where
  "set_quota e sessionId includedBytes clearExhausted c =
     c\<lparr>traffic_entitlements := update_where (\<lambda>t. te_session t = sessionId)
        (\<lambda>t. t\<lparr>te_included := includedBytes, te_exhausted := (if clearExhausted then None else te_exhausted t),
           te_updated := env_now e\<rparr>) (traffic_entitlements c)\<rparr>"

definition adjustSessionTrafficQuota :: "env \<Rightarrow> uuid \<Rightarrow> int \<Rightarrow> uuid \<Rightarrow> string \<Rightarrow> db \<Rightarrow> db \<times> quota_adjustment" where
  "adjustSessionTrafficQuota e sessionId includedBytes adminId reason c =
     (case readTrafficQuotaForUpdate c sessionId of
        None \<Rightarrow> (c, if sessionExists c sessionId then QA_not_metered else QA_not_found)
      | Some q \<Rightarrow>
          if includedBytes \<le> lq_consumed q then (c, QA_below_consumed (lq_consumed q))
          else let r = quota_reactivation q;
                   c1 = (if r = RA_requested then reactivate e sessionId (lq_generation q) c else c);
                   clearExhausted = (r \<noteq> RA_waiting_for_revocation \<and> (lq_desired q = SD_Active \<or> r = RA_requested))
               in (audit e (audit_blank\<lparr>au_event := ''session_traffic_quota_adjusted'', au_actorType := ''admin'',
                     au_actor := Some adminId, au_account := Some (lq_account q), au_session := Some sessionId,
                     au_details := JObj [(''previousIncludedBytes'', JStr (js_int (lq_included q))),
                       (''includedBytes'', JStr (js_int includedBytes)), (''consumedBytes'', JStr (js_int (lq_consumed q))),
                       (''reason'', JStr reason), (''reactivation'', JStr (reactivation_text r))]\<rparr>)
                     (set_quota e sessionId includedBytes clearExhausted c1),
                   QA_updated includedBytes (lq_consumed q) (includedBytes - lq_consumed q) r))"

subsection \<open>Every exhausted session is dealt with\<close>

definition exhausted_ids :: "db \<Rightarrow> uuid set" where
  "exhausted_ids c = (\<lambda>x. te_session (fst x)) ` set (filter exhausted (quota_join c))"

lemma in_quota_join: "(t, s, st) \<in> set (quota_join c) \<longleftrightarrow> t \<in> set (traffic_entitlements c) \<and> s \<in> set (sessions c)
    \<and> st \<in> set (session_status c) \<and> ss_id s = te_session t \<and> st_session st = te_session t"
  unfolding quota_join_def using in_session_join[of s st c] by (auto simp: image_iff)

lemma in_exhausted_ids: "v \<in> exhausted_ids c \<longleftrightarrow> (\<exists>t s st. te_session t = v \<and> t \<in> set (traffic_entitlements c)
    \<and> ss_id s = v \<and> s \<in> set (sessions c) \<and> st_session st = v \<and> st \<in> set (session_status c) \<and> exhausted (t, s, st))"
  by (force simp: exhausted_ids_def in_quota_join image_iff)

lemma exhausted_transfer:
  assumes "u \<in> exhausted_ids c" "\<And>t. te_session t = u \<Longrightarrow> t \<in> set (traffic_entitlements c) \<Longrightarrow> t \<in> set (traffic_entitlements c')"
    and "\<And>s. ss_id s = u \<Longrightarrow> s \<in> set (sessions c) \<Longrightarrow> s \<in> set (sessions c')"
    and "\<And>st. st_session st = u \<Longrightarrow> st \<in> set (session_status c) \<Longrightarrow> st \<in> set (session_status c')"
  shows "u \<in> exhausted_ids c'"
proof -
  from assms(1) obtain t s st where "te_session t = u" "t \<in> set (traffic_entitlements c)" "ss_id s = u" "s \<in> set (sessions c)"
    "st_session st = u" "st \<in> set (session_status c)" "exhausted (t, s, st)" unfolding in_exhausted_ids by blast
  with assms(2-4) show ?thesis unfolding in_exhausted_ids by blast
qed

lemma found_exhausted:
  "findExhaustedSessionTrafficEntitlementForUpdate c = None \<longleftrightarrow> exhausted_ids c = {}"
  "findExhaustedSessionTrafficEntitlementForUpdate c = Some (t, s, st) \<Longrightarrow>
     (t, s, st) \<in> set (quota_join c) \<and> exhausted (t, s, st) \<and> te_session t \<in> exhausted_ids c"
proof -
  define ys where "ys = sort_key (\<lambda>x. te_updated (fst x)) (sort_key (\<lambda>x. te_session (fst x)) (filter exhausted (quota_join c)))"
  have ys: "set ys = set (filter exhausted (quota_join c))" "findExhaustedSessionTrafficEntitlementForUpdate c = (case ys of [] \<Rightarrow> None | x # _ \<Rightarrow> Some x)"
    by (simp_all add: ys_def findExhaustedSessionTrafficEntitlementForUpdate_def)
  have "ys = [] \<longleftrightarrow> exhausted_ids c = {}" unfolding exhausted_ids_def ys(1)[symmetric] by simp
  then show "findExhaustedSessionTrafficEntitlementForUpdate c = None \<longleftrightarrow> exhausted_ids c = {}"
    unfolding ys(2) by (cases ys) simp_all
  assume "findExhaustedSessionTrafficEntitlementForUpdate c = Some (t, s, st)"
  then have "(t, s, st) \<in> set ys" unfolding ys(2) by (auto split: list.splits)
  then have "(t, s, st) \<in> set (quota_join c) \<and> exhausted (t, s, st)" unfolding ys(1) by simp
  then show "(t, s, st) \<in> set (quota_join c) \<and> exhausted (t, s, st) \<and> te_session t \<in> exhausted_ids c"
    by (force simp: exhausted_ids_def)
qed

lemma kept_row: "(\<And>r. P (f r) = P r) \<Longrightarrow> \<not> P r \<Longrightarrow> r \<in> set (update_where P f xs) \<longleftrightarrow> r \<in> set xs"
  by (auto simp: set_update_where)

text \<open>A revocation touches the rows of its own session only.\<close>

lemma revocation_rows:
  assumes "c' = fst (requestSystemSessionRevocation e v reason c)"
  shows "traffic_entitlements c' = traffic_entitlements c"
    "ss_id s \<noteq> v \<Longrightarrow> s \<in> set (sessions c') \<longleftrightarrow> s \<in> set (sessions c)"
    "st_session st \<noteq> v \<Longrightarrow> st \<in> set (session_status c') \<longleftrightarrow> st \<in> set (session_status c)"
  unfolding assms requestSystemSessionRevocation_def insertSystemSessionRevokeRequestedAudit_def apply_revocation_def
    updateSessionStatusPhase_def updateSessionDesiredState_def update_status_def audit_def
  by (simp_all add: kept_row Let_def split: option.split)

definition same_quota_tables :: "db \<Rightarrow> db \<Rightarrow> bool" where
  "same_quota_tables c c' \<longleftrightarrow> sessions c' = sessions c \<and> session_status c' = session_status c
     \<and> traffic_entitlements c' = traffic_entitlements c"

lemma notify_tables: "enqueueBillingNotification e a t k x d = Inr d' \<Longrightarrow> same_quota_tables (core d) (core d')"
  by (auto simp: enqueueBillingNotification_def new_id_def gen_uuid_def insert_child_def same_quota_tables_def
      split: list.splits if_splits prod.splits)

lemma enforce_next_cases:
  assumes "enforce_next e d = Inr (d', x)"
  obtains (idle) "x = None" "d' = d" "exhausted_ids (core d) = {}"
  | (marked) v reason where "x \<noteq> None" "v \<in> exhausted_ids (core d)"
      "same_quota_tables (markSessionTrafficEntitlementExhausted e v (fst (requestSystemSessionRevocation e v reason (core d)))) (core d')"
proof (cases "findExhaustedSessionTrafficEntitlementForUpdate (core d)")
  case None
  with assms found_exhausted(1)[of "core d"] idle show thesis by (simp add: enforce_next_def)
next
  case (Some y)
  obtain t s st where y: "y = (t, s, st)" by (cases y)
  let ?r = "requestSystemSessionRevocation e (te_session t) (quota_reason t) (core d)"
  let ?c = "markSessionTrafficEntitlementExhausted e (te_session t) (fst ?r)"
  have "x \<noteq> None \<and> same_quota_tables ?c (core d')"
    using assms Some y unfolding enforce_next_def
    by (cases ?r) (auto simp: Let_def ensureBillingAccount_def same_quota_tables_def split: if_splits dest!: notify_tables)
  with found_exhausted(2)[OF Some[unfolded y]] show thesis by (intro marked[of "te_session t" "quota_reason t"]) auto
qed

lemma enforce_next_effect:
  assumes "enforce_next e d = Inr (d', x)" "x \<noteq> None"
  shows "\<exists>v\<in>exhausted_ids (core d). exhausted_ids (core d') = exhausted_ids (core d) - {v}
    \<and> (\<forall>u. u = v \<and> visible_session (core d) u \<or> desired_revoked (core d) u \<longrightarrow> desired_revoked (core d') u)
    \<and> (\<forall>u. visible_session (core d') u = visible_session (core d) u)
    \<and> (\<forall>s\<in>set (sessions (core d)). ss_id s \<noteq> v \<longrightarrow> s \<in> set (sessions (core d')))"
  using assms(1)
proof (cases rule: enforce_next_cases)
  case (marked v reason)
  define c where "c = fst (requestSystemSessionRevocation e v reason (core d))"
  define m :: "traffic_row \<Rightarrow> traffic_row" where "m = (\<lambda>t. t\<lparr>te_exhausted := Some (case te_exhausted t of None \<Rightarrow> env_now e | Some x \<Rightarrow> x), te_updated := env_now e\<rparr>)"
  have d': "sessions (core d') = sessions c" "session_status (core d') = session_status c"
    "traffic_entitlements (core d') = update_where (\<lambda>t. te_session t = v) m (traffic_entitlements (core d))"
    using marked(3) revocation_rows(1)[OF c_def]
    by (simp_all add: same_quota_tables_def markSessionTrafficEntitlementExhausted_def c_def m_def)
  note rows = revocation_rows(2,3)[OF c_def]
  have marks: "te_session t \<noteq> v \<Longrightarrow> t \<in> set (traffic_entitlements (core d')) \<longleftrightarrow> t \<in> set (traffic_entitlements (core d))" for t
    unfolding d'(3) by (rule kept_row) (simp_all add: m_def)
  have other: "u \<in> exhausted_ids (core d') \<longleftrightarrow> u \<in> exhausted_ids (core d)" if "u \<noteq> v" for u
  proof
    show "u \<in> exhausted_ids (core d') \<Longrightarrow> u \<in> exhausted_ids (core d)"
      by (erule exhausted_transfer) (use marks rows that d' in auto)
    show "u \<in> exhausted_ids (core d) \<Longrightarrow> u \<in> exhausted_ids (core d')"
      by (erule exhausted_transfer) (use marks rows that d'(1,2) in auto)
  qed
  moreover have "v \<notin> exhausted_ids (core d')"
  proof
    assume "v \<in> exhausted_ids (core d')"
    then obtain t s st where t: "t \<in> set (traffic_entitlements (core d'))" "te_session t = v" "exhausted (t, s, st)"
      unfolding in_exhausted_ids by blast
    from t(1) obtain r where r: "t = (if te_session r = v then m r else r)" unfolding d'(3) set_update_where by blast
    with t(2) have "t = m r" by (simp add: m_def split: if_splits)
    with t(3) show False by (simp add: m_def exhausted_def)
  qed
  ultimately have "u \<in> exhausted_ids (core d') \<longleftrightarrow> u \<in> exhausted_ids (core d) - {v}" for u by (cases "u = v") simp_all
  then have ids: "exhausted_ids (core d') = exhausted_ids (core d) - {v}" by (rule set_eqI)
  have "desired_revoked (core d') u" if "u = v \<and> visible_session (core d) u \<or> desired_revoked (core d) u" for u
    using that revoked_now[of "core d" v e reason] revoked_still[of "core d" u e v reason] by (auto simp: desired_revoked_def d' c_def)
  moreover have "visible_session (core d') u = visible_session (core d) u" for u
    using visible_after[of e v reason "core d" u] by (simp add: visible_session_def d' c_def)
  moreover have "s \<in> set (sessions (core d'))" if "s \<in> set (sessions (core d))" "ss_id s \<noteq> v" for s
    using rows(1)[of s] that by (simp add: d')
  ultimately show ?thesis using marked(2) ids by blast
qed (use assms(2) in simp)

lemma enforce_loop_effect:
  assumes "enforce_loop e k n r0 d = (d', Inr r)"
  shows "\<exists>S\<subseteq>exhausted_ids (core d). card S = min n (card (exhausted_ids (core d))) \<and> qr_exhausted r = qr_exhausted r0 + card S
    \<and> exhausted_ids (core d') = exhausted_ids (core d) - S
    \<and> (\<forall>u. u \<in> S \<and> visible_session (core d) u \<or> desired_revoked (core d) u \<longrightarrow> desired_revoked (core d') u)
    \<and> (\<forall>s\<in>set (sessions (core d)). ss_id s \<notin> S \<longrightarrow> s \<in> set (sessions (core d')))"
  using assms
proof (induction n arbitrary: k r0 d)
  case 0
  then show ?case by (intro exI[of _ "{}"]) simp
next
  case (Suc n)
  from Suc.prems obtain d1 x where first: "enforce_next (e k) d = Inr (d1, x)"
    by (cases "enforce_next (e k) d") auto
  have fin: "finite (exhausted_ids (core d))" by (simp add: exhausted_ids_def)
  show ?case
  proof (cases x)
    case None
    from first[unfolded None] have "d1 = d" "exhausted_ids (core d) = {}" by (cases rule: enforce_next_cases; simp)+
    with Suc.prems first None show ?thesis by (intro exI[of _ "{}"]) simp
  next
    case (Some rv)
    define r1 where "r1 = r0\<lparr>qr_exhausted := qr_exhausted r0 + 1, qr_revocationsRequested := qr_revocationsRequested r0 + (if rv then 1 else 0)\<rparr>"
    from Suc.prems first Some have rest: "enforce_loop e (Suc k) n r1 d1 = (d', Inr r)" by (simp add: r1_def)
    have found: "x \<noteq> None" by (simp add: Some)
    from enforce_next_effect[OF first found] obtain v where v: "v \<in> exhausted_ids (core d)"
      "exhausted_ids (core d1) = exhausted_ids (core d) - {v}"
      "\<forall>u. u = v \<and> visible_session (core d) u \<or> desired_revoked (core d) u \<longrightarrow> desired_revoked (core d1) u"
      "\<forall>u. visible_session (core d1) u = visible_session (core d) u"
      "\<forall>s\<in>set (sessions (core d)). ss_id s \<noteq> v \<longrightarrow> s \<in> set (sessions (core d1))" by (elim bexE conjE)
    from Suc.IH[OF rest] obtain S where S: "S \<subseteq> exhausted_ids (core d1)" "card S = min n (card (exhausted_ids (core d1)))"
      "qr_exhausted r = qr_exhausted r1 + card S" "exhausted_ids (core d') = exhausted_ids (core d1) - S"
      "\<forall>u. u \<in> S \<and> visible_session (core d1) u \<or> desired_revoked (core d1) u \<longrightarrow> desired_revoked (core d') u"
      "\<forall>s\<in>set (sessions (core d1)). ss_id s \<notin> S \<longrightarrow> s \<in> set (sessions (core d'))" by (elim exE conjE)
    have "v \<notin> S" "finite S" using S(1) v(2) fin by (auto intro: finite_subset)
    then have card: "card (insert v S) = Suc (card S)" by simp
    have ids: "card (exhausted_ids (core d)) = Suc (card (exhausted_ids (core d1)))" using card_Suc_Diff1[OF fin v(1)] v(2) by simp
    show ?thesis
    proof (intro exI[of _ "insert v S"] conjI allI ballI impI)
      show "insert v S \<subseteq> exhausted_ids (core d)" "exhausted_ids (core d') = exhausted_ids (core d) - insert v S"
        using S(1,4) v(1,2) by auto
      show "card (insert v S) = min (Suc n) (card (exhausted_ids (core d)))" "qr_exhausted r = qr_exhausted r0 + card (insert v S)"
        using S(2,3) card ids by (simp_all add: r1_def)
      show "desired_revoked (core d') u"
        if "u \<in> insert v S \<and> visible_session (core d) u \<or> desired_revoked (core d) u" for u
        using S(5)[rule_format, of u] v(3)[rule_format, of u] v(4)[rule_format, of u] that by (elim disjE conjE insertE) simp_all
      show "s \<in> set (sessions (core d'))" if "s \<in> set (sessions (core d))" "ss_id s \<notin> insert v S" for s
        using S(6) v(5) that by simp
    qed
  qed
qed

text \<open>
  C14: A pass of the quota enforcement takes as many exhausted sessions as the batch allows, and with
  a batch that is large enough all of them: each of them that a user can see is to be revoked
  afterwards, none of them is exhausted a second time, and the rows of all other sessions stay.
\<close>

theorem quota_enforcement_complete:
  assumes "enforceSessionTrafficQuotas e batchSize d = (d', Inr r)"
  shows "qr_exhausted r = min (quota_limit batchSize) (card (exhausted_ids (core d)))
    \<and> exhausted_ids (core d') \<subseteq> exhausted_ids (core d)
    \<and> card (exhausted_ids (core d')) + qr_exhausted r = card (exhausted_ids (core d))
    \<and> (\<forall>u\<in>exhausted_ids (core d) - exhausted_ids (core d'). visible_session (core d) u \<longrightarrow> desired_revoked (core d') u)
    \<and> (\<forall>s\<in>set (sessions (core d)). ss_id s \<notin> exhausted_ids (core d) - exhausted_ids (core d') \<longrightarrow> s \<in> set (sessions (core d')))"
proof -
  have fin: "finite (exhausted_ids (core d))" by (simp add: exhausted_ids_def)
  from enforce_loop_effect[OF assms[unfolded enforceSessionTrafficQuotas_def]] obtain S where S: "S \<subseteq> exhausted_ids (core d)"
    "card S = min (quota_limit batchSize) (card (exhausted_ids (core d)))" "qr_exhausted r = card S"
    "exhausted_ids (core d') = exhausted_ids (core d) - S"
    "\<forall>u. u \<in> S \<and> visible_session (core d) u \<or> desired_revoked (core d) u \<longrightarrow> desired_revoked (core d') u"
    "\<forall>s\<in>set (sessions (core d)). ss_id s \<notin> S \<longrightarrow> s \<in> set (sessions (core d'))" by auto
  have diff: "exhausted_ids (core d) - exhausted_ids (core d') = S" "exhausted_ids (core d') \<subseteq> exhausted_ids (core d)"
    using S(1,4) by blast+
  have "card (exhausted_ids (core d')) + card S = card (exhausted_ids (core d))"
    using card_Diff_subset[OF finite_subset[OF S(1) fin] S(1)] card_mono[OF fin S(1)] S(4) by simp
  then show ?thesis unfolding diff(1) using S(2,3,5,6) diff(2) by simp
qed

subsection \<open>A raised quota\<close>

lemma updated_row: "r \<in> set (update_where P f xs) \<Longrightarrow> P r \<Longrightarrow> (\<And>x. P (f x) = P x) \<Longrightarrow> \<exists>x. r = f x"
  by (auto simp: set_update_where split: if_splits)

lemma raised_rows:
  assumes "adjustSessionTrafficQuota e s n adminId reason c = (c', QA_updated i k m RA_requested)"
  shows "i = n" "m = n - k" "k < n" "revoked_by_quota c s" "jobs c' = jobs c"
    "x \<in> set (sessions c') \<Longrightarrow> ss_id x = s \<Longrightarrow> ss_desired x = SD_Active"
    "st \<in> set (session_status c') \<Longrightarrow> st_session st = s \<Longrightarrow> st_phase st = S_scheduling"
    "t \<in> set (traffic_entitlements c') \<Longrightarrow> te_session t = s \<Longrightarrow> te_included t = n \<and> te_exhausted t = None"
proof -
  from assms obtain q where q: "readTrafficQuotaForUpdate c s = Some q"
    by (cases "readTrafficQuotaForUpdate c s") (auto simp: adjustSessionTrafficQuota_def split: if_splits)
  from assms q have r: "quota_reactivation q = RA_requested" "i = n" "k = lq_consumed q" "m = n - k" "lq_consumed q < n"
    by (auto simp: adjustSessionTrafficQuota_def Let_def split: if_splits)
  from assms q r obtain a where c': "audit e a (set_quota e s n True (reactivate e s (lq_generation q) c)) = c'"
    unfolding adjustSessionTrafficQuota_def by (simp add: Let_def)
  show "i = n" "m = n - k" "k < n" using r by simp_all
  have "lq_quotaRevoked q" using r(1) by (simp add: quota_reactivation_def split: if_splits)
  with q show "revoked_by_quota c s" by (auto simp: readTrafficQuotaForUpdate_def split: option.splits)
  have tables: "jobs c' = jobs c" "sessions c' = sessions (updateSessionDesiredState e s SD_Active True c)"
    "session_status c' = session_status (updateSessionStatusPhase e s
       \<lparr>tr_phase = S_scheduling, tr_observedGeneration = None, tr_lastError = Some None\<rparr> None c)"
    "traffic_entitlements c' = traffic_entitlements (set_quota e s n True c)"
    by (simp_all add: c'[symmetric] audit_def set_quota_def reactivate_def setSessionCondition_def upsertSessionCondition_def
        updateSessionStatusPhase_def update_status_def updateSessionDesiredState_def)
  show "jobs c' = jobs c" by (rule tables(1))
  show "x \<in> set (sessions c') \<Longrightarrow> ss_id x = s \<Longrightarrow> ss_desired x = SD_Active"
    unfolding tables(2) updateSessionDesiredState_def by (auto dest!: updated_row)
  show "st \<in> set (session_status c') \<Longrightarrow> st_session st = s \<Longrightarrow> st_phase st = S_scheduling"
    unfolding tables(3) updateSessionStatusPhase_def update_status_def by (simp, drule updated_row) auto
  show "t \<in> set (traffic_entitlements c') \<Longrightarrow> te_session t = s \<Longrightarrow> te_included t = n \<and> te_exhausted t = None"
    unfolding tables(4) set_quota_def by (simp, drule updated_row) auto
qed

definition commit_done :: "uuid \<Rightarrow> job_row \<Rightarrow> bool" where
  "commit_done s j \<longleftrightarrow> jb_session j = Some s \<and> jb_type j = JT_apply_assignment
     \<and> sql_text (js_prop (jb_payload j) ''operation'') = Some ''commit'' \<and> jb_phase j = J_succeeded"

text \<open>
  C15: Raising the quota of a session that its quota revoked asks for the session to be provisioned
  again, and its entitlement is not exhausted any more.  But a session that had been committed keeps
  its succeeded commit job, and as long as that job is stored the controller's selection
  \<open>listSessionsReadyForCommit\<close> never offers the session, in any state of the database.
\<close>

theorem reactivation_never_committed:
  assumes "adjustSessionTrafficQuota e s n adminId reason c = (c', QA_updated i k m RA_requested)"
    and "j \<in> set (jobs c)" "commit_done s j"
  shows "i = n \<and> m = n - k \<and> 0 < m \<and> revoked_by_quota c s
    \<and> (\<forall>x\<in>set (sessions c'). ss_id x = s \<longrightarrow> ss_desired x = SD_Active)
    \<and> (\<forall>st\<in>set (session_status c'). st_session st = s \<longrightarrow> st_phase st = S_scheduling)
    \<and> (\<forall>t\<in>set (traffic_entitlements c'). te_session t = s \<longrightarrow> te_included t = n \<and> te_exhausted t = None)
    \<and> j \<in> set (jobs c')
    \<and> (\<forall>c''. j \<in> set (jobs c'') \<longrightarrow> s \<notin> (\<lambda>x. ss_id (fst x)) ` set (listSessionsReadyForCommit c''))"
proof -
  have "s \<notin> (\<lambda>x. ss_id (fst x)) ` set (listSessionsReadyForCommit c'')" if "j \<in> set (jobs c'')" for c''
  proof -
    have "commit_pending c'' s" using that assms(3) by (auto simp: commit_pending_def commit_done_def list_ex_iff)
    then show ?thesis by (auto simp: listSessionsReadyForCommit_def dest!: in_set_takeD)
  qed
  with raised_rows[OF assms(1)] assms(2) show ?thesis by auto
qed

subsection \<open>What an import does to the books\<close>

text \<open>
  C16: An import charges on the ledger only: the buckets stay as they are.  So an import that charges
  anything leaves an account whose ledger adds up to less than its buckets are worth, and what was
  charged is never collected from them.
\<close>

theorem import_breaks_books:
  assumes "importDoubleZeroUsage e m currency rs d = Inr (d', x)" "rated_ok d" "books_ok d" "0 < im_total x"
  shows "(\<forall>a. buckets_of d' a = buckets_of d a) \<and> ledger_total d' = ledger_total d - im_total x
    \<and> (\<exists>a. balance d' a < balance d a \<and> balance d' a < worth (buckets_of d' a))"
proof -
  from assms(1,2) obtain ls where ls: "balance_buckets d' = balance_buckets d" "ledger d' = ledger d @ ls" "\<forall>l\<in>set ls. le_amount l \<le> 0"
    "sum_list (map le_amount ls) = - im_total x" by (rule import_effect)
  have buckets: "buckets_of d' a = buckets_of d a" for a by (simp add: buckets_of_def ls(1))
  have "\<exists>l\<in>set ls. le_amount l < 0"
  proof (rule ccontr)
    assume "\<not> ?thesis"
    then have "0 \<le> sum_list (map le_amount ls)" by (intro sum_list_nonneg) force
    with ls(4) assms(4) show False by simp
  qed
  then obtain l where l: "l \<in> set ls" "le_amount l < 0" by blast
  let ?own = "filter (\<lambda>k. le_account k = le_account l) ls"
  have "sum_list (map le_amount ?own) \<le> le_amount l"
    using l(1) ls(3)
  proof (induction ls)
    case (Cons k ks)
    have "sum_list (map le_amount (filter (\<lambda>k. le_account k = le_account l) ks)) \<le> 0"
      using Cons.prems(2) by (induction ks) auto
    with Cons show ?case by auto
  qed simp
  then have "balance d' (le_account l) < balance d (le_account l)" using l(2) by (simp add: balance_def ls(2))
  moreover have "balance d (le_account l) + imported_charges d (le_account l) = worth (buckets_of d (le_account l))"
    "0 \<le> imported_charges d (le_account l)"
    using assms(3) unfolding books_ok_def account_balanced_def by blast+
  ultimately have "balance d' (le_account l) < balance d (le_account l) \<and> balance d' (le_account l) < worth (buckets_of d' (le_account l))"
    by (simp add: buckets)
  moreover have "ledger_total d' = ledger_total d - im_total x" by (simp add: ledger_total_def ls(2,4))
  ultimately show ?thesis using buckets by blast
qed

text \<open>Importing records that were imported before charges nothing: a record is charged once.\<close>

lemma import_idempotent:
  assumes "importDoubleZeroUsage e m currency rs d = Inr (d', x)" "rated_ok d" "set rs' \<subseteq> set rs"
    and "importDoubleZeroUsage e' m' currency rs' d' = Inr (d'', x')"
  shows "ledger d'' = ledger d' \<and> im_imported x' = 0 \<and> im_total x' = 0 \<and> (\<forall>a. balance d'' a = balance d' a)"
proof -
  from assms(1,2) have first: "rated_ok d'" "\<forall>r\<in>set rs. import_done d' currency r" by (auto elim: import_effect)
  with assms(3) have "\<forall>r\<in>set rs'. import_done d' currency r" by blast
  with import_effect[OF assms(4) first(1)] have "ledger d'' = ledger d' \<and> im_total x' = 0 \<and> im_imported x' = 0" by metis
  then show ?thesis by (simp add: balance_def)
qed

subsection \<open>Witnesses\<close>

definition exhausted_bdb :: bdb where
  "exhausted_bdb = demo_bdb\<lparr>core := demo_core\<lparr>traffic_entitlements :=
     [\<lparr>te_session = ''s1'', te_included = 100, te_consumed = 120, te_exhausted = None, te_updated = 0\<rparr>]\<rparr>\<rparr>"

definition enforced_bdb :: bdb where
  "enforced_bdb = fst (enforceSessionTrafficQuotas (\<lambda>_. sample_env) 100 exhausted_bdb)"

lemma demo_enforced: "\<exists>r. enforceSessionTrafficQuotas (\<lambda>_. sample_env) 100 exhausted_bdb = (enforced_bdb, Inr r) \<and> qr_exhausted r = 1"
proof -
  have "case snd (enforceSessionTrafficQuotas (\<lambda>_. sample_env) 100 exhausted_bdb) of Inl _ \<Rightarrow> False | Inr r \<Rightarrow> qr_exhausted r = 1"
    by code_simp
  then show ?thesis unfolding enforced_bdb_def
    by (cases "enforceSessionTrafficQuotas (\<lambda>_. sample_env) 100 exhausted_bdb") (auto split: sum.splits)
qed

theorem quota_enforcement_complete_witness:
  "\<exists>r. enforceSessionTrafficQuotas (\<lambda>_. sample_env) 100 exhausted_bdb = (enforced_bdb, Inr r) \<and> qr_exhausted r = 1
     \<and> card (exhausted_ids (core enforced_bdb)) + 1 = card (exhausted_ids (core exhausted_bdb))"
proof -
  obtain r where r: "enforceSessionTrafficQuotas (\<lambda>_. sample_env) 100 exhausted_bdb = (enforced_bdb, Inr r)" "qr_exhausted r = 1"
    using demo_enforced by blast
  with quota_enforcement_complete[OF r(1)] show ?thesis by simp
qed

definition old_commit :: job_row where
  "old_commit = \<lparr>jb_id = ''j1'', jb_type = JT_apply_assignment, jb_phase = J_succeeded, jb_gate = Some ''g1'',
     jb_session = Some ''s1'', jb_assignment = Some ''a1'', jb_payload = [(''operation'', JStr ''commit'')], jb_leaseOwner = None,
     jb_leaseExpires = None, jb_runAfter = 0, jb_retryCount = 0, jb_maxRetries = 3, jb_created = 0, jb_updated = 0\<rparr>"

definition ended_core :: db where
  "ended_core = (update_status ''s1'' (\<lambda>r. r\<lparr>st_phase := S_revoked\<rparr>) (core enforced_bdb))\<lparr>jobs := [old_commit]\<rparr>"

theorem reactivation_never_committed_witness:
  "\<exists>c'. adjustSessionTrafficQuota sample_env ''s1'' 500 ''admin'' ''request'' ended_core = (c', QA_updated 500 120 380 RA_requested)
     \<and> (\<forall>c''. old_commit \<in> set (jobs c'') \<longrightarrow> ''s1'' \<notin> (\<lambda>x. ss_id (fst x)) ` set (listSessionsReadyForCommit c''))"
proof -
  have "snd (adjustSessionTrafficQuota sample_env ''s1'' 500 ''admin'' ''request'' ended_core) = QA_updated 500 120 380 RA_requested"
    by code_simp
  then obtain c' where c': "adjustSessionTrafficQuota sample_env ''s1'' 500 ''admin'' ''request'' ended_core
      = (c', QA_updated 500 120 380 RA_requested)" by (metis prod.collapse)
  have "old_commit \<in> set (jobs ended_core)" "commit_done ''s1'' old_commit"
    by (simp add: ended_core_def) code_simp
  from reactivation_never_committed[OF c' this] c' show ?thesis by blast
qed

lemma demo_imported: "\<exists>d' x. importDoubleZeroUsage sample_env 2000 ''USD'' [demo_record] demo_bdb = Inr (d', x) \<and> im_total x = 120"
proof -
  have "case importDoubleZeroUsage sample_env 2000 ''USD'' [demo_record] demo_bdb of Inl _ \<Rightarrow> False | Inr y \<Rightarrow> im_total (snd y) = 120"
    by code_simp
  then show ?thesis by (auto split: sum.splits)
qed

lemma demo_rated: "rated_ok demo_bdb"
  by (simp add: rated_ok_def demo_bdb_def)

theorem import_breaks_books_witness:
  "\<exists>d' x. importDoubleZeroUsage sample_env 2000 ''USD'' [demo_record] demo_bdb = Inr (d', x) \<and> im_total x = 120
     \<and> (\<exists>a. balance d' a < worth (buckets_of d' a))"
proof -
  obtain d' x where r: "importDoubleZeroUsage sample_env 2000 ''USD'' [demo_record] demo_bdb = Inr (d', x)" "im_total x = 120"
    using demo_imported by blast
  with import_breaks_books[OF r(1) demo_rated initial_books[OF demo_no_money]] obtain a where "balance d' a < worth (buckets_of d' a)" by auto
  with r show ?thesis by blast
qed

lemma import_idempotent_witness:
  "\<exists>d' x d'' x'. importDoubleZeroUsage sample_env 2000 ''USD'' [demo_record] demo_bdb = Inr (d', x)
     \<and> importDoubleZeroUsage sample_env 2000 ''USD'' [demo_record] d' = Inr (d'', x') \<and> im_total x' = 0 \<and> ledger d'' = ledger d'"
proof -
  have "case importDoubleZeroUsage sample_env 2000 ''USD'' [demo_record] demo_bdb of Inl _ \<Rightarrow> False
      | Inr y \<Rightarrow> (case importDoubleZeroUsage sample_env 2000 ''USD'' [demo_record] (fst y) of Inl _ \<Rightarrow> False | Inr z \<Rightarrow> im_duplicates (snd z) = 1)"
    by code_simp
  then obtain d' x d'' x' where r: "importDoubleZeroUsage sample_env 2000 ''USD'' [demo_record] demo_bdb = Inr (d', x)"
    "importDoubleZeroUsage sample_env 2000 ''USD'' [demo_record] d' = Inr (d'', x')" by (auto split: sum.splits)
  from import_idempotent[OF r(1) demo_rated subset_refl r(2)] r show ?thesis by blast
qed

end
