(* ===== verification/Accounts.thy ===== *)
theory Accounts
  imports Ledger
begin

section \<open>Accounts and logins\<close>

text \<open>
  \<open>application/auth\<close> and \<open>resources/users\<close>: registration with a password, login with a password,
  with a code sent by mail and through Google, and the sessions that a login issues.

  Random tokens, SHA-256, HMAC and scrypt come from the record \<open>auth_env\<close>; so do the clock and the
  answers of Google.  Comparing two digests in constant time is comparing them.  The columns
  \<open>metadata\<close> are written only and left out, and so are the statements that only write them.  The
  type \<open>citext\<close> of addresses compares without case.  Of several challenges of the same
  millisecond the last one inserted is the latest.
\<close>

subsection \<open>Tables\<close>

record auth_env =
  ax_now :: time
  ax_uuid :: "nat \<Rightarrow> uuid"
  ax_token :: "nat \<Rightarrow> string"
  ax_otp :: nat
  ax_sha256 :: "string \<Rightarrow> string"
  ax_hmac :: "string \<Rightarrow> string \<Rightarrow> string"
  ax_scrypt :: "string \<Rightarrow> string \<Rightarrow> string"
  ax_encode :: "string \<Rightarrow> string"
  ax_decode :: "string \<Rightarrow> string"

record auth_user_row =
  pu_id :: uuid
  pu_account :: uuid
  pu_email :: string
  pu_display :: string
  pu_avatar :: "string option"
  pu_created :: time
  pu_disabled :: "time option"

record password_row =
  pw_user :: uuid
  pw_hash :: string

record identity_row =
  ix_account :: uuid
  ix_provider :: string
  ix_subject :: string
  ix_email :: "string option"
  ix_verified :: "time option"
  ix_seen :: time

record challenge_row =
  ch_id :: uuid
  ch_email :: string
  ch_hash :: string
  ch_attempts :: int
  ch_expires :: time
  ch_created :: time
  ch_consumed :: "time option"

record oauth_row =
  oc_id :: uuid
  oc_provider :: string
  oc_stateHash :: string
  oc_redirect :: string
  oc_expires :: time
  oc_created :: time
  oc_consumed :: "time option"

record auth_session_row =
  an_user :: uuid
  an_hash :: string
  an_expires :: time
  an_revoked :: "time option"
  an_seen :: "time option"

record adb =
  next_id :: nat
  next_token :: nat
  a_accounts :: "uuid list"
  a_users :: "auth_user_row list"
  a_passwords :: "password_row list"
  a_identities :: "identity_row list"
  a_challenges :: "challenge_row list"
  a_oauth :: "oauth_row list"
  a_sessions :: "auth_session_row list"
  a_audit :: "audit_row list"

definition fresh_id :: "auth_env \<Rightarrow> adb \<Rightarrow> adb \<times> uuid" where
  "fresh_id e d = (d\<lparr>next_id := Suc (next_id d)\<rparr>, ax_uuid e (next_id d))"

definition newSecretToken :: "auth_env \<Rightarrow> adb \<Rightarrow> adb \<times> string" where
  "newSecretToken e d = (d\<lparr>next_token := Suc (next_token d)\<rparr>, ax_token e (next_token d))"

definition citext_eq :: "string \<Rightarrow> string \<Rightarrow> bool" where
  "citext_eq x y \<longleftrightarrow> js_lower x = js_lower y"

subsection \<open>Passwords and codes\<close>

definition hashPassword :: "auth_env \<Rightarrow> string \<Rightarrow> adb \<Rightarrow> adb \<times> string" where
  "hashPassword e password d =
     (let (d, salt) = newSecretToken e d in (d, ''scrypt:'' @ salt @ '':'' @ ax_encode e (ax_scrypt e password salt)))"

definition verifyPassword :: "auth_env \<Rightarrow> string \<Rightarrow> string \<Rightarrow> bool" where
  "verifyPassword e password encoded = (case js_split (CHR '':'') encoded of
     [scheme, salt, stored] \<Rightarrow> scheme = ''scrypt'' \<and> salt \<noteq> [] \<and> stored \<noteq> [] \<and> ax_decode e stored = ax_scrypt e password salt
   | _ \<Rightarrow> False)"

definition generateNumericOtp :: "auth_env \<Rightarrow> string" where
  "generateNumericOtp e = (let s = js_nat (ax_otp e) in replicate (6 - length s) (CHR ''0'') @ s)"

definition hashEmailOtp :: "auth_env \<Rightarrow> string \<Rightarrow> string \<Rightarrow> string \<Rightarrow> string" where
  "hashEmailOtp e secret email code = ax_hmac e secret (''email-otp:v1:'' @ email @ '':'' @ code)"

definition normalizeEmail :: "string \<Rightarrow> string" where
  "normalizeEmail value = js_lower (js_trim value)"

definition isValidEmail :: "string \<Rightarrow> bool" where
  "isValidEmail value \<longleftrightarrow> length value \<le> 254 \<and> list_all (\<lambda>c. \<not> js_space c) value
     \<and> (case js_split (CHR ''@'') value of
          [local, domain] \<Rightarrow> local \<noteq> [] \<and> list_ex (\<lambda>i. domain ! i = CHR ''.'') [1..<length domain - 1]
        | _ \<Rightarrow> False)"

definition six_digits :: "string \<Rightarrow> bool" where
  "six_digits code \<longleftrightarrow> length code = 6 \<and> list_all js_digit code"

subsection \<open>Users and identities\<close>

definition findPublicUserByEmail :: "adb \<Rightarrow> string \<Rightarrow> auth_user_row option" where
  "findPublicUserByEmail d email = find (\<lambda>u. citext_eq (pu_email u) email \<and> pu_disabled u = None) (a_users d)"

definition findPublicUserByIdentity :: "adb \<Rightarrow> string \<Rightarrow> string \<Rightarrow> auth_user_row option" where
  "findPublicUserByIdentity d provider subject =
     (case sort_key pu_created (concat (map (\<lambda>i. filter (\<lambda>u. pu_account u = ix_account i \<and> pu_disabled u = None) (a_users d))
         (filter (\<lambda>i. ix_provider i = provider \<and> ix_subject i = subject) (a_identities d)))) of
        [] \<Rightarrow> None | u # _ \<Rightarrow> Some u)"

definition isAccountEmailVerified :: "adb \<Rightarrow> uuid \<Rightarrow> string \<Rightarrow> bool" where
  "isAccountEmailVerified d a email \<longleftrightarrow> list_ex (\<lambda>i. ix_account i = a \<and> ix_provider i = ''email'' \<and> ix_subject i = email
     \<and> ix_verified i \<noteq> None) (a_identities d)"

definition hasPasswordCredential :: "adb \<Rightarrow> uuid \<Rightarrow> bool" where
  "hasPasswordCredential d i \<longleftrightarrow> list_ex (\<lambda>p. pw_user p = i) (a_passwords d)"

definition findPasswordCredentialByEmail :: "adb \<Rightarrow> string \<Rightarrow> (auth_user_row \<times> bool \<times> string) option" where
  "findPasswordCredentialByEmail d email =
     (case concat (map (\<lambda>u. map (\<lambda>p. (u, isAccountEmailVerified d (pu_account u) (pu_email u), pw_hash p))
         (filter (\<lambda>p. pw_user p = pu_id u) (a_passwords d)))
         (filter (\<lambda>u. citext_eq (pu_email u) email \<and> pu_disabled u = None) (a_users d))) of [] \<Rightarrow> None | x # _ \<Rightarrow> Some x)"

definition auth_audit :: "auth_env \<Rightarrow> string \<Rightarrow> auth_user_row \<Rightarrow> js_record \<Rightarrow> adb \<Rightarrow> adb" where
  "auth_audit e event u details d = d\<lparr>a_audit := a_audit d @ [audit_blank\<lparr>au_event := event, au_actorType := ''user'',
     au_actor := Some (pu_id u), au_account := Some (pu_account u), au_details := JObj details, au_created := ax_now e\<rparr>]\<rparr>"

definition insertUserWithoutPassword :: "auth_env \<Rightarrow> string \<Rightarrow> string \<Rightarrow> adb \<Rightarrow> string + (adb \<times> auth_user_row)" where
  "insertUserWithoutPassword e email displayName d =
     (let (d, a) = fresh_id e d; (d, i) = fresh_id e d;
          u = \<lparr>pu_id = i, pu_account = a, pu_email = email, pu_display = displayName, pu_avatar = None, pu_created = ax_now e, pu_disabled = None\<rparr>
      in if a \<in> set (a_accounts d) \<or> list_ex (\<lambda>v. pu_id v = i \<or> citext_eq (pu_email v) email) (a_users d) then Inl unique_error
         else Inr (d\<lparr>a_accounts := a_accounts d @ [a], a_users := a_users d @ [u]\<rparr>, u))"

definition coalesce_new :: "'a option \<Rightarrow> 'a option \<Rightarrow> 'a option" where
  "coalesce_new new old = (case new of None \<Rightarrow> old | Some x \<Rightarrow> Some x)"

definition upsertIdentity :: "auth_env \<Rightarrow> uuid \<Rightarrow> string \<Rightarrow> string \<Rightarrow> string option \<Rightarrow> time option \<Rightarrow> adb \<Rightarrow> string + adb" where
  "upsertIdentity e a provider subject email verifiedAt d =
     (case find (\<lambda>i. ix_provider i = provider \<and> ix_subject i = subject) (a_identities d) of
        None \<Rightarrow> Inr (d\<lparr>a_identities := a_identities d @ [\<lparr>ix_account = a, ix_provider = provider, ix_subject = subject,
          ix_email = email, ix_verified = verifiedAt, ix_seen = ax_now e\<rparr>]\<rparr>)
      | Some i \<Rightarrow> if ix_account i \<noteq> a then Inl (''identity '' @ provider @ '' is already linked to another account'')
          else Inr (d\<lparr>a_identities := update_where (\<lambda>i. ix_provider i = provider \<and> ix_subject i = subject)
            (\<lambda>i. i\<lparr>ix_email := coalesce_new email (ix_email i), ix_verified := coalesce_new verifiedAt (ix_verified i),
               ix_seen := ax_now e\<rparr>) (a_identities d)\<rparr>))"

definition insertRegisteredUser :: "auth_env \<Rightarrow> string \<Rightarrow> string \<Rightarrow> string \<Rightarrow> adb \<Rightarrow> string + (adb \<times> auth_user_row)" where
  "insertRegisteredUser e email displayName passwordHash d =
     and_then (insertUserWithoutPassword e email displayName d) (\<lambda>(d, u).
       if list_ex (\<lambda>p. pw_user p = pu_id u) (a_passwords d) then Inl unique_error
       else and_then (upsertIdentity e (pu_account u) ''email'' (pu_email u) (Some (pu_email u)) None
           (d\<lparr>a_passwords := a_passwords d @ [\<lparr>pw_user = pu_id u, pw_hash = passwordHash\<rparr>]\<rparr>)) (\<lambda>d.
         Inr (auth_audit e ''user_registered'' u [(''email'', JStr (pu_email u))] d, u)))"

definition securelyClaimUnverifiedPasswordAccount :: "auth_env \<Rightarrow> auth_user_row \<Rightarrow> string \<Rightarrow> adb \<Rightarrow> adb" where
  "securelyClaimUnverifiedPasswordAccount e u provider d =
     auth_audit e ''unverified_account_claimed'' u [(''email'', JStr (pu_email u)), (''provider'', JStr provider),
         (''passwordRemoved'', JBool True), (''sessionsRevoked'', JBool True)]
       (d\<lparr>a_passwords := filter (\<lambda>p. pw_user p \<noteq> pu_id u) (a_passwords d),
          a_sessions := update_where (\<lambda>s. an_user s = pu_id u \<and> an_revoked s = None) (\<lambda>s. s\<lparr>an_revoked := Some (ax_now e)\<rparr>) (a_sessions d)\<rparr>)"

definition syncGoogleUserProfile :: "auth_env \<Rightarrow> auth_user_row \<Rightarrow> string \<Rightarrow> string \<Rightarrow> adb \<Rightarrow> string + (adb \<times> auth_user_row)" where
  "syncGoogleUserProfile e u name picture d =
     (let d = d\<lparr>a_users := update_where (\<lambda>v. pu_id v = pu_id u)
        (\<lambda>v. v\<lparr>pu_display := (if pu_display v = pu_email v \<and> name \<noteq> [] then name else pu_display v),
           pu_avatar := (if picture \<noteq> [] then Some picture else pu_avatar v)\<rparr>) (a_users d)\<rparr>
      in and_then (must_row (row_of pu_id (pu_id u) (a_users d))) (\<lambda>v. Inr (d, v)))"

subsection \<open>Sessions\<close>

record issued =
  is_user :: auth_user_row
  is_token :: string
  is_expires :: time

definition insertAuthSession :: "uuid \<Rightarrow> string \<Rightarrow> time \<Rightarrow> adb \<Rightarrow> string + adb" where
  "insertAuthSession i tokenHash expiresAt d =
     (if list_ex (\<lambda>s. an_hash s = tokenHash) (a_sessions d) then Inl unique_error
      else Inr (d\<lparr>a_sessions := a_sessions d @ [\<lparr>an_user = i, an_hash = tokenHash, an_expires = expiresAt, an_revoked = None, an_seen = None\<rparr>]\<rparr>))"

definition createAuthSession :: "auth_env \<Rightarrow> uuid \<Rightarrow> int \<Rightarrow> adb \<Rightarrow> string + (adb \<times> string \<times> time)" where
  "createAuthSession e i ttlSeconds d =
     (let (d, token) = newSecretToken e d; expiresAt = ax_now e + seconds ttlSeconds
      in and_then (insertAuthSession i (ax_sha256 e token) expiresAt d) (\<lambda>d. Inr (d, token, expiresAt)))"

definition findActiveAuthSessionUserByTokenHash :: "auth_env \<Rightarrow> string \<Rightarrow> adb \<Rightarrow> auth_user_row option" where
  "findActiveAuthSessionUserByTokenHash e tokenHash d =
     (case concat (map (\<lambda>s. filter (\<lambda>u. pu_id u = an_user s \<and> pu_disabled u = None) (a_users d))
         (filter (\<lambda>s. an_hash s = tokenHash \<and> ax_now e < an_expires s \<and> an_revoked s = None) (a_sessions d))) of
        [] \<Rightarrow> None | u # _ \<Rightarrow> Some u)"

definition markAuthSessionSeen :: "auth_env \<Rightarrow> string \<Rightarrow> adb \<Rightarrow> adb" where
  "markAuthSessionSeen e tokenHash d = d\<lparr>a_sessions := update_where
     (\<lambda>s. an_hash s = tokenHash \<and> (case an_seen s of None \<Rightarrow> True | Some t \<Rightarrow> t < ax_now e - seconds 60))
     (\<lambda>s. s\<lparr>an_seen := Some (ax_now e)\<rparr>) (a_sessions d)\<rparr>"

definition authenticatePublicAuthSession :: "auth_env \<Rightarrow> string \<Rightarrow> adb \<Rightarrow> adb \<times> auth_user_row option" where
  "authenticatePublicAuthSession e token d =
     (case findActiveAuthSessionUserByTokenHash e (ax_sha256 e token) d of None \<Rightarrow> (d, None)
      | Some u \<Rightarrow> (markAuthSessionSeen e (ax_sha256 e token) d, Some u))"

definition revokeExpiredAuthSessions :: "auth_env \<Rightarrow> adb \<Rightarrow> adb" where
  "revokeExpiredAuthSessions e d = d\<lparr>a_sessions := update_where (\<lambda>s. an_revoked s = None \<and> an_expires s \<le> ax_now e)
     (\<lambda>s. s\<lparr>an_revoked := Some (ax_now e)\<rparr>) (a_sessions d)\<rparr>"

subsection \<open>Registration and login with a password\<close>

datatype register_result = RG_pending string | RG_invalid_email | RG_weak_password | RG_already_registered

definition registerUser :: "auth_env \<Rightarrow> string \<Rightarrow> string \<Rightarrow> string option \<Rightarrow> adb \<Rightarrow> string + (adb \<times> register_result)" where
  "registerUser e address password displayName d =
     (let email = normalizeEmail address in
      if email = [] \<or> \<not> js_includes (CHR ''@'') email then Inr (d, RG_invalid_email)
      else if length password < 12 then Inr (d, RG_weak_password)
      else if findPublicUserByEmail d email \<noteq> None then Inr (d, RG_already_registered)
      else let (d, passwordHash) = hashPassword e password d;
               name = (case displayName of None \<Rightarrow> [] | Some n \<Rightarrow> js_trim n)
           in and_then (insertRegisteredUser e email (if name = [] then email else name) passwordHash d) (\<lambda>(d, u).
                Inr (d, RG_pending (pu_email u))))"

datatype login_result = LG_issued issued | LG_credentials_required | LG_invalid_credentials | LG_email_not_verified

definition loginUser :: "auth_env \<Rightarrow> string \<Rightarrow> string \<Rightarrow> int \<Rightarrow> adb \<Rightarrow> string + (adb \<times> login_result)" where
  "loginUser e address password ttlSeconds d =
     (let email = normalizeEmail address in
      if email = [] \<or> password = [] then Inr (d, LG_credentials_required)
      else case findPasswordCredentialByEmail d email of
        None \<Rightarrow> Inr (d, LG_invalid_credentials)
      | Some (u, verified, h) \<Rightarrow>
          if \<not> verifyPassword e password h then Inr (d, LG_invalid_credentials)
          else if \<not> verified then Inr (d, LG_email_not_verified)
          else and_then (createAuthSession e (pu_id u) ttlSeconds d) (\<lambda>(d, token, expiresAt).
            Inr (d, LG_issued \<lparr>is_user = u, is_token = token, is_expires = expiresAt\<rparr>)))"

subsection \<open>Codes sent by mail\<close>

definition insertEmailLoginChallenge :: "auth_env \<Rightarrow> string \<Rightarrow> string \<Rightarrow> time \<Rightarrow> int \<Rightarrow> adb \<Rightarrow> string + (adb \<times> challenge_row)" where
  "insertEmailLoginChallenge e email codeHash expiresAt attemptCount d =
     (let (d, i) = fresh_id e d;
          c = \<lparr>ch_id = i, ch_email = email, ch_hash = codeHash, ch_attempts = attemptCount, ch_expires = expiresAt,
            ch_created = ax_now e, ch_consumed = None\<rparr>
      in if list_ex (\<lambda>c. ch_id c = i) (a_challenges d) then Inl unique_error
         else Inr (d\<lparr>a_challenges := a_challenges d @ [c]\<rparr>, c))"

definition findLatestEmailLoginChallengeForUpdate :: "adb \<Rightarrow> string \<Rightarrow> challenge_row option" where
  "findLatestEmailLoginChallengeForUpdate d email =
     (case rev (sort_key ch_created (filter (\<lambda>c. citext_eq (ch_email c) email \<and> ch_consumed c = None) (a_challenges d))) of
        [] \<Rightarrow> None | c # _ \<Rightarrow> Some c)"

definition update_challenges :: "(challenge_row \<Rightarrow> bool) \<Rightarrow> (challenge_row \<Rightarrow> challenge_row) \<Rightarrow> adb \<Rightarrow> adb" where
  "update_challenges P f d = d\<lparr>a_challenges := update_where P f (a_challenges d)\<rparr>"

definition consumeEmailLoginChallenge :: "auth_env \<Rightarrow> uuid \<Rightarrow> adb \<Rightarrow> adb" where
  "consumeEmailLoginChallenge e i = update_challenges (\<lambda>c. ch_id c = i) (\<lambda>c. c\<lparr>ch_consumed := Some (ax_now e)\<rparr>)"

definition incrementEmailLoginChallengeAttempts :: "uuid \<Rightarrow> adb \<Rightarrow> adb" where
  "incrementEmailLoginChallengeAttempts i = update_challenges (\<lambda>c. ch_id c = i) (\<lambda>c. c\<lparr>ch_attempts := ch_attempts c + 1\<rparr>)"

text \<open>
  A request for a code: the transaction that stores the challenge, the delivery by the mail
  service, and the transaction that follows a failed delivery.
\<close>

definition active_challenge :: "auth_env \<Rightarrow> string \<Rightarrow> adb \<Rightarrow> challenge_row option" where
  "active_challenge e email d = (case findLatestEmailLoginChallengeForUpdate d email of None \<Rightarrow> None
     | Some c \<Rightarrow> if ax_now e < ch_expires c then Some c else None)"

definition store_challenge :: "auth_env \<Rightarrow> string \<Rightarrow> string \<Rightarrow> int \<Rightarrow> adb \<Rightarrow> string + (adb \<times> challenge_row option)" where
  "store_challenge e email codeHash codeTtlSeconds d =
     (case active_challenge e email d of
        Some c \<Rightarrow> if ch_attempts c \<ge> 5 then Inr (d, None)
          else and_then (insertEmailLoginChallenge e email codeHash (ch_expires c) (ch_attempts c) d) (\<lambda>(d, c). Inr (d, Some c))
      | None \<Rightarrow> and_then (insertEmailLoginChallenge e email codeHash (ax_now e + seconds codeTtlSeconds) 0 d) (\<lambda>(d, c). Inr (d, Some c)))"

definition delivery_failed :: "auth_env \<Rightarrow> string \<Rightarrow> uuid \<Rightarrow> adb \<Rightarrow> adb" where
  "delivery_failed e email i d =
     (let attempts = (case row_of ch_id i (a_challenges d) of None \<Rightarrow> 0 | Some c \<Rightarrow> ch_attempts c);
          d = consumeEmailLoginChallenge e i d
      in case findLatestEmailLoginChallengeForUpdate d email of
           None \<Rightarrow> d
         | Some p \<Rightarrow> if ch_attempts p < attempts
             then update_challenges (\<lambda>c. ch_id c = ch_id p) (\<lambda>c. c\<lparr>ch_attempts := max (ch_attempts c) attempts\<rparr>) d else d)"

datatype code_request_result = RQ_sent string time "string option" | RQ_invalid_email | RQ_too_many_attempts

definition requestEmailLoginCode ::
    "auth_env \<Rightarrow> auth_env \<Rightarrow> string \<Rightarrow> (string \<Rightarrow> string \<Rightarrow> time \<Rightarrow> bool) \<Rightarrow> bool \<Rightarrow> string \<Rightarrow> int \<Rightarrow> adb \<Rightarrow> adb \<times> (string + code_request_result)" where
  "requestEmailLoginCode e later secret sendLoginCode exposeCode address codeTtlSeconds d =
     (let email = normalizeEmail address; code = generateNumericOtp e in
      if \<not> isValidEmail email then (d, Inr RQ_invalid_email)
      else case store_challenge e email (hashEmailOtp e secret email code) codeTtlSeconds d of
        Inl err \<Rightarrow> (d, Inl err)
      | Inr (d, None) \<Rightarrow> (d, Inr RQ_too_many_attempts)
      | Inr (d, Some c) \<Rightarrow>
          if sendLoginCode email code (ch_expires c)
          then (d, Inr (RQ_sent email (ch_expires c) (if exposeCode then Some code else None)))
          else (delivery_failed later email (ch_id c) d, Inl ''email delivery failed''))"

text \<open>
  After a unique violation PostgreSQL refuses every further statement of the transaction, so the
  second lookup of \<open>findOrCreateEmailUser\<close> ends in an exception as well.
\<close>

definition findOrCreateEmailUser :: "auth_env \<Rightarrow> string \<Rightarrow> adb \<Rightarrow> string + (adb \<times> auth_user_row)" where
  "findOrCreateEmailUser e email d = (case findPublicUserByEmail d email of
     Some u \<Rightarrow> Inr (d, u) | None \<Rightarrow> insertUserWithoutPassword e email email d)"

definition consume_window :: "auth_env \<Rightarrow> string \<Rightarrow> adb \<Rightarrow> adb" where
  "consume_window e email = update_challenges (\<lambda>c. citext_eq (ch_email c) email \<and> ch_consumed c = None
     \<and> ax_now e - seconds 1800 \<le> ch_created c \<and> ax_now e < ch_expires c) (\<lambda>c. c\<lparr>ch_consumed := Some (ax_now e)\<rparr>)"

datatype verify_result = VR_issued issued | VR_invalid_code | VR_code_expired | VR_too_many_attempts

definition accept_code :: "auth_env \<Rightarrow> string \<Rightarrow> int \<Rightarrow> uuid \<Rightarrow> adb \<Rightarrow> string + (adb \<times> verify_result)" where
  "accept_code e email ttlSeconds i d =
     and_then (findOrCreateEmailUser e email (consume_window e email (consumeEmailLoginChallenge e i d))) (\<lambda>(d, u).
     and_then (upsertIdentity e (pu_account u) ''email'' email (Some email) (Some (ax_now e)) d) (\<lambda>d.
     and_then (createAuthSession e (pu_id u) ttlSeconds d) (\<lambda>(d, token, expiresAt).
       Inr (d, VR_issued \<lparr>is_user = u, is_token = token, is_expires = expiresAt\<rparr>))))"

definition verifyEmailLoginCode :: "auth_env \<Rightarrow> string \<Rightarrow> string \<Rightarrow> string \<Rightarrow> int \<Rightarrow> int \<Rightarrow> adb \<Rightarrow> string + (adb \<times> verify_result)" where
  "verifyEmailLoginCode e secret address input ttlSeconds maxAttempts d =
     (let email = normalizeEmail address; code = js_trim input in
      if \<not> isValidEmail email \<or> \<not> six_digits code then Inr (d, VR_invalid_code)
      else case findLatestEmailLoginChallengeForUpdate d email of
        None \<Rightarrow> Inr (d, VR_invalid_code)
      | Some c \<Rightarrow>
          if maxAttempts \<le> ch_attempts c then Inr (d, VR_too_many_attempts)
          else if ch_expires c \<le> ax_now e then Inr (d, VR_code_expired)
          else if hashEmailOtp e secret email code \<noteq> ch_hash c
            then Inr (incrementEmailLoginChallengeAttempts (ch_id c) d, VR_invalid_code)
          else accept_code e email ttlSeconds (ch_id c) d)"

subsection \<open>Login through Google\<close>

datatype link_mode = Existing_google_identity | New_account | Verified_email_account | Unverified_passwordless_account
  | Claim_unverified_password_account

definition decideGoogleIdentityLink :: "bool \<Rightarrow> bool \<Rightarrow> bool \<Rightarrow> bool \<Rightarrow> link_mode" where
  "decideGoogleIdentityLink providerIdentityExists emailAccountExists emailVerified passwordConfigured =
     (if providerIdentityExists then Existing_google_identity
      else if \<not> emailAccountExists then New_account
      else if emailVerified then Verified_email_account
      else if passwordConfigured then Claim_unverified_password_account
      else Unverified_passwordless_account)"


definition sanitizeRedirectAfter :: "string option \<Rightarrow> string" where
  "sanitizeRedirectAfter value = (case value of None \<Rightarrow> ''/''
     | Some v \<Rightarrow> if v = [] \<or> \<not> prefix ''/'' v \<or> prefix ''//'' v then ''/'' else take 512 v)"

definition insertOauthLoginChallenge :: "auth_env \<Rightarrow> string \<Rightarrow> string \<Rightarrow> string \<Rightarrow> time \<Rightarrow> adb \<Rightarrow> string + adb" where
  "insertOauthLoginChallenge e provider stateHash redirectAfter expiresAt d =
     (let (d, i) = fresh_id e d in
      if list_ex (\<lambda>c. oc_id c = i \<or> oc_stateHash c = stateHash) (a_oauth d) then Inl unique_error
      else Inr (d\<lparr>a_oauth := a_oauth d @ [\<lparr>oc_id = i, oc_provider = provider, oc_stateHash = stateHash, oc_redirect = redirectAfter,
        oc_expires = expiresAt, oc_created = ax_now e, oc_consumed = None\<rparr>]\<rparr>))"

definition consumeOauthLoginChallenge :: "auth_env \<Rightarrow> string \<Rightarrow> string \<Rightarrow> adb \<Rightarrow> adb \<times> oauth_row option" where
  "consumeOauthLoginChallenge e provider stateHash d =
     (case rev (sort_key oc_created (filter (\<lambda>c. oc_provider c = provider \<and> oc_stateHash c = stateHash \<and> oc_consumed c = None)
         (a_oauth d))) of
        [] \<Rightarrow> (d, None)
      | c # _ \<Rightarrow> (d\<lparr>a_oauth := update_where (\<lambda>r. oc_id r = oc_id c) (\<lambda>r. r\<lparr>oc_consumed := Some (ax_now e)\<rparr>) (a_oauth d)\<rparr>, Some c))"

record google_config =
  gc_clientId :: string
  gc_redirectUrl :: string
  gc_stateTtlSeconds :: int
  gc_sessionTtlSeconds :: int

text \<open>The address of Google's page is the list of its parameters.\<close>

definition createGoogleOAuthStart :: "auth_env \<Rightarrow> google_config \<Rightarrow> string option \<Rightarrow> adb \<Rightarrow> string + (adb \<times> (string \<times> string) list \<times> time)" where
  "createGoogleOAuthStart e config redirectAfter d =
     (let (d, state) = newSecretToken e d; expiresAt = ax_now e + seconds (gc_stateTtlSeconds config)
      in and_then (insertOauthLoginChallenge e ''google'' (ax_sha256 e state) (sanitizeRedirectAfter redirectAfter) expiresAt d) (\<lambda>d.
        Inr (d, [(''client_id'', gc_clientId config), (''redirect_uri'', gc_redirectUrl config), (''response_type'', ''code''),
          (''scope'', ''openid email profile''), (''state'', state), (''access_type'', ''online''), (''prompt'', ''select_account'')], expiresAt)))"

text \<open>Google's answers: \<open>None\<close> is a response that is not \<open>ok\<close>, otherwise the parsed object.\<close>

record google =
  go_token :: "string \<Rightarrow> js_record option"
  go_profile :: "string \<Rightarrow> js_record option"

record google_profile =
  gp_sub :: string
  gp_email :: string
  gp_emailVerified :: bool
  gp_name :: string
  gp_picture :: string

definition readBoolean :: "js_record \<Rightarrow> string \<Rightarrow> bool" where
  "readBoolean r k \<longleftrightarrow> js_prop r k = Some (JBool True) \<or> js_prop r k = Some (JStr ''true'')"

definition exchangeGoogleCode :: "google \<Rightarrow> string \<Rightarrow> string option" where
  "exchangeGoogleCode g code = (case go_token g code of None \<Rightarrow> None
     | Some payload \<Rightarrow> let t = readString payload ''access_token'' in if t = [] then None else Some t)"

definition fetchGoogleProfile :: "google \<Rightarrow> string \<Rightarrow> google_profile option" where
  "fetchGoogleProfile g accessToken = (case go_profile g accessToken of None \<Rightarrow> None
     | Some payload \<Rightarrow> let sub = readString payload ''sub''; email = js_lower (readString payload ''email'') in
         if sub = [] \<or> email = [] then None
         else Some \<lparr>gp_sub = sub, gp_email = email, gp_emailVerified = readBoolean payload ''email_verified'',
           gp_name = readString payload ''name'', gp_picture = readString payload ''picture''\<rparr>)"

definition resolveGoogleUser :: "auth_env \<Rightarrow> google_profile \<Rightarrow> adb \<Rightarrow> string + (adb \<times> auth_user_row \<times> link_mode)" where
  "resolveGoogleUser e p d =
     (case findPublicUserByIdentity d ''google'' (gp_sub p) of
        Some u \<Rightarrow> Inr (d, u, Existing_google_identity)
      | None \<Rightarrow> (case findPublicUserByEmail d (gp_email p) of
          None \<Rightarrow> and_then (insertUserWithoutPassword e (gp_email p) (if gp_name p = [] then gp_email p else gp_name p) d)
            (\<lambda>(d, u). Inr (d, u, decideGoogleIdentityLink False False False False))
        | Some u \<Rightarrow>
            let mode = decideGoogleIdentityLink False True (isAccountEmailVerified d (pu_account u) (gp_email p))
              (hasPasswordCredential d (pu_id u))
            in Inr (if mode = Claim_unverified_password_account then securelyClaimUnverifiedPasswordAccount e u ''google'' d else d,
                 u, mode)))"

datatype google_result = GR_issued issued string | GR_state_invalid | GR_state_expired | GR_exchange_failed | GR_email_not_verified

definition google_login :: "auth_env \<Rightarrow> google_config \<Rightarrow> google_profile \<Rightarrow> string \<Rightarrow> adb \<Rightarrow> string + (adb \<times> google_result)" where
  "google_login e config p redirectAfter d =
     and_then (resolveGoogleUser e p d) (\<lambda>(d, u, mode).
     and_then (syncGoogleUserProfile e u (gp_name p) (gp_picture p) d) (\<lambda>(d, u).
     and_then (upsertIdentity e (pu_account u) ''google'' (gp_sub p) (Some (gp_email p)) (Some (ax_now e)) d) (\<lambda>d.
     and_then (if pu_email u = gp_email p
         then upsertIdentity e (pu_account u) ''email'' (gp_email p) (Some (gp_email p)) (Some (ax_now e)) d else Inr d) (\<lambda>d.
     and_then (createAuthSession e (pu_id u) (gc_sessionTtlSeconds config) d) (\<lambda>(d, token, expiresAt).
       Inr (d, GR_issued \<lparr>is_user = u, is_token = token, is_expires = expiresAt\<rparr> redirectAfter))))))"

text \<open>The state is consumed by a transaction of its own, whatever follows.\<close>

definition completeGoogleOAuth :: "auth_env \<Rightarrow> google_config \<Rightarrow> google \<Rightarrow> string \<Rightarrow> string \<Rightarrow> adb \<Rightarrow> adb \<times> (string + google_result)" where
  "completeGoogleOAuth e config g code state d =
     (case consumeOauthLoginChallenge e ''google'' (ax_sha256 e state) d of
        (d, None) \<Rightarrow> (d, Inr GR_state_invalid)
      | (d, Some c) \<Rightarrow>
          if oc_expires c \<le> ax_now e then (d, Inr GR_state_expired)
          else case exchangeGoogleCode g code of
            None \<Rightarrow> (d, Inr GR_exchange_failed)
          | Some accessToken \<Rightarrow> (case fetchGoogleProfile g accessToken of
              None \<Rightarrow> (d, Inr GR_exchange_failed)
            | Some p \<Rightarrow>
                if \<not> gp_emailVerified p then (d, Inr GR_email_not_verified)
                else (case google_login e config p (oc_redirect c) d of
                    Inl err \<Rightarrow> (d, Inl err) | Inr (d, r) \<Rightarrow> (d, Inr r))))"

subsection \<open>Where a login ends\<close>

text \<open>
  The host of \<open>new URL(redirectAfter, appRedirectUrl)\<close> for a reference that begins with a slash and an
  application \<open>app\<close> served over http or https.  The URL parser removes tabs and newlines; when a slash
  or backslash follows the first slash, what comes after all of them, up to the next delimiter, is the
  authority.  An authority of letters and dots is a host as it stands, in lower case; for any other
  form (user information, ports, digits, percent signs; an empty one throws) the model says nothing.
\<close>

definition url_chars :: "string \<Rightarrow> string" where
  "url_chars v = filter (\<lambda>c. (of_char c :: nat) \<notin> {9, 10, 13}) v"

definition url_slash :: "char \<Rightarrow> bool" where
  "url_slash c \<longleftrightarrow> c = CHR ''/'' \<or> c = CHR 0x5C"

definition ends_authority :: "char \<Rightarrow> bool" where
  "ends_authority c \<longleftrightarrow> url_slash c \<or> c = CHR ''?'' \<or> c = CHR ''#''"

definition named_host :: "string \<Rightarrow> bool" where
  "named_host h \<longleftrightarrow> (case h of [] \<Rightarrow> False
     | c # _ \<Rightarrow> c \<noteq> CHR ''.'' \<and> list_all (\<lambda>c. c \<in> set ''abcdefghijklmnopqrstuvwxyz.'') h)"

definition authority_host :: "string \<Rightarrow> string option" where
  "authority_host s = (let h = js_lower s in if named_host h then Some h else None)"

definition redirect_host :: "string \<Rightarrow> string \<Rightarrow> string option" where
  "redirect_host app v = (case url_chars v of
     s # c # cs \<Rightarrow> if url_slash s \<and> url_slash c
       then authority_host (takeWhile (\<lambda>c. \<not> ends_authority c) (dropWhile url_slash cs)) else Some app
   | _ \<Rightarrow> Some app)"

lemma host_char: "c \<in> set ''abcdefghijklmnopqrstuvwxyz.'' \<Longrightarrow>
    lower_char c = c \<and> \<not> ends_authority c \<and> (of_char c :: nat) \<notin> {9, 10, 13}"
  by (auto simp: lower_char_def ends_authority_def url_slash_def)

lemma host_resolved:
  assumes "named_host h" "w = [] \<or> ends_authority (hd w)"
  shows "redirect_host app (CHR ''/'' # CHR 0x5C # h @ w) = Some h"
proof -
  have chars: "\<forall>c\<in>set h. lower_char c = c \<and> \<not> ends_authority c \<and> (of_char c :: nat) \<notin> {9, 10, 13}"
    using assms(1) host_char by (cases h) (auto simp only: named_host_def list.case list_all_iff)
  obtain c cs where h: "h = c # cs" "\<not> url_slash c"
    using assms(1) chars by (cases h) (auto simp: named_host_def ends_authority_def)
  have kept: "url_chars h = h" using chars by (simp add: url_chars_def filter_id_conv)
  have rest: "url_chars w = [] \<or> ends_authority (hd (url_chars w))"
    using assms(2) by (cases w) (auto simp: url_chars_def ends_authority_def url_slash_def)
  have "takeWhile (\<lambda>c. \<not> ends_authority c) (h @ url_chars w) = h @ takeWhile (\<lambda>c. \<not> ends_authority c) (url_chars w)"
    by (rule takeWhile_append2) (use chars in blast)
  also have "takeWhile (\<lambda>c. \<not> ends_authority c) (url_chars w) = []" using rest by (cases "url_chars w") auto
  finally have auth: "takeWhile (\<lambda>c. \<not> ends_authority c) (h @ url_chars w) = h" by simp
  have "js_lower h = h" using chars by (simp add: js_lower_def map_idI)
  then have "authority_host h = Some h" using assms(1) by (simp add: authority_host_def)
  moreover have "url_chars (CHR ''/'' # CHR 0x5C # h @ w) = CHR ''/'' # CHR 0x5C # h @ url_chars w"
    using kept by (simp add: url_chars_def)
  moreover have "dropWhile url_slash (h @ url_chars w) = h @ url_chars w" using h by simp
  ultimately show ?thesis using auth by (simp add: redirect_host_def url_slash_def[of "CHR ''/''"] url_slash_def[of "CHR 0x5C"])
qed

lemma consumed_oauth:
  assumes "insertOauthLoginChallenge e p h r x d = Inr d'" "consumeOauthLoginChallenge e' p h d' = (d'', Some c)"
  shows "oc_redirect c = r"
proof -
  from assms(1) obtain row where row: "a_oauth d' = a_oauth d @ [row]" "oc_redirect row = r" "oc_provider row = p" "oc_stateHash row = h"
    "oc_consumed row = None" "\<not> list_ex (\<lambda>c. oc_stateHash c = h) (a_oauth d)"
    by (auto simp: insertOauthLoginChallenge_def fresh_id_def Let_def list_ex_iff split: if_splits)
  have "filter (\<lambda>c. oc_provider c = p \<and> oc_stateHash c = h \<and> oc_consumed c = None) (a_oauth d) = []"
    using row(6) by (auto simp: filter_empty_conv list_ex_iff)
  with assms(2) row show ?thesis by (auto simp: consumeOauthLoginChallenge_def)
qed

lemma google_redirect:
  assumes "completeGoogleOAuth e config g code s d = (d', Inr (GR_issued i r))"
  obtains d1 c where "consumeOauthLoginChallenge e ''google'' (ax_sha256 e s) d = (d1, Some c)" "r = oc_redirect c"
proof -
  obtain d1 o1 where o1: "consumeOauthLoginChallenge e ''google'' (ax_sha256 e s) d = (d1, o1)" by force
  with assms obtain c where c: "o1 = Some c" by (cases o1) (auto simp: completeGoogleOAuth_def)
  have "\<exists>p. google_login e config p (oc_redirect c) d1 = Inr (d', GR_issued i r)"
    using assms o1 c by (auto simp: completeGoogleOAuth_def split: if_splits option.splits sum.splits)
  then have "r = oc_redirect c" by (auto simp: google_login_def split: if_splits)
  with o1 c that show thesis by blast
qed

text \<open>
  C24: The page a Google login ends on, with the access token in its fragment, is the one its start
  asked for, after the check of the start.  That check lets a host through: a value that begins with a
  slash, a backslash and a host name ends on that host, whatever the host of the application is.
\<close>

theorem redirect_leaves_site:
  assumes "createGoogleOAuthStart e config (Some v) d = Inr (d1, params, x)" "(''state'', s) \<in> set params"
    and "ax_sha256 e' = ax_sha256 e" "completeGoogleOAuth e' config g code s d1 = (d2, Inr (GR_issued i r))"
  shows "r = sanitizeRedirectAfter (Some v)
    \<and> (\<forall>h w app. v = ''/'' @ [CHR 0x5C] @ h @ w \<and> named_host h \<and> length h \<le> 510 \<and> (w = [] \<or> ends_authority (hd w))
         \<longrightarrow> r = take 512 v \<and> redirect_host app r = Some h)"
proof -
  from assms(1,2) obtain d0 where start: "insertOauthLoginChallenge e ''google'' (ax_sha256 e s) (sanitizeRedirectAfter (Some v)) x d0 = Inr d1"
    by (auto simp: createGoogleOAuthStart_def newSecretToken_def Let_def)
  from google_redirect[OF assms(4)] obtain d3 c where c: "consumeOauthLoginChallenge e' ''google'' (ax_sha256 e s) d1 = (d3, Some c)"
    "r = oc_redirect c" by (metis assms(3))
  have r: "r = sanitizeRedirectAfter (Some v)" unfolding c(2) by (rule consumed_oauth[OF start c(1)])
  moreover have "r = take 512 v \<and> redirect_host app r = Some h"
    if v: "v = ''/'' @ [CHR 0x5C] @ h @ w" "named_host h" "length h \<le> 510" "w = [] \<or> ends_authority (hd w)" for h w app
  proof -
    have "take 512 v = CHR ''/'' # CHR 0x5C # h @ take (510 - length h) w" using v(1,3) by (simp add: numeral_eq_Suc)
    moreover have "take (510 - length h) w = [] \<or> ends_authority (hd (take (510 - length h) w))"
      using v(4) by (cases "take (510 - length h) w"; cases w) (auto simp: take_Cons' split: if_splits)
    moreover have "r = take 512 v" using v(1) by (simp add: r sanitizeRedirectAfter_def)
    ultimately show ?thesis using host_resolved[OF v(2)] by metis
  qed
  ultimately show ?thesis by blast
qed

subsection \<open>An account that waits for its verification\<close>

definition same_people :: "adb \<Rightarrow> adb \<Rightarrow> bool" where
  "same_people d d' \<longleftrightarrow> a_users d' = a_users d \<and> a_passwords d' = a_passwords d \<and> a_identities d' = a_identities d"

text \<open>What the code relies on: salts and base64url texts have no colon, and decoding gives the bytes back.\<close>

definition password_ok :: "auth_env \<Rightarrow> string \<Rightarrow> bool" where
  "password_ok e password \<longleftrightarrow> (\<forall>n. ax_token e n \<noteq> [] \<and> CHR '':'' \<notin> set (ax_token e n)
     \<and> (let b = ax_scrypt e password (ax_token e n) in ax_encode e b \<noteq> [] \<and> CHR '':'' \<notin> set (ax_encode e b) \<and> ax_decode e (ax_encode e b) = b))"

definition same_crypto :: "auth_env \<Rightarrow> auth_env \<Rightarrow> bool" where
  "same_crypto e e' \<longleftrightarrow> ax_scrypt e' = ax_scrypt e \<and> ax_encode e' = ax_encode e \<and> ax_decode e' = ax_decode e \<and> ax_sha256 e' = ax_sha256 e"

lemma password_verifies:
  assumes "hashPassword e password d = (d', h)" "password_ok e password" "same_crypto e e'"
  shows "verifyPassword e' password h"
proof -
  define n where "n = next_token d"
  define b where "b = ax_scrypt e password (ax_token e n)"
  from assms(1) have h: "h = ''scrypt'' @ CHR '':'' # ax_token e n @ CHR '':'' # ax_encode e b"
    by (auto simp: hashPassword_def newSecretToken_def n_def b_def)
  from assms(2) have ok: "ax_token e n \<noteq> []" "CHR '':'' \<notin> set (ax_token e n)" "ax_encode e b \<noteq> []" "CHR '':'' \<notin> set (ax_encode e b)"
    "ax_decode e (ax_encode e b) = b" by (auto simp: password_ok_def b_def Let_def)
  have "js_split (CHR '':'') h = [''scrypt'', ax_token e n, ax_encode e b]"
    unfolding h by (subst js_split_append, simp, subst js_split_append, rule ok(2)) (simp add: js_split_single ok(4))
  with ok assms(3) show ?thesis by (simp add: verifyPassword_def same_crypto_def b_def)
qed

lemma upserted:
  assumes "upsertIdentity e a p s m v d = Inr d'"
  shows "a_users d' = a_users d" "a_passwords d' = a_passwords d" "a_sessions d' = a_sessions d" "a_challenges d' = a_challenges d"
    "\<exists>i\<in>set (a_identities d'). ix_account i = a \<and> ix_provider i = p \<and> ix_subject i = s \<and> (v \<noteq> None \<longrightarrow> ix_verified i \<noteq> None)"
proof -
  show "a_users d' = a_users d" "a_passwords d' = a_passwords d" "a_sessions d' = a_sessions d" "a_challenges d' = a_challenges d"
    using assms by (auto simp: upsertIdentity_def split: option.splits if_splits)
  show "\<exists>i\<in>set (a_identities d'). ix_account i = a \<and> ix_provider i = p \<and> ix_subject i = s \<and> (v \<noteq> None \<longrightarrow> ix_verified i \<noteq> None)"
  proof (cases "find (\<lambda>i. ix_provider i = p \<and> ix_subject i = s) (a_identities d)")
    case None
    with assms show ?thesis by (auto simp: upsertIdentity_def)
  next
    case (Some i)
    from find_SomeD[OF Some] have i: "i \<in> set (a_identities d)" "ix_provider i = p" "ix_subject i = s" by simp_all
    define f :: "identity_row \<Rightarrow> identity_row" where "f = (\<lambda>i. i\<lparr>ix_email := coalesce_new m (ix_email i), ix_verified := coalesce_new v (ix_verified i), ix_seen := ax_now e\<rparr>)"
    from assms Some have d': "ix_account i = a" "a_identities d' = update_where (\<lambda>i. ix_provider i = p \<and> ix_subject i = s) f (a_identities d)"
      by (auto simp: upsertIdentity_def f_def split: if_splits)
    have f: "ix_account (f j) = ix_account j" "ix_provider (f j) = ix_provider j" "ix_subject (f j) = ix_subject j"
      "ix_verified (f j) = coalesce_new v (ix_verified j)" for j by (simp_all add: f_def)
    have "f i \<in> set (a_identities d')" unfolding d'(2) set_update_where using i by (intro image_eqI[of _ _ i]) simp_all
    moreover have "v \<noteq> None \<longrightarrow> ix_verified (f i) \<noteq> None" unfolding f(4) by (cases v) (simp_all add: coalesce_new_def)
    moreover have "ix_account (f i) = a" "ix_provider (f i) = p" "ix_subject (f i) = s" using i d'(1) f by simp_all
    ultimately show ?thesis by (intro bexI[of _ "f i"] conjI)
  qed
qed

lemma find_unique:
  assumes "u \<in> set us" "P u" "\<And>v. v \<in> set us \<Longrightarrow> P v \<Longrightarrow> v = u"
  shows "find P us = Some u"
proof -
  have "find P us \<noteq> None" using assms(1,2) by (auto simp: find_is_None list_ex_iff)
  then obtain v where v: "find P us = Some v" by blast
  with find_SomeD[OF v] assms(3) show ?thesis by blast
qed

lemma new_user:
  assumes "insertUserWithoutPassword e email name d = Inr (d', u)"
  shows "a_users d' = a_users d @ [u]" "a_passwords d' = a_passwords d" "a_identities d' = a_identities d" "pu_email u = email"
    "pu_disabled u = None" "\<forall>v\<in>set (a_users d). pu_id v \<noteq> pu_id u \<and> \<not> citext_eq (pu_email v) email" "pu_account u \<notin> set (a_accounts d)"
  using assms by (auto simp: insertUserWithoutPassword_def fresh_id_def Let_def list_ex_iff split: if_splits)

lemma unverified_kept:
  assumes "upsertIdentity e a p s m None d = Inr d'" "k \<in> set (a_identities d')" "ix_verified k \<noteq> None"
  shows "\<exists>k0\<in>set (a_identities d). ix_account k0 = ix_account k"
  using assms by (fastforce simp: upsertIdentity_def set_update_where coalesce_new_def split: option.splits if_splits)

lemma registered_user:
  assumes "insertRegisteredUser e email name h d = Inr (d', u)"
  shows "a_users d' = a_users d @ [u]" "pu_email u = email" "pu_disabled u = None"
    "\<forall>v\<in>set (a_users d). pu_id v \<noteq> pu_id u \<and> \<not> citext_eq (pu_email v) email"
    "a_passwords d' = a_passwords d @ [\<lparr>pw_user = pu_id u, pw_hash = h\<rparr>]" "\<not> hasPasswordCredential d (pu_id u)"
    "k \<in> set (a_identities d') \<Longrightarrow> ix_verified k \<noteq> None \<Longrightarrow> ix_account k = pu_account u \<Longrightarrow> \<exists>k0\<in>set (a_identities d). ix_account k0 = pu_account u"
    "pu_account u \<notin> set (a_accounts d)"
proof -
  obtain d1 v where v: "insertUserWithoutPassword e email name d = Inr (d1, v)"
    using assms by (cases "insertUserWithoutPassword e email name d") (auto simp: insertRegisteredUser_def)
  define d1' where "d1' = d1\<lparr>a_passwords := a_passwords d1 @ [\<lparr>pw_user = pu_id v, pw_hash = h\<rparr>]\<rparr>"
  note new = new_user[OF v]
  have p: "\<not> list_ex (\<lambda>p. pw_user p = pu_id v) (a_passwords d1)"
    and rest: "and_then (upsertIdentity e (pu_account v) ''email'' email (Some email) None d1')
      (\<lambda>d. Inr (auth_audit e ''user_registered'' v [(''email'', JStr email)] d, v)) = Inr (d', u)"
    using assms v new(4) by (simp_all add: insertRegisteredUser_def d1'_def split: if_splits)
  from rest obtain d2 where d2: "upsertIdentity e (pu_account v) ''email'' email (Some email) None d1' = Inr d2"
    "u = v" "d' = auth_audit e ''user_registered'' v [(''email'', JStr email)] d2"
    by (cases "upsertIdentity e (pu_account v) ''email'' email (Some email) None d1'") auto
  note up = upserted[OF d2(1)]
  from new up(1,2) p d2(2,3) show "a_users d' = a_users d @ [u]" "pu_email u = email" "pu_disabled u = None"
    "\<forall>v\<in>set (a_users d). pu_id v \<noteq> pu_id u \<and> \<not> citext_eq (pu_email v) email"
    "a_passwords d' = a_passwords d @ [\<lparr>pw_user = pu_id u, pw_hash = h\<rparr>]" "\<not> hasPasswordCredential d (pu_id u)"
    by (simp_all add: auth_audit_def d1'_def hasPasswordCredential_def)
  show "k \<in> set (a_identities d') \<Longrightarrow> ix_verified k \<noteq> None \<Longrightarrow> ix_account k = pu_account u \<Longrightarrow> \<exists>k0\<in>set (a_identities d). ix_account k0 = pu_account u"
    using unverified_kept[OF d2(1), of k] new(3) d2(3) by (simp add: auth_audit_def d1'_def)
  show "pu_account u \<notin> set (a_accounts d)" using new(7) d2(2) by simp
qed

lemma registered:
  assumes "registerUser e address password name d = Inr (d', RG_pending email)"
  obtains d0 h n u where "email = normalizeEmail address" "hashPassword e password d = (d0, h)"
    "a_users d0 = a_users d" "a_passwords d0 = a_passwords d" "a_identities d0 = a_identities d" "a_accounts d0 = a_accounts d" "insertRegisteredUser e email n h d0 = Inr (d', u)"
proof -
  obtain d0 h where h: "hashPassword e password d = (d0, h)" by force
  define n where "n = (let m = (case name of None \<Rightarrow> [] | Some n \<Rightarrow> js_trim n) in if m = [] then normalizeEmail address else m)"
  have "\<exists>u. insertRegisteredUser e (normalizeEmail address) n h d0 = Inr (d', u) \<and> pu_email u = email"
    using assms h unfolding registerUser_def n_def Let_def
    by (cases "insertRegisteredUser e (normalizeEmail address) n h d0") (auto simp: n_def Let_def split: if_splits)
  moreover have "a_users d0 = a_users d" "a_passwords d0 = a_passwords d" "a_identities d0 = a_identities d" "a_accounts d0 = a_accounts d"
    using h by (auto simp: hashPassword_def newSecretToken_def)
  ultimately show thesis using that h registered_user(2) by metis
qed

lemma same_email_sym: "citext_eq x y = citext_eq y x"
  by (auto simp: citext_eq_def)

lemma credential_found:
  assumes "a_users d = us @ [u]" "pu_disabled u = None" "citext_eq (pu_email u) email"
    and "\<forall>v\<in>set us. \<not> citext_eq (pu_email v) email" "a_passwords d = ps @ [\<lparr>pw_user = pu_id u, pw_hash = h\<rparr>]" "\<forall>p\<in>set ps. pw_user p \<noteq> pu_id u"
  shows "findPasswordCredentialByEmail d email = Some (u, isAccountEmailVerified d (pu_account u) (pu_email u), h)"
    "findPublicUserByEmail d email = Some u"
proof -
  have "filter (\<lambda>u. citext_eq (pu_email u) email \<and> pu_disabled u = None) us = []" "filter (\<lambda>p. pw_user p = pu_id u) ps = []"
    using assms(4,6) by (auto simp: filter_empty_conv)
  with assms(1,2,3,5) show "findPasswordCredentialByEmail d email = Some (u, isAccountEmailVerified d (pu_account u) (pu_email u), h)"
    by (simp add: findPasswordCredentialByEmail_def)
  show "findPublicUserByEmail d email = Some u" unfolding findPublicUserByEmail_def
    by (rule find_unique) (use assms(1-4) in auto)
qed

lemma login_with:
  assumes "findPasswordCredentialByEmail d (normalizeEmail address) = Some (u, verified, h)" "verifyPassword e password h"
    and "normalizeEmail address \<noteq> []" "password \<noteq> []"
  shows "\<not> verified \<Longrightarrow> loginUser e address password ttl d = Inr (d, LG_email_not_verified)"
    "verified \<Longrightarrow> loginUser e address password ttl d = Inr (d', r) \<Longrightarrow> \<exists>i. r = LG_issued i \<and> is_user i = u"
  using assms by (auto simp: loginUser_def Let_def)

lemma created_session:
  assumes "createAuthSession e i ttl d = Inr (d', token, x)"
  shows "a_users d' = a_users d" "a_passwords d' = a_passwords d" "a_identities d' = a_identities d" "a_challenges d' = a_challenges d"
    "x = ax_now e + seconds ttl" "\<not> list_ex (\<lambda>s. an_hash s = ax_sha256 e token) (a_sessions d)"
    "a_sessions d' = a_sessions d @ [\<lparr>an_user = i, an_hash = ax_sha256 e token, an_expires = x, an_revoked = None, an_seen = None\<rparr>]"
  using assms by (auto simp: createAuthSession_def newSecretToken_def insertAuthSession_def Let_def split: if_splits)

lemma consumed_people:
  "a_users (update_challenges P f d) = a_users d" "a_passwords (update_challenges P f d) = a_passwords d"
  "a_identities (update_challenges P f d) = a_identities d" "a_sessions (update_challenges P f d) = a_sessions d"
  by (simp_all add: update_challenges_def)

lemma code_accepted:
  assumes "accept_code e email ttl i d = Inr (d', VR_issued j)" "findPublicUserByEmail d email = Some u"
  shows "is_user j = u" "a_users d' = a_users d" "a_passwords d' = a_passwords d" "isAccountEmailVerified d' (pu_account u) email"
proof -
  define d0 where "d0 = consume_window e email (consumeEmailLoginChallenge e i d)"
  have d0: "a_users d0 = a_users d" "a_passwords d0 = a_passwords d" "findPublicUserByEmail d0 email = Some u"
    using assms(2) by (simp_all add: d0_def consume_window_def consumeEmailLoginChallenge_def consumed_people findPublicUserByEmail_def)
  from assms(1) obtain d1 d2 token x where u: "upsertIdentity e (pu_account u) ''email'' email (Some email) (Some (ax_now e)) d0 = Inr d1"
    "createAuthSession e (pu_id u) ttl d1 = Inr (d2, token, x)" "d' = d2" "j = \<lparr>is_user = u, is_token = token, is_expires = x\<rparr>"
    unfolding accept_code_def d0_def[symmetric] findOrCreateEmailUser_def d0(3) by auto
  note up = upserted[OF u(1)] and s = created_session[OF u(2)]
  from u s up d0 show "is_user j = u" "a_users d' = a_users d" "a_passwords d' = a_passwords d" by simp_all
  from up(5) obtain k where "k \<in> set (a_identities d1)" "ix_account k = pu_account u" "ix_provider k = ''email''" "ix_subject k = email"
    "ix_verified k \<noteq> None" by auto
  then show "isAccountEmailVerified d' (pu_account u) email" using u(3) s(3) by (auto simp: isAccountEmailVerified_def list_ex_iff)
qed

lemma verified_code:
  assumes "verifyEmailLoginCode e secret address code ttl n d = Inr (d', VR_issued j)"
  obtains c where "findLatestEmailLoginChallengeForUpdate d (normalizeEmail address) = Some c" "ch_attempts c < n" "ax_now e < ch_expires c"
    "hashEmailOtp e secret (normalizeEmail address) (js_trim code) = ch_hash c"
    "accept_code e (normalizeEmail address) ttl (ch_id c) d = Inr (d', VR_issued j)"
  using assms by (auto simp: verifyEmailLoginCode_def Let_def split: if_splits option.splits)

lemma lower_idem [simp]: "js_lower (js_lower s) = js_lower s"
proof -
  have "lower_char (lower_char c) = lower_char c" for c
  proof -
    have "(of_char c :: nat) < 256" by simp
    then show ?thesis by (auto simp: lower_char_def Let_def)
  qed
  then show ?thesis by (simp add: js_lower_def)
qed

definition accounts_known :: "adb \<Rightarrow> bool" where
  "accounts_known d \<longleftrightarrow> (\<forall>i\<in>set (a_identities d). ix_account i \<in> set (a_accounts d))"

text \<open>
  C23: A password registered for an address by someone who cannot read its mail does not log in;
  but the first login with a code by the owner of the address verifies the account with that
  password: from then on the password logs in to the account the owner uses.
\<close>

theorem code_login_activates_password:
  assumes "registerUser e address password name d = Inr (d1, RG_pending email)" "accounts_known d"
    and "same_people d1 d2" "verifyEmailLoginCode e2 secret address2 code ttl n d2 = Inr (d3, VR_issued i)" "normalizeEmail address2 = email"
    and "password_ok e password" "same_crypto e e'"
  shows "loginUser e' address password ttl' d1 = Inr (d1, LG_email_not_verified)
    \<and> (\<forall>d4 r. loginUser e' address password ttl' d3 = Inr (d4, r) \<longrightarrow> (\<exists>j. r = LG_issued j \<and> is_user j = is_user i))"
proof -
  from registered[OF assms(1)] obtain d0 h m u where r: "email = normalizeEmail address" "hashPassword e password d = (d0, h)"
    "a_users d0 = a_users d" "a_passwords d0 = a_passwords d" "a_identities d0 = a_identities d" "a_accounts d0 = a_accounts d"
    "insertRegisteredUser e email m h d0 = Inr (d1, u)" .
  note reg = registered_user[OF r(7)]
  have cred: "findPasswordCredentialByEmail x email = Some (u, isAccountEmailVerified x (pu_account u) email, h)" "findPublicUserByEmail x email = Some u"
    if "a_users x = a_users d1" "a_passwords x = a_passwords d1" for x
  proof -
    have "citext_eq (pu_email u) email" using reg(2) by (simp add: citext_eq_def)
    moreover have "\<forall>p\<in>set (a_passwords d0). pw_user p \<noteq> pu_id u" using reg(6) by (auto simp: hasPasswordCredential_def list_ex_iff)
    ultimately show "findPasswordCredentialByEmail x email = Some (u, isAccountEmailVerified x (pu_account u) email, h)"
      "findPublicUserByEmail x email = Some u"
      using credential_found[of x "a_users d0" u email "a_passwords d0" h] that reg by simp_all
  qed
  have pw: "verifyPassword e' password h" by (rule password_verifies[OF r(2) assms(6,7)])
  have nonempty: "normalizeEmail address \<noteq> []" "password \<noteq> []"
    using assms(1) by (auto simp: registerUser_def Let_def split: if_splits)
  have "\<not> isAccountEmailVerified d1 (pu_account u) email"
    using reg(7,8) assms(2) r(5,6) by (fastforce simp: isAccountEmailVerified_def list_ex_iff accounts_known_def)
  then have before: "loginUser e' address password ttl' d1 = Inr (d1, LG_email_not_verified)"
    using login_with(1)[OF cred(1)[OF refl refl, unfolded r(1)] pw nonempty] r(1) by simp
  have "\<exists>j. x = LG_issued j \<and> is_user j = is_user i" if "loginUser e' address password ttl' d3 = Inr (d4, x)" for d4 x
  proof -
    obtain c :: challenge_row where c: "accept_code e2 email ttl (ch_id c) d2 = Inr (d3, VR_issued i)"
      by (rule verified_code[OF assms(4), unfolded assms(5)]) blast
    have d2: "a_users d2 = a_users d1" "a_passwords d2 = a_passwords d1" using assms(3) by (simp_all add: same_people_def)
    note acc = code_accepted[OF c cred(2)[OF d2]]
    have "findPasswordCredentialByEmail d3 (normalizeEmail address) = Some (u, True, h)"
      using cred(1)[of d3] acc d2 r(1) by simp
    from login_with(2)[OF this pw nonempty _ that] acc(1) show ?thesis by simp
  qed
  with before show ?thesis by blast
qed

subsection \<open>Claiming an account through Google\<close>

definition user_key :: "auth_user_row \<Rightarrow> uuid \<times> string \<times> time option" where
  "user_key u = (pu_id u, pu_email u, pu_disabled u)"

lemma claimed_account:
  assumes "google_login e config p r d = Inr (d', GR_issued i t)" "findPublicUserByIdentity d ''google'' (gp_sub p) = None"
    and "findPublicUserByEmail d (gp_email p) = Some u" "\<not> isAccountEmailVerified d (pu_account u) (gp_email p)"
    and "distinct (map pu_id (a_users d))"
  shows "pu_id (is_user i) = pu_id u" "\<not> hasPasswordCredential d' (pu_id u)"
    "\<exists>s. a_sessions d' = update_where (\<lambda>s. an_user s = pu_id u \<and> an_revoked s = None \<and> hasPasswordCredential d (pu_id u))
       (\<lambda>s. s\<lparr>an_revoked := Some (ax_now e)\<rparr>) (a_sessions d) @ [s] \<and> an_user s = pu_id u \<and> an_hash s = ax_sha256 e (is_token i)"
    "map user_key (a_users d') = map user_key (a_users d)"
proof -
  define d0 where "d0 = (if hasPasswordCredential d (pu_id u) then securelyClaimUnverifiedPasswordAccount e u ''google'' d else d)"
  have mode: "decideGoogleIdentityLink False True False c = Claim_unverified_password_account \<longleftrightarrow> c" for c
    by (simp add: decideGoogleIdentityLink_def)
  have resolved: "\<exists>m. resolveGoogleUser e p d = Inr (d0, u, m)"
    using assms(2,3,4) mode by (simp add: resolveGoogleUser_def d0_def Let_def)
  with assms(1) obtain d1 v d2 d3 d4 token x where s: "syncGoogleUserProfile e u (gp_name p) (gp_picture p) d0 = Inr (d1, v)"
    "upsertIdentity e (pu_account v) ''google'' (gp_sub p) (Some (gp_email p)) (Some (ax_now e)) d1 = Inr d2"
    "(if pu_email v = gp_email p then upsertIdentity e (pu_account v) ''email'' (gp_email p) (Some (gp_email p)) (Some (ax_now e)) d2
       else Inr d2) = Inr d3" "createAuthSession e (pu_id v) (gc_sessionTtlSeconds config) d3 = Inr (d4, token, x)"
    "d' = d4" "i = \<lparr>is_user = v, is_token = token, is_expires = x\<rparr>"
    unfolding google_login_def by auto
  note ses = created_session[OF s(4)] and up = upserted[OF s(2)]
  have d3: "a_users d3 = a_users d2" "a_passwords d3 = a_passwords d2" "a_sessions d3 = a_sessions d2"
    using s(3) upserted(1-3)[of e "pu_account v" "''email''" "gp_email p" "Some (gp_email p)" "Some (ax_now e)" d2 d3]
    by (auto split: if_splits)
  from s(1) have v: "pu_id v = pu_id u" "a_passwords d1 = a_passwords d0" "a_sessions d1 = a_sessions d0"
    "map user_key (a_users d1) = map user_key (a_users d0)"
    by (auto simp: syncGoogleUserProfile_def user_key_def must_row_def Let_def map_update_where row_of_def split: option.splits dest!: find_SomeD)
  have d0: "a_users d0 = a_users d" "\<not> hasPasswordCredential d0 (pu_id u)"
    "a_sessions d0 = update_where (\<lambda>s. an_user s = pu_id u \<and> an_revoked s = None \<and> hasPasswordCredential d (pu_id u))
       (\<lambda>s. s\<lparr>an_revoked := Some (ax_now e)\<rparr>) (a_sessions d)"
    by (simp_all add: d0_def securelyClaimUnverifiedPasswordAccount_def auth_audit_def hasPasswordCredential_def list_ex_iff update_where_id)
  show "pu_id (is_user i) = pu_id u" using s(6) v(1) by simp
  show "\<not> hasPasswordCredential d' (pu_id u)" using s(5) ses up d3 v d0(2) by (simp add: hasPasswordCredential_def)
  show "\<exists>s. a_sessions d' = update_where (\<lambda>s. an_user s = pu_id u \<and> an_revoked s = None \<and> hasPasswordCredential d (pu_id u))
       (\<lambda>s. s\<lparr>an_revoked := Some (ax_now e)\<rparr>) (a_sessions d) @ [s] \<and> an_user s = pu_id u \<and> an_hash s = ax_sha256 e (is_token i)"
    using s(5,6) ses up d3 v(1,3) d0(3) by simp
  show "map user_key (a_users d') = map user_key (a_users d)" using s(5) ses up d3 v d0(1) by simp
qed

lemma same_keys:
  assumes "map user_key us = map user_key vs" "v \<in> set us"
  shows "\<exists>w\<in>set vs. pu_id w = pu_id v \<and> pu_email w = pu_email v"
proof -
  from assms(2) have "user_key v \<in> set (map user_key us)" by simp
  then obtain w where "w \<in> set vs" "user_key w = user_key v" unfolding assms(1) by auto
  then show ?thesis by (auto simp: user_key_def)
qed

lemma active_session:
  assumes "findActiveAuthSessionUserByTokenHash e h d = Some v"
  shows "v \<in> set (a_users d) \<and> (\<exists>s\<in>set (a_sessions d). an_hash s = h \<and> an_revoked s = None \<and> ax_now e < an_expires s \<and> an_user s = pu_id v)"
proof -
  let ?ys = "concat (map (\<lambda>s. filter (\<lambda>u. pu_id u = an_user s \<and> pu_disabled u = None) (a_users d))
         (filter (\<lambda>s. an_hash s = h \<and> ax_now e < an_expires s \<and> an_revoked s = None) (a_sessions d)))"
  have "v \<in> set ?ys" using assms unfolding findActiveAuthSessionUserByTokenHash_def by (cases ?ys) simp_all
  then show ?thesis by auto
qed

definition users_ok :: "adb \<Rightarrow> bool" where
  "users_ok d \<longleftrightarrow> distinct (map pu_id (a_users d)) \<and> distinct (map (\<lambda>u. js_lower (pu_email u)) (a_users d))"

text \<open>
  C22: Google claims an account whose password was never verified only after shutting out whoever
  registered it: no password logs in to its address any more, and no session but the one just issued
  authenticates as its user.
\<close>

theorem google_claim_secure:
  assumes "google_login e config p r d = Inr (d', GR_issued i t)" "findPublicUserByIdentity d ''google'' (gp_sub p) = None"
    and "findPublicUserByEmail d (gp_email p) = Some u" "\<not> isAccountEmailVerified d (pu_account u) (gp_email p)"
    and "hasPasswordCredential d (pu_id u)" "users_ok d"
  shows "pu_id (is_user i) = pu_id u
    \<and> (\<forall>e' address password ttl d'' j. citext_eq (normalizeEmail address) (pu_email u) \<longrightarrow>
         loginUser e' address password ttl d' \<noteq> Inr (d'', LG_issued j))
    \<and> (\<forall>e' token v. ax_sha256 e' token \<noteq> ax_sha256 e (is_token i) \<longrightarrow>
         snd (authenticatePublicAuthSession e' token d') = Some v \<longrightarrow> pu_id v \<noteq> pu_id u)"
proof -
  from assms(6) have users: "distinct (map pu_id (a_users d))" "distinct (map (\<lambda>u. js_lower (pu_email u)) (a_users d))"
    by (simp_all add: users_ok_def)
  note c = claimed_account[OF assms(1-4) users(1)]
  have u: "u \<in> set (a_users d)" using find_SomeD[OF assms(3)[unfolded findPublicUserByEmail_def]] by simp
  have same: "pu_id v = pu_id u" if "v \<in> set (a_users d')" "citext_eq (pu_email v) email" "citext_eq email (pu_email u)" for v email
  proof -
    from same_keys[OF c(4) that(1)] obtain w where w: "w \<in> set (a_users d)" "pu_id w = pu_id v" "pu_email w = pu_email v" by blast
    have "w = u" by (rule row_eqI[OF users(2) w(1) u]) (use w(3) that(2,3) in \<open>simp add: citext_eq_def\<close>)
    with w(2) show ?thesis by simp
  qed
  have "findPasswordCredentialByEmail d' email = None" if "citext_eq email (pu_email u)" for email
  proof -
    have "filter (\<lambda>p. pw_user p = pu_id v) (a_passwords d') = []" if "v \<in> set (a_users d')" "citext_eq (pu_email v) email" for v
      using same[OF that \<open>citext_eq email (pu_email u)\<close>] c(2) by (auto simp: hasPasswordCredential_def filter_empty_conv list_ex_iff)
    then have "concat (map (\<lambda>u. map (\<lambda>p. (u, isAccountEmailVerified d' (pu_account u) (pu_email u), pw_hash p))
         (filter (\<lambda>p. pw_user p = pu_id u) (a_passwords d')))
         (filter (\<lambda>u. citext_eq (pu_email u) email \<and> pu_disabled u = None) (a_users d'))) = []" by auto
    then show ?thesis unfolding findPasswordCredentialByEmail_def by (simp only: list.case)
  qed
  then have "loginUser e' address password ttl d' \<noteq> Inr (d'', LG_issued j)"
    if "citext_eq (normalizeEmail address) (pu_email u)" for e' address password ttl d'' j
    using that by (simp add: loginUser_def Let_def)
  moreover have "pu_id v \<noteq> pu_id u" if "ax_sha256 e' token \<noteq> ax_sha256 e (is_token i)"
    "snd (authenticatePublicAuthSession e' token d') = Some v" for e' token v
  proof
    assume v: "pu_id v = pu_id u"
    from that(2) have "findActiveAuthSessionUserByTokenHash e' (ax_sha256 e' token) d' = Some v"
      by (auto simp: authenticatePublicAuthSession_def split: option.splits)
    then obtain s where s: "s \<in> set (a_sessions d')" "an_hash s = ax_sha256 e' token" "an_revoked s = None" "pu_id v = an_user s"
      using active_session by metis
    from c(3) obtain new where new: "a_sessions d' = update_where (\<lambda>s. an_user s = pu_id u \<and> an_revoked s = None
        \<and> hasPasswordCredential d (pu_id u)) (\<lambda>s. s\<lparr>an_revoked := Some (ax_now e)\<rparr>) (a_sessions d) @ [new]"
      "an_hash new = ax_sha256 e (is_token i)" by blast
    have "s \<noteq> new" using s(2) new(2) that(1) by metis
    with s(1) have "s \<in> (\<lambda>s. if an_user s = pu_id u \<and> an_revoked s = None \<and> hasPasswordCredential d (pu_id u)
        then s\<lparr>an_revoked := Some (ax_now e)\<rparr> else s) ` set (a_sessions d)"
      unfolding new(1) set_append set_update_where by (elim UnE) simp_all
    then obtain r where "s = (if an_user r = pu_id u \<and> an_revoked r = None \<and> hasPasswordCredential d (pu_id u)
        then r\<lparr>an_revoked := Some (ax_now e)\<rparr> else r)" by (rule imageE)
    with s(3,4) v assms(5) show False by (simp split: if_splits)
  qed
  ultimately show ?thesis using c(1) by blast
qed

subsection \<open>The session a login issues\<close>

lemma found_or_created:
  assumes "findOrCreateEmailUser e email d = Inr (d', u)"
  shows "u \<in> set (a_users d')" "pu_disabled u = None" "a_sessions d' = a_sessions d" "users_ok d \<Longrightarrow> users_ok d'"
    "citext_eq (pu_email u) email"
proof -
  show "citext_eq (pu_email u) email"
    using assms new_user(4)[of e email email d d' u]
    by (auto simp: findOrCreateEmailUser_def findPublicUserByEmail_def citext_eq_def split: option.splits dest!: find_SomeD)
  show "u \<in> set (a_users d')" "pu_disabled u = None"
    using assms new_user[of e email email d d' u]
    by (auto simp: findOrCreateEmailUser_def findPublicUserByEmail_def split: option.splits dest!: find_SomeD)
  show "a_sessions d' = a_sessions d"
    using assms by (auto simp: findOrCreateEmailUser_def insertUserWithoutPassword_def fresh_id_def Let_def split: option.splits if_splits)
  show "users_ok d'" if ok: "users_ok d"
  proof (cases "findPublicUserByEmail d email")
    case None
    with assms have new: "insertUserWithoutPassword e email email d = Inr (d', u)" by (simp add: findOrCreateEmailUser_def)
    note n = new_user[OF new]
    have "pu_id u \<notin> pu_id ` set (a_users d)" "js_lower (pu_email u) \<notin> (\<lambda>u. js_lower (pu_email u)) ` set (a_users d)"
      using n(4,6) by (auto simp: citext_eq_def)
    with ok show ?thesis by (simp add: users_ok_def n(1))
  next
    case (Some v)
    with assms ok show ?thesis by (simp add: findOrCreateEmailUser_def)
  qed
qed

lemma active_session_found:
  assumes "a_sessions d = ss @ [s]" "\<forall>x\<in>set ss. an_hash x \<noteq> an_hash s" "an_revoked s = None" "u \<in> set (a_users d)" "pu_disabled u = None"
    and "an_user s = pu_id u" "users_ok d"
  shows "findActiveAuthSessionUserByTokenHash e (an_hash s) d = (if ax_now e < an_expires s then Some u else None)"
proof -
  have "filter (\<lambda>x. an_hash x = an_hash s \<and> ax_now e < an_expires x \<and> an_revoked x = None) ss = []"
    using assms(2) by (auto simp: filter_empty_conv)
  moreover have "filter (\<lambda>v. pu_id v = pu_id u \<and> pu_disabled v = None) (a_users d) = [u]"
  proof -
    have "distinct (map pu_id us) \<Longrightarrow> u \<in> set us \<Longrightarrow> filter (\<lambda>v. pu_id v = pu_id u \<and> pu_disabled v = None) us = [u]" for us
    proof (induction us)
      case (Cons v vs)
      show ?case
      proof (cases "v = u")
        case True
        with Cons.prems(1) have "pu_id u \<notin> pu_id ` set vs" by simp
        then have "filter (\<lambda>v. pu_id v = pu_id u \<and> pu_disabled v = None) vs = []"
          by (intro filter_False) (metis imageI)
        with True assms(5) show ?thesis by simp
      next
        case False
        with Cons.prems have "u \<in> set vs" by simp
        moreover from this Cons.prems(1) have "pu_id v \<noteq> pu_id u" using imageI[of u "set vs" pu_id] by auto
        ultimately show ?thesis using Cons.IH Cons.prems(1) by simp
      qed
    qed simp
    with assms(4,7) show ?thesis by (simp add: users_ok_def)
  qed
  ultimately show ?thesis using assms(1,3,6) by (simp add: findActiveAuthSessionUserByTokenHash_def)
qed

text \<open>
  C25: The token that a login with a code returns authenticates the user it was issued for - an
  enabled user whose address is the one the code was sent to, up to upper and lower case - at every
  time before its expiry and at none afterwards.
\<close>

theorem login_session_exact:
  assumes "verifyEmailLoginCode e secret address code ttl n d = Inr (d', VR_issued i)" "users_ok d"
    and "ax_sha256 e' = ax_sha256 e"
  shows "is_expires i = ax_now e + seconds ttl \<and> is_user i \<in> set (a_users d')
    \<and> citext_eq (pu_email (is_user i)) (normalizeEmail address) \<and> pu_disabled (is_user i) = None
    \<and> snd (authenticatePublicAuthSession e' (is_token i) d') = (if ax_now e' < is_expires i then Some (is_user i) else None)"
proof -
  obtain c :: challenge_row where c: "accept_code e (normalizeEmail address) ttl (ch_id c) d = Inr (d', VR_issued i)"
    by (rule verified_code[OF assms(1)]) blast
  let ?m = "normalizeEmail address"
  define d0 where "d0 = consume_window e ?m (consumeEmailLoginChallenge e (ch_id c) d)"
  have ok0: "users_ok d0" using assms(2) by (simp add: users_ok_def d0_def consume_window_def consumeEmailLoginChallenge_def consumed_people)
  from c obtain d1 u d2 d3 token x where s: "findOrCreateEmailUser e ?m d0 = Inr (d1, u)"
    "upsertIdentity e (pu_account u) ''email'' ?m (Some ?m) (Some (ax_now e)) d1 = Inr d2"
    "createAuthSession e (pu_id u) ttl d2 = Inr (d3, token, x)" "d' = d3" "i = \<lparr>is_user = u, is_token = token, is_expires = x\<rparr>"
    unfolding accept_code_def d0_def[symmetric] by auto
  note u = found_or_created[OF s(1)] and up = upserted[OF s(2)] and ses = created_session[OF s(3)]
  have users: "a_users d' = a_users d1" using s(4) up(1) ses(1) by simp
  have "users_ok d'" using u(4)[OF ok0] by (simp add: users_ok_def users)
  then have "findActiveAuthSessionUserByTokenHash e' (ax_sha256 e token) d' = (if ax_now e' < x then Some u else None)"
    using active_session_found[of d' "a_sessions d2" "\<lparr>an_user = pu_id u, an_hash = ax_sha256 e token, an_expires = x,
      an_revoked = None, an_seen = None\<rparr>" u e'] ses(6,7) s(4) u(1,2) users by (auto simp: list_ex_iff)
  then show ?thesis using s(5) u(1,2,5) users ses(5) assms(3) by (simp add: authenticatePublicAuthSession_def)
qed

subsection \<open>Witnesses\<close>

definition demo_auth :: auth_env where
  "demo_auth = \<lparr>ax_now = 1000, ax_uuid = (\<lambda>n. ''u'' @ js_nat n), ax_token = (\<lambda>n. ''t'' @ js_nat n), ax_otp = 42,
     ax_sha256 = (\<lambda>s. s), ax_hmac = (\<lambda>k v. v), ax_scrypt = (\<lambda>p s. ''k'' @ filter (\<lambda>c. c \<noteq> CHR '':'') p),
     ax_encode = (\<lambda>b. b), ax_decode = (\<lambda>s. s)\<rparr>"

definition empty_adb :: adb where
  "empty_adb = \<lparr>next_id = 0, next_token = 0, a_accounts = [], a_users = [], a_passwords = [], a_identities = [], a_challenges = [],
     a_oauth = [], a_sessions = [], a_audit = []\<rparr>"

definition demo_address :: string where "demo_address = '' Ann@example.org''"
definition demo_email :: string where "demo_email = ''ann@example.org''"
definition demo_password :: string where "demo_password = ''correct horse battery''"

definition pending_adb :: adb where
  "pending_adb = (case registerUser demo_auth demo_address demo_password None empty_adb of Inl _ \<Rightarrow> empty_adb | Inr (d, _) \<Rightarrow> d)"

definition coded_adb :: adb where
  "coded_adb = pending_adb\<lparr>a_challenges := [\<lparr>ch_id = ''c'', ch_email = demo_email,
     ch_hash = hashEmailOtp demo_auth ''secret'' demo_email ''000042'', ch_attempts = 0, ch_expires = 601000, ch_created = 1000, ch_consumed = None\<rparr>]\<rparr>"

lemma demo_registered: "registerUser demo_auth demo_address demo_password None empty_adb = Inr (pending_adb, RG_pending demo_email)"
proof -
  have "case registerUser demo_auth demo_address demo_password None empty_adb of Inl _ \<Rightarrow> False | Inr x \<Rightarrow> snd x = RG_pending demo_email"
    by code_simp
  then show ?thesis unfolding pending_adb_def by (auto split: sum.splits)
qed

lemma demo_verified: "\<exists>d i. verifyEmailLoginCode demo_auth ''secret'' demo_email ''000042'' 60 5 coded_adb = Inr (d, VR_issued i) \<and> is_expires i = 61000"
proof -
  have "case verifyEmailLoginCode demo_auth ''secret'' demo_email ''000042'' 60 5 coded_adb of Inl _ \<Rightarrow> False
      | Inr x \<Rightarrow> (case snd x of VR_issued i \<Rightarrow> is_expires i = 61000 | _ \<Rightarrow> False)" by code_simp
  then show ?thesis by (auto split: sum.splits verify_result.splits)
qed

lemma demo_password_ok: "password_ok demo_auth demo_password"
proof -
  have "CHR '':'' \<notin> set (js_nat n)" for n using js_nat_digits[of "CHR '':''" n] by (auto simp: js_digit_def)
  then show ?thesis by (simp add: password_ok_def demo_auth_def demo_password_def)
qed

theorem code_login_activates_password_witness:
  "\<exists>d i. verifyEmailLoginCode demo_auth ''secret'' demo_email ''000042'' 60 5 coded_adb = Inr (d, VR_issued i)
     \<and> (\<forall>d4 r. loginUser demo_auth demo_address demo_password 60 d = Inr (d4, r) \<longrightarrow> (\<exists>j. r = LG_issued j \<and> is_user j = is_user i))"
proof -
  obtain d i where v: "verifyEmailLoginCode demo_auth ''secret'' demo_email ''000042'' 60 5 coded_adb = Inr (d, VR_issued i)"
    using demo_verified by blast
  have "accounts_known empty_adb" "same_people pending_adb coded_adb" "same_crypto demo_auth demo_auth"
    by (simp_all add: accounts_known_def empty_adb_def same_people_def coded_adb_def same_crypto_def)
  moreover have "normalizeEmail demo_email = demo_email" by code_simp
  ultimately show ?thesis
    using code_login_activates_password[OF demo_registered _ _ v _ demo_password_ok] v by blast
qed

theorem login_session_exact_witness:
  "\<exists>d i. verifyEmailLoginCode demo_auth ''secret'' demo_email ''000042'' 60 5 coded_adb = Inr (d, VR_issued i)
     \<and> citext_eq (pu_email (is_user i)) (normalizeEmail demo_email)
     \<and> snd (authenticatePublicAuthSession (demo_auth\<lparr>ax_now := 2000\<rparr>) (is_token i) d) = Some (is_user i)
     \<and> snd (authenticatePublicAuthSession (demo_auth\<lparr>ax_now := 61000\<rparr>) (is_token i) d) = None"
proof -
  obtain d i where v: "verifyEmailLoginCode demo_auth ''secret'' demo_email ''000042'' 60 5 coded_adb = Inr (d, VR_issued i)" "is_expires i = 61000"
    using demo_verified by blast
  have "users_ok coded_adb" by code_simp
  from login_session_exact[OF v(1) this, of "demo_auth\<lparr>ax_now := 2000\<rparr>"] login_session_exact[OF v(1) this, of "demo_auth\<lparr>ax_now := 61000\<rparr>"] v
  show ?thesis by auto
qed

definition demo_google :: google where
  "demo_google = \<lparr>go_token = (\<lambda>c. Some [(''access_token'', JStr ''at'')]),
     go_profile = (\<lambda>t. Some [(''sub'', JStr ''g1''), (''email'', JStr demo_email), (''email_verified'', JBool True)])\<rparr>"

definition demo_google_config :: google_config where
  "demo_google_config = \<lparr>gc_clientId = ''client'', gc_redirectUrl = ''https://vpn.example/callback'', gc_stateTtlSeconds = 600,
     gc_sessionTtlSeconds = 60\<rparr>"

definition demo_profile :: google_profile where
  "demo_profile = \<lparr>gp_sub = ''g1'', gp_email = demo_email, gp_emailVerified = True, gp_name = [], gp_picture = []\<rparr>"

theorem google_claim_secure_witness:
  "\<exists>d i t. google_login demo_auth demo_google_config demo_profile ''/'' pending_adb = Inr (d, GR_issued i t)
     \<and> (\<forall>ttl d'' j. loginUser demo_auth demo_address demo_password ttl d \<noteq> Inr (d'', LG_issued j))"
proof -
  have "case google_login demo_auth demo_google_config demo_profile ''/'' pending_adb of Inl _ \<Rightarrow> False
      | Inr x \<Rightarrow> (case snd x of GR_issued _ _ \<Rightarrow> True | _ \<Rightarrow> False)" by code_simp
  then obtain d i t where g: "google_login demo_auth demo_google_config demo_profile ''/'' pending_adb = Inr (d, GR_issued i t)"
    by (auto split: sum.splits google_result.splits)
  have "case findPublicUserByEmail pending_adb (gp_email demo_profile) of None \<Rightarrow> False
      | Some u \<Rightarrow> \<not> isAccountEmailVerified pending_adb (pu_account u) (gp_email demo_profile) \<and> hasPasswordCredential pending_adb (pu_id u)
        \<and> citext_eq (normalizeEmail demo_address) (pu_email u)" by code_simp
  then obtain u where u: "findPublicUserByEmail pending_adb (gp_email demo_profile) = Some u"
    "\<not> isAccountEmailVerified pending_adb (pu_account u) (gp_email demo_profile)" "hasPasswordCredential pending_adb (pu_id u)"
    "citext_eq (normalizeEmail demo_address) (pu_email u)" by (auto split: option.splits)
  have "findPublicUserByIdentity pending_adb ''google'' (gp_sub demo_profile) = None" "users_ok pending_adb" by code_simp+
  from google_claim_secure[OF g this(1) u(1,2,3) this(2)] g u(4) show ?thesis by blast
qed

definition outside :: string where
  "outside = ''/'' @ [CHR 0x5C] @ ''evil.example/login''"

theorem redirect_leaves_site_witness:
  "\<exists>d1 params x s d2 i. createGoogleOAuthStart demo_auth demo_google_config (Some outside) empty_adb = Inr (d1, params, x)
     \<and> (''state'', s) \<in> set params \<and> completeGoogleOAuth demo_auth demo_google_config demo_google ''code'' s d1 = (d2, Inr (GR_issued i outside))
     \<and> redirect_host ''vpn.example'' outside = Some ''evil.example''"
proof -
  have "case createGoogleOAuthStart demo_auth demo_google_config (Some outside) empty_adb of Inl _ \<Rightarrow> False
      | Inr (d1, params, x) \<Rightarrow> (''state'', ''t0'') \<in> set params \<and>
          (case snd (completeGoogleOAuth demo_auth demo_google_config demo_google ''code'' ''t0'' d1) of
             Inl _ \<Rightarrow> False | Inr g \<Rightarrow> (case g of GR_issued _ _ \<Rightarrow> True | _ \<Rightarrow> False))" by code_simp
  then obtain d1 params x g where c: "createGoogleOAuthStart demo_auth demo_google_config (Some outside) empty_adb = Inr (d1, params, x)"
    "(''state'', ''t0'') \<in> set params" "snd (completeGoogleOAuth demo_auth demo_google_config demo_google ''code'' ''t0'' d1) = Inr g"
    "case g of GR_issued _ _ \<Rightarrow> True | _ \<Rightarrow> False" by (auto split: sum.splits)
  then obtain i r where g: "g = GR_issued i r" by (cases g) auto
  from c(3) have completed: "completeGoogleOAuth demo_auth demo_google_config demo_google ''code'' ''t0'' d1
      = (fst (completeGoogleOAuth demo_auth demo_google_config demo_google ''code'' ''t0'' d1), Inr (GR_issued i r))" unfolding g by (metis prod.collapse)
  have v: "outside = ''/'' @ [CHR 0x5C] @ ''evil.example'' @ ''/login''" "take 512 outside = outside" "named_host ''evil.example''"
    "length ''evil.example'' \<le> 510" "ends_authority (hd ''/login'')"
    by (simp_all add: outside_def named_host_def ends_authority_def url_slash_def)
  with redirect_leaves_site[OF c(1,2) refl completed] have "r = outside \<and> redirect_host ''vpn.example'' outside = Some ''evil.example''" by metis
  with c(1,2) completed show ?thesis by metis
qed

end
