(* ===== verification/LoginCodes.thy ===== *)
theory LoginCodes
  imports Accounts
begin

section \<open>Codes and mails\<close>

text \<open>
  How often a code can be guessed (\<open>application/auth/email-login.scenario.ts\<close>), and how many mails
  with codes are sent (\<open>email-send-budget.ts\<close>).
\<close>

subsection \<open>Guessing a code\<close>

lemma insort_append_max: "f x \<le> f c \<Longrightarrow> insort_key f x (zs @ [c]) = insort_key f x zs @ [c]"
  by (induction zs) auto

lemma sort_append_max: "(\<And>y. y \<in> set ys \<Longrightarrow> f y \<le> f c) \<Longrightarrow> sort_key f (ys @ [c]) = sort_key f ys @ [c]"
  by (induction ys) (simp_all add: insort_append_max)

lemma sort_map_kept: "(\<And>y. f (g y) = f y) \<Longrightarrow> sort_key f (map g ys) = map g (sort_key f ys)"
proof (induction ys)
  case (Cons y ys)
  have "insort_key f (g y) (map g zs) = map g (insort_key f y zs)" for zs using Cons.prems by (induction zs) auto
  with Cons show ?case by simp
qed simp

definition open_challenge :: "string \<Rightarrow> challenge_row \<Rightarrow> bool" where
  "open_challenge email c \<longleftrightarrow> citext_eq (ch_email c) email \<and> ch_consumed c = None"

lemma latest_open: "findLatestEmailLoginChallengeForUpdate d email =
   (case rev (sort_key ch_created (filter (open_challenge email) (a_challenges d))) of [] \<Rightarrow> None | c # _ \<Rightarrow> Some c)"
  by (simp add: findLatestEmailLoginChallengeForUpdate_def open_challenge_def[abs_def])

lemma latest_in:
  assumes "findLatestEmailLoginChallengeForUpdate d email = Some c"
  shows "c \<in> set (a_challenges d)" "open_challenge email c"
proof -
  let ?ys = "rev (sort_key ch_created (filter (open_challenge email) (a_challenges d)))"
  have "c \<in> set ?ys" using assms unfolding latest_open by (cases ?ys) simp_all
  then show "c \<in> set (a_challenges d)" "open_challenge email c" by auto
qed

lemma latest_same: "filter (open_challenge email) (a_challenges d') = filter (open_challenge email) (a_challenges d) \<Longrightarrow>
    findLatestEmailLoginChallengeForUpdate d' email = findLatestEmailLoginChallengeForUpdate d email"
  by (simp add: latest_open)

lemma filter_untouched:
  "(\<And>x. x \<in> set xs \<Longrightarrow> P x \<Longrightarrow> \<not> Q x \<and> \<not> Q (f x)) \<Longrightarrow> filter Q (update_where P f xs) = filter Q xs"
  by (induction xs) auto

lemma latest_appended:
  assumes "a_challenges d' = a_challenges d @ [c]" "open_challenge email c" "\<forall>x\<in>set (a_challenges d). ch_created x \<le> ch_created c"
  shows "findLatestEmailLoginChallengeForUpdate d' email = Some c"
proof -
  have "sort_key ch_created (filter (open_challenge email) (a_challenges d) @ [c])
      = sort_key ch_created (filter (open_challenge email) (a_challenges d)) @ [c]"
    by (rule sort_append_max) (use assms(3) in auto)
  with assms(1,2) show ?thesis by (simp add: latest_open)
qed

text \<open>Counting a wrong guess on the latest challenge leaves it the latest.\<close>

lemma latest_counted:
  assumes "findLatestEmailLoginChallengeForUpdate d email = Some c"
  shows "findLatestEmailLoginChallengeForUpdate (incrementEmailLoginChallengeAttempts (ch_id c) d) email
    = Some (c\<lparr>ch_attempts := ch_attempts c + 1\<rparr>)"
proof -
  let ?f = "\<lambda>x. if ch_id x = ch_id c then x\<lparr>ch_attempts := ch_attempts x + 1\<rparr> else x"
  have kept: "open_challenge email (?f x) = open_challenge email x" "ch_created (?f x) = ch_created x" for x
    by (simp_all add: open_challenge_def)
  have "filter (open_challenge email) (map ?f xs) = map ?f (filter (open_challenge email) xs)" for xs
    using kept(1) by (induction xs) simp_all
  moreover have "a_challenges (incrementEmailLoginChallengeAttempts (ch_id c) d) = map ?f (a_challenges d)"
    by (simp add: incrementEmailLoginChallengeAttempts_def update_challenges_def update_where_def)
  ultimately have "findLatestEmailLoginChallengeForUpdate (incrementEmailLoginChallengeAttempts (ch_id c) d) email
      = map_option ?f (findLatestEmailLoginChallengeForUpdate d email)"
    using sort_map_kept[of ch_created ?f, OF kept(2)] by (simp add: latest_open rev_map split: list.split)
  with assms show ?thesis by simp
qed

definition challenges_ok :: "time \<Rightarrow> adb \<Rightarrow> bool" where
  "challenges_ok t d \<longleftrightarrow> distinct (map ch_id (a_challenges d)) \<and> (\<forall>c\<in>set (a_challenges d). ch_created c \<le> t)"

lemma inserted_challenge:
  assumes "insertEmailLoginChallenge e email h x n d = Inr (d', c)"
  shows "a_challenges d' = a_challenges d @ [c]" "ch_email c = email" "ch_attempts c = n" "ch_expires c = x" "ch_created c = ax_now e"
    "ch_consumed c = None" "ch_id c \<notin> ch_id ` set (a_challenges d)"
  using assms by (auto simp: insertEmailLoginChallenge_def fresh_id_def Let_def list_ex_iff split: if_splits)

lemma stored_challenge:
  assumes "store_challenge e m h ttl d = Inr (d', r)"
  obtains (refused) "d' = d" "r = None"
  | (stored) c x n where "insertEmailLoginChallenge e m h x n d = Inr (d', c)"
      "\<And>p. active_challenge e m d = Some p \<Longrightarrow> x = ch_expires p \<and> n = ch_attempts p"
  using assms by (auto simp: store_challenge_def split: option.splits if_splits)

lemma later_ok: "challenges_ok t d \<Longrightarrow> t \<le> t' \<Longrightarrow> challenges_ok t' d"
  by (auto simp: challenges_ok_def)

lemma stored_ok:
  assumes "store_challenge e m h ttl d = Inr (d', r)" "challenges_ok t d" "t \<le> ax_now e"
  shows "challenges_ok (ax_now e) d'"
  using assms(1)
proof (cases rule: stored_challenge)
  case refused
  with later_ok[OF assms(2,3)] show ?thesis by simp
next
  case (stored c x n)
  note c = inserted_challenge[OF stored(1)]
  from later_ok[OF assms(2,3)] c(5,7) show ?thesis unfolding challenges_ok_def c(1) by simp
qed

lemma updated_ok:
  assumes "challenges_ok t d" "t \<le> t'" "\<And>c. ch_id (f c) = ch_id c \<and> ch_created (f c) = ch_created c"
  shows "challenges_ok t' (update_challenges P f d)"
proof -
  have "map ch_id (update_where P f xs) = map ch_id xs" "map ch_created (update_where P f xs) = map ch_created xs" for xs
    using assms(3) by (induction xs) simp_all
  then have ids: "map ch_id (a_challenges (update_challenges P f d)) = map ch_id (a_challenges d)"
    and times: "map ch_created (a_challenges (update_challenges P f d)) = map ch_created (a_challenges d)"
    by (simp_all add: update_challenges_def)
  have old: "challenges_ok t' d" by (rule later_ok[OF assms(1,2)])
  have "ch_created y \<le> t'" if "y \<in> set (a_challenges (update_challenges P f d))" for y
  proof -
    have "ch_created y \<in> set (map ch_created (a_challenges d))" using that unfolding times[symmetric] by simp
    with old show ?thesis by (auto simp: challenges_ok_def)
  qed
  with ids old show ?thesis by (simp add: challenges_ok_def)
qed

lemma latest_other_row:
  assumes "challenges_ok t d" "c \<in> set (a_challenges d)" "\<not> citext_eq (ch_email c) email" "\<And>x. ch_email (f x) = ch_email x"
  shows "findLatestEmailLoginChallengeForUpdate (update_challenges (\<lambda>x. ch_id x = ch_id c) f d) email
    = findLatestEmailLoginChallengeForUpdate d email"
proof (rule latest_same)
  have "x = c" if "x \<in> set (a_challenges d)" "ch_id x = ch_id c" for x
    using assms(1,2) that by (auto simp: challenges_ok_def intro: row_eqI)
  then show "filter (open_challenge email) (a_challenges (update_challenges (\<lambda>x. ch_id x = ch_id c) f d))
      = filter (open_challenge email) (a_challenges d)"
    unfolding update_challenges_def by (simp, intro filter_untouched) (use assms(3,4) in \<open>auto simp: open_challenge_def\<close>)
qed

lemma accepted_challenges:
  assumes "accept_code e m ttl i d = Inr (d', r)"
  shows "a_challenges d' = a_challenges (consume_window e m (consumeEmailLoginChallenge e i d))"
proof -
  have new: "a_challenges d2 = a_challenges d1" if "insertUserWithoutPassword e m n d1 = Inr (d2, u)" for n d1 d2 u
    using that by (auto simp: insertUserWithoutPassword_def fresh_id_def Let_def split: if_splits)
  from assms obtain d1 u d2 d3 token x where s: "findOrCreateEmailUser e m (consume_window e m (consumeEmailLoginChallenge e i d)) = Inr (d1, u)"
    "upsertIdentity e (pu_account u) ''email'' m (Some m) (Some (ax_now e)) d1 = Inr d2"
    "createAuthSession e (pu_id u) ttl d2 = Inr (d3, token, x)" "d' = d3" unfolding accept_code_def by auto
  have "a_challenges d1 = a_challenges (consume_window e m (consumeEmailLoginChallenge e i d))"
    using s(1) new by (auto simp: findOrCreateEmailUser_def split: option.splits)
  with s(4) upserted(4)[OF s(2)] created_session(4)[OF s(3)] show ?thesis by simp
qed

text \<open>
  A run of the service before the time \<open>T\<close> that ends with no login by a code for the address: every
  transaction of any request for a code and any check of a code, and whatever else leaves the
  challenges alone.  The number counts the wrong codes for the address that were compared.
\<close>

definition wrong_guess :: "string \<Rightarrow> string \<Rightarrow> string \<Rightarrow> verify_result \<Rightarrow> nat" where
  "wrong_guess email address code r = (if citext_eq (normalizeEmail address) email \<and> isValidEmail (normalizeEmail address)
     \<and> six_digits (js_trim code) \<and> r = VR_invalid_code then 1 else 0)"

inductive guessing :: "string \<Rightarrow> time \<Rightarrow> time \<Rightarrow> adb \<Rightarrow> nat \<Rightarrow> time \<Rightarrow> adb \<Rightarrow> bool" for email T t d where
  start: "guessing email T t d 0 t d"
| request: "guessing email T t d n t1 d1 \<Longrightarrow> t1 \<le> ax_now e \<Longrightarrow> ax_now e < T \<Longrightarrow>
    store_challenge e (normalizeEmail address) h ttl d1 = Inr (d2, r) \<Longrightarrow> guessing email T t d n (ax_now e) d2"
| check: "guessing email T t d n t1 d1 \<Longrightarrow> t1 \<le> ax_now e \<Longrightarrow> ax_now e < T \<Longrightarrow>
    verifyEmailLoginCode e secret address code ttl 5 d1 = Inr (d2, r) \<Longrightarrow>
    (\<And>i. r = VR_issued i \<Longrightarrow> \<not> citext_eq (normalizeEmail address) email) \<Longrightarrow>
    guessing email T t d (n + wrong_guess email address code r) (ax_now e) d2"
| other: "guessing email T t d n t1 d1 \<Longrightarrow> a_challenges d2 = a_challenges d1 \<Longrightarrow> guessing email T t d n t1 d2"

lemma citext_trans: "citext_eq x y \<Longrightarrow> citext_eq z y \<longleftrightarrow> citext_eq z x"
  by (simp add: citext_eq_def)

lemma latest_citext: "citext_eq x y \<Longrightarrow> findLatestEmailLoginChallengeForUpdate d x = findLatestEmailLoginChallengeForUpdate d y"
  by (simp add: findLatestEmailLoginChallengeForUpdate_def citext_eq_def)

lemma request_window:
  assumes "findLatestEmailLoginChallengeForUpdate d email = Some c" "ax_now e < ch_expires c" "challenges_ok t d" "t \<le> ax_now e"
    and "store_challenge e m h ttl d = Inr (d', r)"
  shows "\<exists>c'. findLatestEmailLoginChallengeForUpdate d' email = Some c' \<and> ch_expires c' = ch_expires c \<and> ch_attempts c' = ch_attempts c"
  using assms(5)
proof (cases rule: stored_challenge)
  case refused
  with assms(1) show ?thesis by simp
next
  case (stored c' x n)
  note new = inserted_challenge[OF stored(1)]
  show ?thesis
  proof (cases "citext_eq m email")
    case True
    have "active_challenge e m d = Some c" using assms(1,2) latest_citext[OF True, of d] by (simp add: active_challenge_def)
    with stored(2) have "x = ch_expires c" "n = ch_attempts c" by simp_all
    moreover have "findLatestEmailLoginChallengeForUpdate d' email = Some c'"
      by (rule latest_appended[OF new(1)]) (use True new(2,5,6) later_ok[OF assms(3,4)] in \<open>auto simp: open_challenge_def challenges_ok_def\<close>)
    ultimately show ?thesis using new(3,4) by simp
  next
    case False
    then have "findLatestEmailLoginChallengeForUpdate d' email = findLatestEmailLoginChallengeForUpdate d email"
      by (intro latest_same) (simp add: new(1,2) open_challenge_def)
    with assms(1) show ?thesis by simp
  qed
qed

lemma checked_code:
  assumes "verifyEmailLoginCode e secret address code ttl 5 d = Inr (d', r)"
  obtains (kept) "d' = d" "wrong_guess email address code r = 0 \<or> findLatestEmailLoginChallengeForUpdate d (normalizeEmail address) = None"
    | (wrong) k where "findLatestEmailLoginChallengeForUpdate d (normalizeEmail address) = Some k"
        "d' = incrementEmailLoginChallengeAttempts (ch_id k) d"
        "r = VR_invalid_code" "ch_attempts k < 5" "isValidEmail (normalizeEmail address)" "six_digits (js_trim code)"
    | (right) k where "findLatestEmailLoginChallengeForUpdate d (normalizeEmail address) = Some k"
        "accept_code e (normalizeEmail address) ttl (ch_id k) d = Inr (d', r)"
proof (cases "isValidEmail (normalizeEmail address) \<and> six_digits (js_trim code)")
  case False
  with assms show thesis by (intro kept) (auto simp: verifyEmailLoginCode_def wrong_guess_def Let_def)
next
  case valid: True
  show thesis
  proof (cases "findLatestEmailLoginChallengeForUpdate d (normalizeEmail address)")
    case None
    with assms valid show thesis by (intro kept) (auto simp: verifyEmailLoginCode_def Let_def)
  next
    case (Some k)
    consider "5 \<le> ch_attempts k \<or> ch_expires k \<le> ax_now e"
      | "ch_attempts k < 5" "ax_now e < ch_expires k" "hashEmailOtp e secret (normalizeEmail address) (js_trim code) \<noteq> ch_hash k"
      | "ch_attempts k < 5" "ax_now e < ch_expires k" "hashEmailOtp e secret (normalizeEmail address) (js_trim code) = ch_hash k"
      by linarith
    then show thesis
    proof cases
      case 1
      with assms valid Some have "d' = d" "r = VR_too_many_attempts \<or> r = VR_code_expired"
        by (auto simp: verifyEmailLoginCode_def Let_def split: if_splits)
      then show thesis by (intro kept) (auto simp: wrong_guess_def)
    next
      case 2
      with assms valid Some show thesis by (intro wrong[OF Some]) (simp_all add: verifyEmailLoginCode_def Let_def)
    next
      case 3
      with assms valid Some show thesis by (intro right[OF Some]) (simp add: verifyEmailLoginCode_def Let_def)
    qed
  qed
qed

lemma check_window:
  assumes "findLatestEmailLoginChallengeForUpdate d email = Some c" "ax_now e < ch_expires c" "challenges_ok t d"
    and "verifyEmailLoginCode e secret address code ttl 5 d = Inr (d', r)"
    and "\<forall>i. r = VR_issued i \<longrightarrow> \<not> citext_eq (normalizeEmail address) email"
  shows "\<exists>c'. findLatestEmailLoginChallengeForUpdate d' email = Some c' \<and> ch_expires c' = ch_expires c
    \<and> ch_attempts c' = ch_attempts c + int (wrong_guess email address code r)
    \<and> (wrong_guess email address code r = 1 \<longrightarrow> ch_attempts c < 5)"
proof -
  let ?m = "normalizeEmail address"
  from assms(4) show ?thesis
  proof (cases rule: checked_code[where email = email])
    case kept
    have "wrong_guess email address code r = 0"
      using kept(2) assms(1) latest_citext[of ?m email d] by (auto simp: wrong_guess_def)
    with kept(1) assms(1) show ?thesis by simp
  next
    case (wrong k)
    show ?thesis
    proof (cases "citext_eq ?m email")
      case True
      then have k: "k = c" using wrong(1) assms(1) latest_citext[OF True, of d] by simp
      have "wrong_guess email address code r = 1" using True wrong by (simp add: wrong_guess_def)
      with latest_counted[OF assms(1)] wrong(2,4) k show ?thesis by simp
    next
      case False
      have "\<not> citext_eq (ch_email k) email"
        using latest_in(2)[OF wrong(1)] False by (auto simp: open_challenge_def citext_eq_def)
      from latest_other_row[OF assms(3) latest_in(1)[OF wrong(1)] this] wrong(2) assms(1)
      have "findLatestEmailLoginChallengeForUpdate d' email = Some c" by (simp add: incrementEmailLoginChallengeAttempts_def)
      with False show ?thesis by (simp add: wrong_guess_def)
    qed
  next
    case (right k)
    from right(2) obtain i where i: "r = VR_issued i" by (auto simp: accept_code_def)
    then have False: "\<not> citext_eq ?m email" using assms(5) by blast
    have k: "\<not> citext_eq (ch_email k) email"
      using latest_in(2)[OF right(1)] False by (auto simp: open_challenge_def citext_eq_def)
    let ?d = "consumeEmailLoginChallenge e (ch_id k) d"
    have "filter (open_challenge email) (a_challenges (consume_window e ?m ?d)) = filter (open_challenge email) (a_challenges ?d)"
      unfolding consume_window_def update_challenges_def
      by (simp, intro filter_untouched) (use False in \<open>auto simp: open_challenge_def citext_eq_def\<close>)
    then have "findLatestEmailLoginChallengeForUpdate d' email = findLatestEmailLoginChallengeForUpdate ?d email"
      using accepted_challenges[OF right(2)] by (intro latest_same) simp
    also have "\<dots> = Some c" unfolding consumeEmailLoginChallenge_def
      using latest_other_row[OF assms(3) latest_in(1)[OF right(1)] k] assms(1) by simp
    finally show ?thesis using i by (simp add: wrong_guess_def)
  qed
qed

lemma guessing_ok: "guessing email T t d n t' d' \<Longrightarrow> challenges_ok t d \<Longrightarrow> t \<le> t' \<and> challenges_ok t' d'"
proof (induction rule: guessing.induct)
  case (request n t1 d1 e address h ttl d2 r)
  then show ?case using stored_ok[OF request.hyps(4)] by auto
next
  case (check n t1 d1 e secret address code ttl d2 r)
  then have ok: "challenges_ok t1 d1" "t \<le> ax_now e" by auto
  have "challenges_ok (ax_now e) d2"
    using check.hyps(4)
  proof (cases rule: checked_code[where email = email])
    case kept
    with later_ok[OF ok(1) check.hyps(2)] show ?thesis by simp
  next
    case (wrong k)
    then show ?thesis unfolding wrong(2) incrementEmailLoginChallengeAttempts_def by (intro updated_ok[OF ok(1) check.hyps(2)]) simp
  next
    case (right k)
    have "challenges_ok (ax_now e) (consume_window e (normalizeEmail address) (consumeEmailLoginChallenge e (ch_id k) d1))"
      unfolding consume_window_def consumeEmailLoginChallenge_def
      by (rule updated_ok[OF updated_ok[OF ok(1) check.hyps(2)] order_refl]) simp_all
    then show ?thesis by (simp add: challenges_ok_def accepted_challenges[OF right(2)])
  qed
  with ok show ?case by simp
qed (auto simp: challenges_ok_def)

lemma guesses_counted:
  assumes "findLatestEmailLoginChallengeForUpdate d email = Some c" "challenges_ok t d" "guessing email (ch_expires c) t d n t' d'"
  shows "(\<exists>c'. findLatestEmailLoginChallengeForUpdate d' email = Some c' \<and> ch_expires c' = ch_expires c
      \<and> ch_attempts c' = ch_attempts c + int n)
    \<and> (n = 0 \<or> ch_attempts c + int n \<le> 5)"
  using assms(3)
proof (induction rule: guessing.induct)
  case start
  with assms(1) show ?case by simp
next
  case (request n t1 d1 e address h ttl d2 r)
  from request.IH obtain c1 where c1: "findLatestEmailLoginChallengeForUpdate d1 email = Some c1" "ch_expires c1 = ch_expires c"
    "ch_attempts c1 = ch_attempts c + int n" by blast
  have "challenges_ok t1 d1" using guessing_ok[OF request.hyps(1) assms(2)] by simp
  from request_window[OF c1(1) _ this request.hyps(2,4)] c1(2,3) request.hyps(3) request.IH show ?case by simp
next
  case (check n t1 d1 e secret address code ttl d2 r)
  from check.IH obtain c1 where c1: "findLatestEmailLoginChallengeForUpdate d1 email = Some c1" "ch_expires c1 = ch_expires c"
    "ch_attempts c1 = ch_attempts c + int n" by blast
  have "challenges_ok t1 d1" using guessing_ok[OF check.hyps(1) assms(2)] by simp
  have "\<forall>i. r = VR_issued i \<longrightarrow> \<not> citext_eq (normalizeEmail address) email" using check.hyps(5) by blast
  from check_window[OF c1(1) _ \<open>challenges_ok t1 d1\<close> check.hyps(4) this] c1(2) check.hyps(3) obtain c2 where
    c2: "findLatestEmailLoginChallengeForUpdate d2 email = Some c2" "ch_expires c2 = ch_expires c"
      "ch_attempts c2 = ch_attempts c1 + int (wrong_guess email address code r)" "wrong_guess email address code r = 1 \<longrightarrow> ch_attempts c1 < 5"
    by auto
  have "wrong_guess email address code r = 0 \<or> wrong_guess email address code r = 1" by (simp add: wrong_guess_def)
  moreover have "n = 0 \<or> ch_attempts c + int n \<le> 5" using check.IH by simp
  ultimately have "n + wrong_guess email address code r = 0 \<or> ch_attempts c + int (n + wrong_guess email address code r) \<le> 5"
    using c1(3) c2(4) by (elim disjE) simp_all
  moreover have "ch_attempts c2 = ch_attempts c + int (n + wrong_guess email address code r)" using c1(3) c2(3) by simp
  ultimately show ?case unfolding c2(1) using c2(2) by simp
next
  case (other n t1 d1 d2)
  then have "findLatestEmailLoginChallengeForUpdate d2 email = findLatestEmailLoginChallengeForUpdate d1 email"
    by (intro latest_same) simp
  with other.IH show ?case by simp
qed

text \<open>From the fifth failure on no code is looked at: the answer does not depend on it, nor on the time.\<close>

lemma locked_code:
  assumes "findLatestEmailLoginChallengeForUpdate d email = Some c" "5 \<le> ch_attempts c" "citext_eq (normalizeEmail address) email"
  shows "verifyEmailLoginCode e secret address code ttl 5 d = Inr (d,
    if isValidEmail (normalizeEmail address) \<and> six_digits (js_trim code) then VR_too_many_attempts else VR_invalid_code)"
proof -
  have "findLatestEmailLoginChallengeForUpdate d (normalizeEmail address) = Some c"
    using latest_citext[OF assms(3)] assms(1) by simp
  with assms(2) show ?thesis by (simp add: verifyEmailLoginCode_def Let_def)
qed

text \<open>
  C21: However codes are requested and checked in the lifetime of an address's current code, until a
  right one is accepted: every wrong code that is compared is counted, at most five are compared, and
  asking for a new code neither resets the count nor extends the lifetime.  Once the count is five no
  code is compared any more: every check for the address, even with the right code, is answered
  without a login and changes nothing.  A mail that cannot be delivered is not part of the run: its
  code is withdrawn.
\<close>

theorem guesses_bounded:
  assumes "findLatestEmailLoginChallengeForUpdate d email = Some c" "challenges_ok t d" "guessing email (ch_expires c) t d n t' d'"
  shows "(\<exists>c'. findLatestEmailLoginChallengeForUpdate d' email = Some c' \<and> ch_expires c' = ch_expires c
      \<and> ch_attempts c' = ch_attempts c + int n)
    \<and> (n = 0 \<or> ch_attempts c + int n \<le> 5)
    \<and> (5 \<le> ch_attempts c + int n \<longrightarrow> (\<forall>e secret address code ttl. citext_eq (normalizeEmail address) email \<longrightarrow>
         verifyEmailLoginCode e secret address code ttl 5 d' = Inr (d',
           if isValidEmail (normalizeEmail address) \<and> six_digits (js_trim code) then VR_too_many_attempts else VR_invalid_code)))"
  using guesses_counted[OF assms] locked_code by metis

subsection \<open>The budget of the mail service\<close>

text \<open>
  \<open>application/auth/email-send-budget.ts\<close>.  Times are milliseconds; the advisory lock is the
  serialisation of transactions.  The delivery state is a gauge and left out.
\<close>

record send_budget =
  sb_dailyMax :: int
  sb_intervalMs :: int
  sb_emailWindowSeconds :: int
  sb_emailMax :: int
  sb_cooldownSeconds :: int

record limit_row =
  lm_key :: string
  lm_windowStart :: time
  lm_sendCount :: int
  lm_lastAttempt :: time
  lm_blockedUntil :: "time option"

datatype send_refusal = SF_daily_budget | SF_send_pacing | SF_email_cooldown | SF_email_limit | SF_provider_backoff

datatype reservation = RV_allowed | RV_refused send_refusal int

definition global_key :: string where "global_key = ''global''"

definition email_key :: "string \<Rightarrow> string" where
  "email_key h = ''email:'' @ h"

definition day_of :: "time \<Rightarrow> time" where
  "day_of t = t div 86400000 * 86400000"

definition refuse_until :: "time \<Rightarrow> send_refusal \<Rightarrow> time \<Rightarrow> reservation" where
  "refuse_until now reason until = RV_refused reason (max 1 (- (- (until - now) div 1000)))"

definition count_send :: "time \<Rightarrow> string \<Rightarrow> time \<Rightarrow> limit_row list \<Rightarrow> limit_row list" where
  "count_send now key start rows = upsert (\<lambda>r. lm_key r = key)
     (\<lambda>r. r\<lparr>lm_windowStart := start, lm_lastAttempt := now,
        lm_sendCount := (if lm_windowStart r = start then lm_sendCount r + 1 else 1)\<rparr>)
     \<lparr>lm_key = key, lm_windowStart = start, lm_sendCount = 1, lm_lastAttempt = now, lm_blockedUntil = None\<rparr> rows"

definition global_refusal :: "time \<Rightarrow> send_budget \<Rightarrow> limit_row option \<Rightarrow> reservation option" where
  "global_refusal now config r = (case r of None \<Rightarrow> None | Some g \<Rightarrow>
     if (case lm_blockedUntil g of None \<Rightarrow> False | Some b \<Rightarrow> now < b)
       then Some (refuse_until now SF_provider_backoff (the (lm_blockedUntil g)))
     else if lm_windowStart g = day_of now \<and> sb_dailyMax config \<le> lm_sendCount g
       then Some (refuse_until now SF_daily_budget (day_of now + 86400000))
     else if now < lm_lastAttempt g + sb_intervalMs config
       then Some (refuse_until now SF_send_pacing (lm_lastAttempt g + sb_intervalMs config))
     else None)"

definition window_start :: "time \<Rightarrow> send_budget \<Rightarrow> limit_row option \<Rightarrow> time" where
  "window_start now config r = (case r of None \<Rightarrow> now
     | Some x \<Rightarrow> if now < lm_windowStart x + seconds (sb_emailWindowSeconds config) then lm_windowStart x else now)"

definition recipient_refusal :: "time \<Rightarrow> send_budget \<Rightarrow> limit_row option \<Rightarrow> reservation option" where
  "recipient_refusal now config r = (case r of None \<Rightarrow> None | Some x \<Rightarrow>
     if now < lm_lastAttempt x + seconds (sb_cooldownSeconds config)
       then Some (refuse_until now SF_email_cooldown (lm_lastAttempt x + seconds (sb_cooldownSeconds config)))
     else if now < lm_windowStart x + seconds (sb_emailWindowSeconds config) \<and> sb_emailMax config \<le> lm_sendCount x
       then Some (refuse_until now SF_email_limit (lm_windowStart x + seconds (sb_emailWindowSeconds config)))
     else None)"

definition reserveEmailSend :: "time \<Rightarrow> string \<Rightarrow> send_budget \<Rightarrow> limit_row list \<Rightarrow> limit_row list \<times> reservation" where
  "reserveEmailSend now emailHash config rows =
     (let global = row_of lm_key global_key rows; recipient = row_of lm_key (email_key emailHash) rows in
      case global_refusal now config global of Some r \<Rightarrow> (rows, r)
      | None \<Rightarrow> (case recipient_refusal now config recipient of Some r \<Rightarrow> (rows, r)
          | None \<Rightarrow> (count_send now (email_key emailHash) (window_start now config recipient)
              (count_send now global_key (day_of now) rows), RV_allowed)))"

definition pauseEmailSending :: "time \<Rightarrow> int \<Rightarrow> limit_row list \<Rightarrow> limit_row list" where
  "pauseEmailSending now n rows = update_where (\<lambda>r. lm_key r = global_key)
     (\<lambda>r. r\<lparr>lm_blockedUntil := Some (max (case lm_blockedUntil r of None \<Rightarrow> now | Some b \<Rightarrow> b) (now + seconds n))\<rparr>) rows"

definition readEmailSendBudget :: "time \<Rightarrow> limit_row list \<Rightarrow> int \<times> time" where
  "readEmailSendBudget now rows = (case row_of lm_key global_key rows of None \<Rightarrow> (0, 0)
     | Some g \<Rightarrow> (if lm_windowStart g = day_of now then lm_sendCount g else 0, case lm_blockedUntil g of None \<Rightarrow> 0 | Some b \<Rightarrow> b))"

text \<open>A \<open>DELETE\<close> with \<open>LIMIT 500\<close> and no order: some 500 of the old rows; here the first ones.\<close>

fun delete_first :: "nat \<Rightarrow> ('a \<Rightarrow> bool) \<Rightarrow> 'a list \<Rightarrow> 'a list" where
  "delete_first n P [] = []"
| "delete_first n P (x # xs) = (if P x \<and> 0 < n then delete_first (n - 1) P xs else x # delete_first n P xs)"

definition cleanEmailSendLimits :: "time \<Rightarrow> limit_row list \<Rightarrow> limit_row list" where
  "cleanEmailSendLimits now = delete_first 500 (\<lambda>r. lm_key r \<noteq> global_key \<and> lm_lastAttempt r < now - seconds 172800)"

subsection \<open>The budget is kept\<close>

lemma email_key_simps [simp]: "email_key h \<noteq> global_key" "global_key \<noteq> email_key h" "email_key h = email_key k \<longleftrightarrow> h = k"
  by (simp_all add: email_key_def global_key_def)

lemma set_delete: "set (delete_first n P rows) \<subseteq> set rows"
  by (induction n P rows rule: delete_first.induct) auto

lemma distinct_delete: "distinct (map lm_key rows) \<Longrightarrow> distinct (map lm_key (delete_first n P rows))"
proof (induction n P rows rule: delete_first.induct)
  case (2 n P x xs)
  moreover have "lm_key x \<notin> lm_key ` set (delete_first n P xs)" using 2 set_delete[of n P xs] by auto
  ultimately show ?case by simp
qed simp

lemma row_of_delete:
  "distinct (map lm_key rows) \<Longrightarrow> row_of lm_key k (delete_first n P rows) = row_of lm_key k rows
    \<or> row_of lm_key k (delete_first n P rows) = None \<and> (\<exists>r. row_of lm_key k rows = Some r \<and> P r)"
proof (induction n P rows rule: delete_first.induct)
  case (2 n P x xs)
  show ?case
  proof (cases "P x \<and> 0 < n")
    case True
    show ?thesis
    proof (cases "lm_key x = k")
      case True
      with 2 have "k \<notin> lm_key ` set xs" by auto
      then have "row_of lm_key k (delete_first (n - 1) P xs) = None" using set_delete[of "n - 1" P xs] by (auto simp: row_of_None_iff)
      with True \<open>P x \<and> 0 < n\<close> show ?thesis by simp
    qed (use True 2 in simp)
  qed (use 2 in auto)
qed simp

interpretation send_upsert: row_upsert lm_key "\<lambda>r. r\<lparr>lm_windowStart := start, lm_lastAttempt := now,
      lm_sendCount := (if lm_windowStart r = start then lm_sendCount r + 1 else 1)\<rparr>"
    "\<lparr>lm_key = key, lm_windowStart = start, lm_sendCount = 1, lm_lastAttempt = now, lm_blockedUntil = None\<rparr>" for now key start
  by unfold_locales simp

lemma row_of_count: "row_of lm_key k (count_send now key start rows) = (if k = key
    then Some (case row_of lm_key key rows of
        None \<Rightarrow> \<lparr>lm_key = key, lm_windowStart = start, lm_sendCount = 1, lm_lastAttempt = now, lm_blockedUntil = None\<rparr>
      | Some r \<Rightarrow> r\<lparr>lm_windowStart := start, lm_lastAttempt := now, lm_sendCount := (if lm_windowStart r = start then lm_sendCount r + 1 else 1)\<rparr>)
    else row_of lm_key k rows)"
  using send_upsert.row_of_upsert[of k key start now rows] by (simp add: count_send_def)

text \<open>A run of the service: reservations, pauses and cleanups, with the admitted sends, latest first.\<close>

inductive mailing :: "send_budget \<Rightarrow> time \<Rightarrow> limit_row list \<Rightarrow> (time \<times> string) list \<Rightarrow> bool" for config where
  start: "mailing config t [] []"
| reserve: "mailing config t rows log \<Longrightarrow> t \<le> now \<Longrightarrow> reserveEmailSend now h config rows = (rows', r) \<Longrightarrow>
    mailing config now rows' (if r = RV_allowed then (now, h) # log else log)"
| pause: "mailing config t rows log \<Longrightarrow> t \<le> now \<Longrightarrow> mailing config now (pauseEmailSending now n rows) log"
| clean: "mailing config t rows log \<Longrightarrow> t \<le> now \<Longrightarrow> mailing config now (cleanEmailSendLimits now rows) log"

definition on_day :: "time \<Rightarrow> (time \<times> string) list \<Rightarrow> (time \<times> string) list" where
  "on_day x log = filter (\<lambda>a. day_of (fst a) = x) log"

definition global_ok :: "limit_row option \<Rightarrow> (time \<times> string) list \<Rightarrow> bool" where
  "global_ok r log \<longleftrightarrow> (case log of [] \<Rightarrow> r = None
     | (l, _) # _ \<Rightarrow> \<exists>g. r = Some g \<and> lm_lastAttempt g = l \<and> lm_windowStart g = day_of l
         \<and> lm_sendCount g = int (length (on_day (day_of l) log)))"

definition recipient_ok :: "time \<Rightarrow> string \<Rightarrow> limit_row option \<Rightarrow> (time \<times> string) list \<Rightarrow> bool" where
  "recipient_ok t h r log \<longleftrightarrow> (case r of
       None \<Rightarrow> \<forall>a\<in>set log. snd a = h \<longrightarrow> fst a + seconds 172800 < t
     | Some x \<Rightarrow> \<forall>a\<in>set log. snd a = h \<longrightarrow> fst a \<le> lm_lastAttempt x)"

text \<open>The cleanup forgets an address two days after its last mail, and its cooldown with it.\<close>

definition kept_cooldown :: "send_budget \<Rightarrow> int" where
  "kept_cooldown config = min (sb_cooldownSeconds config) 172800"

definition mailing_ok :: "send_budget \<Rightarrow> time \<Rightarrow> limit_row list \<Rightarrow> (time \<times> string) list \<Rightarrow> bool" where
  "mailing_ok config t rows log \<longleftrightarrow> distinct (map lm_key rows) \<and> global_ok (row_of lm_key global_key rows) log
     \<and> (\<forall>h. recipient_ok t h (row_of lm_key (email_key h) rows) log)
     \<and> (\<forall>a\<in>set log. fst a \<le> t) \<and> sorted_wrt (\<lambda>a b. fst b \<le> fst a) log
     \<and> sorted_wrt (\<lambda>a b. fst b + sb_intervalMs config \<le> fst a) log
     \<and> sorted_wrt (\<lambda>a b. snd a = snd b \<longrightarrow> fst b + seconds (kept_cooldown config) \<le> fst a) log
     \<and> (\<forall>x. int (length (on_day x log)) \<le> max 1 (sb_dailyMax config))"

lemma refused_nothing: "global_refusal now config x = Some r \<Longrightarrow> r \<noteq> RV_allowed"
  "recipient_refusal now config x = Some r \<Longrightarrow> r \<noteq> RV_allowed"
  by (auto simp: refuse_until_def global_refusal_def recipient_refusal_def split: option.splits if_splits)

lemma reserve_cases:
  assumes "reserveEmailSend now h config rows = (rows', r)"
  obtains (refused) "r \<noteq> RV_allowed" "rows' = rows"
  | (admitted) "r = RV_allowed" "global_refusal now config (row_of lm_key global_key rows) = None"
      "recipient_refusal now config (row_of lm_key (email_key h) rows) = None"
      "rows' = count_send now (email_key h) (window_start now config (row_of lm_key (email_key h) rows))
         (count_send now global_key (day_of now) rows)"
proof (cases "global_refusal now config (row_of lm_key global_key rows)")
  case (Some x)
  with assms refused_nothing(1)[OF Some] show thesis by (intro refused) (simp_all add: reserveEmailSend_def)
next
  case g: None
  show thesis
  proof (cases "recipient_refusal now config (row_of lm_key (email_key h) rows)")
    case (Some x)
    with assms g refused_nothing(2)[OF Some] show thesis by (intro refused) (simp_all add: reserveEmailSend_def)
  next
    case None
    with assms g show thesis by (intro admitted) (simp_all add: reserveEmailSend_def)
  qed
qed

lemma recipient_later: "recipient_ok t h r log \<Longrightarrow> t \<le> now \<Longrightarrow> recipient_ok now h r log"
  by (force simp: recipient_ok_def split: option.splits)

lemma mailing_later: "mailing_ok config t rows log \<Longrightarrow> t \<le> now \<Longrightarrow> mailing_ok config now rows log"
  unfolding mailing_ok_def using recipient_later by (metis order_trans)

lemma day_mono: "s \<le> t \<Longrightarrow> day_of s \<le> day_of t"
  unfolding day_of_def by (intro mult_right_mono zdiv_mono1) simp_all

lemma admitted_day:
  assumes "global_ok g log" "\<forall>a\<in>set log. fst a \<le> now" "sorted_wrt (\<lambda>a b. fst b \<le> fst a) log"
    and "global_refusal now config g = None" "\<forall>x. int (length (on_day x log)) \<le> max 1 (sb_dailyMax config)"
    and "lm_windowStart new = day_of now \<and> lm_lastAttempt new = now \<and> lm_sendCount new = 1"
  shows "int (length (on_day (day_of now) log)) + 1 \<le> max 1 (sb_dailyMax config)
    \<and> (\<forall>a\<in>set log. fst a + sb_intervalMs config \<le> now)
    \<and> global_ok (Some (case g of None \<Rightarrow> new | Some r \<Rightarrow> r\<lparr>lm_windowStart := day_of now, lm_lastAttempt := now,
         lm_sendCount := (if lm_windowStart r = day_of now then lm_sendCount r + 1 else 1)\<rparr>)) ((now, h) # log)"
proof (cases log)
  case Nil
  with assms(1,6) show ?thesis by (simp add: on_day_def global_ok_def)
next
  case (Cons b bs)
  obtain l k where b: "b = (l, k)" by (cases b)
  from assms(1) Cons b obtain r where r: "g = Some r" "lm_lastAttempt r = l" "lm_windowStart r = day_of l"
    "lm_sendCount r = int (length (on_day (day_of l) log))" by (auto simp: global_ok_def)
  from assms(4) r have ok: "\<not> (day_of l = day_of now \<and> sb_dailyMax config \<le> lm_sendCount r)" "l + sb_intervalMs config \<le> now"
    by (auto simp: global_refusal_def split: if_splits)
  have first: "x \<in> set log \<Longrightarrow> fst x \<le> l" for x using assms(3) Cons b by auto
  have none: "on_day (day_of now) log = []" if "day_of l \<noteq> day_of now"
  proof -
    have "day_of l \<le> day_of now" using assms(2) Cons b by (intro day_mono) auto
    then have "day_of (fst x) \<noteq> day_of now" if "x \<in> set log" for x
      using day_mono[OF first[OF that]] \<open>day_of l \<noteq> day_of now\<close> by simp
    then show ?thesis by (simp add: on_day_def filter_empty_conv)
  qed
  have "int (length (on_day (day_of now) log)) + 1 \<le> max 1 (sb_dailyMax config)"
    using ok(1) none r(4) by (cases "day_of l = day_of now") auto
  moreover have "\<forall>a\<in>set log. fst a + sb_intervalMs config \<le> now" using first ok(2) by fastforce
  moreover have "(if lm_windowStart r = day_of now then lm_sendCount r + 1 else 1) = int (length (on_day (day_of now) ((now, h) # log)))"
    using none r(3,4) by (simp add: on_day_def)
  then have "global_ok (Some (r\<lparr>lm_windowStart := day_of now, lm_lastAttempt := now,
         lm_sendCount := (if lm_windowStart r = day_of now then lm_sendCount r + 1 else 1)\<rparr>)) ((now, h) # log)"
    by (simp add: global_ok_def)
  ultimately show ?thesis using r(1) by simp
qed

interpretation pause_update: row_update lm_key "\<lambda>r. r\<lparr>lm_blockedUntil := Some (max (case lm_blockedUntil r of None \<Rightarrow> now | Some b \<Rightarrow> b)
    (now + seconds n))\<rparr>" for now n
  by unfold_locales simp

lemma paused_ok: "mailing_ok config t rows log \<Longrightarrow> mailing_ok config t (pauseEmailSending now n rows) log"
proof -
  assume ok: "mailing_ok config t rows log"
  have "global_ok (row_of lm_key global_key (pauseEmailSending now n rows)) log"
    using ok unfolding mailing_ok_def pauseEmailSending_def pause_update.row_of_update
    by (cases "row_of lm_key global_key rows"; cases log) (auto simp: global_ok_def)
  moreover have "row_of lm_key (email_key h) (pauseEmailSending now n rows) = row_of lm_key (email_key h) rows" for h
    unfolding pauseEmailSending_def by (rule pause_update.row_of_update_other) simp
  moreover have "distinct (map lm_key (pauseEmailSending now n rows))"
    unfolding pauseEmailSending_def by (rule pause_update.distinct_keys_update) (use ok in \<open>simp add: mailing_ok_def\<close>)
  ultimately show ?thesis using ok by (simp add: mailing_ok_def)
qed

lemma cleaned_ok:
  assumes "mailing_ok config t rows log"
  shows "mailing_ok config t (cleanEmailSendLimits t rows) log"
proof -
  have keys: "distinct (map lm_key rows)" using assms by (simp add: mailing_ok_def)
  have del: "row_of lm_key k (cleanEmailSendLimits t rows) = row_of lm_key k rows
    \<or> row_of lm_key k (cleanEmailSendLimits t rows) = None
      \<and> (\<exists>r. row_of lm_key k rows = Some r \<and> lm_key r \<noteq> global_key \<and> lm_lastAttempt r < t - seconds 172800)" for k
    unfolding cleanEmailSendLimits_def by (rule row_of_delete[OF keys])
  have "row_of lm_key global_key (cleanEmailSendLimits t rows) = row_of lm_key global_key rows"
    using del[of global_key] row_of_SomeD[of lm_key global_key rows] by auto
  moreover have "recipient_ok t h (row_of lm_key (email_key h) (cleanEmailSendLimits t rows)) log" for h
  proof -
    have old: "recipient_ok t h (row_of lm_key (email_key h) rows) log" using assms by (simp add: mailing_ok_def)
    with del[of "email_key h"] show ?thesis by (force simp: recipient_ok_def)
  qed
  moreover have "distinct (map lm_key (cleanEmailSendLimits t rows))"
    unfolding cleanEmailSendLimits_def by (rule distinct_delete[OF keys])
  ultimately show ?thesis using assms by (simp add: mailing_ok_def)
qed

lemma admitted_ok:
  assumes "mailing_ok config t rows log" "t \<le> now"
    and "global_refusal now config (row_of lm_key global_key rows) = None"
    and "recipient_refusal now config (row_of lm_key (email_key h) rows) = None"
  shows "mailing_ok config now (count_send now (email_key h) start (count_send now global_key (day_of now) rows)) ((now, h) # log)"
proof -
  let ?rows = "count_send now (email_key h) start (count_send now global_key (day_of now) rows)"
  from mailing_later[OF assms(1,2)] have ok: "global_ok (row_of lm_key global_key rows) log" "\<forall>k. recipient_ok now k (row_of lm_key (email_key k) rows) log"
    "\<forall>a\<in>set log. fst a \<le> now" "sorted_wrt (\<lambda>a b. fst b \<le> fst a) log"
    "sorted_wrt (\<lambda>a b. fst b + sb_intervalMs config \<le> fst a) log"
    "sorted_wrt (\<lambda>a b. snd a = snd b \<longrightarrow> fst b + seconds (kept_cooldown config) \<le> fst a) log"
    "\<forall>x. int (length (on_day x log)) \<le> max 1 (sb_dailyMax config)" "distinct (map lm_key rows)" by (simp_all add: mailing_ok_def)
  let ?new = "\<lparr>lm_key = global_key, lm_windowStart = day_of now, lm_sendCount = 1, lm_lastAttempt = now, lm_blockedUntil = None\<rparr>"
  from admitted_day[OF ok(1,3,4) assms(3) ok(7), of ?new h]
  have day: "int (length (on_day (day_of now) log)) + 1 \<le> max 1 (sb_dailyMax config)"
    "\<forall>a\<in>set log. fst a + sb_intervalMs config \<le> now" "global_ok (row_of lm_key global_key ?rows) ((now, h) # log)"
    by (simp_all add: row_of_count)
  have "fst a + seconds (kept_cooldown config) \<le> now" if "a \<in> set log" "snd a = h" for a
  proof (cases "row_of lm_key (email_key h) rows")
    case None
    with ok(2)[rule_format, of h] that have "fst a + seconds 172800 < now" by (simp add: recipient_ok_def)
    then show ?thesis by (simp add: seconds_def kept_cooldown_def)
  next
    case (Some x)
    with ok(2)[rule_format, of h] that have "fst a \<le> lm_lastAttempt x" by (simp add: recipient_ok_def)
    with assms(4) Some show ?thesis by (auto simp: recipient_refusal_def kept_cooldown_def seconds_def split: if_splits)
  qed
  moreover have "recipient_ok now k (row_of lm_key (email_key k) ?rows) ((now, h) # log)" for k
  proof (cases "k = h")
    case True
    then show ?thesis using ok(3) by (auto simp: row_of_count recipient_ok_def split: option.split)
  next
    case False
    have "recipient_ok now k (row_of lm_key (email_key k) rows) log" using ok(2) by blast
    with False show ?thesis by (auto simp: row_of_count recipient_ok_def split: option.splits)
  qed
  moreover have "int (length (on_day x ((now, h) # log))) \<le> max 1 (sb_dailyMax config)" for x
    using day(1) ok(7) by (auto simp: on_day_def)
  moreover have "distinct (map lm_key ?rows)"
    unfolding count_send_def by (intro send_upsert.distinct_upsert[simplified]) (rule ok(8))
  ultimately show ?thesis using day(2,3) ok(3-6) by (auto simp: mailing_ok_def)
qed

text \<open>
  C26: However sends are reserved, paused and cleaned up, no day has more admitted mails than the
  daily budget (but at least one), two admitted mails are at least the pacing interval apart, and two
  mails to the same address at least the cooldown - but of a cooldown longer than two days only two
  days are kept, since the cleanup then forgets the address.
\<close>

theorem send_budget_kept:
  assumes "mailing config t rows log"
  shows "(\<forall>x. int (length (on_day x log)) \<le> max 1 (sb_dailyMax config))
    \<and> sorted_wrt (\<lambda>a b. fst b + sb_intervalMs config \<le> fst a) log
    \<and> sorted_wrt (\<lambda>a b. snd a = snd b \<longrightarrow> fst b + seconds (min (sb_cooldownSeconds config) 172800) \<le> fst a) log"
proof -
  from assms have "mailing_ok config t rows log"
  proof (induction rule: mailing.induct)
    case (start t)
    show ?case by (simp add: mailing_ok_def global_ok_def recipient_ok_def on_day_def)
  next
    case (reserve t rows log now h rows' r)
    from reserve.hyps(3) show ?case
    proof (cases rule: reserve_cases)
      case refused
      with mailing_later[OF reserve.IH reserve.hyps(2)] show ?thesis by simp
    next
      case admitted
      with admitted_ok[OF reserve.IH reserve.hyps(2) admitted(2,3)] show ?thesis by simp
    qed
  next
    case (pause t rows log now n)
    show ?case by (rule paused_ok[OF mailing_later[OF pause.IH pause.hyps(2)]])
  next
    case (clean t rows log now)
    show ?case by (rule cleaned_ok[OF mailing_later[OF clean.IH clean.hyps(2)]])
  qed
  then show ?thesis by (simp add: mailing_ok_def kept_cooldown_def)
qed

subsection \<open>Witnesses\<close>

definition guess_adb :: adb where
  "guess_adb = empty_adb\<lparr>a_challenges := [\<lparr>ch_id = ''c'', ch_email = demo_email,
     ch_hash = hashEmailOtp demo_auth ''secret'' demo_email ''000042'', ch_attempts = 4, ch_expires = 601000, ch_created = 1000, ch_consumed = None\<rparr>]\<rparr>"

theorem guesses_bounded_witness:
  "\<exists>d'. guessing demo_email 601000 1000 guess_adb 1 1000 d'
     \<and> (\<exists>c'. findLatestEmailLoginChallengeForUpdate d' demo_email = Some c' \<and> ch_attempts c' = 5)
     \<and> verifyEmailLoginCode demo_auth ''secret'' demo_email ''000042'' 60 5 d' = Inr (d', VR_too_many_attempts)"
proof -
  have "case verifyEmailLoginCode demo_auth ''secret'' demo_email ''999999'' 60 5 guess_adb of Inl _ \<Rightarrow> False
      | Inr x \<Rightarrow> snd x = VR_invalid_code" by code_simp
  then obtain d' where v: "verifyEmailLoginCode demo_auth ''secret'' demo_email ''999999'' 60 5 guess_adb = Inr (d', VR_invalid_code)"
    by (auto split: sum.splits)
  have now: "ax_now demo_auth = 1000" by (simp add: demo_auth_def)
  have "wrong_guess demo_email demo_email ''999999'' VR_invalid_code = 1" by code_simp
  with guessing.check[OF guessing.start[of demo_email 601000 1000 guess_adb] _ _ v] now
  have g: "guessing demo_email 601000 1000 guess_adb 1 1000 d'" by simp
  obtain c where c: "findLatestEmailLoginChallengeForUpdate guess_adb demo_email = Some c" "ch_expires c = 601000" "ch_attempts c = 4"
  proof -
    have "case findLatestEmailLoginChallengeForUpdate guess_adb demo_email of None \<Rightarrow> False
        | Some c \<Rightarrow> ch_expires c = 601000 \<and> ch_attempts c = 4" by code_simp
    then show thesis using that by (auto split: option.splits)
  qed
  have "challenges_ok 1000 guess_adb" by (simp add: challenges_ok_def guess_adb_def)
  moreover have "citext_eq (normalizeEmail demo_email) demo_email" "isValidEmail (normalizeEmail demo_email)" "six_digits (js_trim ''000042'')"
    by code_simp+
  ultimately show ?thesis using guesses_bounded[OF c(1) _ g[folded c(2)]] c(3) g by auto
qed

definition demo_budget :: send_budget where
  "demo_budget = \<lparr>sb_dailyMax = 80, sb_intervalMs = 1000, sb_emailWindowSeconds = 900, sb_emailMax = 3, sb_cooldownSeconds = 60\<rparr>"

definition long_cooldown :: send_budget where
  "long_cooldown = demo_budget\<lparr>sb_cooldownSeconds := 259200\<rparr>"

text \<open>With a cooldown of three days and a cleanup after more than two, the second mail is admitted.\<close>

theorem send_budget_kept_witness:
  "\<exists>rows. mailing long_cooldown 172810000 rows [(172810000, ''h''), (5000, ''h'')]
     \<and> int (length (on_day 0 [(172810000, ''h''), (5000, ''h'')])) \<le> 80
     \<and> \<not> 5000 + seconds (sb_cooldownSeconds long_cooldown) \<le> 172810000"
proof -
  let ?rows = "fst (reserveEmailSend 5000 ''h'' long_cooldown [])"
  let ?last = "fst (reserveEmailSend 172810000 ''h'' long_cooldown (cleanEmailSendLimits 172810000 ?rows))"
  have "snd (reserveEmailSend 5000 ''h'' long_cooldown []) = RV_allowed"
    "snd (reserveEmailSend 172810000 ''h'' long_cooldown (cleanEmailSendLimits 172810000 ?rows)) = RV_allowed" by code_simp+
  then have r: "reserveEmailSend 5000 ''h'' long_cooldown [] = (?rows, RV_allowed)"
    "reserveEmailSend 172810000 ''h'' long_cooldown (cleanEmailSendLimits 172810000 ?rows) = (?last, RV_allowed)"
    by (metis prod.collapse)+
  have first: "mailing long_cooldown 5000 ?rows [(5000, ''h'')]"
    using mailing.reserve[OF mailing.start[of long_cooldown 0] _ r(1)] by simp
  have m: "mailing long_cooldown 172810000 ?last [(172810000, ''h''), (5000, ''h'')]"
    using mailing.reserve[OF mailing.clean[OF first, of 172810000] _ r(2)] by simp
  have "sb_dailyMax long_cooldown = 80" "sb_cooldownSeconds long_cooldown = 259200" by (simp_all add: long_cooldown_def demo_budget_def)
  with send_budget_kept[OF m] m show ?thesis by (auto simp: seconds_def)
qed

end
