(* ===== verification/Spec2Isabelle.thy ===== *)
theory Spec2Isabelle
  imports Worker Quota LoginCodes
begin

text \<open>
  Verification of the control plane of a WireGuard VPN service (\<open>src/packages/control-plane\<close>).

  The program: users create sessions over an HTTP API; a worker reconciles every session towards
  its desired state.  A session needs an ingress and an egress gate chosen among healthy gates,
  a client address, a rendered plan and one gate assignment per gate, realised by jobs that the
  gates' agents lease, execute and report.  All state is in PostgreSQL; every operation is one
  transaction of SQL statements issued by a repository function.

  The model: theory \<open>Database\<close> has a record \<open>db\<close> with a list of rows per table.  A repository
  function is a definition on \<open>db\<close> with the function's name; \<open>UPDATE\<close>, \<open>INSERT\<close>, \<open>DELETE\<close> and
  \<open>ON CONFLICT\<close> are the list functions of theory \<open>Prelude\<close>.  What comes from outside (the clock,
  random identifiers, cryptography) is the record \<open>env\<close>, an argument.  Exceptions are \<open>Inl\<close>.
  Paths below are relative to \<open>src/packages/control-plane/src\<close>.

  Theories:
  - \<open>Prelude\<close>: tables, their lemmas, and the locales for column updates, upserts, attempt loops,
    invariants of loops and step relations with absorbing states.
  - \<open>JsValues\<close>: strings and JSON as the language has them.
  - \<open>Phases\<close>: the phases of every resource and the pure policy functions (\<open>transitions.ts\<close>,
    \<open>policy.ts\<close>, \<open>drift-policy.ts\<close>); the abstract life cycle \<open>session_step\<close>.
  - \<open>ClientTunnel\<close>: \<open>planning/client-tunnel.ts\<close> and the configuration file
    (\<open>resources/artifacts/client-config.ts\<close>): what is accepted is well formed, what is created is
    accepted, and a configuration cannot gain lines through the profile.
  - \<open>SessionRequest\<close>: parsing a creation request and the abuse policy
    (\<open>resources/sessions/validation.ts\<close>, \<open>abuse-controls.ts\<close>), on 32-bit words, against an
    independent description of the accepted addresses.
  - \<open>Database\<close>: the tables.
  - \<open>Addresses\<close>: \<open>resources/addresses\<close>: exact specification of the allocation loop and the
    invariant that no address is leased twice.  The loops are bounded by the size of the pool, so
    no fuel is needed.
  - \<open>PathPlanning\<close>: \<open>planning/choose-path.ts\<close> and gate selection, sound and complete.
  - \<open>GateHealth\<close>: heartbeats, readiness, leases and staleness.
  - \<open>Sessions\<close>: \<open>resources/sessions\<close> and \<open>application/sessions\<close>.
  - \<open>Assignments\<close>: \<open>resources/gate-assignments\<close>.
  - \<open>Deployments\<close>: releases of the gate agent and their rollout (\<open>resources/gate-agent-deployments\<close>
    and its controller): one unfinished deployment per gate, verified only on evidence.
  - \<open>Jobs\<close>: the queue of the gates (\<open>resources/jobs\<close>): leases are exclusive, a failing job dies
    after its retries, what a claim and a report change; the invariant of the queue over everything
    that writes it (\<open>queue_step\<close>).
  - \<open>Plans\<close>: \<open>planning/render-plan.ts\<close>, stored plans, probe runs and entitlements; what the gates
    are sent does not depend on the secrets.
  - \<open>Artifacts\<close>: the configuration file, its download tokens and their redemption
    (\<open>resources/artifacts\<close>), with the round trip from preparation to download.
  - \<open>SessionController\<close>: the worker's transactions (\<open>reconciler/session-controller.ts\<close>,
    \<open>assignment-controller.ts\<close>, \<open>expiry-controller.ts\<close>), proved to refine \<open>session_step\<close> through the
    locale \<open>session_loop\<close>, one interpretation per loop.
  - \<open>Provisioning\<close>: what scheduling one session sets up, end to end.
  - \<open>Drift\<close>: the drift controller (\<open>reconciler/drift-controller.ts\<close>) over the reported state of the
    gates: when the condition is set, and that a missing handle gets a new commit job.
  - \<open>Usage\<close>: the reports themselves and the traffic they charge (\<open>resources/actual-state\<close>).
  - \<open>Worker\<close>: one pass of the worker (\<open>apps/control-plane-worker/src/loops/reconcile-loop.ts\<close>): the
    locale \<open>worker_transaction\<close> is what every controller promises, with one interpretation each.
  - \<open>Ledger\<close>: the tables of prepaid billing (record \<open>bdb\<close>, the record \<open>db\<close> inside it), the ledger
    and the balance buckets (\<open>resources/billing\<close>), and the contract \<open>billing_transaction\<close>: the ledger,
    apart from the charges of imported usage, and the buckets of every account agree (\<open>books_ok\<close>).
  - \<open>Retail\<close>: settlement (\<open>application/billing/prepaid-billing.scenario.ts\<close>): nothing is rated twice
    or lost to rounding; an account is suspended only after its grace period.
  - \<open>Base58\<close>: the codec of addresses and signatures, with its round trip.
  - \<open>Withdrawals\<close>: \<open>withdrawal.scenario.ts\<close>, \<open>cash-sweep.scenario.ts\<close> and the crediting of
    \<open>direct-solana-deposit.scenario.ts\<close>.
  - \<open>UsageImport\<close>: charges from a provider's usage records (\<open>doublezero-usage-import.scenario.ts\<close>),
    which go to the ledger only.
  - \<open>Books\<close>: every transaction of the billing service keeps the books; withdrawals refine the life
    cycle \<open>wd_step\<close>; deposits lose nothing.
  - \<open>Quota\<close>: traffic quotas (\<open>traffic-quota.scenario.ts\<close>, \<open>admin-traffic-quota.scenario.ts\<close>):
    every exhausted session is revoked once; what an import of usage does to the books.
  - \<open>Accounts\<close>: users, identities, passwords and login sessions (record \<open>adb\<close>; \<open>application/auth\<close>,
    \<open>resources/users\<close>): what a Google login shuts out, what a login with a code lets in, and where
    the browser ends up.
  - \<open>LoginCodes\<close>: the bound on guesses over all interleavings of requests and checks, and the budget
    of mails (\<open>email-send-budget.ts\<close>).

  Not modelled: the web application, the gate agents (Go), the observability queries, the
  measurement services (floating-point statistics), the blockchain client and the
  queries that only feed the pages of users and operators.
  The clock error that a heartbeat may carry is not stored.  Text is Latin-1.  Times are milliseconds,
  also where JSON holds their text.
\<close>

end
